(* ===== verification/Prelude.thy ===== *)
theory Prelude
  imports Main "HOL-Library.Char_ord" "HOL-Library.List_Lexorder" "HOL-Library.Word"
begin

text \<open>
  Shared vocabulary of the development.

  \<^item> Rust's \<open>Result\<close> is the sum type, \<open>Err\<close> on the left and \<open>Ok\<close> on the right.  A method that
    takes \<open>&mut self\<close> and may fail returns the result paired with the new state.
  \<^item> \<open>SystemTime\<close> is an integer number of nanoseconds since the epoch, \<open>Duration\<close> a natural number
    of nanoseconds; \<open>checked_add\<close> and \<open>duration_since\<close> are the standard library's, with the range
    of a signed 64-bit seconds field written out.
  \<^item> \<open>String\<close> is the list of its bytes; the derived order on byte lists is the order of
    Rust's \<open>str\<close>.
\<close>

section \<open>Results\<close>

abbreviation Ok :: "'a \<Rightarrow> 'e + 'a" where
  "Ok \<equiv> Inr"

abbreviation Err :: "'e \<Rightarrow> 'e + 'a" where
  "Err \<equiv> Inl"

definition map_err :: "('e \<Rightarrow> 'f) \<Rightarrow> 'e + 'a \<Rightarrow> 'f + 'a" where
  "map_err f r = (case r of Inl e \<Rightarrow> Inl (f e) | Inr a \<Rightarrow> Inr a)"

definition is_ok :: "'e + 'a \<Rightarrow> bool" where
  "is_ok r = (case r of Inl _ \<Rightarrow> False | Inr _ \<Rightarrow> True)"

definition ok_or :: "'e \<Rightarrow> 'a option \<Rightarrow> 'e + 'a" where
  "ok_or e x = (case x of None \<Rightarrow> Err e | Some a \<Rightarrow> Ok a)"

definition bind_ok :: "'err + 'ok \<Rightarrow> ('ok \<Rightarrow> 'err + 'next) \<Rightarrow> 'err + 'next" where
  "bind_ok r k = (case r of Ok v \<Rightarrow> k v | Err e \<Rightarrow> Err e)"

text \<open>The question-mark loop: run a check over a list and stop at the first error.\<close>

primrec check_each :: "('a \<Rightarrow> 'e + unit) \<Rightarrow> 'a list \<Rightarrow> 'e + unit" where
  "check_each f [] = Ok ()"
| "check_each f (x # xs) = (case f x of Inl e \<Rightarrow> Inl e | Inr _ \<Rightarrow> check_each f xs)"

section \<open>Time\<close>

type_synonym system_time = int
type_synonym duration = nat

definition nanos_per_sec :: nat where
  "nanos_per_sec = 1000000000"

definition from_secs :: "nat \<Rightarrow> duration" where
  "from_secs s = s * nanos_per_sec"

definition as_secs :: "duration \<Rightarrow> nat" where
  "as_secs d = d div nanos_per_sec"

definition clock_end :: system_time where
  "clock_end = 9223372036854775808 * 1000000000"

definition checked_add_time :: "system_time \<Rightarrow> duration \<Rightarrow> system_time option" where
  "checked_add_time t d = (if t + int d < clock_end then Some (t + int d) else None)"

definition duration_since :: "system_time \<Rightarrow> system_time \<Rightarrow> duration option" where
  "duration_since later earlier =
     (if earlier \<le> later then Some (nat (later - earlier)) else None)"

section \<open>Machine integers read as naturals\<close>

definition u64_max :: nat where
  "u64_max = 18446744073709551615"

definition checked_mul_u64 :: "nat \<Rightarrow> nat \<Rightarrow> nat option" where
  "checked_mul_u64 a b = (if a * b \<le> u64_max then Some (a * b) else None)"

section \<open>Decimal numbers\<close>

definition is_ascii_digit :: "char \<Rightarrow> bool" where
  "is_ascii_digit c = (48 \<le> (of_char c :: nat) \<and> (of_char c :: nat) \<le> 57)"

definition digit_char :: "nat \<Rightarrow> char" where
  "digit_char d = char_of (48 + d)"

fun show_nat :: "nat \<Rightarrow> string" where
  "show_nat n = (if n < 10 then [digit_char n] else show_nat (n div 10) @ [digit_char (n mod 10)])"

declare show_nat.simps [simp del]

definition digits_val :: "string \<Rightarrow> nat" where
  "digits_val s = foldl (\<lambda>a c. a * 10 + (of_char c - 48)) 0 s"

text \<open>\<open>str::parse::<u64>\<close> on a string that is already known to be non-empty and all digits.\<close>

definition parse_digits_u64 :: "string \<Rightarrow> nat option" where
  "parse_digits_u64 s = (if digits_val s \<le> u64_max then Some (digits_val s) else None)"

section \<open>Bytes\<close>

type_synonym byte = "8 word"

definition byte_of_char :: "char \<Rightarrow> byte" where
  "byte_of_char c = word_of_nat (of_char c)"

definition char_of_byte :: "byte \<Rightarrow> char" where
  "char_of_byte b = char_of (unat b)"

definition as_bytes :: "string \<Rightarrow> byte list" where
  "as_bytes s = map byte_of_char s"

text \<open>\<open>to_be_bytes\<close> of the unsigned integers of 32 and 64 bits.\<close>

definition be_bytes :: "nat \<Rightarrow> 'a::len word \<Rightarrow> byte list" where
  "be_bytes n w = map (\<lambda>i. ucast (drop_bit (8 * i) w)) (rev [0..<n])"

definition be32 :: "32 word \<Rightarrow> byte list" where
  "be32 w = be_bytes 4 w"

definition be64 :: "64 word \<Rightarrow> byte list" where
  "be64 w = be_bytes 8 w"

section \<open>Strings\<close>

text \<open>
  The UTF-8 encodings of the code points with the \<open>White_Space\<close> property.  A lead byte never equals a
  continuation byte, so on valid UTF-8 matching encodings bytewise is matching characters.
\<close>

definition ws_encodings :: "string list" where
  "ws_encodings = map (map char_of)
     ([[9], [10], [11], [12], [13], [32], [194, 133], [194, 160], [225, 154, 128]]
      @ map (\<lambda>x. [226, 128, x]) [128, 129, 130, 131, 132, 133, 134, 135, 136, 137, 138, 168, 169, 175]
      @ [[226, 129, 159], [227, 128, 128 :: nat]])"

definition strip_prefix :: "string \<Rightarrow> string \<Rightarrow> string option" where
  "strip_prefix p s = (if take (length p) s = p then Some (drop (length p) s) else None)"

primrec strip_any :: "string list \<Rightarrow> string \<Rightarrow> string option" where
  "strip_any [] s = None"
| "strip_any (p # ps) s = (if p = [] then strip_any ps s
     else case strip_prefix p s of Some r \<Rightarrow> Some r | None \<Rightarrow> strip_any ps s)"

lemma strip_any_shorter: "strip_any ps s = Some r \<Longrightarrow> length r < length s"
proof (induction ps)
  case (Cons p ps)
  then show ?case
    by (cases s) (auto simp: strip_prefix_def length_drop split: if_splits option.splits)
qed simp

function trim_start_by :: "string list \<Rightarrow> string \<Rightarrow> string" where
  "trim_start_by ps s = (case strip_any ps s of None \<Rightarrow> s | Some r \<Rightarrow> trim_start_by ps r)"
  by pat_completeness auto
termination
  by (relation "measure (length \<circ> snd)") (auto dest: strip_any_shorter)

declare trim_start_by.simps [simp del]

definition trim_start :: "string \<Rightarrow> string" where
  "trim_start s = trim_start_by ws_encodings s"

definition trim_end :: "string \<Rightarrow> string" where
  "trim_end s = rev (trim_start_by (map rev ws_encodings) (rev s))"

definition trim :: "string \<Rightarrow> string" where
  "trim s = trim_end (trim_start s)"

text \<open>\<open>chars().filter(|c| !c.is_whitespace())\<close>.\<close>

function remove_whitespace :: "string \<Rightarrow> string" where
  "remove_whitespace s =
     (case strip_any ws_encodings s of
        Some r \<Rightarrow> remove_whitespace r
      | None \<Rightarrow> (case s of [] \<Rightarrow> [] | c # r \<Rightarrow> c # remove_whitespace r))"
  by pat_completeness auto
termination
  by (relation "measure length") (auto dest: strip_any_shorter)

declare remove_whitespace.simps [simp del]

definition to_ascii_uppercase :: "char \<Rightarrow> char" where
  "to_ascii_uppercase c =
     (let n = (of_char c :: nat) in if 97 \<le> n \<and> n \<le> 122 then char_of (n - 32) else c)"

definition trim_end_matches :: "char \<Rightarrow> string \<Rightarrow> string" where
  "trim_end_matches c s = rev (dropWhile (\<lambda>x. x = c) (rev s))"

definition is_char_boundary :: "nat \<Rightarrow> string \<Rightarrow> bool" where
  "is_char_boundary i s =
     (i = 0 \<or> i = length s \<or>
      i < length s \<and> \<not> (128 \<le> (of_char (s ! i) :: nat) \<and> (of_char (s ! i) :: nat) < 192))"

definition hex_digit :: "char \<Rightarrow> nat option" where
  "hex_digit c =
     (let n = (of_char c :: nat) in
      if 48 \<le> n \<and> n \<le> 57 then Some (n - 48)
      else if 97 \<le> n \<and> n \<le> 102 then Some (n - 87)
      else if 65 \<le> n \<and> n \<le> 70 then Some (n - 55)
      else None)"

text \<open>
  \<open>u8::from_str_radix(_, 16)\<close> on a two-byte slice: an optional plus sign, then at least one
  hexadecimal digit.  Two digits always fit in a byte.
\<close>

definition u8_from_hex2 :: "char \<Rightarrow> char \<Rightarrow> byte option" where
  "u8_from_hex2 a b =
     (if a = CHR ''+'' then map_option word_of_nat (hex_digit b)
      else case hex_digit a of
             None \<Rightarrow> None
           | Some x \<Rightarrow> map_option (\<lambda>y. word_of_nat (16 * x + y)) (hex_digit b))"

section \<open>Facts about the vocabulary\<close>

named_theorems time_defs
named_theorems result_defs

lemmas [time_defs] = checked_add_time_def duration_since_def from_secs_def as_secs_def
  nanos_per_sec_def clock_end_def

lemmas [result_defs] = map_err_def is_ok_def ok_or_def bind_ok_def

lemma option_eqI: "(\<And>v. a = Some v \<longleftrightarrow> b = Some v) \<Longrightarrow> a = b"
  by (cases a; cases b) auto

lemma is_ok_simps [simp]: "is_ok (Inr a)" "\<not> is_ok (Inl e)"
  by (simp_all add: is_ok_def)

lemma map_err_simps [simp]: "map_err f (Inr a) = Inr a" "map_err f (Inl e) = Inl (f e)"
  by (simp_all add: map_err_def)

lemma ok_or_simps [simp]: "ok_or e None = Inl e" "ok_or e (Some a) = Inr a"
  by (simp_all add: ok_or_def)

lemma bind_ok_simps [simp]: "bind_ok (Inl e) f = Inl e" "bind_ok (Inr a) f = f a"
  by (simp_all add: bind_ok_def)

lemma map_err_eq_Ok [simp]: "map_err f r = Inr a \<longleftrightarrow> r = Inr a"
  by (cases r) simp_all

lemma bind_ok_eq_Ok: "bind_ok r f = Inr b \<longleftrightarrow> (\<exists>a. r = Inr a \<and> f a = Inr b)"
  by (cases r) simp_all

lemma check_each_ok: "check_each f xs = Inr u \<longleftrightarrow> (\<forall>x\<in>set xs. f x = Inr ())"
  by (induction xs) (auto split: sum.splits)

lemma as_secs_from_secs [simp]: "as_secs (from_secs s) = s"
  by (simp add: time_defs)

lemma checked_add_time_Some:
  "checked_add_time t d = Some u \<longleftrightarrow> u = t + int d \<and> t + int d < clock_end"
  by (auto simp: checked_add_time_def)

lemma duration_since_Some:
  "duration_since a b = Some d \<longleftrightarrow> b \<le> a \<and> a = b + int d"
  by (auto simp: duration_since_def)

lemma of_digit_char [simp]: "d < 10 \<Longrightarrow> (of_char (digit_char d) :: nat) = 48 + d"
  by (simp add: digit_char_def)

lemma is_ascii_digit_digit_char [simp]: "d < 10 \<Longrightarrow> is_ascii_digit (digit_char d)"
  by (simp add: is_ascii_digit_def)

lemma digits_val_snoc [simp]: "digits_val (s @ [c]) = digits_val s * 10 + (of_char c - 48)"
  by (simp add: digits_val_def)

lemma digits_val_show_nat [simp]: "digits_val (show_nat n) = n"
proof (induction n rule: show_nat.induct)
  case (1 n)
  then show ?case
    by (subst show_nat.simps) (auto simp: digits_val_def)
qed

lemma show_nat_ne [simp]: "show_nat n \<noteq> []"
  by (subst show_nat.simps) simp

lemma show_nat_digits: "c \<in> set (show_nat n) \<Longrightarrow> is_ascii_digit c"
proof (induction n rule: show_nat.induct)
  case (1 n)
  then show ?case
    by (subst (asm) (2) show_nat.simps) (auto split: if_splits)
qed

lemma of_char_bound [simp]: "(of_char c :: nat) < 256"
  using mod_less_divisor [of 256 "of_char c :: nat"] by simp

lemma unat_byte_of_char [simp]: "unat (byte_of_char c) = of_char c"
  by (simp add: byte_of_char_def unat_of_nat take_bit_nat_eq_self)

lemma char_of_byte_of_char [simp]: "char_of_byte (byte_of_char c) = c"
  by (simp add: char_of_byte_def)

lemma byte_of_char_of_byte [simp]: "byte_of_char (char_of_byte b) = b"
proof -
  have "unat b < 2 ^ LENGTH(8)" by (rule unsigned_less)
  then show ?thesis by (simp add: byte_of_char_def char_of_byte_def)
qed

lemma byte_of_char_inj [simp]: "byte_of_char c = byte_of_char d \<longleftrightarrow> c = d"
  by (metis char_of_byte_of_char)

lemma as_bytes_inj [simp]: "as_bytes s = as_bytes t \<longleftrightarrow> s = t"
  by (simp add: as_bytes_def inj_map_eq_map inj_def)

lemma length_as_bytes [simp]: "length (as_bytes s) = length s"
  by (simp add: as_bytes_def)

lemma word_of_nat_eqD:
  assumes "(word_of_nat a :: 'a::len word) = word_of_nat b" "a < 2 ^ LENGTH('a)" "b < 2 ^ LENGTH('a)"
  shows "a = b"
  using arg_cong [OF assms(1), of unat] assms(2,3) by (simp add: unat_of_nat take_bit_nat_eq_self)

lemma length_be_bytes [simp]: "length (be_bytes n w) = n"
  by (simp add: be_bytes_def)

lemma be_bytes_inj:
  fixes v w :: "'a::len word"
  assumes "LENGTH('a) \<le> 8 * n" "be_bytes n v = be_bytes n w"
  shows "v = w"
proof (rule bit_word_eqI)
  fix k assume k: "k < LENGTH('a)"
  have "(ucast (drop_bit (8 * i) v) :: byte) = ucast (drop_bit (8 * i) w)" if "i < n" for i
    using assms(2) that by (auto simp: be_bytes_def rev_map map_eq_conv)
  moreover have "k div 8 < n" using k assms(1) by linarith
  ultimately have "bit (ucast (drop_bit (8 * (k div 8)) v) :: byte) (k mod 8) =
      bit (ucast (drop_bit (8 * (k div 8)) w) :: byte) (k mod 8)"
    by presburger
  then show "bit v k = bit w k"
    by (simp add: bit_ucast_iff bit_drop_bit_eq)
qed

lemma length_be32 [simp]: "length (be32 w) = 4"
  by (simp add: be32_def)

lemma length_be64 [simp]: "length (be64 w) = 8"
  by (simp add: be64_def)

lemma be32_inj [simp]: "be32 v = be32 w \<longleftrightarrow> v = w"
  unfolding be32_def using be_bytes_inj [of 4 v w] by auto

lemma be64_inj [simp]: "be64 v = be64 w \<longleftrightarrow> v = w"
  unfolding be64_def using be_bytes_inj [of 8 v w] by auto

lemma show_nat_inj [simp]: "show_nat m = show_nat n \<longleftrightarrow> m = n"
  by (metis digits_val_show_nat)

subsection \<open>Trimming\<close>

definition is_plain :: "char \<Rightarrow> bool" where
  "is_plain c = (33 \<le> (of_char c :: nat) \<and> (of_char c :: nat) \<le> 126)"

lemma strip_any_None:
  "(\<And>p. p \<in> set ps \<Longrightarrow> p \<noteq> [] \<Longrightarrow> hd p \<noteq> c) \<Longrightarrow> strip_any ps (c # s) = None"
proof (induction ps)
  case (Cons p ps)
  then have "p = [] \<or> hd p \<noteq> c" by auto
  then show ?case using Cons by (cases p) (auto simp: strip_prefix_def)
qed simp

lemma strip_any_Nil [simp]: "strip_any ps [] = None"
  using strip_any_shorter [of ps "[]"] by (cases "strip_any ps []") auto

lemma ws_encodings_not_plain:
  "p \<in> set ws_encodings \<Longrightarrow> \<not> is_plain (hd p)"
  "p \<in> set (map rev ws_encodings) \<Longrightarrow> \<not> is_plain (hd p)"
  by (auto simp: ws_encodings_def is_plain_def)

lemma trim_start_by_plain:
  "(\<And>p. p \<in> set ps \<Longrightarrow> \<not> is_plain (hd p)) \<Longrightarrow> s = [] \<or> is_plain (hd s) \<Longrightarrow> trim_start_by ps s = s"
proof (cases s)
  case (Cons c r)
  assume "\<And>p. p \<in> set ps \<Longrightarrow> \<not> is_plain (hd p)" "s = [] \<or> is_plain (hd s)"
  then have "strip_any ps s = None" unfolding Cons by (intro strip_any_None) auto
  then show ?thesis by (simp add: trim_start_by.simps)
qed (simp add: trim_start_by.simps)

lemma trim_plain:
  assumes "s = [] \<or> is_plain (hd s) \<and> is_plain (last s)"
  shows "trim s = s"
proof -
  have "trim_start_by ws_encodings s = s"
    using assms ws_encodings_not_plain(1) by (intro trim_start_by_plain) auto
  moreover have "trim_start_by (map rev ws_encodings) (rev s) = rev s"
    using assms ws_encodings_not_plain(2) by (intro trim_start_by_plain) (auto simp: hd_rev)
  ultimately show ?thesis by (simp add: trim_def trim_start_def trim_end_def)
qed

lemma is_plain_digit: "is_ascii_digit c \<Longrightarrow> is_plain c"
  by (simp add: is_ascii_digit_def is_plain_def)

lemma trim_digits [simp]: "list_all is_ascii_digit s \<Longrightarrow> trim s = s"
  by (rule trim_plain) (cases s, auto simp: list_all_iff is_plain_digit)

end
