(* ===== verification/Crates.thy ===== *)
theory Crates
  imports Prelude
begin

text \<open>
  The third-party functions the source calls, gathered in one record that the definitions take as
  an argument: base64url, base32 and hexadecimal (\<open>data-encoding\<close>), hashes and MACs (\<open>sha2\<close>, \<open>hmac\<close>), OpenSSH
  keys and signatures (\<open>ssh-key\<close>), P-256 and Ed25519 (\<open>p256\<close>, \<open>ed25519-dalek\<close>), Argon2, and the
  JSON codecs \<open>serde_json\<close> derives for two token structs.  Nothing is assumed of them here.
\<close>

text \<open>A parsed OpenSSH signature: its namespace, the signer's key data, and the signature itself.\<close>

record sshsig =
  sig_namespace :: string
  sig_public_key :: "byte list"
  sig_blob :: "byte list"

record assertion_token =
  at_credential_id :: string
  at_authenticator_data :: string
  at_client_data_json :: string
  at_signature :: string

record client_data_in =
  cd_type :: string
  cd_challenge :: string

datatype argon2_answer = Argon2Match | Argon2Mismatch | Argon2Other string

record crates =
  debug_str :: "string \<Rightarrow> string"
  b64url_encode :: "byte list \<Rightarrow> string"
  b64url_decode :: "string \<Rightarrow> byte list option"
  b32_decode :: "string \<Rightarrow> byte list option"
  hexlower_encode :: "byte list \<Rightarrow> string"
  hexlower_decode :: "byte list \<Rightarrow> byte list option"
  sha256 :: "byte list \<Rightarrow> byte list"
  hmac_sha1 :: "byte list \<Rightarrow> byte list \<Rightarrow> byte list"
  hmac_sha256 :: "byte list \<Rightarrow> byte list \<Rightarrow> byte list"
  openssh_key :: "string \<Rightarrow> string + byte list"
  sshsig_parse :: "string \<Rightarrow> string + sshsig"
  sshsig_verify :: "byte list \<Rightarrow> string \<Rightarrow> byte list \<Rightarrow> sshsig \<Rightarrow> bool"
  p256_key :: "byte list \<Rightarrow> string option"
  p256_sig_der :: "byte list \<Rightarrow> string option"
  p256_verify :: "byte list \<Rightarrow> byte list \<Rightarrow> byte list \<Rightarrow> bool"
  ed25519_key :: "byte list \<Rightarrow> string option"
  ed25519_sig :: "byte list \<Rightarrow> string option"
  ed25519_verify :: "byte list \<Rightarrow> byte list \<Rightarrow> byte list \<Rightarrow> bool"
  phc_parse :: "string \<Rightarrow> string + bool"
  argon2_verify :: "string \<Rightarrow> string \<Rightarrow> argon2_answer"
  assertion_of_json :: "byte list \<Rightarrow> string + assertion_token"
  client_data_of_json :: "byte list \<Rightarrow> string + client_data_in"

text \<open>
  \<open>debug_str\<close> is the quoted rendering of a string in a message (it depends on Unicode tables and
  occurs in message texts only).  Reading of the fields that are less than obvious: \<open>p256_key\<close>, \<open>p256_sig_der\<close>, \<open>ed25519_key\<close> and
  \<open>ed25519_sig\<close> give the parse error, if any; the verify functions take key, message and signature
  bytes that parse; \<open>phc_parse\<close> gives whether the parsed hash string carries a digest.
\<close>

end
