(* ===== verification/Ttl.thy ===== *)
theory Ttl
  imports Crates
begin

text \<open>
  \<open>core/src/ttl.rs\<close>: a time to live is a positive number of seconds of at most a day.  Parsing
  requires a unit, printing always uses seconds.
\<close>

definition max_ttl_secs :: nat where
  "max_ttl_secs = 24 * 60 * 60"

definition renewal_window_secs :: nat where
  "renewal_window_secs = 2 * 60 * 60"

datatype ttl = Ttl duration

datatype ttl_error = Zero | ExceedsCap nat | Unparseable string | Overflow

primrec ttl_duration :: "ttl \<Rightarrow> duration" where
  "ttl_duration (Ttl d) = d"

definition ttl_from_secs :: "nat \<Rightarrow> ttl_error + ttl" where
  "ttl_from_secs secs =
     (if secs = 0 then Err Zero
      else if secs > max_ttl_secs then Err (ExceedsCap secs)
      else Ok (Ttl (from_secs secs)))"

text \<open>\<open>str::strip_suffix\<close> for a one-byte suffix.\<close>

definition strip_suffix_char :: "char \<Rightarrow> string \<Rightarrow> string option" where
  "strip_suffix_char c s = (if s \<noteq> [] \<and> last s = c then Some (butlast s) else None)"

definition ttl_unit :: "string \<Rightarrow> (string \<times> nat) option" where
  "ttl_unit s =
     (case strip_suffix_char (CHR ''s'') s of Some d \<Rightarrow> Some (d, 1)
      | None \<Rightarrow> (case strip_suffix_char (CHR ''m'') s of Some d \<Rightarrow> Some (d, 60)
      | None \<Rightarrow> (case strip_suffix_char (CHR ''h'') s of Some d \<Rightarrow> Some (d, 60 * 60)
      | None \<Rightarrow> None)))"

definition ttl_parse :: "string \<Rightarrow> ttl_error + ttl" where
  "ttl_parse s =
     (case ttl_unit s of
        None \<Rightarrow> Err (Unparseable s)
      | Some (digits, per_unit) \<Rightarrow>
          if digits = [] \<or> \<not> list_all is_ascii_digit digits then Err (Unparseable s)
          else (case parse_digits_u64 digits of
                  None \<Rightarrow> Err Overflow
                | Some count \<Rightarrow>
                    (case checked_mul_u64 count per_unit of
                       None \<Rightarrow> Err Overflow
                     | Some secs \<Rightarrow> ttl_from_secs secs)))"

definition ttl_display :: "ttl \<Rightarrow> string" where
  "ttl_display t = show_nat (as_secs (ttl_duration t)) @ ''s''"

definition ttl_error_display :: "crates \<Rightarrow> ttl_error \<Rightarrow> string" where
  "ttl_error_display X e =
     (case e of
        Zero \<Rightarrow> ''ttl must be greater than zero''
      | ExceedsCap secs \<Rightarrow>
          ''ttl of '' @ show_nat secs @ ''s exceeds the '' @ show_nat max_ttl_secs
          @ ''s cap; break-glass access is never open-ended''
      | Unparseable s \<Rightarrow> ''unparseable ttl '' @ debug_str X s @ ''; expected forms like 90s, 15m, 2h''
      | Overflow \<Rightarrow> ''ttl does not fit in seconds'')"

text \<open>The type invariant stated on the struct.\<close>

definition ttl_ok :: "ttl \<Rightarrow> bool" where
  "ttl_ok t = (\<exists>secs\<in>{0<..max_ttl_secs}. ttl_duration t = from_secs secs)"

lemma ttl_from_secs_ok: "ttl_from_secs secs = Ok t \<longleftrightarrow>
    0 < secs \<and> secs \<le> max_ttl_secs \<and> t = Ttl (from_secs secs)"
  by (auto simp: ttl_from_secs_def)

lemma ttl_from_secs_ttl_ok: "ttl_from_secs secs = Ok t \<Longrightarrow> ttl_ok t"
  by (auto simp: ttl_from_secs_ok ttl_ok_def)

lemma ttl_parse_is_from_secs:
  assumes "ttl_parse s = Ok t"
  obtains secs where "ttl_from_secs secs = Ok t"
  using assms by (auto simp: ttl_parse_def split: option.splits prod.splits if_splits)

lemma ttl_parse_ttl_ok: "ttl_parse s = Ok t \<Longrightarrow> ttl_ok t"
  by (metis ttl_parse_is_from_secs ttl_from_secs_ttl_ok)

lemma ttl_ok_duration:
  assumes "ttl_ok t"
  shows "0 < ttl_duration t" "ttl_duration t \<le> from_secs max_ttl_secs"
  using assms by (auto simp: ttl_ok_def from_secs_def nanos_per_sec_def)

lemma ttl_ok_secs:
  assumes "ttl_ok t"
  shows "ttl_from_secs (as_secs (ttl_duration t)) = Ok t"
  using assms by (cases t) (auto simp: ttl_ok_def ttl_from_secs_def)

lemma ttl_parse_seconds:
  assumes "secs \<le> u64_max"
  shows "ttl_parse (show_nat secs @ ''s'') = ttl_from_secs secs"
  using assms
  by (simp add: ttl_parse_def ttl_unit_def strip_suffix_char_def parse_digits_u64_def checked_mul_u64_def
      list_all_iff show_nat_digits)

text \<open>
  Printing a time to live and parsing the text gives the same time to live, for every value the
  type admits.
\<close>

theorem ttl_parse_display:
  assumes "ttl_ok t"
  shows "ttl_parse (ttl_display t) = Ok t"
proof -
  have "as_secs (ttl_duration t) \<le> u64_max"
    using assms by (auto simp: ttl_ok_def max_ttl_secs_def u64_max_def)
  then show ?thesis
    using ttl_ok_secs [OF assms] by (simp add: ttl_display_def ttl_parse_seconds)
qed

theorem ttl_parse_display_witness:
  "ttl_ok (Ttl (from_secs 90)) \<and> ttl_parse (ttl_display (Ttl (from_secs 90))) = Ok (Ttl (from_secs 90))"
proof -
  have "ttl_ok (Ttl (from_secs 90))" by (auto simp: ttl_ok_def max_ttl_secs_def)
  then show ?thesis using ttl_parse_display [of "Ttl (from_secs 90)"] by simp
qed

end
