(* ===== verification/Approval.thy ===== *)
theory Approval
  imports Crates
begin

text \<open>
  \<open>core/src/approval.rs\<close>: the approval request an operator signs, and its canonical bytes.  The
  base64url encoder of the challenge is a third-party function and therefore an argument.
\<close>

type_synonym nonce = "byte list"

record approval_request =
  ar_nonce :: nonce
  ar_host :: string
  ar_ttl_secs :: nat
  ar_requested_at :: system_time

datatype approval_error =
    Malformed string
  | WrongNamespace string
  | UnknownApprover string
  | BadSignature
  | AlreadyUsed
  | CloneSuspected

definition approval_namespace :: string where
  "approval_namespace = ''lychgate-approval''"

definition approval_error_display :: "crates \<Rightarrow> approval_error \<Rightarrow> string" where
  "approval_error_display X e =
     (case e of
        Malformed m \<Rightarrow> ''malformed approval token: '' @ m
      | WrongNamespace ns \<Rightarrow>
          ''approval signed under namespace '' @ debug_str X ns @ '', not '' @ debug_str X approval_namespace
      | UnknownApprover m \<Rightarrow> ''approval from an unrecognized signer: '' @ m
      | BadSignature \<Rightarrow> ''approval signature did not verify over the challenge''
      | AlreadyUsed \<Rightarrow> ''this one-time approval code was already used''
      | CloneSuspected \<Rightarrow>
          ''FIDO2 signature counter went backwards '' @ map char_of [226, 128, 148 :: nat]
          @ '' the credential may be cloned; refusing, and this credential should be rotated'')"

definition parse_ssh_public_key :: "crates \<Rightarrow> string \<Rightarrow> approval_error + byte list" where
  "parse_ssh_public_key X line =
     map_err (\<lambda>e. Malformed (''not an openssh public key: '' @ e)) (openssh_key X (trim line))"

definition approval_request_new ::
    "nonce \<Rightarrow> string \<Rightarrow> nat \<Rightarrow> system_time \<Rightarrow> approval_request" where
  "approval_request_new nonce host ttl_secs requested_at =
     \<lparr>ar_nonce = nonce, ar_host = host, ar_ttl_secs = ttl_secs, ar_requested_at = requested_at\<rparr>"

text \<open>Whole seconds since the epoch; an instant before the epoch reads as zero.\<close>

definition epoch_secs :: "system_time \<Rightarrow> nat" where
  "epoch_secs t = (case duration_since t 0 of Some d \<Rightarrow> as_secs d | None \<Rightarrow> 0)"

definition approval_domain :: "byte list" where
  "approval_domain = as_bytes ''lychgate-approval'' @ [0] @ as_bytes ''v1'' @ [0]"

definition canonical_bytes :: "approval_request \<Rightarrow> byte list" where
  "canonical_bytes r =
     approval_domain
     @ be32 (word_of_nat (length (ar_host r)))
     @ as_bytes (ar_host r)
     @ be64 (word_of_nat (ar_ttl_secs r))
     @ be64 (word_of_nat (epoch_secs (ar_requested_at r)))
     @ be32 (word_of_nat (length (ar_nonce r)))
     @ ar_nonce r"

definition challenge_string :: "(byte list \<Rightarrow> string) \<Rightarrow> approval_request \<Rightarrow> string" where
  "challenge_string base64url r = ''lg1.req.'' @ base64url (canonical_bytes r)"

text \<open>What the Rust types guarantee of a request.\<close>

definition approval_request_ok :: "approval_request \<Rightarrow> bool" where
  "approval_request_ok r \<longleftrightarrow> length (ar_nonce r) = 32 \<and> length (ar_host r) < 2 ^ 32 \<and>
     ar_ttl_secs r \<le> u64_max \<and> ar_requested_at r < clock_end"

lemma epoch_secs_bound: "t < clock_end \<Longrightarrow> epoch_secs t < 2 ^ 64"
proof -
  assume "t < clock_end"
  then have "nat t < 9223372036854775808 * nanos_per_sec"
    by (simp add: clock_end_def nanos_per_sec_def)
  then have "nat t div nanos_per_sec < 9223372036854775808"
    by (simp add: less_mult_imp_div_less)
  then show ?thesis
    by (simp add: epoch_secs_def duration_since_def as_secs_def)
qed

lemma canonical_bytes_fields:
  assumes "approval_request_ok r" "approval_request_ok s"
    and eq: "canonical_bytes r = canonical_bytes s"
  shows "ar_host r = ar_host s \<and> ar_ttl_secs r = ar_ttl_secs s \<and>
    epoch_secs (ar_requested_at r) = epoch_secs (ar_requested_at s) \<and> ar_nonce r = ar_nonce s"
proof -
  have rng: "length (ar_host r) < 2 ^ 32" "length (ar_host s) < 2 ^ 32"
    "ar_ttl_secs r < 2 ^ 64" "ar_ttl_secs s < 2 ^ 64"
    "epoch_secs (ar_requested_at r) < 2 ^ 64" "epoch_secs (ar_requested_at s) < 2 ^ 64"
    using assms(1,2) epoch_secs_bound by (auto simp: approval_request_ok_def u64_max_def)
  have "(word_of_nat (length (ar_host r)) :: 32 word) = word_of_nat (length (ar_host s))"
    using eq by (simp add: canonical_bytes_def)
  then have len: "length (ar_host r) = length (ar_host s)"
    using rng by (auto dest: word_of_nat_eqD)
  then have split: "ar_host r = ar_host s"
    "(word_of_nat (ar_ttl_secs r) :: 64 word) = word_of_nat (ar_ttl_secs s)"
    "(word_of_nat (epoch_secs (ar_requested_at r)) :: 64 word) =
       word_of_nat (epoch_secs (ar_requested_at s))"
    "ar_nonce r = ar_nonce s"
    using eq by (simp_all add: canonical_bytes_def)
  then show ?thesis using rng by (auto dest: word_of_nat_eqD)
qed

text \<open>
  C26. What the canonical bytes of an approval request determine.  For requests of the sizes the code's
  types give them, with host names shorter than four gigabytes, two requests have the same bytes exactly
  when they agree on host, time to live and nonce and were made within the same whole second; the length
  prefixes leave no room for re-framing.
\<close>

theorem canonical_bytes_inject:
  assumes "approval_request_ok r" "approval_request_ok s"
  shows "canonical_bytes r = canonical_bytes s \<longleftrightarrow>
    ar_host r = ar_host s \<and> ar_ttl_secs r = ar_ttl_secs s \<and>
    epoch_secs (ar_requested_at r) = epoch_secs (ar_requested_at s) \<and> ar_nonce r = ar_nonce s"
  using canonical_bytes_fields [OF assms] by (auto simp: canonical_bytes_def)

theorem canonical_bytes_inject_witness:
  "let r = approval_request_new (replicate 32 7) ''db-01'' 900 (1700000000 * 1000000000);
       s = approval_request_new (replicate 32 7) ''db-01'' 900 (1700000000 * 1000000000 + 5)
   in approval_request_ok r \<and> approval_request_ok s \<and> canonical_bytes r = canonical_bytes s \<and>
      ar_nonce r = ar_nonce s"
proof -
  define r where "r = approval_request_new (replicate 32 7) ''db-01'' 900 (1700000000 * 1000000000)"
  define s where "s = approval_request_new (replicate 32 7) ''db-01'' 900 (1700000000 * 1000000000 + 5)"
  have ok: "approval_request_ok r" "approval_request_ok s"
    by (simp_all add: r_def s_def approval_request_new_def approval_request_ok_def u64_max_def
        clock_end_def)
  have eq: "canonical_bytes r = canonical_bytes s"
    by (simp add: r_def s_def approval_request_new_def canonical_bytes_def epoch_secs_def time_defs)
  show ?thesis
    using canonical_bytes_inject [OF ok] ok eq by (simp add: r_def s_def Let_def)
qed

end
