(* ===== verification/Channel_Kind.thy ===== *)
theory Channel_Kind
  imports Main
begin

text \<open>
  The access channels of \<open>core/src/inventory.rs\<close>.  The derived order, used as the key order of
  the driver set, is the order of declaration.
\<close>

datatype channel = Ssh | AuthorizedKeys | Bmc | Vnc | Http | Mqtt | Serial | Device

primrec channel_rank :: "channel \<Rightarrow> nat" where
  "channel_rank Ssh = 0"
| "channel_rank AuthorizedKeys = 1"
| "channel_rank Bmc = 2"
| "channel_rank Vnc = 3"
| "channel_rank Http = 4"
| "channel_rank Mqtt = 5"
| "channel_rank Serial = 6"
| "channel_rank Device = 7"

lemma channel_rank_inj: "channel_rank c = channel_rank d \<longleftrightarrow> c = d"
  by (cases c; cases d) simp_all

instantiation channel :: linorder
begin

definition less_eq_channel :: "channel \<Rightarrow> channel \<Rightarrow> bool" where
  "less_eq_channel c d = (channel_rank c \<le> channel_rank d)"

definition less_channel :: "channel \<Rightarrow> channel \<Rightarrow> bool" where
  "less_channel c d = (channel_rank c < channel_rank d)"

instance
  by standard (auto simp: less_eq_channel_def less_channel_def channel_rank_inj [symmetric])

end

end
