(* ===== verification/Grant.thy ===== *)
theory Grant
  imports Ttl Approval Channel_Kind "HOL-Library.FSet"
begin

text \<open>
  \<open>core/src/grant.rs\<close>: the write-ahead grant state machine.  Every method that takes
  \<open>&mut self\<close> is a function from the grant to its result and the new grant; \<open>now\<close> is injected.
\<close>

section \<open>Data\<close>

definition max_approval_window_secs :: nat where
  "max_approval_window_secs = max_ttl_secs"

datatype grant_state =
    Closed
  | Pending (gs_requested_at: system_time) (gs_approval_deadline: system_time) (gs_ttl: ttl)
      (gs_nonce: nonce) (gs_profile: string) (gs_satisfied: "string fset")
  | Opening (gs_opened_at: system_time) (gs_expires_at: system_time) (gs_channels: "channel list")
  | Open (gs_opened_at: system_time) (gs_expires_at: system_time) (gs_channels: "channel list")
  | NeedsRevert (gs_channels: "channel list") (gs_since: system_time)

datatype grant_status_view =
    StClosed
  | StAwaitingApproval duration
  | StApprovalExpired
  | StOpening
  | StOpen duration
  | StExpired
  | StNeedsRevert "channel list"

record pending_view =
  pv_profile :: string
  pv_satisfied :: "string fset"
  pv_requested_at :: system_time
  pv_elapsed :: duration

datatype grant_error =
    AlreadyOpen
  | NotOpen
  | MidOpen
  | AlreadyPending
  | NotPending
  | ApprovalWindowElapsed
  | TooEarly duration
  | ClockOverflow

record grant =
  g_state :: grant_state

datatype grant_parts_view =
    PPending system_time system_time ttl nonce string "string fset"
  | POpening system_time system_time "channel list"
  | POpen system_time system_time "channel list"
  | PNeedsRevert "channel list" system_time

definition grant_error_display :: "grant_error \<Rightarrow> string" where
  "grant_error_display e =
     (case e of
        AlreadyOpen \<Rightarrow> ''grant is already open''
      | NotOpen \<Rightarrow> ''grant is not open''
      | MidOpen \<Rightarrow> ''grant is mid-open; retry shortly''
      | AlreadyPending \<Rightarrow> ''a request is already awaiting approval for this host''
      | NotPending \<Rightarrow> ''grant is not awaiting approval''
      | ApprovalWindowElapsed \<Rightarrow>
          ''the approval window elapsed before the token arrived; reopen to try again''
      | TooEarly remaining \<Rightarrow>
          ''renewal refused with '' @ show_nat (as_secs remaining) @ ''s remaining; renewal opens ''
          @ show_nat renewal_window_secs @ ''s before expiry''
      | ClockOverflow \<Rightarrow> ''expiry does not fit in the clock'')"

section \<open>Operations\<close>

definition grant_new :: grant where
  "grant_new = \<lparr>g_state = Closed\<rparr>"

definition grant_status :: "grant \<Rightarrow> system_time \<Rightarrow> grant_status_view" where
  "grant_status g now =
     (case g_state g of
        Closed \<Rightarrow> StClosed
      | Pending _ deadline _ _ _ _ \<Rightarrow>
          (case duration_since deadline now of
             Some remaining \<Rightarrow> if remaining \<noteq> 0 then StAwaitingApproval remaining else StApprovalExpired
           | None \<Rightarrow> StApprovalExpired)
      | Opening _ _ _ \<Rightarrow> StOpening
      | NeedsRevert channels _ \<Rightarrow> StNeedsRevert channels
      | Open _ expires _ \<Rightarrow>
          (case duration_since expires now of
             Some remaining \<Rightarrow> if remaining \<noteq> 0 then StOpen remaining else StExpired
           | None \<Rightarrow> StExpired))"

definition grant_begin_open ::
    "system_time \<Rightarrow> ttl \<Rightarrow> channel list \<Rightarrow> grant \<Rightarrow> (grant_error + system_time) \<times> grant" where
  "grant_begin_open now t channels g =
     (case grant_status g now of
        StClosed \<Rightarrow>
          (case checked_add_time now (ttl_duration t) of
             None \<Rightarrow> (Err ClockOverflow, g)
           | Some expires \<Rightarrow> (Ok expires, g\<lparr>g_state := Opening now expires channels\<rparr>))
      | StOpening \<Rightarrow> (Err MidOpen, g)
      | _ \<Rightarrow> (Err AlreadyOpen, g))"

definition grant_finish_open :: "grant \<Rightarrow> (grant_error + unit) \<times> grant" where
  "grant_finish_open g =
     (case g_state g of
        Opening opened expires channels \<Rightarrow> (Ok (), g\<lparr>g_state := Open opened expires channels\<rparr>)
      | _ \<Rightarrow> (Err NotOpen, g))"

definition grant_abort_open :: "grant \<Rightarrow> (grant_error + unit) \<times> grant" where
  "grant_abort_open g =
     (case g_state g of
        Opening _ _ _ \<Rightarrow> (Ok (), g\<lparr>g_state := Closed\<rparr>)
      | _ \<Rightarrow> (Err NotOpen, g))"

definition grant_fail_open ::
    "channel list \<Rightarrow> system_time \<Rightarrow> grant \<Rightarrow> (grant_error + unit) \<times> grant" where
  "grant_fail_open stuck now g =
     (case g_state g of
        Opening _ _ _ \<Rightarrow> (Ok (), g\<lparr>g_state := NeedsRevert stuck now\<rparr>)
      | _ \<Rightarrow> (Err NotOpen, g))"

definition grant_begin_revert ::
    "system_time \<Rightarrow> grant \<Rightarrow> (grant_error + channel list) \<times> grant" where
  "grant_begin_revert now g =
     (case g_state g of
        Open _ _ channels \<Rightarrow> (Ok channels, g\<lparr>g_state := NeedsRevert channels now\<rparr>)
      | NeedsRevert channels _ \<Rightarrow> (Ok channels, g)
      | Opening _ _ _ \<Rightarrow> (Err MidOpen, g)
      | Pending _ _ _ _ _ _ \<Rightarrow> (Err NotPending, g)
      | Closed \<Rightarrow> (Err NotOpen, g))"

definition grant_retain_stuck :: "channel list \<Rightarrow> grant \<Rightarrow> (grant_error + bool) \<times> grant" where
  "grant_retain_stuck stuck g =
     (case g_state g of
        NeedsRevert channels since \<Rightarrow>
          (Ok (channels \<noteq> stuck), g\<lparr>g_state := NeedsRevert stuck since\<rparr>)
      | _ \<Rightarrow> (Err NotOpen, g))"

definition grant_finish_revert :: "grant \<Rightarrow> (grant_error + unit) \<times> grant" where
  "grant_finish_revert g =
     (case g_state g of
        NeedsRevert _ _ \<Rightarrow> (Ok (), g\<lparr>g_state := Closed\<rparr>)
      | _ \<Rightarrow> (Err NotOpen, g))"

definition grant_renew :: "system_time \<Rightarrow> ttl \<Rightarrow> grant \<Rightarrow> (grant_error + system_time) \<times> grant" where
  "grant_renew now t g =
     (case grant_status g now of
        StOpen remaining \<Rightarrow>
          if remaining > from_secs renewal_window_secs then (Err (TooEarly remaining), g)
          else (case checked_add_time now (ttl_duration t) of
                  None \<Rightarrow> (Err ClockOverflow, g)
                | Some expires \<Rightarrow>
                    (Ok expires,
                     case g_state g of
                       Open opened _ channels \<Rightarrow> g\<lparr>g_state := Open opened expires channels\<rparr>
                     | _ \<Rightarrow> g))
      | _ \<Rightarrow> (Err NotOpen, g))"

definition grant_begin_pending ::
    "system_time \<Rightarrow> system_time \<Rightarrow> ttl \<Rightarrow> nonce \<Rightarrow> string \<Rightarrow> grant \<Rightarrow> (grant_error + unit) \<times> grant" where
  "grant_begin_pending now deadline t nonce prof g =
     (case grant_status g now of
        StClosed \<Rightarrow> (Ok (), g\<lparr>g_state := Pending now deadline t nonce prof {||}\<rparr>)
      | StOpening \<Rightarrow> (Err MidOpen, g)
      | StAwaitingApproval _ \<Rightarrow> (Err AlreadyPending, g)
      | StApprovalExpired \<Rightarrow> (Err AlreadyPending, g)
      | _ \<Rightarrow> (Err AlreadyOpen, g))"

definition grant_add_satisfied ::
    "system_time \<Rightarrow> string \<Rightarrow> grant \<Rightarrow> (grant_error + bool) \<times> grant" where
  "grant_add_satisfied now ident g =
     (case grant_status g now of
        StAwaitingApproval _ \<Rightarrow>
          (case g_state g of
             Pending req deadline t nonce prof sat \<Rightarrow>
               (Ok (ident |\<notin>| sat), g\<lparr>g_state := Pending req deadline t nonce prof (finsert ident sat)\<rparr>)
           | _ \<Rightarrow> (Err NotPending, g))
      | StApprovalExpired \<Rightarrow> (Err ApprovalWindowElapsed, g)
      | _ \<Rightarrow> (Err NotPending, g))"

definition grant_pending_view :: "system_time \<Rightarrow> grant \<Rightarrow> grant_error + pending_view" where
  "grant_pending_view now g =
     (case grant_status g now of
        StAwaitingApproval _ \<Rightarrow>
          (case g_state g of
             Pending req _ _ _ prof sat \<Rightarrow>
               Ok \<lparr>pv_profile = prof, pv_satisfied = sat, pv_requested_at = req,
                   pv_elapsed = (case duration_since now req of Some d \<Rightarrow> d | None \<Rightarrow> 0)\<rparr>
           | _ \<Rightarrow> Err NotPending)
      | StApprovalExpired \<Rightarrow> Err ApprovalWindowElapsed
      | _ \<Rightarrow> Err NotPending)"

definition grant_pending_request ::
    "string \<Rightarrow> system_time \<Rightarrow> grant \<Rightarrow> grant_error + approval_request" where
  "grant_pending_request host now g =
     (case grant_status g now of
        StAwaitingApproval _ \<Rightarrow>
          (case g_state g of
             Pending req _ t nonce _ _ \<Rightarrow>
               Ok (approval_request_new nonce host (as_secs (ttl_duration t)) req)
           | _ \<Rightarrow> Err NotPending)
      | StApprovalExpired \<Rightarrow> Err ApprovalWindowElapsed
      | _ \<Rightarrow> Err NotPending)"

definition grant_approve_to_opening ::
    "system_time \<Rightarrow> channel list \<Rightarrow> grant \<Rightarrow> (grant_error + system_time) \<times> grant" where
  "grant_approve_to_opening now channels g =
     (case grant_status g now of
        StAwaitingApproval _ \<Rightarrow>
          (case g_state g of
             Pending _ _ t _ _ _ \<Rightarrow>
               (case checked_add_time now (ttl_duration t) of
                  None \<Rightarrow> (Err ClockOverflow, g)
                | Some expires \<Rightarrow> (Ok expires, g\<lparr>g_state := Opening now expires channels\<rparr>))
           | _ \<Rightarrow> (Err NotPending, g))
      | StApprovalExpired \<Rightarrow> (Err ApprovalWindowElapsed, g)
      | _ \<Rightarrow> (Err NotPending, g))"

definition grant_cancel_pending :: "grant \<Rightarrow> (grant_error + unit) \<times> grant" where
  "grant_cancel_pending g =
     (case g_state g of
        Pending _ _ _ _ _ _ \<Rightarrow> (Ok (), g\<lparr>g_state := Closed\<rparr>)
      | _ \<Rightarrow> (Err NotPending, g))"

definition grant_parts :: "grant \<Rightarrow> grant_parts_view option" where
  "grant_parts g =
     (case g_state g of
        Closed \<Rightarrow> None
      | Pending req deadline t nonce prof sat \<Rightarrow> Some (PPending req deadline t nonce prof sat)
      | Opening opened expires channels \<Rightarrow> Some (POpening opened expires channels)
      | Open opened expires channels \<Rightarrow> Some (POpen opened expires channels)
      | NeedsRevert channels since \<Rightarrow> Some (PNeedsRevert channels since))"

definition grant_restore :: "grant_parts_view \<Rightarrow> grant" where
  "grant_restore p =
     (case p of
        PPending req deadline t nonce prof sat \<Rightarrow> \<lparr>g_state = Pending req deadline t nonce prof sat\<rparr>
      | POpening opened expires channels \<Rightarrow> \<lparr>g_state = Opening opened expires channels\<rparr>
      | POpen opened expires channels \<Rightarrow> \<lparr>g_state = Open opened expires channels\<rparr>
      | PNeedsRevert channels since \<Rightarrow> \<lparr>g_state = NeedsRevert channels since\<rparr>)"

section \<open>The step relation\<close>

text \<open>
  One rule per successful method call at instant \<open>now\<close>; a refused call changes nothing.  A grant
  runs from the closed state while the clock moves forward.
\<close>

inductive grant_step :: "system_time \<Rightarrow> grant \<Rightarrow> grant \<Rightarrow> bool" for now :: system_time where
  step_begin_open: "ttl_ok t \<Longrightarrow> grant_begin_open now t cs g = (Ok e, g') \<Longrightarrow> grant_step now g g'"
| step_finish_open: "grant_finish_open g = (Ok (), g') \<Longrightarrow> grant_step now g g'"
| step_abort_open: "grant_abort_open g = (Ok (), g') \<Longrightarrow> grant_step now g g'"
| step_fail_open: "grant_fail_open cs now g = (Ok (), g') \<Longrightarrow> grant_step now g g'"
| step_begin_revert: "grant_begin_revert now g = (Ok cs, g') \<Longrightarrow> grant_step now g g'"
| step_retain_stuck: "grant_retain_stuck cs g = (Ok b, g') \<Longrightarrow> grant_step now g g'"
| step_finish_revert: "grant_finish_revert g = (Ok (), g') \<Longrightarrow> grant_step now g g'"
| step_renew: "ttl_ok t \<Longrightarrow> grant_renew now t g = (Ok e, g') \<Longrightarrow> grant_step now g g'"
| step_begin_pending:
    "ttl_ok t \<Longrightarrow> length n = 32 \<Longrightarrow> grant_begin_pending now d t n p g = (Ok (), g') \<Longrightarrow> grant_step now g g'"
| step_add_satisfied: "grant_add_satisfied now i g = (Ok b, g') \<Longrightarrow> grant_step now g g'"
| step_approve_to_opening: "grant_approve_to_opening now cs g = (Ok e, g') \<Longrightarrow> grant_step now g g'"
| step_cancel_pending: "grant_cancel_pending g = (Ok (), g') \<Longrightarrow> grant_step now g g'"

inductive grant_reach :: "system_time \<Rightarrow> grant \<Rightarrow> bool" where
  reach_new: "grant_reach now grant_new"
| reach_tick: "grant_reach now g \<Longrightarrow> now \<le> later \<Longrightarrow> grant_reach later g"
| reach_step: "grant_reach now g \<Longrightarrow> grant_step now g g' \<Longrightarrow> grant_reach now g'"

text \<open>The type invariant of the struct: what its fields promise, relative to the current instant.\<close>

definition grant_ok :: "system_time \<Rightarrow> grant \<Rightarrow> bool" where
  "grant_ok now g =
     (case g_state g of
        Closed \<Rightarrow> True
      | Pending req _ t nonce _ _ \<Rightarrow> req \<le> now \<and> ttl_ok t \<and> length nonce = 32
      | Opening opened expires _ \<Rightarrow> opened \<le> now \<and> opened < expires \<and>
          expires \<le> opened + int (from_secs max_ttl_secs)
      | Open opened expires _ \<Rightarrow> opened \<le> now \<and> opened < expires \<and>
          expires \<le> now + int (from_secs max_ttl_secs)
      | NeedsRevert _ since \<Rightarrow> since \<le> now)"

section \<open>Lemmas\<close>

named_theorems grant_ops

lemmas [grant_ops] = grant_begin_open_def grant_finish_open_def grant_abort_open_def
  grant_fail_open_def grant_begin_revert_def grant_retain_stuck_def grant_finish_revert_def
  grant_renew_def grant_begin_pending_def grant_add_satisfied_def grant_approve_to_opening_def
  grant_cancel_pending_def

lemmas grant_case_splits = grant_state.splits grant_status_view.splits option.splits if_splits

lemma grant_eqI: "g_state g = g_state h \<Longrightarrow> g = (h::grant)"
  by simp

lemma grant_status_closed [simp]: "grant_status g now = StClosed \<longleftrightarrow> g_state g = Closed"
  by (auto simp: grant_status_def split: grant_case_splits)

lemma grant_status_opening [simp]:
  "grant_status g now = StOpening \<longleftrightarrow> (\<exists>a b c. g_state g = Opening a b c)"
  by (auto simp: grant_status_def split: grant_case_splits)

lemma grant_status_needs_revert [simp]:
  "grant_status g now = StNeedsRevert cs \<longleftrightarrow> (\<exists>s. g_state g = NeedsRevert cs s)"
  by (auto simp: grant_status_def split: grant_case_splits)

lemma grant_status_open [simp]:
  "grant_status g now = StOpen r \<longleftrightarrow>
     (\<exists>a e cs. g_state g = Open a e cs \<and> now < e \<and> r = nat (e - now))"
  by (auto simp: grant_status_def duration_since_def split: grant_case_splits)

lemma grant_status_expired [simp]:
  "grant_status g now = StExpired \<longleftrightarrow> (\<exists>a e cs. g_state g = Open a e cs \<and> e \<le> now)"
  by (auto simp: grant_status_def duration_since_def split: grant_case_splits)

lemma grant_status_awaiting [simp]:
  "grant_status g now = StAwaitingApproval r \<longleftrightarrow>
     (\<exists>q d t n p s. g_state g = Pending q d t n p s \<and> now < d \<and> r = nat (d - now))"
  by (auto simp: grant_status_def duration_since_def split: grant_case_splits)

lemma grant_status_approval_expired [simp]:
  "grant_status g now = StApprovalExpired \<longleftrightarrow>
     (\<exists>q d t n p s. g_state g = Pending q d t n p s \<and> d \<le> now)"
  by (auto simp: grant_status_def duration_since_def split: grant_case_splits)

lemma grant_restore_parts: "grant_parts g = Some p \<Longrightarrow> grant_restore p = g"
  by (auto simp: grant_parts_def grant_restore_def split: grant_state.splits)

lemma grant_parts_restore [simp]: "grant_parts (grant_restore p) = Some p"
  by (auto simp: grant_parts_def grant_restore_def split: grant_parts_view.splits)

lemma grant_parts_None [simp]: "grant_parts g = None \<longleftrightarrow> g_state g = Closed"
  by (auto simp: grant_parts_def split: grant_state.splits)

subsection \<open>When each method succeeds, and with what effect\<close>

lemma grant_begin_open_ok [simp]:
  "grant_begin_open now t cs g = (Ok e, g') \<longleftrightarrow>
     g_state g = Closed \<and> e = now + int (ttl_duration t) \<and> e < clock_end \<and>
     g' = \<lparr>g_state = Opening now e cs\<rparr>"
  by (cases g) (auto simp: grant_begin_open_def grant_status_def checked_add_time_def
      split: grant_case_splits)

lemma grant_finish_open_ok [simp]:
  "grant_finish_open g = (Ok u, g') \<longleftrightarrow>
     (\<exists>a e cs. g_state g = Opening a e cs \<and> g' = \<lparr>g_state = Open a e cs\<rparr>)"
  by (cases g) (auto simp: grant_finish_open_def split: grant_case_splits)

lemma grant_abort_open_ok [simp]:
  "grant_abort_open g = (Ok u, g') \<longleftrightarrow>
     (\<exists>a e cs. g_state g = Opening a e cs) \<and> g' = \<lparr>g_state = Closed\<rparr>"
  by (cases g) (auto simp: grant_abort_open_def split: grant_case_splits)

lemma grant_fail_open_ok [simp]:
  "grant_fail_open stuck now g = (Ok u, g') \<longleftrightarrow>
     (\<exists>a e cs. g_state g = Opening a e cs) \<and> g' = \<lparr>g_state = NeedsRevert stuck now\<rparr>"
  by (cases g) (auto simp: grant_fail_open_def split: grant_case_splits)

lemma grant_begin_revert_ok:
  "grant_begin_revert now g = (Ok cs, g') \<longleftrightarrow>
     (\<exists>a e. g_state g = Open a e cs \<and> g' = \<lparr>g_state = NeedsRevert cs now\<rparr>) \<or>
     (\<exists>s. g_state g = NeedsRevert cs s \<and> g' = g)"
  by (cases g) (auto simp: grant_begin_revert_def split: grant_case_splits)

lemma grant_retain_stuck_ok [simp]:
  "grant_retain_stuck stuck g = (Ok b, g') \<longleftrightarrow>
     (\<exists>cs s. g_state g = NeedsRevert cs s \<and> b = (cs \<noteq> stuck) \<and> g' = \<lparr>g_state = NeedsRevert stuck s\<rparr>)"
  by (cases g) (auto simp: grant_retain_stuck_def split: grant_case_splits)

lemma grant_finish_revert_ok [simp]:
  "grant_finish_revert g = (Ok u, g') \<longleftrightarrow>
     (\<exists>cs s. g_state g = NeedsRevert cs s) \<and> g' = \<lparr>g_state = Closed\<rparr>"
  by (cases g) (auto simp: grant_finish_revert_def split: grant_case_splits)

lemma grant_renew_ok [simp]:
  "grant_renew now t g = (Ok e, g') \<longleftrightarrow>
     (\<exists>a e0 cs. g_state g = Open a e0 cs \<and> now < e0 \<and> e0 \<le> now + int (from_secs renewal_window_secs) \<and>
        e = now + int (ttl_duration t) \<and> e < clock_end \<and> g' = \<lparr>g_state = Open a e cs\<rparr>)"
  by (cases g) (auto simp: grant_renew_def grant_status_def duration_since_def checked_add_time_def
      split: grant_case_splits)

lemma grant_begin_pending_ok [simp]:
  "grant_begin_pending now d t n p g = (Ok u, g') \<longleftrightarrow>
     g_state g = Closed \<and> g' = \<lparr>g_state = Pending now d t n p {||}\<rparr>"
  by (cases g) (auto simp: grant_begin_pending_def grant_status_def split: grant_case_splits)

lemma grant_add_satisfied_ok [simp]:
  "grant_add_satisfied now i g = (Ok b, g') \<longleftrightarrow>
     (\<exists>q d t n p s. g_state g = Pending q d t n p s \<and> now < d \<and> b = (i |\<notin>| s) \<and>
        g' = \<lparr>g_state = Pending q d t n p (finsert i s)\<rparr>)"
  by (cases g) (auto simp: grant_add_satisfied_def grant_status_def duration_since_def
      split: grant_case_splits)

lemma grant_approve_to_opening_ok [simp]:
  "grant_approve_to_opening now cs g = (Ok e, g') \<longleftrightarrow>
     (\<exists>q d t n p s. g_state g = Pending q d t n p s \<and> now < d \<and>
        e = now + int (ttl_duration t) \<and> e < clock_end \<and> g' = \<lparr>g_state = Opening now e cs\<rparr>)"
  by (cases g) (auto simp: grant_approve_to_opening_def grant_status_def duration_since_def
      checked_add_time_def split: grant_case_splits)

lemma grant_cancel_pending_ok [simp]:
  "grant_cancel_pending g = (Ok u, g') \<longleftrightarrow>
     (\<exists>q d t n p s. g_state g = Pending q d t n p s) \<and> g' = \<lparr>g_state = Closed\<rparr>"
  by (cases g) (auto simp: grant_cancel_pending_def split: grant_case_splits)

lemma grant_refusal_keeps:
  "grant_begin_open now t cs g = (Inl er, g') \<Longrightarrow> g' = g"
  "grant_finish_open g = (Inl er, g') \<Longrightarrow> g' = g"
  "grant_abort_open g = (Inl er, g') \<Longrightarrow> g' = g"
  "grant_fail_open cs now g = (Inl er, g') \<Longrightarrow> g' = g"
  "grant_begin_revert now g = (Inl er, g') \<Longrightarrow> g' = g"
  "grant_retain_stuck cs g = (Inl er, g') \<Longrightarrow> g' = g"
  "grant_finish_revert g = (Inl er, g') \<Longrightarrow> g' = g"
  "grant_renew now t g = (Inl er, g') \<Longrightarrow> g' = g"
  "grant_begin_pending now d t n p g = (Inl er, g') \<Longrightarrow> g' = g"
  "grant_add_satisfied now i g = (Inl er, g') \<Longrightarrow> g' = g"
  "grant_approve_to_opening now cs g = (Inl er, g') \<Longrightarrow> g' = g"
  "grant_cancel_pending g = (Inl er, g') \<Longrightarrow> g' = g"
  by (auto simp: grant_ops split: grant_case_splits)

subsection \<open>The invariant\<close>

lemma grant_ok_new [simp]: "grant_ok now grant_new"
  by (simp add: grant_ok_def grant_new_def)

lemma grant_ok_mono: "grant_ok now g \<Longrightarrow> now \<le> later \<Longrightarrow> grant_ok later g"
  by (auto simp: grant_ok_def split: grant_state.splits)

lemma ttl_span:
  assumes "ttl_ok t"
  shows "now < now + int (ttl_duration t)"
    and "now + int (ttl_duration t) \<le> now + int (from_secs max_ttl_secs)"
  using ttl_ok_duration [OF assms] by simp_all

lemma grant_ok_step:
  assumes "grant_step now g g'" "grant_ok now g"
  shows "grant_ok now g'"
  using assms
proof cases
  case (step_renew t e)
  then show ?thesis
    using assms(2) ttl_span [of t now] by (auto simp: grant_ok_def)
qed (auto simp: grant_ok_def grant_begin_revert_ok ttl_ok_duration split: grant_state.splits)

lemma grant_reach_ok: "grant_reach now g \<Longrightarrow> grant_ok now g"
  by (induction rule: grant_reach.induct) (auto intro: grant_ok_mono grant_ok_step)

section \<open>Properties\<close>

text \<open>
  A grant is never open-ended: however it was opened and however often it was renewed, a grant
  observed open has at most \<open>MAX_TTL_SECS\<close> left, and strictly more than nothing.
\<close>

theorem grant_remaining_bounded:
  assumes "grant_reach now g" "grant_status g now = StOpen remaining"
  shows "0 < remaining \<and> remaining \<le> from_secs max_ttl_secs"
  using grant_reach_ok [OF assms(1)] assms(2) by (auto simp: grant_ok_def)

theorem grant_remaining_bounded_witness:
  "let g = \<lparr>g_state = Open 0 (int (from_secs 60)) []\<rparr>
   in grant_reach 0 g \<and> grant_status g 0 = StOpen (from_secs 60) \<and> from_secs 60 \<le> from_secs max_ttl_secs"
proof -
  have open0: "grant_reach 0 \<lparr>g_state = Open 0 (int (from_secs 60)) []\<rparr>"
  proof (rule reach_step [OF reach_step [OF reach_new]])
    show "grant_step 0 grant_new \<lparr>g_state = Opening 0 (int (from_secs 60)) []\<rparr>"
      by (rule step_begin_open [of "Ttl (from_secs 60)"])
        (auto simp: ttl_ok_def grant_new_def max_ttl_secs_def from_secs_def nanos_per_sec_def clock_end_def)
    show "grant_step 0 \<lparr>g_state = Opening 0 (int (from_secs 60)) []\<rparr> \<lparr>g_state = Open 0 (int (from_secs 60)) []\<rparr>"
      by (rule step_finish_open) simp
  qed
  moreover have "grant_status \<lparr>g_state = Open 0 (int (from_secs 60)) []\<rparr> 0 = StOpen (from_secs 60)"
    by (simp add: from_secs_def nanos_per_sec_def)
  ultimately show ?thesis using grant_remaining_bounded [OF open0] by (simp add: Let_def)
qed

text \<open>
  C12. The write-ahead discipline.  A grant becomes open only out of \<open>Opening\<close> and keeps the recorded
  channels; it leaves \<open>Open\<close> only for \<open>NeedsRevert\<close> with the same channels; it enters \<open>Opening\<close> only
  from \<open>Closed\<close> or from a request whose approval window has not lapsed; and it reaches \<open>Closed\<close> only
  from \<open>Pending\<close>, \<open>Opening\<close> or \<open>NeedsRevert\<close>, never directly from \<open>Open\<close>.
\<close>

theorem grant_step_edges:
  assumes "grant_step now g g'" "g' \<noteq> g"
  shows "case g_state g' of
      Open a e cs \<Rightarrow> g_state g = Opening a e cs \<or>
        (\<exists>e0. g_state g = Open a e0 cs \<and> now < e0 \<and> e0 \<le> now + int (from_secs renewal_window_secs))
    | Opening a e cs \<Rightarrow> a = now \<and>
        (g_state g = Closed \<or> (\<exists>q d t n p s. g_state g = Pending q d t n p s \<and> now < d))
    | NeedsRevert cs s \<Rightarrow>
        (\<exists>a e. g_state g = Open a e cs) \<or> (\<exists>a e cs0. g_state g = Opening a e cs0) \<or>
        (\<exists>cs0. g_state g = NeedsRevert cs0 s)
    | Closed \<Rightarrow>
        (\<exists>q d t n p s. g_state g = Pending q d t n p s) \<or> (\<exists>a e cs. g_state g = Opening a e cs) \<or>
        (\<exists>cs s. g_state g = NeedsRevert cs s)
    | Pending q d t n p s \<Rightarrow> now < d \<and> (\<exists>s0. g_state g = Pending q d t n p s0) \<or> g_state g = Closed"
  using assms by cases (auto simp: grant_begin_revert_ok)

theorem grant_step_edges_witness:
  "let g = \<lparr>g_state = Open 0 5 []\<rparr>; g' = \<lparr>g_state = NeedsRevert [] 3\<rparr>
   in grant_step 3 g g' \<and> g' \<noteq> g \<and> (\<exists>a e. g_state g = Open a e [])"
proof -
  have step: "grant_step 3 \<lparr>g_state = Open 0 5 []\<rparr> \<lparr>g_state = NeedsRevert [] 3\<rparr>"
    by (rule step_begin_revert [of _ _ "[]"]) (simp add: grant_begin_revert_ok)
  then show ?thesis using grant_step_edges [OF step] by (simp add: Let_def)
qed

end
