(* ===== verification/Factors.thy ===== *)
theory Factors
  imports Crates Approval
begin

text \<open>
  The proof kinds of \<open>core/src/\<close>: \<open>totp.rs\<close>, \<open>hmac_factor.rs\<close>, \<open>tpm.rs\<close>, \<open>fido2.rs\<close> and
  \<open>password.rs\<close>.  Each verifies a submitted token; cryptography is an argument.
\<close>

section \<open>One-time codes\<close>

definition step_secs :: nat where
  "step_secs = 30"

definition totp_digits :: nat where
  "totp_digits = 6"

datatype totp_secret = TotpSecret "byte list"

datatype totp_error = BadBase32 | TotpEmpty

definition totp_from_base32 :: "crates \<Rightarrow> string \<Rightarrow> totp_error + totp_secret" where
  "totp_from_base32 X s =
     (let cleaned = map to_ascii_uppercase (remove_whitespace s);
          unpadded = trim_end_matches (CHR ''='') cleaned
      in case b32_decode X unpadded of
           None \<Rightarrow> Err BadBase32
         | Some bytes \<Rightarrow> if bytes = [] then Err TotpEmpty else Ok (TotpSecret bytes))"

definition counter_at :: "system_time \<Rightarrow> nat" where
  "counter_at now = (case duration_since now 0 of Some d \<Rightarrow> as_secs d div step_secs | None \<Rightarrow> 0)"

definition zero_pad :: "nat \<Rightarrow> string \<Rightarrow> string" where
  "zero_pad width s = replicate (width - length s) (CHR ''0'') @ s"

unbundle bit_operations_syntax

definition truncate_hs :: "byte list \<Rightarrow> 32 word" where
  "truncate_hs hs =
     (let offset = unat ((hs ! 19) AND 0x0f) in
      push_bit 24 (ucast (hs ! offset) AND 0x7f)
      OR push_bit 16 (ucast (hs ! (offset + 1)))
      OR push_bit 8 (ucast (hs ! (offset + 2)))
      OR ucast (hs ! (offset + 3)))"

primrec code_at :: "crates \<Rightarrow> totp_secret \<Rightarrow> nat \<Rightarrow> string" where
  "code_at X (TotpSecret secret) counter =
     zero_pad totp_digits
       (show_nat (unat (truncate_hs (hmac_sha1 X secret (be64 (word_of_nat counter)))) mod 10 ^ totp_digits))"

definition ct_eq :: "byte list \<Rightarrow> byte list \<Rightarrow> bool" where
  "ct_eq a b =
     (if length a \<noteq> length b then False
      else foldl (\<lambda>diff xy. diff OR (fst xy XOR snd xy)) 0 (zip a b) = 0)"

definition totp_matches :: "crates \<Rightarrow> totp_secret \<Rightarrow> string \<Rightarrow> system_time \<Rightarrow> nat \<Rightarrow> nat option" where
  "totp_matches X secret submitted now skew_steps =
     (let code = trim submitted in
      if length code \<noteq> totp_digits \<or> \<not> list_all is_ascii_digit code then None
      else let center = counter_at now;
               lo = center - skew_steps;
               hi = min u64_max (center + skew_steps)
           in foldl (\<lambda>found counter.
                if ct_eq (as_bytes (code_at X secret counter)) (as_bytes code) then Some counter else found)
                None [lo..<Suc hi])"

section \<open>Shared-secret MACs\<close>

datatype hmac_error = HmacMalformed | HmacMismatch | HmacBadSecret

definition secret_len :: nat where
  "secret_len = 32"

text \<open>The slicing in the loop panics off a character boundary: that outcome is \<open>None\<close>.\<close>

primrec check_secret_bytes :: "string \<Rightarrow> nat \<Rightarrow> nat \<Rightarrow> (hmac_error + byte list) option" where
  "check_secret_bytes hex i 0 = Some (Ok [])"
| "check_secret_bytes hex i (Suc n) =
     (if \<not> is_char_boundary (2 * i) hex \<or> \<not> is_char_boundary (2 * i + 2) hex then None
      else case u8_from_hex2 (hex ! (2 * i)) (hex ! (2 * i + 1)) of
             None \<Rightarrow> Some (Err HmacBadSecret)
           | Some b \<Rightarrow>
               (case check_secret_bytes hex (Suc i) n of
                  None \<Rightarrow> None
                | Some r \<Rightarrow> Some (bind_ok r (\<lambda>bs. Ok (b # bs)))))"

definition hmac_error_display :: "hmac_error \<Rightarrow> string" where
  "hmac_error_display e =
     (case e of
        HmacMalformed \<Rightarrow> ''not an lghmac token (expected lghmac.<base64url of a 32-byte MAC>)''
      | HmacMismatch \<Rightarrow> ''hmac verification failed''
      | HmacBadSecret \<Rightarrow>
          ''hmac secret must be exactly '' @ show_nat secret_len @ '' bytes as hex (''
          @ show_nat (secret_len * 2) @ '' characters)'')"

definition check_secret :: "string \<Rightarrow> (hmac_error + byte list) option" where
  "check_secret text =
     (let hex = trim text in
      if length hex \<noteq> secret_len * 2 then Some (Err HmacBadSecret)
      else check_secret_bytes hex 0 secret_len)"

definition hmac_sign :: "crates \<Rightarrow> byte list \<Rightarrow> string \<Rightarrow> string" where
  "hmac_sign X secret challenge =
     ''lghmac.'' @ b64url_encode X (hmac_sha256 X secret (as_bytes challenge))"

definition hmac_verify :: "crates \<Rightarrow> byte list \<Rightarrow> string \<Rightarrow> string \<Rightarrow> hmac_error + unit" where
  "hmac_verify X secret token challenge =
     (case strip_prefix ''lghmac.'' token of
        None \<Rightarrow> Err HmacMalformed
      | Some b64 \<Rightarrow>
          (case b64url_decode X b64 of
             None \<Rightarrow> Err HmacMalformed
           | Some presented \<Rightarrow>
               if length presented \<noteq> 32 then Err HmacMalformed
               else if presented = hmac_sha256 X secret (as_bytes challenge) then Ok ()
               else Err HmacMismatch))"

section \<open>TPM keys\<close>

datatype tpm_error = TpmMalformed string | TpmBadSignature | TpmUnsupportedKey string

definition tpm_error_display :: "tpm_error \<Rightarrow> string" where
  "tpm_error_display e =
     (case e of
        TpmMalformed m \<Rightarrow> ''malformed TPM token: '' @ m
      | TpmBadSignature \<Rightarrow> ''TPM signature did not verify over the challenge''
      | TpmUnsupportedKey m \<Rightarrow> ''unusable TPM public key: '' @ m)"

definition tpm_verify :: "crates \<Rightarrow> byte list \<Rightarrow> string \<Rightarrow> string \<Rightarrow> tpm_error + unit" where
  "tpm_verify X public_key token challenge =
     (case strip_prefix ''lgtpm.'' token of
        None \<Rightarrow> Err (TpmMalformed ''not an lgtpm token'')
      | Some payload \<Rightarrow>
          (case b64url_decode X (trim payload) of
             None \<Rightarrow> Err (TpmMalformed ''token is not base64url'')
           | Some der \<Rightarrow>
               (case p256_key X public_key of
                  Some e \<Rightarrow> Err (TpmUnsupportedKey (''p256 key: '' @ e))
                | None \<Rightarrow>
                    (case p256_sig_der X der of
                       Some e \<Rightarrow> Err (TpmMalformed (''signature: '' @ e))
                     | None \<Rightarrow>
                         if p256_verify X public_key (as_bytes challenge) der then Ok ()
                         else Err TpmBadSignature))))"

definition tpm_check_public_key :: "crates \<Rightarrow> byte list \<Rightarrow> tpm_error + unit" where
  "tpm_check_public_key X public_key =
     (case p256_key X public_key of
        Some e \<Rightarrow> Err (TpmUnsupportedKey (''p256 key: '' @ e))
      | None \<Rightarrow> Ok ())"

definition tpm_assemble_token :: "crates \<Rightarrow> byte list \<Rightarrow> string" where
  "tpm_assemble_token X signature_der = ''lgtpm.'' @ b64url_encode X signature_der"

section \<open>FIDO2 assertions\<close>

datatype alg = Es256 | EdDsa

record fido2_credential =
  f_alg :: alg
  f_credential_id :: "byte list"
  f_public_key :: "byte list"

datatype fido2_error =
    FMalformed string
  | FWrongCredential
  | FChallengeMismatch
  | FWrongRelyingParty
  | FUserNotPresent
  | FBadSignature
  | FUnsupportedKey string

definition fido2_error_display :: "fido2_error \<Rightarrow> string" where
  "fido2_error_display e =
     (case e of
        FMalformed m \<Rightarrow> ''malformed FIDO2 assertion: '' @ m
      | FWrongCredential \<Rightarrow> ''assertion is for a different credential than configured''
      | FChallengeMismatch \<Rightarrow> ''assertion's challenge does not match the request''
      | FWrongRelyingParty \<Rightarrow> ''assertion is for a different relying party''
      | FUserNotPresent \<Rightarrow> ''assertion has no user-present flag''
      | FBadSignature \<Rightarrow> ''assertion signature did not verify''
      | FUnsupportedKey m \<Rightarrow> ''unusable credential key: '' @ m)"

definition rp_id :: string where
  "rp_id = ''lychgate''"

definition rp_id_hash :: "crates \<Rightarrow> byte list" where
  "rp_id_hash X = sha256 X (as_bytes rp_id)"

definition unb64 :: "crates \<Rightarrow> string \<Rightarrow> string \<Rightarrow> fido2_error + byte list" where
  "unb64 X s what = ok_or (FMalformed (what @ '' is not base64url'')) (b64url_decode X (trim s))"

definition fido2_verify_signature ::
    "crates \<Rightarrow> fido2_credential \<Rightarrow> byte list \<Rightarrow> byte list \<Rightarrow> fido2_error + unit" where
  "fido2_verify_signature X cred msg signature =
     (case f_alg cred of
        Es256 \<Rightarrow>
          (case p256_key X (f_public_key cred) of
             Some e \<Rightarrow> Err (FUnsupportedKey (''es256 key: '' @ e))
           | None \<Rightarrow>
               (case p256_sig_der X signature of
                  Some e \<Rightarrow> Err (FMalformed (''es256 signature: '' @ e))
                | None \<Rightarrow>
                    if p256_verify X (f_public_key cred) msg signature then Ok () else Err FBadSignature))
      | EdDsa \<Rightarrow>
          if length (f_public_key cred) \<noteq> 32 then Err (FUnsupportedKey ''eddsa key is not 32 bytes'')
          else (case ed25519_key X (f_public_key cred) of
             Some e \<Rightarrow> Err (FUnsupportedKey (''eddsa key: '' @ e))
           | None \<Rightarrow>
               (case ed25519_sig X signature of
                  Some e \<Rightarrow> Err (FMalformed (''eddsa signature: '' @ e))
                | None \<Rightarrow>
                    if ed25519_verify X (f_public_key cred) msg signature then Ok ()
                    else Err FBadSignature)))"

text \<open>The payload both token readers decode first.\<close>

definition fido2_token :: "crates \<Rightarrow> string \<Rightarrow> fido2_error + assertion_token" where
  "fido2_token X token =
     (case strip_prefix ''lgfido2.'' token of
        None \<Rightarrow> Err (FMalformed ''not an lgfido2 token'')
      | Some payload \<Rightarrow>
          bind_ok (unb64 X payload ''token'') (\<lambda>raw.
            map_err (\<lambda>e. FMalformed (''token json: '' @ e)) (assertion_of_json X raw)))"

definition fido2_verify :: "crates \<Rightarrow> fido2_credential \<Rightarrow> string \<Rightarrow> string \<Rightarrow> fido2_error + unit" where
  "fido2_verify X cred token challenge =
     bind_ok (fido2_token X token) (\<lambda>tok.
     bind_ok (unb64 X (at_credential_id tok) ''credentialId'') (\<lambda>cid.
     if cid \<noteq> f_credential_id cred then Err FWrongCredential
     else
     bind_ok (unb64 X (at_authenticator_data tok) ''authenticatorData'') (\<lambda>auth_data.
     bind_ok (unb64 X (at_client_data_json tok) ''clientDataJSON'') (\<lambda>client_data.
     bind_ok (unb64 X (at_signature tok) ''signature'') (\<lambda>signature.
     bind_ok (map_err (\<lambda>e. FMalformed (''clientDataJSON: '' @ e)) (client_data_of_json X client_data)) (\<lambda>cd.
     if cd_type cd \<noteq> ''webauthn.get'' then 
       Err (FMalformed (''clientData type is '' @ debug_str X (cd_type cd) @ '', not \"webauthn.get\"''))
     else if cd_challenge cd \<noteq> b64url_encode X (as_bytes challenge) then Err FChallengeMismatch
     else if length auth_data < 37 then Err (FMalformed ''authenticatorData too short'')
     else if take 32 auth_data \<noteq> sha256 X (as_bytes rp_id) then Err FWrongRelyingParty
     else if (auth_data ! 32) AND 1 = 0 then Err FUserNotPresent
     else fido2_verify_signature X cred (auth_data @ sha256 X client_data) signature))))))"

definition fido2_check_public_key :: "crates \<Rightarrow> alg \<Rightarrow> byte list \<Rightarrow> fido2_error + unit" where
  "fido2_check_public_key X a public_key =
     (case a of
        Es256 \<Rightarrow>
          (case p256_key X public_key of
             Some e \<Rightarrow> Err (FUnsupportedKey (''es256 key: '' @ e))
           | None \<Rightarrow> Ok ())
      | EdDsa \<Rightarrow>
          if length public_key \<noteq> 32 then Err (FUnsupportedKey ''eddsa key is not 32 bytes'')
          else (case ed25519_key X public_key of
             Some e \<Rightarrow> Err (FUnsupportedKey (''eddsa key: '' @ e))
           | None \<Rightarrow> Ok ()))"

definition from_be32 :: "byte list \<Rightarrow> 32 word" where
  "from_be32 bs = foldl (\<lambda>a b. push_bit 8 a OR ucast b) 0 bs"

definition token_counter :: "crates \<Rightarrow> string \<Rightarrow> fido2_error + 32 word" where
  "token_counter X token =
     bind_ok (fido2_token X token) (\<lambda>tok.
     bind_ok (unb64 X (at_authenticator_data tok) ''authenticatorData'') (\<lambda>auth_data.
     if length auth_data < 37 then Err (FMalformed ''authenticatorData too short'')
     else Ok (from_be32 [auth_data ! 33, auth_data ! 34, auth_data ! 35, auth_data ! 36])))"

section \<open>Passwords\<close>

datatype password_error = BadHash string | Hashing string

definition password_parse :: "crates \<Rightarrow> string \<Rightarrow> password_error + unit" where
  "password_parse X phc =
     (case phc_parse X phc of
        Inl e \<Rightarrow> Err (BadHash e)
      | Inr has_digest \<Rightarrow>
          if \<not> has_digest then Err (BadHash ''hash string carries no digest'') else Ok ())"

definition password_verify :: "crates \<Rightarrow> string \<Rightarrow> string \<Rightarrow> password_error + bool" where
  "password_verify X phc password =
     bind_ok (password_parse X phc) (\<lambda>_.
       case argon2_verify X phc password of
         Argon2Match \<Rightarrow> Ok True
       | Argon2Mismatch \<Rightarrow> Ok False
       | Argon2Other e \<Rightarrow> Err (BadHash e))"

definition validate_hash :: "crates \<Rightarrow> string \<Rightarrow> password_error + unit" where
  "validate_hash X phc = password_parse X phc"

section \<open>Lemmas\<close>

lemma or_eq_0_iff: "(a OR b :: 'a::len word) = 0 \<longleftrightarrow> a = 0 \<and> b = 0"
  by (auto simp: bit_eq_iff bit_simps)

lemma xor_eq_0_iff: "(a XOR b :: 'a::len word) = 0 \<longleftrightarrow> a = b"
  by (auto simp: bit_eq_iff bit_simps)

lemma ct_fold_zero:
  "foldl (\<lambda>diff xy. diff OR (fst xy XOR snd xy)) d ps = (0::'a::len word) \<longleftrightarrow>
     d = 0 \<and> (\<forall>xy\<in>set ps. fst xy = snd xy)"
  by (induction ps arbitrary: d) (auto simp: or_eq_0_iff xor_eq_0_iff)

lemma ct_eq_eq [simp]: "ct_eq a b \<longleftrightarrow> a = b"
proof (cases "length a = length b")
  case True
  then have "(\<forall>xy\<in>set (zip a b). fst xy = snd xy) \<longleftrightarrow> a = b"
    by (induction a b rule: list_induct2) auto
  then show ?thesis using True by (simp add: ct_eq_def ct_fold_zero)
qed (auto simp: ct_eq_def)

lemma length_show_nat: "n < 10 ^ Suc k \<Longrightarrow> length (show_nat n) \<le> Suc k"
proof (induction k arbitrary: n)
  case 0
  then show ?case by (simp add: show_nat.simps)
next
  case (Suc k)
  show ?case
  proof (cases "n < 10")
    case False
    have "n div 10 < 10 ^ Suc k" using Suc.prems by (simp add: less_mult_imp_div_less)
    then show ?thesis using Suc.IH [of "n div 10"] False by (simp add: show_nat.simps [of n])
  qed (simp add: show_nat.simps)
qed

lemma code_at_shape: "length (code_at X secret n) = totp_digits \<and> list_all is_ascii_digit (code_at X secret n)"
proof (cases secret)
  case (TotpSecret bytes)
  define v where "v = unat (truncate_hs (hmac_sha1 X bytes (be64 (word_of_nat n)))) mod 10 ^ 6"
  have "length (show_nat v) \<le> 6" using length_show_nat [of v 5] by (simp add: v_def)
  moreover have "is_ascii_digit (CHR ''0'')" by (simp add: is_ascii_digit_def)
  ultimately show ?thesis
    using show_nat_digits [of _ v]
    by (auto simp: TotpSecret zero_pad_def totp_digits_def v_def [simplified, symmetric] list_all_iff)
qed

text \<open>A scan that never stops early returns the last hit.\<close>

lemma scan_last_hit:
  "foldl (\<lambda>found c. if P c then Some c else found) None [lo..<hi] = Some n \<longleftrightarrow>
     lo \<le> n \<and> n < hi \<and> P n \<and> (\<forall>z. n < z \<and> z < hi \<longrightarrow> \<not> P z)"
proof (induction hi)
  case (Suc hi)
  show ?case
  proof (cases "lo \<le> hi")
    case True
    then show ?thesis using Suc by (auto simp: less_Suc_eq)
  qed auto
qed simp

lemma check_secret_bytes_length:
  "check_secret_bytes hex i n = Some (Ok bs) \<Longrightarrow> length bs = n"
  by (induction n arbitrary: i bs)
    (auto simp: bind_ok_eq_Ok split: if_splits option.splits)

lemma unb64_eq_Ok [simp]: "unb64 X s what = Ok b \<longleftrightarrow> b64url_decode X (trim s) = Some b"
  by (auto simp: unb64_def ok_or_def split: option.splits)

lemma and_1_eq_0: "(w AND 1 = 0) = (\<not> bit (w :: 'a::len word) 0)"
  by (simp add: and_one_eq bit_0 even_iff_mod_2_eq_zero)

section \<open>Properties\<close>

text \<open>
  C27. A submitted code is accepted exactly when some counter of the skew window produces it, and the
  counter returned, the one the single-use ledger spends, is the latest such counter.  The format
  check never rejects a genuine code, and the constant-time comparison is equality.
\<close>

theorem totp_matches_exact:
  "totp_matches X secret submitted now skew = Some n \<longleftrightarrow>
     (let lo = counter_at now - skew; hi = min u64_max (counter_at now + skew) in
      lo \<le> n \<and> n \<le> hi \<and> code_at X secret n = trim submitted \<and>
      (\<forall>m. n < m \<and> m \<le> hi \<longrightarrow> code_at X secret m \<noteq> trim submitted))"
proof (cases "length (trim submitted) \<noteq> totp_digits \<or> \<not> list_all is_ascii_digit (trim submitted)")
  case True
  then have "code_at X secret n \<noteq> trim submitted" using code_at_shape by metis
  then show ?thesis using True by (auto simp: totp_matches_def Let_def)
next
  case False
  then show ?thesis
    by (auto simp: totp_matches_def Let_def scan_last_hit less_Suc_eq_le simp del: upt_Suc)
qed

theorem totp_matches_exact_witness:
  "let X = undefined\<lparr>hmac_sha1 := (\<lambda>_ _. replicate 20 0)\<rparr> in
   totp_matches X (TotpSecret [1]) ''000000'' 210000000000 1 = Some 8 \<and>
   code_at X (TotpSecret [1]) 8 = trim ''000000''"
proof -
  define X where "X = (undefined :: crates)\<lparr>hmac_sha1 := (\<lambda>_ _. replicate 20 0)\<rparr>"
  have t: "trim ''000000'' = ''000000''"
    by (simp add: is_ascii_digit_def)
  have c: "code_at X (TotpSecret [1]) n = ''000000''" for n
  proof -
    have "truncate_hs (replicate 20 0) = 0" by (simp add: truncate_hs_def)
    moreover have "show_nat 0 = ''0''" by code_simp
    moreover have "replicate 5 (CHR ''0'') = ''00000''" by (simp add: numeral_eq_Suc)
    ultimately show ?thesis by (simp add: X_def zero_pad_def totp_digits_def)
  qed
  have w: "counter_at 210000000000 = 7"
    by (simp add: counter_at_def time_defs step_secs_def)
  have "totp_matches X (TotpSecret [1]) ''000000'' 210000000000 1 = Some 8"
    by (subst totp_matches_exact) (simp add: w c t u64_max_def del: code_at.simps)
  then show ?thesis using c t by (simp add: X_def Let_def del: code_at.simps)
qed

lemma fido2_verify_parts:
  assumes "fido2_verify X cred token challenge = Ok ()"
  obtains tok auth_data client_data signature cd where "fido2_token X token = Ok tok"
    "b64url_decode X (trim (at_authenticator_data tok)) = Some auth_data"
    "b64url_decode X (trim (at_client_data_json tok)) = Some client_data"
    "b64url_decode X (trim (at_signature tok)) = Some signature" "client_data_of_json X client_data = Ok cd"
    "cd_challenge cd = b64url_encode X (as_bytes challenge)" "take 32 auth_data = rp_id_hash X"
    "fido2_verify_signature X cred (auth_data @ sha256 X client_data) signature = Ok ()"
  using assms
  by (auto simp: fido2_verify_def bind_ok_eq_Ok rp_id_hash_def not_less and_1_eq_0 split: if_splits)

text \<open>
  C28. A security-key assertion approves one request.  With a base64url codec that decodes what it encodes:
  when the same assertion is accepted for the challenges of two requests, under whatever credentials, the
  requests agree on host, time to live and nonce and were made within the same second; and the signatures
  checked cover, for lychgate as relying party, the very client data that carries this challenge.
\<close>

theorem fido2_assertion_one_request:
  assumes "\<forall>bs. b64url_decode X (b64url_encode X bs) = Some bs"
    and "approval_request_ok r" "approval_request_ok s"
    and "fido2_verify X cred token (challenge_string (b64url_encode X) r) = Ok ()"
    and "fido2_verify X cred' token (challenge_string (b64url_encode X) s) = Ok ()"
  shows "ar_host r = ar_host s \<and> ar_ttl_secs r = ar_ttl_secs s \<and>
    epoch_secs (ar_requested_at r) = epoch_secs (ar_requested_at s) \<and> ar_nonce r = ar_nonce s \<and>
    (\<exists>auth_data client_data signature cd. take 32 auth_data = rp_id_hash X \<and> client_data_of_json X client_data = Ok cd \<and>
       b64url_decode X (cd_challenge cd) = Some (as_bytes (challenge_string (b64url_encode X) r)) \<and>
       fido2_verify_signature X cred (auth_data @ sha256 X client_data) signature = Ok () \<and>
       fido2_verify_signature X cred' (auth_data @ sha256 X client_data) signature = Ok ())"
proof -
  let ?ch = "challenge_string (b64url_encode X)"
  obtain tok auth_data client_data signature cd where 1: "fido2_token X token = Ok tok"
    "b64url_decode X (trim (at_authenticator_data tok)) = Some auth_data"
    "b64url_decode X (trim (at_client_data_json tok)) = Some client_data"
    "b64url_decode X (trim (at_signature tok)) = Some signature" "client_data_of_json X client_data = Ok cd"
    "cd_challenge cd = b64url_encode X (as_bytes (?ch r))" "take 32 auth_data = rp_id_hash X"
    "fido2_verify_signature X cred (auth_data @ sha256 X client_data) signature = Ok ()"
    using fido2_verify_parts [OF assms(4)] .
  have 2: "cd_challenge cd = b64url_encode X (as_bytes (?ch s))"
    "fido2_verify_signature X cred' (auth_data @ sha256 X client_data) signature = Ok ()"
    using fido2_verify_parts [OF assms(5)] 1(1-5) by (metis option.inject sum.inject(2))+
  have codec: "bs = cs" if "b64url_encode X bs = b64url_encode X cs" for bs cs
    using assms(1) that by (metis option.inject)
  have "as_bytes (?ch r) = as_bytes (?ch s)" by (rule codec) (simp flip: 1(6) 2(1))
  then have "b64url_encode X (canonical_bytes r) = b64url_encode X (canonical_bytes s)"
    by (simp add: challenge_string_def)
  then have "canonical_bytes r = canonical_bytes s" by (rule codec)
  moreover have "b64url_decode X (cd_challenge cd) = Some (as_bytes (?ch r))"
    using assms(1) 1(6) by simp
  ultimately show ?thesis using canonical_bytes_fields [OF assms(2,3)] 1(5,7,8) 2(2) by blast
qed

theorem fido2_assertion_one_request_witness:
  "\<exists>X cred r s. r \<noteq> s \<and> approval_request_ok r \<and> approval_request_ok s \<and>
     fido2_verify X cred ''lgfido2.T'' (challenge_string (b64url_encode X) r) = Ok () \<and>
     fido2_verify X cred ''lgfido2.T'' (challenge_string (b64url_encode X) s) = Ok () \<and>
     ar_host r = ar_host s \<and> ar_nonce r = ar_nonce s"
proof -
  define r where "r = approval_request_new (replicate 32 7) ''db-01'' 900 (1700000000 * 1000000000)"
  define s where "s = approval_request_new (replicate 32 7) ''db-01'' 900 (1700000000 * 1000000000 + 5)"
  define C where "C = challenge_string (map char_of_byte) r"
  define X :: crates where "X = undefined\<lparr>
    b64url_encode := map char_of_byte, b64url_decode := (\<lambda>s. Some (as_bytes s)),
    sha256 := (\<lambda>_. replicate 32 65),
    p256_key := (\<lambda>_. None), p256_sig_der := (\<lambda>_. None), p256_verify := (\<lambda>_ _ _. True),
    assertion_of_json := (\<lambda>_. Ok \<lparr>at_credential_id = ''I'', at_authenticator_data = replicate 37 CHR ''A'',
      at_client_data_json = ''D'', at_signature = ''S''\<rparr>),
    client_data_of_json := (\<lambda>_. Ok \<lparr>cd_type = ''webauthn.get'', cd_challenge = map char_of_byte (as_bytes C)\<rparr>)\<rparr>"
  define cred where "cred = \<lparr>f_alg = Es256, f_credential_id = as_bytes ''I'', f_public_key = []\<rparr>"
  have trims: "trim (replicate (Suc n) c) = replicate (Suc n) c" if "is_plain c" for c n
    using that by (simp add: trim_plain)
  have one: "trim [c] = [c]" if "is_plain c" for c
    using trims [OF that, of 0] by simp
  have auth: "trim (replicate 37 CHR ''A'') = replicate 37 CHR ''A''"
    using trims [of "CHR ''A''" 36] by (simp add: is_plain_def)
  have ch: "challenge_string (b64url_encode X) r = C" "challenge_string (b64url_encode X) s = C"
    by (simp_all add: C_def X_def challenge_string_def r_def s_def approval_request_new_def canonical_bytes_def
        epoch_secs_def time_defs)
  have ok: "approval_request_ok r" "approval_request_ok s" "r \<noteq> s"
    by (simp_all add: r_def s_def approval_request_new_def approval_request_ok_def u64_max_def clock_end_def)
  have codec: "\<forall>bs. b64url_decode X (b64url_encode X bs) = Some bs"
    by (simp add: X_def as_bytes_def comp_def)
  have "fido2_verify X cred ''lgfido2.T'' C = Ok ()"
    by (simp add: fido2_verify_def fido2_token_def strip_prefix_def unb64_def X_def cred_def one auth
        is_plain_def fido2_verify_signature_def as_bytes_def byte_of_char_def and_1_eq_0 map_replicate_const)
  then have v: "fido2_verify X cred ''lgfido2.T'' (challenge_string (b64url_encode X) r) = Ok ()"
    "fido2_verify X cred ''lgfido2.T'' (challenge_string (b64url_encode X) s) = Ok ()" by (simp_all add: ch)
  show ?thesis
    using fido2_assertion_one_request [OF codec ok(1,2) v] ok v by blast
qed

end
