(* ===== verification/BTree_Map.thy ===== *)
theory BTree_Map
  imports Prelude
begin

text \<open>
  The standard library's \<open>BTreeMap\<close>, as the source uses it: a finite map iterated in key order.
  It is an association list with strictly increasing keys.  The locale states the contract the
  rest of the development relies on, and the operations below implement it.
\<close>

type_synonym ('k, 'v) btree_map = "('k \<times> 'v) list"

definition bt_ok :: "('k::linorder, 'v) btree_map \<Rightarrow> bool" where
  "bt_ok m = sorted_wrt (<) (map fst m)"

abbreviation bt_get :: "('k, 'v) btree_map \<Rightarrow> 'k \<Rightarrow> 'v option" where
  "bt_get \<equiv> map_of"

definition bt_contains :: "('k, 'v) btree_map \<Rightarrow> 'k \<Rightarrow> bool" where
  "bt_contains m k = (map_of m k \<noteq> None)"

primrec bt_insert :: "'k::linorder \<Rightarrow> 'v \<Rightarrow> ('k, 'v) btree_map \<Rightarrow> ('k, 'v) btree_map" where
  "bt_insert k v [] = [(k, v)]"
| "bt_insert k v (e # m) =
     (if k < fst e then (k, v) # e # m
      else if k = fst e then (k, v) # m
      else e # bt_insert k v m)"

definition bt_remove :: "'k \<Rightarrow> ('k, 'v) btree_map \<Rightarrow> ('k, 'v) btree_map" where
  "bt_remove k m = filter (\<lambda>e. fst e \<noteq> k) m"

text \<open>Assignment through \<open>get_mut\<close>: replaces the value of a present key, and does nothing else.\<close>

definition bt_set :: "'k \<Rightarrow> 'v \<Rightarrow> ('k, 'v) btree_map \<Rightarrow> ('k, 'v) btree_map" where
  "bt_set k v m = map (\<lambda>e. if fst e = k then (k, v) else e) m"

text \<open>\<open>collect\<close> from an iterator of pairs: a later pair replaces an earlier one.\<close>

definition bt_collect :: "('k::linorder \<times> 'v) list \<Rightarrow> ('k, 'v) btree_map" where
  "bt_collect es = foldl (\<lambda>m e. bt_insert (fst e) (snd e) m) [] es"

locale ordered_map =
  fixes empty :: "'m"
    and get :: "'m \<Rightarrow> 'k::linorder \<Rightarrow> 'v option"
    and ins :: "'k \<Rightarrow> 'v \<Rightarrow> 'm \<Rightarrow> 'm"
    and del :: "'k \<Rightarrow> 'm \<Rightarrow> 'm"
    and ents :: "'m \<Rightarrow> ('k \<times> 'v) list"
    and inv :: "'m \<Rightarrow> bool"
  assumes inv_empty: "inv empty"
    and inv_ins: "inv m \<Longrightarrow> inv (ins k v m)"
    and inv_del: "inv m \<Longrightarrow> inv (del k m)"
    and get_empty: "get empty k = None"
    and get_ins: "inv m \<Longrightarrow> get (ins k v m) j = (if j = k then Some v else get m j)"
    and get_del: "inv m \<Longrightarrow> get (del k m) j = (if j = k then None else get m j)"
    and ents_get: "inv m \<Longrightarrow> (k, v) \<in> set (ents m) \<longleftrightarrow> get m k = Some v"
    and ents_sorted: "inv m \<Longrightarrow> sorted_wrt (<) (map fst (ents m))"
begin

definition from_list :: "('k \<times> 'v) list \<Rightarrow> 'm" where
  "from_list es = foldl (\<lambda>m e. ins (fst e) (snd e) m) empty es"

lemma from_list_snoc: "from_list (es @ [e]) = ins (fst e) (snd e) (from_list es)"
  by (simp add: from_list_def)

lemma inv_from_list: "inv (from_list es)"
  by (induction es rule: rev_induct) (auto simp: from_list_snoc inv_ins, simp add: from_list_def inv_empty)

lemma get_from_list: "get (from_list es) k = map_of (rev es) k"
proof (induction es rule: rev_induct)
  case Nil
  then show ?case by (simp add: from_list_def get_empty)
next
  case (snoc e es)
  then show ?case by (cases e) (simp add: from_list_snoc get_ins inv_from_list)
qed

lemma ents_map_of: "inv m \<Longrightarrow> map_of (ents m) k = get m k"
proof -
  assume i: "inv m"
  have "distinct (map fst (ents m))"
    using ents_sorted [OF i] strict_sorted_iff by blast
  then show ?thesis
    by (intro option_eqI) (simp add: ents_get [OF i])
qed

lemma ents_unique:
  assumes "inv m" "inv n" "\<And>k. get m k = get n k"
  shows "ents m = ents n"
proof (rule map_sorted_distinct_set_unique [where f = fst])
  have "x \<in> set (ents m) \<longleftrightarrow> x \<in> set (ents n)" for x
    by (cases x) (simp add: ents_get assms)
  then show "set (ents m) = set (ents n)" by blast
  have d: "distinct (map fst (ents m))" "distinct (map fst (ents n))"
    "sorted (map fst (ents m))" "sorted (map fst (ents n))"
    using ents_sorted assms(1,2) strict_sorted_iff by blast+
  show "inj_on fst (set (ents m) \<union> set (ents n))"
    using d(1) \<open>set (ents m) = set (ents n)\<close> by (simp add: distinct_map)
  show "sorted (map fst (ents m))" "sorted (map fst (ents n))" by (fact d)+
  show "distinct (map fst (ents m))" "distinct (map fst (ents n))" by (fact d)+
qed

end

lemma map_of_None_less:
  "(\<And>x. x \<in> fst ` set m \<Longrightarrow> k < x) \<Longrightarrow> map_of m (k::'k::linorder) = None"
  by (auto simp: map_of_eq_None_iff)

lemma bt_ok_Nil [simp]: "bt_ok []"
  by (simp add: bt_ok_def)

lemma bt_ok_Cons [simp]: "bt_ok (e # m) \<longleftrightarrow> (\<forall>x\<in>set m. fst e < fst x) \<and> bt_ok m"
  by (auto simp: bt_ok_def)

lemma set_bt_insert_fst: "fst ` set (bt_insert k v m) = insert k (fst ` set m)"
  by (induction m) auto

lemma bt_ok_insert [simp]: "bt_ok m \<Longrightarrow> bt_ok (bt_insert k v m)"
proof (induction m)
  case (Cons e m)
  have "\<forall>x\<in>set (bt_insert k v m). fst e < fst x" if "fst e < k"
  proof
    fix x assume "x \<in> set (bt_insert k v m)"
    then have "fst x \<in> insert k (fst ` set m)"
      using set_bt_insert_fst [of k v m] by blast
    then show "fst e < fst x" using Cons.prems that by auto
  qed
  then show ?case using Cons by auto
qed simp

lemma bt_get_insert [simp]:
  "bt_get (bt_insert k v m) j = (if j = k then Some v else bt_get m j)"
  by (induction m) auto

lemma bt_ok_remove [simp]: "bt_ok m \<Longrightarrow> bt_ok (bt_remove k m)"
  by (induction m) (auto simp: bt_remove_def)

lemma bt_get_remove [simp]: "bt_get (bt_remove k m) j = (if j = k then None else bt_get m j)"
  by (induction m) (auto simp: bt_remove_def)

lemma map_fst_bt_set [simp]: "map fst (bt_set k v m) = map fst m"
  by (induction m) (auto simp: bt_set_def)

lemma bt_ok_set [simp]: "bt_ok (bt_set k v m) = bt_ok m"
  by (simp add: bt_ok_def)

lemma bt_get_set [simp]:
  "bt_get (bt_set k v m) j = (if j = k then (if bt_contains m k then Some v else None) else bt_get m j)"
  by (induction m) (auto simp: bt_set_def bt_contains_def)

lemma bt_contains_iff: "bt_contains m k \<longleftrightarrow> k \<in> fst ` set m"
  by (simp add: bt_contains_def map_of_eq_None_iff)

lemma bt_contains_set [simp]: "bt_contains (bt_set k v m) j = bt_contains m j"
  by (simp add: bt_contains_def)

lemma bt_get_in_set: "bt_ok m \<Longrightarrow> (k, v) \<in> set m \<longleftrightarrow> bt_get m k = Some v"
  by (simp add: bt_ok_def strict_sorted_iff)

lemma bt_ok_distinct: "bt_ok m \<Longrightarrow> distinct (map fst m)"
  by (simp add: bt_ok_def strict_sorted_iff)

interpretation bt: ordered_map "[]" bt_get bt_insert bt_remove "\<lambda>m. m" bt_ok
  by unfold_locales (auto simp: bt_get_in_set, simp add: bt_ok_def)

lemma bt_collect_from_list: "bt_collect es = bt.from_list es"
  by (simp add: bt_collect_def bt.from_list_def)

lemma bt_ok_collect [simp]: "bt_ok (bt_collect es)"
  by (simp add: bt_collect_from_list bt.inv_from_list)

lemma bt_get_collect: "bt_get (bt_collect es) k = map_of (rev es) k"
  by (simp add: bt_collect_from_list bt.get_from_list)

lemma bt_eqI:
  assumes "bt_ok m" "bt_ok n" "\<And>k. bt_get m k = bt_get n k"
  shows "m = n"
  using bt.ents_unique [OF assms] .

lemma bt_set_same: "bt_ok m \<Longrightarrow> bt_get m k = Some v \<Longrightarrow> bt_set k v m = m"
  by (rule bt_eqI) (auto simp: bt_contains_def)

lemma bt_get_rev: "bt_ok m \<Longrightarrow> map_of (rev m) k = bt_get m k"
  by (intro option_eqI) (simp add: bt_ok_distinct rev_map [symmetric])

lemma bt_collect_id: "bt_ok m \<Longrightarrow> bt_collect m = m"
  by (rule bt_eqI) (simp_all add: bt_get_collect bt_get_rev)

end
