(* ===== verification/Authority.thy ===== *)
theory Authority
  imports Ttl Factors BTree_Map "HOL-Library.FSet"
begin

text \<open>
  \<open>core/src/authority.rs\<close>: weighted-threshold approval.  A policy is built from its configuration
  with every structural check, and evaluated against the proofs collected so far and the time
  elapsed.  The functions that recurse through the group graph return \<open>None\<close> when the call does not
  return (or panics on a missing key); they are shown total on checked models.
\<close>

section \<open>Configuration\<close>

datatype auth_kind = KEd25519 | KTotp | KPassword | KFido2 | KTpm | KHmac

record authenticator_spec =
  as_id :: string
  as_kind :: auth_kind
  as_public_key :: "string option"
  as_secret_file :: "string option"
  as_hash_file :: "string option"
  as_alg :: "string option"
  as_credential_id :: "string option"

record factor_spec =
  fs_weight :: nat
  fs_authenticator :: "string option"
  fs_group :: "string option"
  fs_wait :: "string option"

record authority_body =
  ab_threshold :: nat
  ab_factor :: "factor_spec list"

record authority_spec =
  aus_id :: string
  aus_threshold :: nat
  aus_factor :: "factor_spec list"

record profile_spec =
  ps_id :: string
  ps_threshold :: nat
  ps_factor :: "factor_spec list"
  ps_mcp :: bool

record approval_spec =
  sp_authenticator :: "authenticator_spec list"
  sp_group :: "authority_spec list"
  sp_profile :: "profile_spec list"

section \<open>The runtime model\<close>

datatype authenticator =
    AEd25519 "byte list"
  | ATotp string
  | APassword string
  | AHmac string
  | AFido2 fido2_credential
  | ATpm "byte list"

datatype factor = FAuthenticator string | FGroup string | FWait duration

record weighted_factor =
  wf_weight :: nat
  wf_factor :: factor

record authority =
  au_threshold :: nat
  au_factors :: "weighted_factor list"

record authority_model =
  m_authenticators :: "(string, authenticator) btree_map"
  m_groups :: "(string, authority) btree_map"
  m_profiles :: "(string, authority) btree_map"
  m_mcp_profiles :: "string fset"

datatype authority_error =
    NoProfiles
  | EmptyId string
  | DuplicateAuthenticator string
  | DuplicateGroup string
  | DuplicateProfile string
  | UnimplementedKind string string string
  | MissingMaterial string string string
  | BadPublicKey string string
  | Fido2UnknownAlg string string
  | Fido2BadKey string string
  | ZeroThreshold string string
  | ZeroWeight string string
  | NoFactors string string
  | BadFactor string string string
  | BadWait string string string
  | Unsatisfiable string string nat nat
  | DanglingAuthenticator string string
  | DanglingGroup string string
  | GroupCycle string

datatype missing = MAuthenticator string | MGroup string | MWait duration

record outcome =
  o_weight :: nat
  o_threshold :: nat
  o_met :: bool
  o_missing :: "missing list"

section \<open>Building\<close>

text \<open>The factor of one line of configuration.\<close>

definition build_factor ::
    "crates \<Rightarrow> string \<Rightarrow> string \<Rightarrow> factor_spec \<Rightarrow> authority_error + weighted_factor" where
  "build_factor X kind ident fs =
     (if fs_weight fs = 0 then Err (ZeroWeight kind ident)
      else let set_count = length (filter (\<lambda>b. b)
                 [fs_authenticator fs \<noteq> None, fs_group fs \<noteq> None, fs_wait fs \<noteq> None]) in
      if set_count \<noteq> 1 then
        Err (BadFactor kind ident
          (if set_count = 0 then ''names none of authenticator/group/wait''
           else ''names more than one of authenticator/group/wait''))
      else case fs_authenticator fs of
        Some a \<Rightarrow> Ok \<lparr>wf_weight = fs_weight fs, wf_factor = FAuthenticator a\<rparr>
      | None \<Rightarrow>
          (case fs_group fs of
             Some g \<Rightarrow> Ok \<lparr>wf_weight = fs_weight fs, wf_factor = FGroup g\<rparr>
           | None \<Rightarrow>
               (case ttl_parse (case fs_wait fs of Some w \<Rightarrow> w | None \<Rightarrow> []) of
                  Inl e \<Rightarrow> Err (BadWait kind ident (ttl_error_display X e))
                | Inr t \<Rightarrow> Ok \<lparr>wf_weight = fs_weight fs, wf_factor = FWait (ttl_duration t)\<rparr>)))"

primrec build_factors ::
    "crates \<Rightarrow> string \<Rightarrow> string \<Rightarrow> factor_spec list \<Rightarrow> authority_error + weighted_factor list" where
  "build_factors X kind ident [] = Ok []"
| "build_factors X kind ident (fs # rest) =
     bind_ok (build_factor X kind ident fs) (\<lambda>wfac.
     bind_ok (build_factors X kind ident rest) (\<lambda>wfs. Ok (wfac # wfs)))"

definition build_authority ::
    "crates \<Rightarrow> string \<Rightarrow> string \<Rightarrow> nat \<Rightarrow> factor_spec list \<Rightarrow> authority_error + authority" where
  "build_authority X kind ident threshold factor_specs =
     (if ident = [] then Err (EmptyId kind)
      else if threshold = 0 then Err (ZeroThreshold kind ident)
      else if factor_specs = [] then Err (NoFactors kind ident)
      else bind_ok (build_factors X kind ident factor_specs) (\<lambda>factors.
        let available = sum_list (map wf_weight factors) in
        if threshold > available then Err (Unsatisfiable kind ident threshold available)
        else Ok \<lparr>au_threshold = threshold, au_factors = factors\<rparr>))"

definition build_fido2 :: "crates \<Rightarrow> authenticator_spec \<Rightarrow> authority_error + authenticator" where
  "build_fido2 X a =
     bind_ok
       (case as_alg a of
          Some al \<Rightarrow> if al = ''es256'' then Ok Es256
                     else if al = ''eddsa'' then Ok EdDsa
                     else Err (Fido2UnknownAlg (as_id a) al)
        | None \<Rightarrow> Err (MissingMaterial (as_id a) ''fido2'' ''alg'')) (\<lambda>al.
     bind_ok (ok_or (MissingMaterial (as_id a) ''fido2'' ''credential-id'') (as_credential_id a)) (\<lambda>cred_id_b64.
     bind_ok (ok_or (MissingMaterial (as_id a) ''fido2'' ''public-key'') (as_public_key a)) (\<lambda>pub_b64.
     bind_ok (ok_or (Fido2BadKey (as_id a) ''credential-id is not base64url'')
                (b64url_decode X (trim cred_id_b64))) (\<lambda>credential_id.
     bind_ok (ok_or (Fido2BadKey (as_id a) ''public-key is not base64url'')
                (b64url_decode X (trim pub_b64))) (\<lambda>public_key.
     bind_ok (map_err (\<lambda>e. Fido2BadKey (as_id a) (fido2_error_display e))
                (fido2_check_public_key X al public_key)) (\<lambda>_.
     Ok (AFido2 \<lparr>f_alg = al, f_credential_id = credential_id, f_public_key = public_key\<rparr>)))))))"

definition build_authenticator ::
    "crates \<Rightarrow> authenticator_spec \<Rightarrow> authority_error + authenticator" where
  "build_authenticator X a =
     (case as_kind a of
        KEd25519 \<Rightarrow>
          bind_ok (ok_or (MissingMaterial (as_id a) ''ed25519'' ''public-key'') (as_public_key a)) (\<lambda>line.
          bind_ok (map_err (\<lambda>e. BadPublicKey (as_id a) (approval_error_display X e))
                     (parse_ssh_public_key X line)) (\<lambda>pk. Ok (AEd25519 pk)))
      | KTotp \<Rightarrow>
          bind_ok (ok_or (MissingMaterial (as_id a) ''totp'' ''secret-file'') (as_secret_file a)) (\<lambda>f. Ok (ATotp f))
      | KPassword \<Rightarrow>
          bind_ok (ok_or (MissingMaterial (as_id a) ''password'' ''hash-file'') (as_hash_file a)) (\<lambda>f. Ok (APassword f))
      | KHmac \<Rightarrow>
          bind_ok (ok_or (MissingMaterial (as_id a) ''hmac'' ''secret-file'') (as_secret_file a)) (\<lambda>f. Ok (AHmac f))
      | KFido2 \<Rightarrow> build_fido2 X a
      | KTpm \<Rightarrow>
          bind_ok (ok_or (MissingMaterial (as_id a) ''tpm'' ''public-key'') (as_public_key a)) (\<lambda>pub_b64.
          bind_ok (ok_or (BadPublicKey (as_id a) ''public-key is not base64url'')
                     (b64url_decode X (trim pub_b64))) (\<lambda>public_key.
          bind_ok (map_err (\<lambda>e. BadPublicKey (as_id a) (tpm_error_display e))
                     (tpm_check_public_key X public_key)) (\<lambda>_. Ok (ATpm public_key)))))"

primrec build_authenticators ::
    "crates \<Rightarrow> authenticator_spec list \<Rightarrow> (string, authenticator) btree_map
      \<Rightarrow> authority_error + (string, authenticator) btree_map" where
  "build_authenticators X [] acc = Ok acc"
| "build_authenticators X (a # rest) acc =
     (if as_id a = [] then Err (EmptyId ''authenticator'')
      else bind_ok (build_authenticator X a) (\<lambda>auth.
        if bt_contains acc (as_id a) then Err (DuplicateAuthenticator (as_id a))
        else build_authenticators X rest (bt_insert (as_id a) auth acc)))"

primrec build_groups ::
    "crates \<Rightarrow> authority_spec list \<Rightarrow> (string, authority) btree_map
      \<Rightarrow> authority_error + (string, authority) btree_map" where
  "build_groups X [] acc = Ok acc"
| "build_groups X (g # rest) acc =
     bind_ok (build_authority X ''group'' (aus_id g) (aus_threshold g) (aus_factor g)) (\<lambda>au.
       if bt_contains acc (aus_id g) then Err (DuplicateGroup (aus_id g))
       else build_groups X rest (bt_insert (aus_id g) au acc))"

primrec build_profiles ::
    "crates \<Rightarrow> profile_spec list \<Rightarrow> (string, authority) btree_map \<Rightarrow> string fset
      \<Rightarrow> authority_error + ((string, authority) btree_map \<times> string fset)" where
  "build_profiles X [] acc mcp = Ok (acc, mcp)"
| "build_profiles X (p # rest) acc mcp =
     bind_ok (build_authority X ''profile'' (ps_id p) (ps_threshold p) (ps_factor p)) (\<lambda>au.
       if bt_contains acc (ps_id p) then Err (DuplicateProfile (ps_id p))
       else build_profiles X rest (bt_insert (ps_id p) au acc)
              (if ps_mcp p then finsert (ps_id p) mcp else mcp))"

definition check_ref :: "authority_model \<Rightarrow> string \<Rightarrow> weighted_factor \<Rightarrow> authority_error + unit" where
  "check_ref m referrer wfac =
     (case wf_factor wfac of
        FAuthenticator i \<Rightarrow>
          if \<not> bt_contains (m_authenticators m) i then Err (DanglingAuthenticator referrer i) else Ok ()
      | FGroup i \<Rightarrow>
          if \<not> bt_contains (m_groups m) i then Err (DanglingGroup referrer i) else Ok ()
      | FWait _ \<Rightarrow> Ok ())"

definition check_refs :: "authority_model \<Rightarrow> string \<Rightarrow> authority \<Rightarrow> authority_error + unit" where
  "check_refs m referrer au = check_each (check_ref m referrer) (au_factors au)"

section \<open>The cycle check\<close>

datatype colour = White | Grey | Black

text \<open>
  Entering a node pushes its white children on the stack, in order; a grey child is a cycle.  The
  outer \<open>None\<close> is the panic of indexing a missing key.
\<close>

primrec dfs_children ::
    "(string, colour) btree_map \<Rightarrow> weighted_factor list \<Rightarrow> (string \<times> bool) list
      \<Rightarrow> (authority_error + (string \<times> bool) list) option" where
  "dfs_children col [] stack = Some (Ok stack)"
| "dfs_children col (wfac # rest) stack =
     (case wf_factor wfac of
        FGroup child \<Rightarrow>
          (case bt_get col child of
             None \<Rightarrow> None
           | Some Grey \<Rightarrow> Some (Err (GroupCycle child))
           | Some White \<Rightarrow> dfs_children col rest ((child, True) # stack)
           | Some Black \<Rightarrow> dfs_children col rest stack)
      | _ \<Rightarrow> dfs_children col rest stack)"

partial_function (option) dfs_loop ::
    "authority_model \<Rightarrow> (string \<times> bool) list \<Rightarrow> (string, colour) btree_map
      \<Rightarrow> (authority_error + (string, colour) btree_map) option" where
  "dfs_loop m stack col =
     (case stack of
        [] \<Rightarrow> Some (Ok col)
      | entry # stack \<Rightarrow>
          if snd entry then
            let col = bt_insert (fst entry) Grey col in
            (case bt_get (m_groups m) (fst entry) of
               None \<Rightarrow> None
             | Some g \<Rightarrow>
                 (case dfs_children col (au_factors g) ((fst entry, False) # stack) of
                    None \<Rightarrow> None
                  | Some (Inl e) \<Rightarrow> Some (Err e)
                  | Some (Inr stack) \<Rightarrow> dfs_loop m stack col))
          else dfs_loop m stack (bt_insert (fst entry) Black col))"

primrec dfs_starts ::
    "authority_model \<Rightarrow> string list \<Rightarrow> (string, colour) btree_map \<Rightarrow> (authority_error + unit) option" where
  "dfs_starts m [] col = Some (Ok ())"
| "dfs_starts m (start # rest) col =
     (case bt_get col start of
        None \<Rightarrow> None
      | Some c \<Rightarrow>
          if c \<noteq> White then dfs_starts m rest col
          else (case dfs_loop m [(start, True)] col of
                  None \<Rightarrow> None
                | Some (Inl e) \<Rightarrow> Some (Err e)
                | Some (Inr col) \<Rightarrow> dfs_starts m rest col))"

definition check_group_acyclic :: "authority_model \<Rightarrow> (authority_error + unit) option" where
  "check_group_acyclic m =
     dfs_starts m (map fst (m_groups m)) (bt_collect (map (\<lambda>e. (fst e, White)) (m_groups m)))"

text \<open>Steps 1 to 3 of building a model: the parts, then every reference resolved.\<close>

definition assemble_model :: "crates \<Rightarrow> approval_spec \<Rightarrow> authority_error + authority_model" where
  "assemble_model X spec =
     bind_ok (build_authenticators X (sp_authenticator spec) []) (\<lambda>authenticators.
     bind_ok (build_groups X (sp_group spec) []) (\<lambda>groups.
     bind_ok (build_profiles X (sp_profile spec) [] {||}) (\<lambda>pm.
     if fst pm = [] then Err NoProfiles
     else
       let m = \<lparr>m_authenticators = authenticators, m_groups = groups, m_profiles = fst pm,
                m_mcp_profiles = snd pm\<rparr> in
       bind_ok (check_each (\<lambda>e. check_refs m (''group '' @ debug_str X (fst e)) (snd e)) (m_groups m)) (\<lambda>_.
       bind_ok (check_each (\<lambda>e. check_refs m (''profile '' @ debug_str X (fst e)) (snd e)) (m_profiles m)) (\<lambda>_.
       Ok m)))))"

definition from_spec :: "crates \<Rightarrow> approval_spec \<Rightarrow> (authority_error + authority_model) option" where
  "from_spec X spec =
     (case assemble_model X spec of
        Inl e \<Rightarrow> Some (Err e)
      | Inr m \<Rightarrow>
          (case check_group_acyclic m of
             None \<Rightarrow> None
           | Some (Inl e) \<Rightarrow> Some (Err e)
           | Some (Inr _) \<Rightarrow> Some (Ok m)))"

definition resolve_override ::
    "crates \<Rightarrow> authority_model \<Rightarrow> string \<Rightarrow> authority_body \<Rightarrow> authority_error + authority" where
  "resolve_override X m profile_id body =
     bind_ok (build_authority X ''override'' profile_id (ab_threshold body) (ab_factor body)) (\<lambda>au.
     bind_ok (check_refs m (''override for profile '' @ debug_str X profile_id) au) (\<lambda>_. Ok au))"

section \<open>Reading the model\<close>

definition profile :: "authority_model \<Rightarrow> string \<Rightarrow> authority option" where
  "profile m i = bt_get (m_profiles m) i"

definition mcp_allowed :: "authority_model \<Rightarrow> string \<Rightarrow> bool" where
  "mcp_allowed m p = (p |\<in>| m_mcp_profiles m)"

definition profile_ids :: "authority_model \<Rightarrow> string list" where
  "profile_ids m = map fst (m_profiles m)"

definition totp_authenticators :: "authority_model \<Rightarrow> (string \<times> string) list" where
  "totp_authenticators m =
     List.map_filter (\<lambda>e. case snd e of ATotp f \<Rightarrow> Some (fst e, f) | _ \<Rightarrow> None) (m_authenticators m)"

definition password_authenticators :: "authority_model \<Rightarrow> (string \<times> string) list" where
  "password_authenticators m =
     List.map_filter (\<lambda>e. case snd e of APassword f \<Rightarrow> Some (fst e, f) | _ \<Rightarrow> None) (m_authenticators m)"

definition hmac_authenticators :: "authority_model \<Rightarrow> (string \<times> string) list" where
  "hmac_authenticators m =
     List.map_filter (\<lambda>e. case snd e of AHmac f \<Rightarrow> Some (fst e, f) | _ \<Rightarrow> None) (m_authenticators m)"

definition fido2_credentials :: "authority_model \<Rightarrow> (string \<times> fido2_credential) list" where
  "fido2_credentials m =
     List.map_filter (\<lambda>e. case snd e of AFido2 c \<Rightarrow> Some (fst e, c) | _ \<Rightarrow> None) (m_authenticators m)"

definition tpm_credentials :: "authority_model \<Rightarrow> (string \<times> byte list) list" where
  "tpm_credentials m =
     List.map_filter (\<lambda>e. case snd e of ATpm k \<Rightarrow> Some (fst e, k) | _ \<Rightarrow> None) (m_authenticators m)"

section \<open>Evaluation\<close>

text \<open>
  The loop over the factors of one authority: the weight of the satisfied ones and, in order, what
  is missing.  A group factor evaluates that group's factors and compares with its threshold.
\<close>

definition missing_of :: "duration \<Rightarrow> factor \<Rightarrow> missing" where
  "missing_of elapsed f =
     (case f of
        FAuthenticator i \<Rightarrow> MAuthenticator i
      | FGroup i \<Rightarrow> MGroup i
      | FWait d \<Rightarrow> MWait (d - elapsed))"

definition tally :: "duration \<Rightarrow> weighted_factor \<Rightarrow> bool \<Rightarrow> nat \<times> missing list \<Rightarrow> nat \<times> missing list" where
  "tally elapsed wfac sat r =
     (if sat then (wf_weight wfac + fst r, snd r)
      else (fst r, missing_of elapsed (wf_factor wfac) # snd r))"

partial_function (option) evaluate_factors ::
    "authority_model \<Rightarrow> string fset \<times> duration \<Rightarrow> weighted_factor list \<Rightarrow> (nat \<times> missing list) option" where
  "evaluate_factors m ev wfs =
     (case wfs of
        [] \<Rightarrow> Some (0, [])
      | wfac # rest \<Rightarrow>
          Option.bind
            (case wf_factor wfac of
               FAuthenticator i \<Rightarrow> Some (i |\<in>| fst ev)
             | FGroup i \<Rightarrow>
                 (case bt_get (m_groups m) i of
                    None \<Rightarrow> Some False
                  | Some g \<Rightarrow>
                      Option.bind (evaluate_factors m ev (au_factors g))
                        (\<lambda>r. Some (fst r \<ge> au_threshold g)))
             | FWait d \<Rightarrow> Some (snd ev \<ge> d))
            (\<lambda>sat.
              Option.bind (evaluate_factors m ev rest) (\<lambda>r. Some (tally (snd ev) wfac sat r))))"

definition evaluate ::
    "authority_model \<Rightarrow> authority \<Rightarrow> string fset \<Rightarrow> duration \<Rightarrow> outcome option" where
  "evaluate m au satisfied elapsed =
     map_option (\<lambda>r. \<lparr>o_weight = fst r, o_threshold = au_threshold au,
                      o_met = (fst r \<ge> au_threshold au), o_missing = snd r\<rparr>)
       (evaluate_factors m (satisfied, elapsed) (au_factors au))"

text \<open>The state of the wait search: the longest wait so far and the groups already entered.\<close>

partial_function (option) max_wait_inner ::
    "authority_model \<Rightarrow> weighted_factor list \<Rightarrow> duration \<times> string fset \<Rightarrow> (duration \<times> string fset) option" where
  "max_wait_inner m wfs st =
     (case wfs of
        [] \<Rightarrow> Some st
      | wfac # rest \<Rightarrow>
          Option.bind
            (case wf_factor wfac of
               FWait d \<Rightarrow> Some (d, snd st)
             | FGroup i \<Rightarrow>
                 if i |\<notin>| snd st then
                   (case bt_get (m_groups m) i of
                      Some g \<Rightarrow> max_wait_inner m (au_factors g) (0, finsert i (snd st))
                    | None \<Rightarrow> Some (0, finsert i (snd st)))
                 else Some (0, snd st)
             | FAuthenticator _ \<Rightarrow> Some (0, snd st))
            (\<lambda>r. max_wait_inner m rest (if fst r > fst st then fst r else fst st, snd r)))"

definition max_wait :: "authority_model \<Rightarrow> authority \<Rightarrow> duration option" where
  "max_wait m au = map_option fst (max_wait_inner m (au_factors au) (0, {||}))"

definition verify_ed25519 ::
    "crates \<Rightarrow> authority_model \<Rightarrow> approval_request \<Rightarrow> string \<Rightarrow> approval_error + string" where
  "verify_ed25519 X m request token =
     (case sshsig_parse X (trim token) of
        Inl e \<Rightarrow> Err (Malformed (''not a valid SSHSIG: '' @ e))
      | Inr sg \<Rightarrow>
          if sig_namespace sg \<noteq> approval_namespace then Err (WrongNamespace (sig_namespace sg))
          else
            (case List.map_filter (\<lambda>e. case snd e of
                      AEd25519 pk \<Rightarrow> if pk = sig_public_key sg then Some (fst e, pk) else None
                    | _ \<Rightarrow> None) (m_authenticators m) of
               [] \<Rightarrow> Err (UnknownApprover ''signer is not a configured ed25519 authenticator'')
             | ipk # _ \<Rightarrow>
                 if sshsig_verify X (snd ipk) approval_namespace
                      (as_bytes (challenge_string (b64url_encode X) request)) sg
                 then Ok (fst ipk) else Err BadSignature))"

end
