(* ===== verification/Text_Ops.thy ===== *)
theory Text_Ops
  imports Prelude "HOL-Library.Sublist"
begin

text \<open>
  The standard library's operations on text the string components share: \<open>str::lines\<close>, joining
  with a newline, substring search and \<open>split_whitespace\<close>, with the laws of splitting what was
  joined.
\<close>

abbreviation nl :: char where
  "nl \<equiv> CHR 0x0A"

abbreviation cr :: char where
  "cr \<equiv> CHR 0x0D"

text \<open>A terminated line loses one carriage return before its newline; an unterminated one does not.\<close>

definition strip_cr :: "string \<Rightarrow> string" where
  "strip_cr l = (if l \<noteq> [] \<and> last l = cr then butlast l else l)"

primrec lines_from :: "string \<Rightarrow> string \<Rightarrow> string list" where
  "lines_from acc [] = (if acc = [] then [] else [rev acc])"
| "lines_from acc (c # s) = (if c = nl then strip_cr (rev acc) # lines_from [] s else lines_from (c # acc) s)"

definition str_lines :: "string \<Rightarrow> string list" where
  "str_lines s = lines_from [] s"

text \<open>\<open>join("\n")\<close>.\<close>

fun join_nl :: "string list \<Rightarrow> string" where
  "join_nl [] = []"
| "join_nl [l] = l"
| "join_nl (l # ls) = l @ nl # join_nl ls"

definition str_contains :: "string \<Rightarrow> string \<Rightarrow> bool" where
  "str_contains s part = sublist part s"

text \<open>The word at the front of a text, and what follows it.\<close>

primrec take_word :: "string \<Rightarrow> string" where
  "take_word [] = []"
| "take_word (c # s) = (if strip_any ws_encodings (c # s) = None then c # take_word s else [])"

function split_whitespace :: "string \<Rightarrow> string list" where
  "split_whitespace s =
     (let t = trim_start s; w = take_word t in
      if w = [] then [] else w # split_whitespace (drop (length w) t))"
  by pat_completeness auto

lemma trim_start_by_le: "length (trim_start_by ps s) \<le> length s"
proof (induction ps s rule: trim_start_by.induct)
  case (1 ps s)
  then show ?case
    by (subst trim_start_by.simps) (fastforce dest: strip_any_shorter split: option.splits)
qed

lemma take_word_le: "length (take_word s) \<le> length s"
  by (induction s) auto

termination split_whitespace
proof (relation "measure length")
  fix s t w assume "t = trim_start s" "w = take_word t" "w \<noteq> []"
  then have "0 < length w" "length w \<le> length t" "length t \<le> length s"
    using take_word_le trim_start_by_le by (auto simp: trim_start_def)
  then show "(drop (length w) t, s) \<in> measure length" by (simp del: length_greater_0_conv)
qed simp

declare split_whitespace.simps [simp del]

definition to_ascii_lowercase :: "char \<Rightarrow> char" where
  "to_ascii_lowercase c =
     (let n = (of_char c :: nat) in if 65 \<le> n \<and> n \<le> 90 then char_of (n + 32) else c)"

definition eq_ignore_ascii_case :: "string \<Rightarrow> string \<Rightarrow> bool" where
  "eq_ignore_ascii_case a b = (map to_ascii_lowercase a = map to_ascii_lowercase b)"

section \<open>Laws\<close>

text \<open>A line that survives being written and read back.\<close>

definition plain_line :: "string \<Rightarrow> bool" where
  "plain_line l = (nl \<notin> set l \<and> (l = [] \<or> last l \<noteq> cr))"

lemma strip_cr_plain [simp]: "plain_line l \<Longrightarrow> strip_cr l = l"
  by (auto simp: plain_line_def strip_cr_def)

lemma strip_cr_none: "cr \<notin> set l \<Longrightarrow> strip_cr l = l"
  unfolding strip_cr_def by (metis last_in_set)

lemma lines_from_line: "nl \<notin> set l \<Longrightarrow> lines_from acc (l @ nl # s) = strip_cr (rev acc @ l) # lines_from [] s"
  by (induction l arbitrary: acc) auto

lemma str_lines_line: "plain_line l \<Longrightarrow> str_lines (l @ nl # s) = l # str_lines s"
  using strip_cr_plain [of l] by (simp add: str_lines_def lines_from_line plain_line_def)

lemma str_lines_Nil [simp]: "str_lines [] = []"
  by (simp add: str_lines_def)

lemma str_lines_join:
  "ls \<noteq> [] \<Longrightarrow> list_all plain_line ls \<Longrightarrow> str_lines (join_nl ls @ [nl]) = ls"
  by (induction ls rule: join_nl.induct) (simp_all add: str_lines_line)

lemma join_nl_snoc: "ls \<noteq> [] \<Longrightarrow> join_nl (l # ls) = l @ nl # join_nl ls"
  by (cases ls) auto

text \<open>A text of terminated lines is its lines joined.\<close>

lemma lines_from_unlines:
  "cr \<notin> set s \<Longrightarrow> cr \<notin> set acc \<Longrightarrow> s = [] \<and> acc = [] \<or> s \<noteq> [] \<and> last s = nl \<Longrightarrow>
     (let ls = lines_from acc s in rev acc @ s = (if ls = [] then [] else join_nl ls @ [nl]))"
proof (induction s arbitrary: acc)
  case (Cons c s)
  show ?case
  proof (cases "c = nl")
    case True
    have plain: "strip_cr (rev acc) = rev acc" using Cons.prems by (simp add: strip_cr_none)
    have "s = [] \<or> s \<noteq> [] \<and> last s = nl" using Cons.prems by auto
    then have "s = (if lines_from [] s = [] then [] else join_nl (lines_from [] s) @ [nl])"
      using Cons.IH [of "[]"] Cons.prems by (simp add: Let_def)
    then show ?thesis
      using True plain by (cases "lines_from [] s = []") (auto simp: Let_def join_nl_snoc)
  next
    case False
    then have "s \<noteq> [] \<and> last s = nl" using Cons.prems by (cases s) auto
    then show ?thesis
      using False Cons.IH [of "c # acc"] Cons.prems by (simp add: Let_def)
  qed
qed simp

lemma str_lines_unlines:
  assumes "cr \<notin> set s" "s = [] \<or> last s = nl"
  shows "s = (if str_lines s = [] then [] else join_nl (str_lines s) @ [nl])"
  using lines_from_unlines [of s "[]"] assms by (auto simp: str_lines_def Let_def)

lemma lines_from_snoc_nl: "s @ acc \<noteq> [] \<Longrightarrow> (s = [] \<or> last s \<noteq> nl) \<Longrightarrow> cr \<notin> set s \<Longrightarrow> cr \<notin> set acc \<Longrightarrow>
    lines_from acc (s @ [nl]) = lines_from acc s"
proof (induction s arbitrary: acc)
  case Nil
  then show ?case by (cases acc) (auto simp: strip_cr_none)
next
  case (Cons c s)
  then show ?case by (cases "s = []") (auto simp: strip_cr_none)
qed

lemma str_lines_terminated:
  assumes "cr \<notin> set s"
  shows "(if str_lines s = [] then [] else join_nl (str_lines s) @ [nl]) = (if s = [] \<or> last s = nl then s else s @ [nl])"
proof (cases "s = [] \<or> last s = nl")
  case True
  then show ?thesis using str_lines_unlines [OF assms] by simp
next
  case False
  then have eq: "str_lines (s @ [nl]) = str_lines s"
    using lines_from_snoc_nl [of s "[]"] assms by (simp add: str_lines_def)
  have "s @ [nl] = (if str_lines (s @ [nl]) = [] then [] else join_nl (str_lines (s @ [nl])) @ [nl])"
    by (rule str_lines_unlines) (use assms in simp_all)
  then show ?thesis using False unfolding eq by (auto split: if_splits)
qed

lemma lines_from_plain:
  "nl \<notin> set acc \<Longrightarrow> cr \<notin> set s \<Longrightarrow> cr \<notin> set acc \<Longrightarrow> list_all plain_line (lines_from acc s)"
proof (induction s arbitrary: acc)
  case Nil
  then show ?case by (cases acc) (auto simp: plain_line_def)
next
  case (Cons c s)
  have "plain_line (rev acc)" if "c = nl"
    using Cons.prems by (cases acc) (auto simp: plain_line_def)
  then show ?case using Cons by auto
qed

lemma str_lines_plain: "cr \<notin> set s \<Longrightarrow> list_all plain_line (str_lines s)"
  by (simp add: str_lines_def lines_from_plain)

end
