(* ===== verification/Ssh_Text.thy ===== *)
theory Ssh_Text
  imports Crates Text_Ops
begin

text \<open>
  \<open>core/src/ssh.rs\<close>: the root-login posture, the drop-in file, and the fenced block of emergency
  keys in \<open>authorized_keys\<close>.
\<close>

section \<open>Posture\<close>

datatype posture = PostureNo | ProhibitPassword | PostureYes

definition sshd_token :: "posture \<Rightarrow> string" where
  "sshd_token p =
     (case p of PostureNo \<Rightarrow> ''no'' | ProhibitPassword \<Rightarrow> ''prohibit-password'' | PostureYes \<Rightarrow> ''yes'')"

definition from_sshd_token :: "string \<Rightarrow> posture option" where
  "from_sshd_token token =
     (if token = ''no'' then Some PostureNo
      else if token = ''prohibit-password'' \<or> token = ''without-password'' then Some ProhibitPassword
      else if token = ''yes'' then Some PostureYes
      else None)"

definition render_dropin :: "posture \<Rightarrow> string" where
  "render_dropin p =
     ''# Managed by lychgated; do not edit. Removed when the grant closes.'' @ [nl]
     @ ''PermitRootLogin '' @ sshd_token p @ [nl]"

definition posture_line :: "string \<Rightarrow> posture option" where
  "posture_line line =
     (case split_whitespace line of
        [key, val] \<Rightarrow>
          if eq_ignore_ascii_case key ''permitrootlogin'' then from_sshd_token val else None
      | _ \<Rightarrow> None)"

primrec find_map :: "('a \<Rightarrow> 'b option) \<Rightarrow> 'a list \<Rightarrow> 'b option" where
  "find_map f [] = None"
| "find_map f (x # xs) = (case f x of Some y \<Rightarrow> Some y | None \<Rightarrow> find_map f xs)"

definition parse_effective_posture :: "string \<Rightarrow> posture option" where
  "parse_effective_posture sshd_t_output = find_map posture_line (str_lines sshd_t_output)"

definition default_dropin :: string where
  "default_dropin = ''/etc/ssh/sshd_config.d/00-lychgate.conf''"

section \<open>The fence\<close>

definition fence_begin :: string where
  "fence_begin = ''# --- LYCHGATE BEGIN break-glass keys; do not edit this block ---''"

definition fence_end :: string where
  "fence_end = ''# --- LYCHGATE END ---''"

datatype fence_error = FenceMalformed string | BadKey string string

definition fence_error_display :: "crates \<Rightarrow> fence_error \<Rightarrow> string" where
  "fence_error_display X e =
     (case e of
        FenceMalformed m \<Rightarrow> ''authorized_keys fence is malformed: '' @ m @ ''; refusing to touch the file''
      | BadKey key message \<Rightarrow> ''refusing emergency key '' @ debug_str X key @ '': '' @ message)"

definition validate_key_line :: "string \<Rightarrow> fence_error + unit" where
  "validate_key_line key =
     (if trim key = [] then Err (BadKey key ''empty'')
      else if nl \<in> set key \<or> cr \<in> set key then Err (BadKey key ''contains a line break'')
      else if str_contains key ''LYCHGATE'' then Err (BadKey key ''contains fence marker text'')
      else Ok ())"

definition positions :: "string list \<Rightarrow> string \<Rightarrow> nat list" where
  "positions ls marker = filter (\<lambda>i. ls ! i = marker) [0..<length ls]"

definition locate_fence :: "string list \<Rightarrow> fence_error + (nat \<times> nat) option" where
  "locate_fence ls =
     (case (positions ls fence_begin, positions ls fence_end) of
        ([], []) \<Rightarrow> Ok None
      | ([b], [e]) \<Rightarrow>
          if b < e then Ok (Some (b, e))
          else Err (FenceMalformed
                 (''END marker (line '' @ show_nat (e + 1) @ '') precedes BEGIN (line '' @ show_nat (b + 1) @ '')''))
      | ([], _) \<Rightarrow> Err (FenceMalformed ''END marker without BEGIN'')
      | (_, []) \<Rightarrow> Err (FenceMalformed ''BEGIN marker without END'')
      | _ \<Rightarrow> Err (FenceMalformed ''duplicated markers''))"

definition fence_upsert :: "string \<Rightarrow> string list \<Rightarrow> fence_error + string" where
  "fence_upsert existing keys =
     bind_ok (check_each validate_key_line keys) (\<lambda>_.
     let ls = str_lines existing in
     bind_ok (locate_fence ls) (\<lambda>fence.
     let block = fence_begin # keys @ [fence_end];
         out = (case fence of
                  Some (b, e) \<Rightarrow> take b ls @ block @ drop (e + 1) ls
                | None \<Rightarrow> ls @ block)
     in Ok (join_nl out @ [nl])))"

definition fence_remove :: "string \<Rightarrow> fence_error + string" where
  "fence_remove existing =
     (let ls = str_lines existing in
      bind_ok (locate_fence ls) (\<lambda>fence.
      case fence of
        None \<Rightarrow> Ok existing
      | Some (b, e) \<Rightarrow>
          let out = take b ls @ drop (e + 1) ls in
          if out = [] then Ok [] else Ok (join_nl out @ [nl])))"

text \<open>What a reader of the file sees: the keys inside the fence, and the lines outside it.\<close>

definition fenced_keys :: "string list \<Rightarrow> string list option" where
  "fenced_keys ls =
     (case locate_fence ls of Inr (Some (b, e)) \<Rightarrow> Some (drop (b + 1) (take e ls)) | _ \<Rightarrow> None)"

definition outside_fence :: "string list \<Rightarrow> string list" where
  "outside_fence ls =
     (case locate_fence ls of Inr (Some (b, e)) \<Rightarrow> take b ls @ drop (e + 1) ls | _ \<Rightarrow> ls)"

section \<open>Lemmas\<close>

lemma sshd_token_roundtrip [simp]: "from_sshd_token (sshd_token p) = Some p"
  by (cases p) (simp_all add: sshd_token_def from_sshd_token_def)

lemma positions_Nil: "positions ls m = [] \<longleftrightarrow> m \<notin> set ls"
  by (auto simp: positions_def filter_empty_conv in_set_conv_nth)

lemma positions_append:
  "positions (xs @ ys) m = positions xs m @ map (\<lambda>i. length xs + i) (positions ys m)"
proof -
  have "[0..<length (xs @ ys)] = [0..<length xs] @ map (\<lambda>i. length xs + i) [0..<length ys]"
    using map_add_upt [of "length xs" "length ys"] by (simp add: upt_add_eq_append [of 0] add.commute)
  then show ?thesis
    by (auto simp: positions_def nth_append filter_map o_def intro!: filter_cong)
qed

lemma positions_Cons: "positions (x # xs) m = (if x = m then [0] else []) @ map Suc (positions xs m)"
  using positions_append [of "[x]" xs m] by (simp add: positions_def)

lemma positions_one:
  assumes "positions ls m = [i]"
  obtains pre post where "ls = pre @ m # post" "length pre = i" "m \<notin> set pre" "m \<notin> set post"
proof -
  have "i \<in> set (positions ls m)" using assms by simp
  then have i: "i < length ls" "ls ! i = m" by (auto simp: positions_def)
  then have ls: "ls = take i ls @ m # drop (Suc i) ls" by (metis id_take_nth_drop)
  let ?post = "drop (Suc i) ls"
  have "positions ls m = positions (take i ls) m @ i # map (\<lambda>j. i + Suc j) (positions ?post m)"
    by (subst ls) (use i in \<open>simp add: positions_append positions_Cons o_def\<close>)
  then have "positions (take i ls) m @ i # map (\<lambda>j. i + Suc j) (positions ?post m) = [i]"
    using assms by simp
  then have "positions (take i ls) m = [] \<and> positions ?post m = []"
    by (cases "positions (take i ls) m") auto
  then show thesis using that [of "take i ls" ?post] ls i by (simp add: positions_Nil)
qed

lemma fence_markers [simp]: "fence_begin \<noteq> fence_end" "fence_end \<noteq> fence_begin"
  by (simp_all add: fence_begin_def fence_end_def)

lemma locate_fence_none: "locate_fence ls = Inr None \<longleftrightarrow> fence_begin \<notin> set ls \<and> fence_end \<notin> set ls"
  unfolding positions_Nil [symmetric] by (auto simp: locate_fence_def split: list.splits if_splits)

lemma locate_fence_at:
  assumes "fence_begin \<notin> set pre \<union> set keys \<union> set post" "fence_end \<notin> set pre \<union> set keys \<union> set post"
  shows "locate_fence (pre @ fence_begin # keys @ fence_end # post)
    = Inr (Some (length pre, length pre + length keys + 1))"
proof -
  let ?ls = "pre @ fence_begin # keys @ fence_end # post"
  have "positions pre m = []" "positions keys m = []" "positions post m = []" if "m \<in> {fence_begin, fence_end}" for m
    using assms that by (auto simp: positions_Nil)
  then have "positions ?ls fence_begin = [length pre]" "positions ?ls fence_end = [length pre + length keys + 1]"
    by (simp_all add: positions_append positions_Cons)
  then show ?thesis by (simp add: locate_fence_def)
qed

lemma locate_fence_some:
  assumes "locate_fence ls = Inr (Some (b, e))"
  obtains pre keys post where "ls = pre @ fence_begin # keys @ fence_end # post"
    "b = length pre" "e = length pre + length keys + 1"
    "fence_begin \<notin> set pre \<union> set keys \<union> set post" "fence_end \<notin> set pre \<union> set keys \<union> set post"
proof -
  have p: "positions ls fence_begin = [b]" "positions ls fence_end = [e]" "b < e"
    using assms by (auto simp: locate_fence_def split: list.splits if_splits)
  obtain pre rest where 1: "ls = pre @ fence_begin # rest" "length pre = b"
      "fence_begin \<notin> set pre" "fence_begin \<notin> set rest"
    using positions_one [OF p(1)] .
  obtain front post where 2: "ls = front @ fence_end # post" "length front = e"
      "fence_end \<notin> set front" "fence_end \<notin> set post"
    using positions_one [OF p(2)] .
  have "rest = drop (Suc b) ls" using 1 by simp
  also have "\<dots> = drop (Suc b) front @ fence_end # post" using 2 p(3) by simp
  finally have rest: "rest = drop (Suc b) front @ fence_end # post" .
  have "pre = take b ls" using 1 by simp
  also have "\<dots> = take b front" using 2 p(3) by simp
  finally have "pre = take b front" .
  then have "fence_end \<notin> set pre" using 2(3) in_set_takeD by metis
  moreover have "fence_end \<notin> set (drop (Suc b) front)" using 2(3) in_set_dropD by metis
  moreover have "e = length pre + length (drop (Suc b) front) + 1" using 1(2) 2(2) p(3) by simp
  moreover have "ls = pre @ fence_begin # drop (Suc b) front @ fence_end # post" using 1(1) rest by simp
  moreover have "fence_begin \<notin> set (drop (Suc b) front) \<union> set post" using 1(4) rest by auto
  ultimately show thesis
    using that [of pre "drop (Suc b) front" post] 1(2,3) 2(4) by blast
qed

lemma fence_view_at:
  assumes "fence_begin \<notin> set pre \<union> set keys \<union> set post" "fence_end \<notin> set pre \<union> set keys \<union> set post"
  shows "fenced_keys (pre @ fence_begin # keys @ fence_end # post) = Some keys"
    and "outside_fence (pre @ fence_begin # keys @ fence_end # post) = pre @ post"
  using locate_fence_at [OF assms] by (simp_all add: fenced_keys_def outside_fence_def)

lemma validate_key_line_ok:
  assumes "validate_key_line k = Ok u"
  shows "plain_line k" "k \<noteq> fence_begin" "k \<noteq> fence_end"
proof -
  have c: "nl \<notin> set k" "cr \<notin> set k" "\<not> str_contains k ''LYCHGATE''"
    using assms by (auto simp: validate_key_line_def split: if_splits)
  show "plain_line k" using c unfolding plain_line_def by (metis last_in_set)
  have "str_contains fence_begin ''LYCHGATE''" "str_contains fence_end ''LYCHGATE''" by code_simp+
  then show "k \<noteq> fence_begin" "k \<noteq> fence_end" using c(3) by auto
qed

lemma plain_markers [simp]: "plain_line fence_begin" "plain_line fence_end"
  by (simp_all add: plain_line_def fence_begin_def fence_end_def)

text \<open>The shape of a successful insertion: the lines outside stay, the block has exactly the keys.\<close>

lemma fence_upsert_shape:
  assumes "fence_upsert existing keys = Ok out"
  obtains pre post where "out = join_nl (pre @ fence_begin # keys @ fence_end # post) @ [nl]"
    "outside_fence (str_lines existing) = pre @ post" "set (pre @ post) \<subseteq> set (str_lines existing)"
    "fence_begin \<notin> set pre \<union> set keys \<union> set post" "fence_end \<notin> set pre \<union> set keys \<union> set post"
    "list_all plain_line keys" "locate_fence (str_lines existing) = Ok None \<Longrightarrow> pre = str_lines existing \<and> post = []"
proof -
  let ?ls = "str_lines existing"
  obtain fence where f: "locate_fence ?ls = Ok fence" and k: "\<forall>k\<in>set keys. validate_key_line k = Ok ()"
    using assms by (auto simp: fence_upsert_def bind_ok_eq_Ok check_each_ok Let_def)
  have keys: "list_all plain_line keys" "fence_begin \<notin> set keys" "fence_end \<notin> set keys"
    using k validate_key_line_ok by (auto simp: list_all_iff)
  show thesis
  proof (cases fence)
    case None
    then have "fence_begin \<notin> set ?ls" "fence_end \<notin> set ?ls" using f by (simp_all add: locate_fence_none)
    then show thesis
      using that [of ?ls "[]"] f None keys k assms
      by (simp add: fence_upsert_def bind_ok_eq_Ok check_each_ok Let_def outside_fence_def)
  next
    case (Some be)
    obtain b e where be: "be = (b, e)" by (cases be)
    obtain pre old post where 1: "?ls = pre @ fence_begin # old @ fence_end # post"
        "b = length pre" "e = length pre + length old + 1"
        "fence_begin \<notin> set pre \<union> set old \<union> set post" "fence_end \<notin> set pre \<union> set old \<union> set post"
      using locate_fence_some [of ?ls b e] f Some be by auto
    then have "out = join_nl (pre @ fence_begin # keys @ fence_end # post) @ [nl]"
      using f Some be k assms by (simp add: fence_upsert_def bind_ok_eq_Ok check_each_ok Let_def)
    moreover have "outside_fence ?ls = pre @ post" using fence_view_at [OF 1(4,5)] 1(1) by simp
    moreover have "set (pre @ post) \<subseteq> set ?ls" unfolding 1(1) by auto
    moreover have "fence_begin \<notin> set pre \<union> set keys \<union> set post" "fence_end \<notin> set pre \<union> set keys \<union> set post"
      using 1(4,5) keys(2,3) by blast+
    moreover have "locate_fence ?ls \<noteq> Ok None" using f Some by simp
    ultimately show thesis using that [of pre post] keys(1) by blast
  qed
qed

lemma outside_subset: "set (outside_fence ls) \<subseteq> set ls"
  by (auto simp: outside_fence_def dest: in_set_takeD in_set_dropD split: sum.splits option.splits)

lemma str_lines_fenced:
  assumes "list_all plain_line (pre @ post)" "list_all plain_line keys"
  shows "str_lines (join_nl (pre @ fence_begin # keys @ fence_end # post) @ [nl])
    = pre @ fence_begin # keys @ fence_end # post"
  using assms by (intro str_lines_join) auto

lemma plain_subset: "list_all plain_line ls \<Longrightarrow> set ms \<subseteq> set ls \<Longrightarrow> list_all plain_line ms"
  by (auto simp: list_all_iff)

lemma str_lines_written: "list_all plain_line ls \<Longrightarrow> str_lines (if ls = [] then [] else join_nl ls @ [nl]) = ls"
  by (simp add: str_lines_join)

lemma fence_remove_lines:
  assumes "fence_remove existing = Ok out" "list_all plain_line (str_lines existing)"
  shows "str_lines out = outside_fence (str_lines existing)"
proof -
  let ?ls = "str_lines existing"
  obtain fence where f: "locate_fence ?ls = Ok fence" using assms(1) by (auto simp: fence_remove_def bind_ok_eq_Ok Let_def)
  show ?thesis
  proof (cases fence)
    case None
    then show ?thesis using assms(1) f by (simp add: fence_remove_def Let_def outside_fence_def)
  next
    case (Some be)
    then have "out = (let ls = outside_fence ?ls in if ls = [] then [] else join_nl ls @ [nl])"
      using assms(1) f by (cases be) (auto simp: fence_remove_def Let_def outside_fence_def split: if_splits)
    moreover have "list_all plain_line (outside_fence ?ls)"
      by (rule plain_subset [OF assms(2) outside_subset])
    ultimately show ?thesis using str_lines_written by (simp add: Let_def)
  qed
qed

lemma outside_fence_clean:
  assumes "locate_fence ls = Ok fence"
  shows "fenced_keys (outside_fence ls) = None" "outside_fence (outside_fence ls) = outside_fence ls"
proof -
  have "locate_fence (outside_fence ls) = Ok None"
  proof (cases fence)
    case None
    then show ?thesis using assms by (simp add: outside_fence_def)
  next
    case (Some be)
    then obtain b e where "locate_fence ls = Ok (Some (b, e))" using assms by (cases be) simp
    then obtain pre keys post where "ls = pre @ fence_begin # keys @ fence_end # post"
      "fence_begin \<notin> set pre \<union> set keys \<union> set post" "fence_end \<notin> set pre \<union> set keys \<union> set post"
      by (rule locate_fence_some) blast
    then show ?thesis using fence_view_at(2) [of pre keys post] by (simp add: locate_fence_none)
  qed
  then show "fenced_keys (outside_fence ls) = None" "outside_fence (outside_fence ls) = outside_fence ls"
    by (simp_all add: fenced_keys_def outside_fence_def)
qed

text \<open>A file of one key, and the same file with an emergency key installed.\<close>

definition one_key_file :: string where
  "one_key_file = join_nl [''k1'', fence_begin, ''k2'', fence_end] @ [nl]"

lemma one_key_lines:
  "str_lines (''k1'' @ [nl]) = [''k1'']" "str_lines (''k1'' @ [cr, nl]) = [''k1'']"
  "locate_fence [''k1''] = Ok None"
  by (simp_all add: str_lines_def strip_cr_def locate_fence_none) (simp add: fence_begin_def fence_end_def)

lemma one_key_plain: "list_all plain_line [''k1'']"
  by (simp add: plain_line_def)

lemma one_key_valid: "validate_key_line ''k2'' = Ok ()"
proof -
  have "trim ''k2'' = ''k2''" by (rule trim_plain) (simp add: is_plain_def)
  then show ?thesis by (simp add: validate_key_line_def str_contains_def sublist_code)
qed

lemma one_key_upsert:
  "fence_upsert (''k1'' @ [nl]) [''k2''] = Ok one_key_file"
  "fence_upsert (''k1'' @ [cr, nl]) [''k2''] = Ok one_key_file"
  using one_key_lines one_key_valid by (simp_all add: fence_upsert_def one_key_file_def)

section \<open>Properties\<close>

text \<open>
  C29. Installing emergency keys, in a file no line of which still ends in a carriage return once its
  line end is taken off: the written file has one well-formed fence that holds exactly the given keys,
  whatever text they contain, and the lines outside the fence are those that were outside it before.
\<close>

theorem fence_upsert_installs:
  assumes "fence_upsert existing keys = Ok out" "list_all plain_line (str_lines existing)"
  shows "fenced_keys (str_lines out) = Some keys \<and>
    outside_fence (str_lines out) = outside_fence (str_lines existing)"
proof -
  obtain pre post where 1: "out = join_nl (pre @ fence_begin # keys @ fence_end # post) @ [nl]"
    "outside_fence (str_lines existing) = pre @ post" "set (pre @ post) \<subseteq> set (str_lines existing)"
    "fence_begin \<notin> set pre \<union> set keys \<union> set post" "fence_end \<notin> set pre \<union> set keys \<union> set post"
    "list_all plain_line keys"
    using fence_upsert_shape [OF assms(1)] .
  then have "str_lines out = pre @ fence_begin # keys @ fence_end # post"
    using str_lines_fenced plain_subset [OF assms(2) 1(3)] by simp
  then show ?thesis using fence_view_at [OF 1(4,5)] 1(2) by simp
qed

theorem fence_upsert_installs_witness:
  "fence_upsert (''k1'' @ [nl]) [''k2''] = Ok one_key_file \<and> fenced_keys (str_lines one_key_file) = Some [''k2''] \<and>
     outside_fence (str_lines one_key_file) = [''k1'']"
  using fence_upsert_installs [OF one_key_upsert(1)] one_key_upsert one_key_lines one_key_plain
  by (simp add: outside_fence_def)

text \<open>
  C30. Removing the fence, from a file no line of which still ends in a carriage return once its line end
  is taken off: exactly the lines outside the fence are left, no fence remains, and removing again
  changes nothing further.
\<close>

theorem fence_remove_clears:
  assumes "fence_remove existing = Ok out" "list_all plain_line (str_lines existing)"
  shows "str_lines out = outside_fence (str_lines existing) \<and> fenced_keys (str_lines out) = None \<and>
    fence_remove out = Ok out"
proof -
  have l: "str_lines out = outside_fence (str_lines existing)" by (rule fence_remove_lines [OF assms])
  obtain fence where f: "locate_fence (str_lines existing) = Ok fence"
    using assms(1) by (auto simp: fence_remove_def bind_ok_eq_Ok Let_def)
  have "locate_fence (str_lines out) = Ok None"
  proof (cases fence)
    case None
    then show ?thesis using f l by (simp add: outside_fence_def)
  next
    case (Some be)
    then obtain b e where "locate_fence (str_lines existing) = Ok (Some (b, e))" using f by (cases be) simp
    then obtain pre keys post where "str_lines existing = pre @ fence_begin # keys @ fence_end # post"
      "fence_begin \<notin> set pre \<union> set keys \<union> set post" "fence_end \<notin> set pre \<union> set keys \<union> set post"
      by (rule locate_fence_some) blast
    then show ?thesis using fence_view_at(2) [of pre keys post] l by (simp add: locate_fence_none)
  qed
  then show ?thesis
    using l outside_fence_clean [OF f] by (simp add: fence_remove_def Let_def)
qed

theorem fence_remove_clears_witness:
  "\<exists>out. fence_remove (''k1'' @ [nl]) = Ok out \<and> fence_remove out = Ok out"
proof -
  have r: "fence_remove (''k1'' @ [nl]) = Ok (''k1'' @ [nl])" using one_key_lines by (simp add: fence_remove_def)
  then show ?thesis using fence_remove_clears [OF r] one_key_lines(1) one_key_plain by auto
qed



text \<open>
  Outside that case bytes outside the fence do change: a carriage return before a newline is lost,
  although the comments on both functions promise to preserve every byte outside the fence.
\<close>

lemma fence_drops_carriage_return:
  "fence_upsert (''k1'' @ [cr, nl]) [''k2''] = fence_upsert (''k1'' @ [nl]) [''k2'']"
  using one_key_upsert by simp_all

end
