(* ===== verification/Templates.thy ===== *)
theory Templates
  imports Text_Ops
begin

text \<open>
  \<open>core/src/vnc.rs\<close> and \<open>core/src/generic.rs\<close>: the command templates an operator writes, and the
  marker match that reads a response as a channel state.
\<close>

section \<open>Placeholders\<close>

definition is_placeholder_char :: "char \<Rightarrow> bool" where
  "is_placeholder_char c =
     (let n = (of_char c :: nat) in 65 \<le> n \<and> n \<le> 90 \<or> 97 \<le> n \<and> n \<le> 122 \<or> c = CHR ''_'')"

text \<open>
  The scan, with the preceding byte carried along instead of an index: at an opening brace not
  after a dollar sign, a run of name characters closed by a brace is a placeholder, and scanning
  resumes after it with the closing brace as the preceding byte.
\<close>

function scan_placeholders :: "char option \<Rightarrow> string \<Rightarrow> string list" where
  "scan_placeholders prev [] = []"
| "scan_placeholders prev (c # s) =
     (let name = takeWhile is_placeholder_char s; rest = dropWhile is_placeholder_char s in
      if c = CHR ''{'' \<and> prev \<noteq> Some (CHR ''$'') \<and> name \<noteq> [] \<and> rest \<noteq> [] \<and> hd rest = CHR ''}''
      then name # scan_placeholders (Some (CHR ''}'')) (tl rest)
      else scan_placeholders (Some c) s)"
  by pat_completeness auto
termination
proof (relation "measure (length \<circ> snd)")
  fix prev :: "char option" and c s name rest
  assume "name = takeWhile is_placeholder_char s" "rest = dropWhile is_placeholder_char s"
  moreover have "length (dropWhile is_placeholder_char s) \<le> length s" by (rule length_dropWhile_le)
  ultimately show "((Some (CHR ''}''), tl rest), (prev, c # s)) \<in> measure (length \<circ> snd)" by simp
qed simp_all

definition placeholders :: "string \<Rightarrow> string list" where
  "placeholders template = scan_placeholders None template"

section \<open>The commands of the \<open>vnc\<close> channel\<close>

definition set_placeholders :: "string list" where
  "set_placeholders = [''target'', ''password_file'']"

definition clear_placeholders :: "string list" where
  "clear_placeholders = [''target'']"

datatype vnc_template_error = Quoted | MissingPasswordFile | ClearHasPasswordFile | UnknownPlaceholder string

definition refuse_quotes :: "string \<Rightarrow> vnc_template_error + unit" where
  "refuse_quotes template = (if CHR 0x27 \<in> set template then Err Quoted else Ok ())"

definition check_set_command :: "string \<Rightarrow> vnc_template_error + unit" where
  "check_set_command template =
     bind_ok (refuse_quotes template) (\<lambda>_.
     let found = placeholders template in
     bind_ok (check_each (\<lambda>ph. if ph \<notin> set set_placeholders then Err (UnknownPlaceholder ph) else Ok ()) found) (\<lambda>_.
     if \<not> list_ex (\<lambda>p. p = ''password_file'') found then Err MissingPasswordFile else Ok ()))"

definition check_clear_command :: "string \<Rightarrow> vnc_template_error + unit" where
  "check_clear_command template =
     bind_ok (refuse_quotes template) (\<lambda>_.
     check_each (\<lambda>ph. if ph = ''password_file'' then Err ClearHasPasswordFile
                      else if ph \<notin> set clear_placeholders then Err (UnknownPlaceholder ph)
                      else Ok ()) (placeholders template))"

section \<open>The generic channels\<close>

datatype generic_template_error = Placeholder string

definition em_dash :: string where
  "em_dash = [CHR 0xE2, CHR 0x80, CHR 0x94]"

definition generic_template_error_display :: "generic_template_error \<Rightarrow> string" where
  "generic_template_error_display e =
     (case e of Placeholder p \<Rightarrow>
        ''references placeholder {'' @ p @ ''}, but this channel substitutes nothing '' @ em_dash
        @ '' lychgate would send it literally'')"

definition forbid_placeholders :: "string \<Rightarrow> generic_template_error + unit" where
  "forbid_placeholders template =
     (case placeholders template of p # _ \<Rightarrow> Err (Placeholder p) | [] \<Rightarrow> Ok ())"

datatype channel_state = ChOpen | ChClosed

datatype match_error = MatchNeither | MatchBoth

definition match_state :: "string \<Rightarrow> string \<Rightarrow> string \<Rightarrow> match_error + channel_state" where
  "match_state body open_marker closed_marker =
     (case (str_contains body open_marker, str_contains body closed_marker) of
        (True, True) \<Rightarrow> Err MatchBoth
      | (True, False) \<Rightarrow> Ok ChOpen
      | (False, True) \<Rightarrow> Ok ChClosed
      | (False, False) \<Rightarrow> Err MatchNeither)"

text \<open>What the comment on the scanner calls a placeholder, as an occurrence in the template.\<close>

definition occurs_placeholder :: "char option \<Rightarrow> string \<Rightarrow> string \<Rightarrow> bool" where
  "occurs_placeholder prev template name \<longleftrightarrow>
     name \<noteq> [] \<and> list_all is_placeholder_char name \<and>
     (\<exists>a b. template = a @ CHR ''{'' # name @ CHR ''}'' # b \<and>
        (if a = [] then prev \<noteq> Some (CHR ''$'') else last a \<noteq> CHR ''$''))"

section \<open>Lemmas\<close>

lemma braces_not_name [simp]: "\<not> is_placeholder_char (CHR ''{'')" "\<not> is_placeholder_char (CHR ''}'')"
  by (simp_all add: is_placeholder_char_def)

lemma span_name:
  assumes "list_all is_placeholder_char name"
  shows "takeWhile is_placeholder_char (name @ CHR ''}'' # b) = name"
    "dropWhile is_placeholder_char (name @ CHR ''}'' # b) = CHR ''}'' # b"
  using assms by (simp_all add: list_all_iff)

lemma occurrence_after:
  "list_all is_placeholder_char first \<Longrightarrow> a @ CHR ''{'' # x = first @ CHR ''}'' # r \<Longrightarrow>
     \<exists>a'. a = first @ CHR ''}'' # a' \<and> r = a' @ CHR ''{'' # x"
proof (induction first arbitrary: a)
  case Nil
  then show ?case by (cases a) auto
next
  case (Cons c first)
  then show ?case by (cases a) auto
qed

lemma occurs_match:
  assumes "list_all is_placeholder_char first" "first \<noteq> []" "prev \<noteq> Some (CHR ''$'')"
  shows "occurs_placeholder prev (CHR ''{'' # first @ CHR ''}'' # r) name \<longleftrightarrow>
    name = first \<or> occurs_placeholder (Some (CHR ''}'')) r name"
proof
  assume l: "occurs_placeholder prev (CHR ''{'' # first @ CHR ''}'' # r) name"
  then obtain a b where n: "name \<noteq> []" "list_all is_placeholder_char name"
    and t: "CHR ''{'' # first @ CHR ''}'' # r = a @ CHR ''{'' # name @ CHR ''}'' # b"
    and d: "if a = [] then prev \<noteq> Some (CHR ''$'') else last a \<noteq> CHR ''$''"
    by (auto simp: occurs_placeholder_def)
  show "name = first \<or> occurs_placeholder (Some (CHR ''}'')) r name"
  proof (cases a)
    case Nil
    then have "first @ CHR ''}'' # r = name @ CHR ''}'' # b" using t by simp
    then show ?thesis using span_name(1) [OF assms(1), of r] span_name(1) [OF n(2), of b] by simp
  next
    case (Cons c a0)
    then have "a0 @ CHR ''{'' # name @ CHR ''}'' # b = first @ CHR ''}'' # r" using t by simp
    then obtain a' where "a0 = first @ CHR ''}'' # a'" "r = a' @ CHR ''{'' # name @ CHR ''}'' # b"
      using occurrence_after [OF assms(1)] by blast
    then show ?thesis using n d Cons by (auto simp: occurs_placeholder_def split: if_splits)
  qed
next
  assume r: "name = first \<or> occurs_placeholder (Some (CHR ''}'')) r name"
  show "occurs_placeholder prev (CHR ''{'' # first @ CHR ''}'' # r) name"
  proof (cases "name = first")
    case True
    then show ?thesis using assms unfolding occurs_placeholder_def by fastforce
  next
    case False
    then obtain a b where "r = a @ CHR ''{'' # name @ CHR ''}'' # b" "name \<noteq> []"
      "list_all is_placeholder_char name" "a = [] \<or> last a \<noteq> CHR ''$''"
      using r by (auto simp: occurs_placeholder_def split: if_splits)
    then show ?thesis
      unfolding occurs_placeholder_def
      by (intro conjI exI [of _ "CHR ''{'' # first @ CHR ''}'' # a"] exI [of _ b]) auto
  qed
qed

lemma occurs_skip:
  assumes "\<not> occurs_placeholder prev (c # s) name \<or> \<not> (\<exists>b. c # s = CHR ''{'' # name @ CHR ''}'' # b) \<or>
    prev = Some (CHR ''$'')"
  shows "occurs_placeholder prev (c # s) name \<longleftrightarrow> occurs_placeholder (Some c) s name"
proof
  assume "occurs_placeholder prev (c # s) name"
  then obtain a b where n: "name \<noteq> []" "list_all is_placeholder_char name"
    and t: "c # s = a @ CHR ''{'' # name @ CHR ''}'' # b"
    and d: "if a = [] then prev \<noteq> Some (CHR ''$'') else last a \<noteq> CHR ''$''"
    by (auto simp: occurs_placeholder_def)
  then have "a \<noteq> []" using assms \<open>occurs_placeholder prev (c # s) name\<close> by auto
  then obtain a' where "a = c # a'" using t by (cases a) auto
  then show "occurs_placeholder (Some c) s name"
    using n t d by (auto simp: occurs_placeholder_def split: if_splits)
next
  assume "occurs_placeholder (Some c) s name"
  then obtain a b where "s = a @ CHR ''{'' # name @ CHR ''}'' # b" "name \<noteq> []"
    "list_all is_placeholder_char name" "if a = [] then Some c \<noteq> Some (CHR ''$'') else last a \<noteq> CHR ''$''"
    unfolding occurs_placeholder_def by blast
  then show "occurs_placeholder prev (c # s) name"
    unfolding occurs_placeholder_def by (intro conjI exI [of _ "c # a"] exI [of _ b]) auto
qed

lemma scan_placeholders_iff: "name \<in> set (scan_placeholders prev t) \<longleftrightarrow> occurs_placeholder prev t name"
proof (induction prev t rule: scan_placeholders.induct)
  case (1 prev)
  then show ?case by (simp add: occurs_placeholder_def)
next
  case (2 prev c s)
  let ?name = "takeWhile is_placeholder_char s" and ?rest = "dropWhile is_placeholder_char s"
  let ?hit = "c = CHR ''{'' \<and> prev \<noteq> Some (CHR ''$'') \<and> ?name \<noteq> [] \<and> ?rest \<noteq> [] \<and> hd ?rest = CHR ''}''"
  show ?case
  proof (cases ?hit)
    case True
    have "s = ?name @ CHR ''}'' # tl ?rest" using True by (metis list.collapse takeWhile_dropWhile_id)
    moreover have "list_all is_placeholder_char ?name" by (auto simp: list_all_iff dest: set_takeWhileD)
    ultimately have "occurs_placeholder prev (c # s) name \<longleftrightarrow>
        name = ?name \<or> occurs_placeholder (Some (CHR ''}'')) (tl ?rest) name"
      using occurs_match [of ?name prev "tl ?rest" name] True by simp
    then show ?thesis using 2(1) [OF refl refl] True by (simp add: Let_def)
  next
    case False
    have "\<not> occurs_placeholder prev (c # s) name \<or> \<not> (\<exists>b. c # s = CHR ''{'' # name @ CHR ''}'' # b) \<or>
        prev = Some (CHR ''$'')"
    proof (rule ccontr)
      assume "\<not> ?thesis"
      then obtain b where b: "occurs_placeholder prev (c # s) name" "c = CHR ''{''" "s = name @ CHR ''}'' # b"
        "prev \<noteq> Some (CHR ''$'')" by blast
      have "list_all is_placeholder_char name" "name \<noteq> []" using b(1) by (simp_all add: occurs_placeholder_def)
      then show False using False b span_name [of name b] by simp
    qed
    from occurs_skip [OF this] show ?thesis
      unfolding scan_placeholders.simps(2) Let_def if_not_P [OF False] by (simp only: 2(2) [OF refl refl False])
  qed
qed

section \<open>Properties\<close>

text \<open>
  C32. The template checks accept exactly what they promise.  A set-password command passes if and
  only if it has no single quote, names \<open>{password_file}\<close>, and every placeholder occurring anywhere
  in it is \<open>{target}\<close> or \<open>{password_file}\<close>; a clear command passes if and only if it has no single
  quote and its only placeholder is \<open>{target}\<close>; a generic template passes if and only if no
  placeholder occurs in it.  An occurrence is a braced run of letters and underscores that does not
  follow a dollar sign.
\<close>

theorem template_checks_exact:
  "(check_set_command t = Ok () \<longleftrightarrow>
      CHR 0x27 \<notin> set t \<and> occurs_placeholder None t ''password_file'' \<and>
      (\<nexists>name. occurs_placeholder None t name \<and> name \<noteq> ''target'' \<and> name \<noteq> ''password_file'')) \<and>
   (check_clear_command t = Ok () \<longleftrightarrow>
      CHR 0x27 \<notin> set t \<and> (\<nexists>name. occurs_placeholder None t name \<and> name \<noteq> ''target'')) \<and>
   (forbid_placeholders t = Ok () \<longleftrightarrow> (\<nexists>name. occurs_placeholder None t name))"
proof (intro conjI)
  note found = scan_placeholders_iff [of _ None t, folded placeholders_def]
  show "check_set_command t = Ok () \<longleftrightarrow>
      CHR 0x27 \<notin> set t \<and> occurs_placeholder None t ''password_file'' \<and>
      (\<nexists>name. occurs_placeholder None t name \<and> name \<noteq> ''target'' \<and> name \<noteq> ''password_file'')"
    unfolding found [symmetric]
    by (auto simp: check_set_command_def refuse_quotes_def bind_ok_eq_Ok check_each_ok Let_def list_ex_iff
        set_placeholders_def split: if_splits)
  show "check_clear_command t = Ok () \<longleftrightarrow>
      CHR 0x27 \<notin> set t \<and> (\<nexists>name. occurs_placeholder None t name \<and> name \<noteq> ''target'')"
    unfolding found [symmetric]
    by (auto simp: check_clear_command_def refuse_quotes_def bind_ok_eq_Ok check_each_ok
        clear_placeholders_def split: if_splits)
  show "forbid_placeholders t = Ok () \<longleftrightarrow> (\<nexists>name. occurs_placeholder None t name)"
    unfolding found [symmetric] by (cases "placeholders t") (auto simp: forbid_placeholders_def)
qed

end
