(* ===== verification/Inventory.thy ===== *)
theory Inventory
  imports Authority Channel_Kind Ssh_Text Templates
begin

text \<open>
  \<open>core/src/inventory.rs\<close>: the host inventory and every load-time refusal.  Deserialisation of the
  TOML text is a parameter of \<open>inventory_parse\<close>; the types below are the schema it produces, with its
  defaults.  Ports and status codes keep their width.
\<close>

section \<open>Schema\<close>

record host_access =
  ha_profiles :: "string list"
  ha_overrides :: "(string, authority_body) btree_map"

datatype bmc_method = Redfish | Racadm | Ipmitool

datatype bmc_tls = CaFile string | Insecure

record bmc_config =
  bmc_endpoint :: string
  bmc_method :: bmc_method
  bmc_account_user :: string
  bmc_account_id :: string
  bmc_auth_user :: string
  bmc_auth_password_file :: string
  bmc_tls :: bmc_tls

datatype 'a verify_mode = VerifyNone string | VerifyProbe 'a

record http_request_spec =
  hr_method :: string
  hr_path :: string
  hr_body :: "string option"
  hr_expect_status :: "16 word"

record http_verify_spec =
  hv_method :: string
  hv_path :: string
  hv_expect_status :: "16 word"
  hv_open_marker :: string
  hv_closed_marker :: string

record http_config =
  http_endpoint :: string
  http_tls :: bmc_tls
  http_auth_user :: "string option"
  http_auth_password_file :: "string option"
  http_open :: http_request_spec
  http_revert :: http_request_spec
  http_verify :: "http_verify_spec verify_mode"

datatype mqtt_auth = TlsClientCert string string string | PasswordAuth string

record mqtt_message_spec =
  mm_topic :: string
  mm_payload :: string

definition default_mqtt_timeout_secs :: nat where
  "default_mqtt_timeout_secs = 5"

record mqtt_verify_spec =
  mv_topic :: string
  mv_open_marker :: string
  mv_closed_marker :: string
  mv_timeout_secs :: nat

record mqtt_config =
  mqtt_broker :: string
  mqtt_client_id :: "string option"
  mqtt_auth :: "mqtt_auth option"
  mqtt_open :: mqtt_message_spec
  mqtt_revert :: mqtt_message_spec
  mqtt_verify :: "mqtt_verify_spec verify_mode"

definition default_serial_timeout_secs :: nat where
  "default_serial_timeout_secs = 5"

record serial_cmd_spec =
  sc_send :: string
  sc_expect :: string

record serial_verify_spec =
  sv_send :: string
  sv_open_marker :: string
  sv_closed_marker :: string

record serial_config =
  serial_device :: string
  serial_baud :: "32 word option"
  serial_timeout_secs :: nat
  serial_open :: serial_cmd_spec
  serial_revert :: serial_cmd_spec
  serial_verify :: "serial_verify_spec verify_mode"

record signing_spec =
  sg_key_file :: "string option"
  sg_p256_key_file :: "string option"

datatype device_alg = DevEd25519 | DevP256

definition default_device_alg :: device_alg where
  "default_device_alg = DevEd25519"

definition default_device_capability :: "32 word" where
  "default_device_capability = 1"

datatype device_transport_kind = ViaHttp | ViaMqtt | ViaSerial

record device_serial =
  ds_device :: string
  ds_baud :: "32 word option"
  ds_timeout_secs :: nat

record device_http =
  dh_endpoint :: string
  dh_tls :: bmc_tls
  dh_auth_user :: "string option"
  dh_auth_password_file :: "string option"

record device_mqtt =
  dm_broker :: string
  dm_client_id :: "string option"
  dm_auth :: "mqtt_auth option"
  dm_cmd_topic :: string
  dm_reply_topic :: string
  dm_timeout_secs :: nat

datatype fail_state_policy = Energized | DeEnergized

record actuator_spec =
  act_fail_state :: fail_state_policy
  act_current_sense :: bool

record device_config =
  dev_device_id :: string
  dev_alg :: device_alg
  dev_capability :: "32 word"
  dev_transport :: device_transport_kind
  dev_http :: "device_http option"
  dev_mqtt :: "device_mqtt option"
  dev_serial :: "device_serial option"
  dev_actuator :: "actuator_spec option"

text \<open>\<open>get\<close> on a range off a character boundary gives \<open>None\<close>, which the question mark returns.\<close>

definition device_id_bytes :: "device_config \<Rightarrow> byte list option" where
  "device_id_bytes c =
     (let s = dev_device_id c in
      if length s \<noteq> 32 then None
      else those (map (\<lambda>i.
             if is_char_boundary (2 * i) s \<and> is_char_boundary (2 * i + 2) s
             then u8_from_hex2 (s ! (2 * i)) (s ! (2 * i + 1)) else None) [0..<16]))"

definition default_ssh_port :: "16 word" where
  "default_ssh_port = 22"

definition default_rfb_host :: string where
  "default_rfb_host = ''127.0.0.1''"

definition default_vnc_password_len :: nat where
  "default_vnc_password_len = 8"

definition default_authorized_keys_path :: string where
  "default_authorized_keys_path = ''/root/.ssh/authorized_keys''"

record ssh_config =
  ssh_agent_user :: string
  ssh_port :: "16 word"
  ssh_root_posture_default :: posture
  ssh_root_posture_emergency :: posture
  ssh_authorized_keys_path :: string
  ssh_emergency_keys :: "string list"
  ssh_identity_file :: "string option"
  ssh_become_cmd :: "string option"
  ssh_reload_cmd :: "string option"
  ssh_dropin_path :: "string option"

record vnc_config =
  vnc_agent_user :: string
  vnc_port :: "16 word"
  vnc_identity_file :: "string option"
  vnc_become_cmd :: "string option"
  vnc_rfb_host :: string
  vnc_rfb_port :: "16 word"
  vnc_local_port :: "16 word"
  vnc_target :: string
  vnc_set_password_cmd :: string
  vnc_clear_password_cmd :: string
  vnc_password_len :: nat
  vnc_password_file :: "string option"

datatype os = Freebsd | Linux | Embedded

record host =
  h_name :: string
  h_address :: string
  h_os :: os
  h_channels :: "channel list"
  h_ssh :: "ssh_config option"
  h_bmc :: "bmc_config option"
  h_vnc :: "vnc_config option"
  h_http :: "http_config option"
  h_mqtt :: "mqtt_config option"
  h_serial :: "serial_config option"
  h_device :: "device_config option"
  h_access :: "host_access option"
  h_drill :: bool

record inventory =
  inv_hosts :: "host list"
  inv_signing :: "signing_spec option"
  inv_approval :: "approval_spec option"

text \<open>\<open>ssh::reload_command\<close>; \<open>None\<close> is the \<open>unreachable!\<close> on an embedded host.\<close>

definition reload_command :: "host \<Rightarrow> ssh_config \<Rightarrow> string option" where
  "reload_command h ssh =
     (case ssh_reload_cmd ssh of
        Some cmd \<Rightarrow> Some cmd
      | None \<Rightarrow>
          (case h_os h of
             Freebsd \<Rightarrow> Some ''service sshd reload''
           | Linux \<Rightarrow> Some ''systemctl reload sshd 2>/dev/null || systemctl reload ssh''
           | Embedded \<Rightarrow> None))"

end
