(* ===== verification/Registry.thy ===== *)
theory Registry
  imports Grant Inventory BTree_Map
begin

text \<open>
  \<open>core/src/registry.rs\<close>: one grant per inventory host.  Every mutating method goes through
  \<open>grant_mut\<close>: an unknown host is refused, a known one has its grant replaced by the grant method's
  result.  The sweeps visit the grants in name order.
\<close>

section \<open>Data\<close>

datatype registry_error = UnknownHost string | GrantErr grant_error

record expired_grant =
  eg_host :: string
  eg_opened_at :: system_time
  eg_expires_at :: system_time
  eg_channels :: "channel list"

record expired_pending =
  ep_host :: string
  ep_requested_at :: system_time
  ep_approval_deadline :: system_time

record grant_registry =
  r_grants :: "(string, grant) btree_map"

definition registry_error_display :: "crates \<Rightarrow> registry_error \<Rightarrow> string" where
  "registry_error_display X e =
     (case e of
        UnknownHost h \<Rightarrow> ''host '' @ debug_str X h @ '' is not in the inventory''
      | GrantErr ge \<Rightarrow> grant_error_display ge)"

section \<open>Operations on one host\<close>

definition reg_new :: "inventory \<Rightarrow> grant_registry" where
  "reg_new iv = \<lparr>r_grants = bt_collect (map (\<lambda>h. (h_name h, grant_new)) (inv_hosts iv))\<rparr>"

definition grant_mut ::
    "string \<Rightarrow> (grant \<Rightarrow> (grant_error + 'a) \<times> grant) \<Rightarrow> grant_registry
      \<Rightarrow> (registry_error + 'a) \<times> grant_registry" where
  "grant_mut host m r =
     (case bt_get (r_grants r) host of
        None \<Rightarrow> (Err (UnknownHost host), r)
      | Some g \<Rightarrow> (map_err GrantErr (fst (m g)), r\<lparr>r_grants := bt_set host (snd (m g)) (r_grants r)\<rparr>))"

definition reg_begin_open ::
    "string \<Rightarrow> system_time \<Rightarrow> ttl \<Rightarrow> channel list \<Rightarrow> grant_registry \<Rightarrow> (registry_error + system_time) \<times> grant_registry" where
  "reg_begin_open host now t channels = grant_mut host (grant_begin_open now t channels)"

definition reg_finish_open :: "string \<Rightarrow> grant_registry \<Rightarrow> (registry_error + unit) \<times> grant_registry" where
  "reg_finish_open host = grant_mut host grant_finish_open"

definition reg_abort_open :: "string \<Rightarrow> grant_registry \<Rightarrow> (registry_error + unit) \<times> grant_registry" where
  "reg_abort_open host = grant_mut host grant_abort_open"

definition reg_fail_open ::
    "string \<Rightarrow> channel list \<Rightarrow> system_time \<Rightarrow> grant_registry \<Rightarrow> (registry_error + unit) \<times> grant_registry" where
  "reg_fail_open host stuck now = grant_mut host (grant_fail_open stuck now)"

definition reg_begin_revert ::
    "string \<Rightarrow> system_time \<Rightarrow> grant_registry \<Rightarrow> (registry_error + channel list) \<times> grant_registry" where
  "reg_begin_revert host now = grant_mut host (grant_begin_revert now)"

definition reg_retain_stuck ::
    "string \<Rightarrow> channel list \<Rightarrow> grant_registry \<Rightarrow> (registry_error + bool) \<times> grant_registry" where
  "reg_retain_stuck host stuck = grant_mut host (grant_retain_stuck stuck)"

definition reg_finish_revert :: "string \<Rightarrow> grant_registry \<Rightarrow> (registry_error + unit) \<times> grant_registry" where
  "reg_finish_revert host = grant_mut host grant_finish_revert"

definition reg_renew ::
    "string \<Rightarrow> system_time \<Rightarrow> ttl \<Rightarrow> grant_registry \<Rightarrow> (registry_error + system_time) \<times> grant_registry" where
  "reg_renew host now t = grant_mut host (grant_renew now t)"

definition reg_begin_pending ::
    "string \<Rightarrow> system_time \<Rightarrow> system_time \<Rightarrow> ttl \<Rightarrow> nonce \<Rightarrow> string \<Rightarrow> grant_registry
      \<Rightarrow> (registry_error + unit) \<times> grant_registry" where
  "reg_begin_pending host now deadline t n prof = grant_mut host (grant_begin_pending now deadline t n prof)"

definition reg_add_satisfied ::
    "string \<Rightarrow> system_time \<Rightarrow> string \<Rightarrow> grant_registry \<Rightarrow> (registry_error + bool) \<times> grant_registry" where
  "reg_add_satisfied host now ident = grant_mut host (grant_add_satisfied now ident)"

definition reg_approve_to_opening ::
    "string \<Rightarrow> system_time \<Rightarrow> channel list \<Rightarrow> grant_registry \<Rightarrow> (registry_error + system_time) \<times> grant_registry" where
  "reg_approve_to_opening host now channels = grant_mut host (grant_approve_to_opening now channels)"

definition reg_cancel_pending :: "string \<Rightarrow> grant_registry \<Rightarrow> (registry_error + unit) \<times> grant_registry" where
  "reg_cancel_pending host = grant_mut host grant_cancel_pending"

definition grant_ref :: "string \<Rightarrow> grant_registry \<Rightarrow> registry_error + grant" where
  "grant_ref host r = ok_or (UnknownHost host) (bt_get (r_grants r) host)"

definition reg_pending_view :: "string \<Rightarrow> system_time \<Rightarrow> grant_registry \<Rightarrow> registry_error + pending_view" where
  "reg_pending_view host now r =
     bind_ok (grant_ref host r) (\<lambda>g. map_err GrantErr (grant_pending_view now g))"

definition reg_pending :: "string \<Rightarrow> system_time \<Rightarrow> grant_registry \<Rightarrow> registry_error + approval_request" where
  "reg_pending host now r =
     bind_ok (grant_ref host r) (\<lambda>g. map_err GrantErr (grant_pending_request host now g))"

definition reg_status :: "string \<Rightarrow> system_time \<Rightarrow> grant_registry \<Rightarrow> registry_error + grant_status_view" where
  "reg_status host now r = ok_or (UnknownHost host) (map_option (\<lambda>g. grant_status g now) (bt_get (r_grants r) host))"

section \<open>Sweeps\<close>

definition reg_statuses :: "system_time \<Rightarrow> grant_registry \<Rightarrow> (string \<times> grant_status_view) list" where
  "reg_statuses now r = map (\<lambda>e. (fst e, grant_status (snd e) now)) (r_grants r)"

definition reg_awaiting_approval :: "system_time \<Rightarrow> grant_registry \<Rightarrow> string list" where
  "reg_awaiting_approval now r =
     List.map_filter (\<lambda>e. case grant_status (snd e) now of StAwaitingApproval _ \<Rightarrow> Some (fst e) | _ \<Rightarrow> None)
       (r_grants r)"

text \<open>
  A sweep with \<open>iter_mut\<close>: each grant is visited in name order and replaced, and what is reported is
  collected in that order.  \<open>None\<close> for a whole sweep is a panic at an \<open>expect\<close> or \<open>unreachable!\<close>.
\<close>

primrec sweep ::
    "(string \<Rightarrow> grant \<Rightarrow> ('a option \<times> grant) option) \<Rightarrow> (string, grant) btree_map
      \<Rightarrow> ('a list \<times> (string, grant) btree_map) option" where
  "sweep f [] = Some ([], [])"
| "sweep f (e # es) =
     Option.bind (f (fst e) (snd e)) (\<lambda>rg.
     Option.bind (sweep f es) (\<lambda>rest.
     Some ((case fst rg of Some a \<Rightarrow> a # fst rest | None \<Rightarrow> fst rest), (fst e, snd rg) # snd rest)))"

definition sweep_registry ::
    "(string \<Rightarrow> grant \<Rightarrow> ('a option \<times> grant) option) \<Rightarrow> grant_registry \<Rightarrow> ('a list \<times> grant_registry) option" where
  "sweep_registry f r = map_option (\<lambda>s. (fst s, r\<lparr>r_grants := snd s\<rparr>)) (sweep f (r_grants r))"

definition reap_one :: "system_time \<Rightarrow> string \<Rightarrow> grant \<Rightarrow> (expired_grant option \<times> grant) option" where
  "reap_one now name g =
     (if grant_status g now \<noteq> StExpired then Some (None, g)
      else case grant_parts g of
        Some (POpen opened expires _) \<Rightarrow>
          (case grant_begin_revert now g of
             (Inr channels, g') \<Rightarrow>
               Some (Some \<lparr>eg_host = name, eg_opened_at = opened, eg_expires_at = expires, eg_channels = channels\<rparr>, g')
           | (Inl _, _) \<Rightarrow> None)
      | _ \<Rightarrow> None)"

definition reap_to_revert :: "system_time \<Rightarrow> grant_registry \<Rightarrow> (expired_grant list \<times> grant_registry) option" where
  "reap_to_revert now = sweep_registry (reap_one now)"

definition reap_pending_one :: "system_time \<Rightarrow> string \<Rightarrow> grant \<Rightarrow> (expired_pending option \<times> grant) option" where
  "reap_pending_one now name g =
     (if grant_status g now \<noteq> StApprovalExpired then Some (None, g)
      else case grant_parts g of
        Some (PPending req deadline _ _ _ _) \<Rightarrow>
          (case grant_cancel_pending g of
             (Inr _, g') \<Rightarrow>
               Some (Some \<lparr>ep_host = name, ep_requested_at = req, ep_approval_deadline = deadline\<rparr>, g')
           | (Inl _, _) \<Rightarrow> None)
      | _ \<Rightarrow> None)"

definition reap_expired_pending ::
    "system_time \<Rightarrow> grant_registry \<Rightarrow> (expired_pending list \<times> grant_registry) option" where
  "reap_expired_pending now = sweep_registry (reap_pending_one now)"

definition needing_revert :: "system_time \<Rightarrow> grant_registry \<Rightarrow> (string \<times> channel list) list" where
  "needing_revert now r =
     List.map_filter (\<lambda>e. case grant_status (snd e) now of StNeedsRevert cs \<Rightarrow> Some (fst e, cs) | _ \<Rightarrow> None)
       (r_grants r)"

definition open_channels :: "system_time \<Rightarrow> grant_registry \<Rightarrow> (string \<times> channel list) list" where
  "open_channels now r =
     List.map_filter (\<lambda>e. case grant_status (snd e) now of
         StOpen _ \<Rightarrow> (case grant_parts (snd e) of Some (POpen _ _ cs) \<Rightarrow> Some (fst e, cs) | _ \<Rightarrow> None)
       | _ \<Rightarrow> None) (r_grants r)"

definition demote_one :: "system_time \<Rightarrow> string \<Rightarrow> grant \<Rightarrow> ((string \<times> channel list) option \<times> grant) option" where
  "demote_one now name g =
     (if grant_status g now \<noteq> StOpening then Some (None, g)
      else case grant_parts g of
        Some (POpening _ _ channels) \<Rightarrow>
          (case grant_fail_open channels now g of
             (Inr _, g') \<Rightarrow> Some (Some (name, channels), g')
           | (Inl _, _) \<Rightarrow> None)
      | _ \<Rightarrow> None)"

definition demote_opening :: "system_time \<Rightarrow> grant_registry \<Rightarrow> ((string \<times> channel list) list \<times> grant_registry) option" where
  "demote_opening now = sweep_registry (demote_one now)"

definition reg_knows :: "string \<Rightarrow> grant_registry \<Rightarrow> bool" where
  "reg_knows host r = bt_contains (r_grants r) host"

definition reg_restore :: "string \<Rightarrow> grant \<Rightarrow> grant_registry \<Rightarrow> grant_registry" where
  "reg_restore host g r = r\<lparr>r_grants := bt_set host g (r_grants r)\<rparr>"

section \<open>The step relation\<close>

text \<open>One rule per successful call at instant \<open>now\<close>; refused calls leave the registry as it was.\<close>

inductive reg_step :: "system_time \<Rightarrow> grant_registry \<Rightarrow> grant_registry \<Rightarrow> bool" for now :: system_time where
  reg_step_begin_open: "ttl_ok t \<Longrightarrow> reg_begin_open h now t cs r = (Ok e, r') \<Longrightarrow> reg_step now r r'"
| reg_step_finish_open: "reg_finish_open h r = (Ok (), r') \<Longrightarrow> reg_step now r r'"
| reg_step_abort_open: "reg_abort_open h r = (Ok (), r') \<Longrightarrow> reg_step now r r'"
| reg_step_fail_open: "reg_fail_open h cs now r = (Ok (), r') \<Longrightarrow> reg_step now r r'"
| reg_step_begin_revert: "reg_begin_revert h now r = (Ok cs, r') \<Longrightarrow> reg_step now r r'"
| reg_step_retain_stuck: "reg_retain_stuck h cs r = (Ok b, r') \<Longrightarrow> reg_step now r r'"
| reg_step_finish_revert: "reg_finish_revert h r = (Ok (), r') \<Longrightarrow> reg_step now r r'"
| reg_step_renew: "ttl_ok t \<Longrightarrow> reg_renew h now t r = (Ok e, r') \<Longrightarrow> reg_step now r r'"
| reg_step_begin_pending:
    "ttl_ok t \<Longrightarrow> length n = 32 \<Longrightarrow> reg_begin_pending h now d t n p r = (Ok (), r') \<Longrightarrow> reg_step now r r'"
| reg_step_add_satisfied: "reg_add_satisfied h now i r = (Ok b, r') \<Longrightarrow> reg_step now r r'"
| reg_step_approve: "reg_approve_to_opening h now cs r = (Ok e, r') \<Longrightarrow> reg_step now r r'"
| reg_step_cancel: "reg_cancel_pending h r = (Ok (), r') \<Longrightarrow> reg_step now r r'"
| reg_step_reap: "reap_to_revert now r = Some (es, r') \<Longrightarrow> reg_step now r r'"
| reg_step_reap_pending: "reap_expired_pending now r = Some (ps, r') \<Longrightarrow> reg_step now r r'"
| reg_step_demote: "demote_opening now r = Some (ds, r') \<Longrightarrow> reg_step now r r'"

inductive reg_reach :: "inventory \<Rightarrow> system_time \<Rightarrow> grant_registry \<Rightarrow> bool" for iv :: inventory where
  reg_reach_new: "reg_reach iv now (reg_new iv)"
| reg_reach_tick: "reg_reach iv now r \<Longrightarrow> now \<le> later \<Longrightarrow> reg_reach iv later r"
| reg_reach_step: "reg_reach iv now r \<Longrightarrow> reg_step now r r' \<Longrightarrow> reg_reach iv now r'"

section \<open>Lemmas\<close>

text \<open>
  The contract the three sweeps share: a grant that is hit is reported and moved out of the hit
  states, any other is left alone.
\<close>

locale registry_sweep =
  fixes hit :: "grant \<Rightarrow> bool"
    and visit :: "string \<Rightarrow> grant \<Rightarrow> ('a option \<times> grant) option"
    and report :: "string \<Rightarrow> grant \<Rightarrow> 'a"
    and moved :: "grant \<Rightarrow> grant"
  assumes visit_hit: "hit g \<Longrightarrow> visit n g = Some (Some (report n g), moved g)"
    and visit_miss: "\<not> hit g \<Longrightarrow> visit n g = Some (None, g)"
    and moved_miss: "hit g \<Longrightarrow> \<not> hit (moved g)"
begin

definition swept :: "(string, grant) btree_map \<Rightarrow> (string, grant) btree_map" where
  "swept es = map (\<lambda>e. (fst e, if hit (snd e) then moved (snd e) else snd e)) es"

definition reports :: "(string, grant) btree_map \<Rightarrow> 'a list" where
  "reports es = map (\<lambda>e. report (fst e) (snd e)) (filter (\<lambda>e. hit (snd e)) es)"

lemma sweep_eq: "sweep visit es = Some (reports es, swept es)"
proof (induction es)
  case (Cons e es)
  then show ?case
    by (cases "hit (snd e)") (simp_all add: visit_hit visit_miss reports_def swept_def)
qed (simp add: reports_def swept_def)

lemma sweep_registry_eq: "sweep_registry visit r = Some (reports (r_grants r), r\<lparr>r_grants := swept (r_grants r)\<rparr>)"
  by (simp add: sweep_registry_def sweep_eq)

lemma reports_swept: "reports (swept es) = []" "swept (swept es) = swept es"
  using moved_miss by (auto simp: reports_def swept_def filter_empty_conv)

lemma sweep_again: "sweep_registry visit (r\<lparr>r_grants := swept (r_grants r)\<rparr>) = Some ([], r\<lparr>r_grants := swept (r_grants r)\<rparr>)"
  using reports_swept [of "r_grants r"] by (simp add: sweep_registry_eq)

lemma get_swept: "bt_get (swept es) h = map_option (\<lambda>g. if hit g then moved g else g) (bt_get es h)"
  by (induction es) (auto simp: swept_def)

lemma hosts_swept: "map fst (swept es) = map fst es"
  by (simp add: swept_def)

end

definition to_revert :: "system_time \<Rightarrow> grant \<Rightarrow> grant" where
  "to_revert now g = \<lparr>g_state = NeedsRevert (gs_channels (g_state g)) now\<rparr>"

definition expired_report :: "string \<Rightarrow> grant \<Rightarrow> expired_grant" where
  "expired_report n g = \<lparr>eg_host = n, eg_opened_at = gs_opened_at (g_state g),
     eg_expires_at = gs_expires_at (g_state g), eg_channels = gs_channels (g_state g)\<rparr>"

definition expired_pending_report :: "string \<Rightarrow> grant \<Rightarrow> expired_pending" where
  "expired_pending_report n g = \<lparr>ep_host = n, ep_requested_at = gs_requested_at (g_state g),
     ep_approval_deadline = gs_approval_deadline (g_state g)\<rparr>"

definition is_expired :: "system_time \<Rightarrow> grant \<Rightarrow> bool" where
  "is_expired now g \<longleftrightarrow> grant_status g now = StExpired"

definition is_lapsed :: "system_time \<Rightarrow> grant \<Rightarrow> bool" where
  "is_lapsed now g \<longleftrightarrow> grant_status g now = StApprovalExpired"

definition is_opening :: "system_time \<Rightarrow> grant \<Rightarrow> bool" where
  "is_opening now g \<longleftrightarrow> grant_status g now = StOpening"

lemmas hit_defs = is_expired_def is_lapsed_def is_opening_def

interpretation reap: registry_sweep "is_expired now" "reap_one now" expired_report "to_revert now"
  for now
  by unfold_locales
    (auto simp: hit_defs reap_one_def grant_parts_def grant_begin_revert_def expired_report_def to_revert_def)

interpretation reap_pending: registry_sweep "is_lapsed now" "reap_pending_one now"
  expired_pending_report "\<lambda>_. \<lparr>g_state = Closed\<rparr>" for now
  by unfold_locales
    (auto simp: hit_defs reap_pending_one_def grant_parts_def grant_cancel_pending_def expired_pending_report_def)

interpretation demote: registry_sweep "is_opening now" "demote_one now"
  "\<lambda>n g. (n, gs_channels (g_state g))" "to_revert now" for now
  by unfold_locales (auto simp: hit_defs demote_one_def grant_parts_def grant_fail_open_def to_revert_def)

lemma grant_mut_ok:
  "grant_mut h m r = (Ok a, r') \<longleftrightarrow>
     (\<exists>g g'. bt_get (r_grants r) h = Some g \<and> m g = (Ok a, g') \<and> r' = r\<lparr>r_grants := bt_set h g' (r_grants r)\<rparr>)"
  by (auto simp: grant_mut_def prod_eq_iff split: option.splits)

lemma grant_mut_err:
  assumes "grant_mut h m r = (Err e, r')" "\<And>g er g'. m g = (Err er, g') \<Longrightarrow> g' = g" "bt_ok (r_grants r)"
  shows "r' = r"
proof (cases "bt_get (r_grants r) h")
  case (Some g)
  then obtain er where "fst (m g) = Err er" and r': "r' = r\<lparr>r_grants := bt_set h (snd (m g)) (r_grants r)\<rparr>"
    using assms(1) by (cases "fst (m g)") (auto simp: grant_mut_def)
  then have "snd (m g) = g" using assms(2) [of g er "snd (m g)"] by (simp add: prod_eq_iff)
  then show ?thesis using r' Some assms(3) by (simp add: bt_set_same)
qed (use assms(1) in \<open>simp add: grant_mut_def\<close>)

lemmas reg_defs = reg_begin_open_def reg_finish_open_def reg_abort_open_def reg_fail_open_def
  reg_begin_revert_def reg_retain_stuck_def reg_finish_revert_def reg_renew_def reg_begin_pending_def
  reg_add_satisfied_def reg_approve_to_opening_def reg_cancel_pending_def

text \<open>What one call does to the grants of all hosts.\<close>

definition grants_step :: "system_time \<Rightarrow> grant_registry \<Rightarrow> grant_registry \<Rightarrow> bool" where
  "grants_step now r r' \<longleftrightarrow>
     map fst (r_grants r') = map fst (r_grants r) \<and>
     (\<forall>h. rel_option (\<lambda>g g'. g' = g \<or> grant_step now g g') (bt_get (r_grants r) h) (bt_get (r_grants r') h))"

lemma grant_mut_lifts:
  assumes "grant_mut h m r = (Ok a, r')" "\<And>g g'. m g = (Ok a, g') \<Longrightarrow> grant_step now g g'"
  shows "grants_step now r r'"
proof -
  obtain g g' where g: "bt_get (r_grants r) h = Some g" "m g = (Ok a, g')"
    "r' = r\<lparr>r_grants := bt_set h g' (r_grants r)\<rparr>" using assms(1) by (auto simp: grant_mut_ok)
  have "rel_option (\<lambda>g g'. g' = g \<or> grant_step now g g') (bt_get (r_grants r) j) (bt_get (r_grants r') j)" for j
    using g assms(2) [OF g(2)]
    by (cases "j = h"; cases "bt_get (r_grants r) j") (auto simp: bt_contains_def)
  then show ?thesis using g(3) by (simp add: grants_step_def)
qed

lemma swept_steps:
  "is_expired now g \<Longrightarrow> grant_step now g (to_revert now g)"
  "is_opening now g \<Longrightarrow> grant_step now g (to_revert now g)"
  "is_lapsed now g \<Longrightarrow> grant_step now g \<lparr>g_state = Closed\<rparr>"
proof -
  assume "is_expired now g"
  then show "grant_step now g (to_revert now g)"
    by (intro step_begin_revert [of _ _ "gs_channels (g_state g)"])
      (auto simp: hit_defs to_revert_def grant_begin_revert_ok)
next
  assume "is_opening now g"
  then show "grant_step now g (to_revert now g)"
    by (intro step_fail_open [of "gs_channels (g_state g)"]) (auto simp: hit_defs to_revert_def)
next
  assume "is_lapsed now g"
  then show "grant_step now g \<lparr>g_state = Closed\<rparr>"
    by (auto simp: hit_defs intro!: step_cancel_pending)
qed

lemma sweep_lifts:
  assumes "map fst (r_grants r') = map fst (r_grants r)"
    "\<And>h. bt_get (r_grants r') h = map_option (\<lambda>g. if hit g then moved g else g) (bt_get (r_grants r) h)"
    "\<And>g. hit g \<Longrightarrow> grant_step now g (moved g)"
  shows "grants_step now r r'"
  using assms by (auto simp: grants_step_def option.rel_map intro!: option.rel_refl)

lemma reg_step_lifts: "reg_step now r r' \<Longrightarrow> grants_step now r r'"
proof (induction rule: reg_step.induct)
  case (reg_step_reap r es r')
  then have "r_grants r' = reap.swept now (r_grants r)"
    by (auto simp: reap_to_revert_def reap.sweep_registry_eq)
  then show ?case
    using swept_steps(1) by (intro sweep_lifts [where hit = "is_expired now" and moved = "to_revert now"]) (auto simp: reap.hosts_swept reap.get_swept)
next
  case (reg_step_reap_pending r ps r')
  then have "r_grants r' = reap_pending.swept now (r_grants r)"
    by (auto simp: reap_expired_pending_def reap_pending.sweep_registry_eq)
  then show ?case
    using swept_steps(3) by (intro sweep_lifts [where hit = "is_lapsed now" and moved = "\<lambda>_. \<lparr>g_state = Closed\<rparr>"]) (auto simp: reap_pending.hosts_swept reap_pending.get_swept)
next
  case (reg_step_demote r ds r')
  then have "r_grants r' = demote.swept now (r_grants r)"
    by (auto simp: demote_opening_def demote.sweep_registry_eq)
  then show ?case
    using swept_steps(2) by (intro sweep_lifts [where hit = "is_opening now" and moved = "to_revert now"]) (auto simp: demote.hosts_swept demote.get_swept)
qed (auto simp only: reg_defs elim!: grant_mut_lifts intro: grant_step.intros)

lemma reg_new_grant: "bt_get (r_grants (reg_new iv)) h = Some g \<Longrightarrow> g = grant_new"
  by (auto simp: reg_new_def bt_get_collect dest!: map_of_SomeD)

lemma reg_reach_grants:
  "reg_reach iv now r \<Longrightarrow> map fst (r_grants r) = map fst (r_grants (reg_new iv)) \<and>
     (\<forall>h g. bt_get (r_grants r) h = Some g \<longrightarrow> grant_reach now g)"
proof (induction rule: reg_reach.induct)
  case (reg_reach_new now)
  then show ?case using reg_new_grant by (auto intro: reach_new)
next
  case (reg_reach_tick now r later)
  then show ?case using reach_tick by blast
next
  case (reg_reach_step now r r')
  have s: "grants_step now r r'" using reg_step_lifts reg_reach_step(2) .
  have "grant_reach now g'" if g': "bt_get (r_grants r') h = Some g'" for h g'
  proof -
    have "rel_option (\<lambda>g g'. g' = g \<or> grant_step now g g') (bt_get (r_grants r) h) (Some g')"
      using s g' unfolding grants_step_def by metis
    then obtain g where "bt_get (r_grants r) h = Some g" "g' = g \<or> grant_step now g g'"
      by (auto simp: option_rel_Some2)
    then show ?thesis using reg_reach_step.IH reach_step by blast
  qed
  then show ?case using s reg_reach_step.IH by (simp add: grants_step_def)
qed

lemma reg_new_hosts: "bt_contains (r_grants (reg_new iv)) h \<longleftrightarrow> h \<in> h_name ` set (inv_hosts iv)"
  by (force simp: reg_new_def bt_contains_def bt_get_collect map_of_eq_None_iff image_iff)

section \<open>Properties\<close>

text \<open>
  C13. Break-glass access is never open-ended on any host: in every reachable registry a host reported
  open is a host of the inventory and has at most the cap left.
\<close>

theorem registry_open_bounded:
  assumes "reg_reach iv now r" "reg_status h now r = Ok (StOpen remaining)"
  shows "h \<in> h_name ` set (inv_hosts iv) \<and> 0 < remaining \<and> remaining \<le> from_secs max_ttl_secs"
proof -
  obtain g where g: "bt_get (r_grants r) h = Some g" "grant_status g now = StOpen remaining"
    using assms(2) by (auto simp: reg_status_def ok_or_def split: option.splits)
  have "grant_ok now g" using reg_reach_grants [OF assms(1)] g(1) grant_reach_ok by blast
  then have "0 < remaining \<and> remaining \<le> from_secs max_ttl_secs"
    using g(2) by (auto simp: grant_ok_def)
  moreover have "h \<in> fst ` set (r_grants r)" using g(1) bt_contains_iff bt_contains_def by (metis option.distinct(1))
  then have "bt_contains (r_grants (reg_new iv)) h"
    using reg_reach_grants [OF assms(1)] bt_contains_iff by (metis list.set_map)
  ultimately show ?thesis by (simp add: reg_new_hosts)
qed

theorem registry_open_bounded_witness:
  "\<exists>iv r. reg_reach iv 0 r \<and> reg_status ''a'' 0 r = Ok (StOpen (from_secs 60)) \<and>
     from_secs 60 \<le> from_secs max_ttl_secs"
proof -
  define iv where "iv = \<lparr>inv_hosts = [undefined\<lparr>h_name := ''a''\<rparr>], inv_signing = None, inv_approval = None\<rparr>"
  define at where "at st = \<lparr>r_grants = [(''a'', \<lparr>g_state = st\<rparr>)]\<rparr>" for st
  have new: "reg_new iv = at Closed" by (simp add: reg_new_def iv_def at_def bt_collect_def grant_new_def)
  have "reg_begin_open ''a'' 0 (Ttl (from_secs 60)) [] (at Closed) = (Ok (int (from_secs 60)), at (Opening 0 (int (from_secs 60)) []))"
    by (simp add: reg_begin_open_def grant_mut_def at_def grant_begin_open_def grant_status_def bt_set_def
        checked_add_time_def clock_end_def from_secs_def nanos_per_sec_def)
  then have "reg_step 0 (at Closed) (at (Opening 0 (int (from_secs 60)) []))"
    by (intro reg_step_begin_open) (auto simp: ttl_ok_def max_ttl_secs_def)
  moreover have "reg_step 0 (at (Opening 0 (int (from_secs 60)) [])) (at (Open 0 (int (from_secs 60)) []))"
    by (rule reg_step_finish_open [of "''a''"])
      (simp add: reg_finish_open_def grant_mut_def at_def grant_finish_open_def bt_set_def)
  ultimately have reach: "reg_reach iv 0 (at (Open 0 (int (from_secs 60)) []))"
    using reg_reach_new [of iv 0] reg_reach_step new by metis
  have st: "reg_status ''a'' 0 (at (Open 0 (int (from_secs 60)) [])) = Ok (StOpen (from_secs 60))"
    by (simp add: reg_status_def at_def from_secs_def nanos_per_sec_def)
  show ?thesis using registry_open_bounded [OF reach st] reach st by blast
qed

text \<open>
  C22. Expiry is swept exactly and once.  Sweeping never panics; it reports, in name order, exactly the
  grants observed expired, with the channels they applied; afterwards exactly those grants need
  revert for the same channels, and sweeping again at the same instant reports nothing.  Requests
  whose approval window lapsed are swept the same way, to closed.
\<close>

theorem reaping_exact:
  "\<exists>r1 r2.
     reap_to_revert now r =
       Some (map (\<lambda>(h, g). \<lparr>eg_host = h, eg_opened_at = gs_opened_at (g_state g),
                eg_expires_at = gs_expires_at (g_state g), eg_channels = gs_channels (g_state g)\<rparr>)
              (filter (\<lambda>(h, g). grant_status g now = StExpired) (r_grants r)), r1) \<and>
     r_grants r1 = map (\<lambda>(h, g). (h, if grant_status g now = StExpired
        then \<lparr>g_state = NeedsRevert (gs_channels (g_state g)) now\<rparr> else g)) (r_grants r) \<and>
     reap_to_revert now r1 = Some ([], r1) \<and>
     reap_expired_pending now r =
       Some (map (\<lambda>(h, g). \<lparr>ep_host = h, ep_requested_at = gs_requested_at (g_state g),
                ep_approval_deadline = gs_approval_deadline (g_state g)\<rparr>)
              (filter (\<lambda>(h, g). grant_status g now = StApprovalExpired) (r_grants r)), r2) \<and>
     r_grants r2 = map (\<lambda>(h, g). (h, if grant_status g now = StApprovalExpired
        then \<lparr>g_state = Closed\<rparr> else g)) (r_grants r) \<and>
     reap_expired_pending now r2 = Some ([], r2)"
  by (rule exI [of _ "r\<lparr>r_grants := reap.swept now (r_grants r)\<rparr>"],
      rule exI [of _ "r\<lparr>r_grants := reap_pending.swept now (r_grants r)\<rparr>"])
    (simp only: hit_defs [symmetric] reap_to_revert_def reap_expired_pending_def reap.sweep_again
      reap_pending.sweep_again, simp add: reap.sweep_registry_eq reap_pending.sweep_registry_eq
      reap.reports_def reap.swept_def reap_pending.reports_def reap_pending.swept_def case_prod_beta'
      expired_report_def expired_pending_report_def to_revert_def)

text \<open>
  After boot no open is in flight: demoting reports exactly the grants stored mid-open with all the
  channels they intended, and leaves each of them needing revert for all of those channels, so that
  no half-applied channel is forgotten; every other grant is untouched.
\<close>

theorem demote_opening_exact:
  "\<exists>r'. demote_opening now r =
       Some (map (\<lambda>(h, g). (h, gs_channels (g_state g)))
              (filter (\<lambda>(h, g). grant_status g now = StOpening) (r_grants r)), r') \<and>
     r_grants r' = map (\<lambda>(h, g). (h, if grant_status g now = StOpening
        then \<lparr>g_state = NeedsRevert (gs_channels (g_state g)) now\<rparr> else g)) (r_grants r) \<and>
     filter (\<lambda>(h, g). grant_status g now = StOpening) (r_grants r') = []"
proof -
  have "filter (\<lambda>(h, g). is_opening now g) (demote.swept now (r_grants r)) = []"
    using demote.moved_miss by (auto simp: demote.swept_def filter_empty_conv split: if_splits)
  then show ?thesis
    unfolding hit_defs [symmetric]
    by (intro exI [of _ "r\<lparr>r_grants := demote.swept now (r_grants r)\<rparr>"])
      (simp add: demote_opening_def demote.sweep_registry_eq demote.reports_def case_prod_beta',
       simp add: demote.swept_def to_revert_def)
qed

end
