(* ===== verification/Channel.thy ===== *)
theory Channel
  imports Inventory BTree_Map
begin

text \<open>
  \<open>core/src/channel.rs\<close>: the driver seam and the orchestration over it.  A driver is a record of
  functions over a world \<open>'w\<close>, which holds whatever the drivers keep and whatever they act on; the
  orchestration threads the world through the calls.  A panic at an \<open>expect\<close> is \<open>None\<close>.
\<close>

section \<open>Drivers\<close>

datatype driver_error = DriverError string

record apply_ctx =
  ctx_ttl_secs :: nat
  ctx_expires_at :: system_time

type_synonym secret = string

record 'w driver =
  d_channel :: channel
  d_apply :: "host \<Rightarrow> apply_ctx \<Rightarrow> 'w \<Rightarrow> (driver_error + unit) \<times> 'w"
  d_revert :: "host \<Rightarrow> 'w \<Rightarrow> (driver_error + unit) \<times> 'w"
  d_verify :: "host \<Rightarrow> 'w \<Rightarrow> (driver_error + channel_state) \<times> 'w"
  d_renew :: "host \<Rightarrow> apply_ctx \<Rightarrow> 'w \<Rightarrow> (driver_error + unit) \<times> 'w"
  d_take_secret :: "'w \<Rightarrow> secret option \<times> 'w"
  d_reestablish :: "host \<Rightarrow> 'w \<Rightarrow> (driver_error + channel_state) \<times> 'w"
  d_suspend :: "'w \<Rightarrow> 'w"

text \<open>The trait's provided methods, for a driver that overrides none of them.\<close>

definition default_renew :: "host \<Rightarrow> apply_ctx \<Rightarrow> 'w \<Rightarrow> (driver_error + unit) \<times> 'w" where
  "default_renew h ctx w = (Ok (), w)"

definition default_take_secret :: "'w \<Rightarrow> secret option \<times> 'w" where
  "default_take_secret w = (None, w)"

definition default_reestablish ::
    "(host \<Rightarrow> 'w \<Rightarrow> (driver_error + channel_state) \<times> 'w) \<Rightarrow> host \<Rightarrow> 'w \<Rightarrow> (driver_error + channel_state) \<times> 'w" where
  "default_reestablish verify h w = verify h w"

definition default_suspend :: "'w \<Rightarrow> 'w" where
  "default_suspend w = w"

section \<open>The driver set\<close>

type_synonym 'w driver_set = "(channel, 'w driver) btree_map"

definition channel_debug :: "channel \<Rightarrow> string" where
  "channel_debug c =
     (case c of Ssh \<Rightarrow> ''Ssh'' | AuthorizedKeys \<Rightarrow> ''AuthorizedKeys'' | Bmc \<Rightarrow> ''Bmc'' | Vnc \<Rightarrow> ''Vnc''
      | Http \<Rightarrow> ''Http'' | Mqtt \<Rightarrow> ''Mqtt'' | Serial \<Rightarrow> ''Serial'' | Device \<Rightarrow> ''Device'')"

definition ds_register :: "'w driver \<Rightarrow> 'w driver_set \<Rightarrow> (driver_error + unit) \<times> 'w driver_set" where
  "ds_register d ds =
     (if bt_contains ds (d_channel d)
      then (Err (DriverError (''a driver for channel '' @ channel_debug (d_channel d) @ '' is already registered'')), ds)
      else (Ok (), bt_insert (d_channel d) d ds))"

definition ds_take_secret :: "'w driver_set \<Rightarrow> channel \<Rightarrow> 'w \<Rightarrow> secret option \<times> 'w" where
  "ds_take_secret ds c w =
     (case bt_get ds c of None \<Rightarrow> (None, w) | Some d \<Rightarrow> d_take_secret d w)"

definition drivable :: "'w driver_set \<Rightarrow> channel list \<Rightarrow> channel list" where
  "drivable ds requested = filter (bt_contains ds) requested"

definition suspend_all :: "'w driver_set \<Rightarrow> 'w \<Rightarrow> 'w" where
  "suspend_all ds w = foldl (\<lambda>w e. d_suspend (snd e) w) w ds"

section \<open>Orchestration\<close>

datatype apply_outcome =
    Applied "channel list"
  | Failed channel driver_error "channel list" "channel list"

text \<open>The unwinding loop: what reverted and what stuck, in the order attempted.\<close>

primrec unwind ::
    "'w driver_set \<Rightarrow> host \<Rightarrow> channel list \<Rightarrow> 'w \<Rightarrow> ((channel list \<times> channel list) \<times> 'w) option" where
  "unwind ds h [] w = Some (([], []), w)"
| "unwind ds h (c # cs) w =
     (case bt_get ds c of
        None \<Rightarrow> None
      | Some d \<Rightarrow>
          (case d_revert d h w of (r, w) \<Rightarrow>
             Option.bind (unwind ds h cs w) (\<lambda>((reverted, stuck), w).
               Some (if is_ok r then (c # reverted, stuck) else (reverted, c # stuck), w))))"

primrec apply_loop ::
    "'w driver_set \<Rightarrow> host \<Rightarrow> apply_ctx \<Rightarrow> channel list \<Rightarrow> channel list \<Rightarrow> 'w \<Rightarrow> (apply_outcome \<times> 'w) option" where
  "apply_loop ds h ctx applied [] w = Some (Applied applied, w)"
| "apply_loop ds h ctx applied (c # cs) w =
     (case bt_get ds c of
        None \<Rightarrow> None
      | Some d \<Rightarrow>
          (case d_apply d h ctx w of
             (Inl e, w) \<Rightarrow>
               Option.bind (unwind ds h (c # rev applied) w) (\<lambda>((reverted, stuck), w).
                 Some (Failed c e reverted stuck, w))
           | (Inr _, w) \<Rightarrow> apply_loop ds h ctx (applied @ [c]) cs w))"

definition apply_channels ::
    "'w driver_set \<Rightarrow> host \<Rightarrow> channel list \<Rightarrow> apply_ctx \<Rightarrow> 'w \<Rightarrow> (apply_outcome \<times> 'w) option" where
  "apply_channels ds h channels ctx w = apply_loop ds h ctx [] channels w"

definition no_driver :: "channel \<Rightarrow> driver_error" where
  "no_driver c = DriverError (''no driver registered for channel '' @ channel_debug c)"

primrec renew_channels ::
    "'w driver_set \<Rightarrow> host \<Rightarrow> channel list \<Rightarrow> apply_ctx \<Rightarrow> 'w \<Rightarrow> ((channel \<times> driver_error) + unit) \<times> 'w" where
  "renew_channels ds h [] ctx w = (Ok (), w)"
| "renew_channels ds h (c # cs) ctx w =
     (case bt_get ds c of
        None \<Rightarrow> (Err (c, no_driver c), w)
      | Some d \<Rightarrow>
          (case d_renew d h ctx w of
             (Inl e, w) \<Rightarrow> (Err (c, e), w)
           | (Inr _, w) \<Rightarrow> renew_channels ds h cs ctx w))"

datatype revert_outcome = Reverted | Stuck "(channel \<times> driver_error) list"

primrec revert_loop ::
    "'w driver_set \<Rightarrow> host \<Rightarrow> channel list \<Rightarrow> 'w \<Rightarrow> (channel \<times> driver_error) list \<times> 'w" where
  "revert_loop ds h [] w = ([], w)"
| "revert_loop ds h (c # cs) w =
     (case bt_get ds c of
        None \<Rightarrow> (case revert_loop ds h cs w of (stuck, w) \<Rightarrow> ((c, no_driver c) # stuck, w))
      | Some d \<Rightarrow>
          (case d_revert d h w of
             (Inl e, w) \<Rightarrow> (case revert_loop ds h cs w of (stuck, w) \<Rightarrow> ((c, e) # stuck, w))
           | (Inr _, w) \<Rightarrow> revert_loop ds h cs w))"

definition revert_channels :: "'w driver_set \<Rightarrow> host \<Rightarrow> channel list \<Rightarrow> 'w \<Rightarrow> revert_outcome \<times> 'w" where
  "revert_channels ds h channels w =
     (case revert_loop ds h (rev channels) w of
        (stuck, w) \<Rightarrow> (if stuck = [] then Reverted else Stuck stuck, w))"

datatype reestablish_outcome = Restored | Lost "(channel \<times> driver_error) list"

primrec reestablish_loop ::
    "'w driver_set \<Rightarrow> host \<Rightarrow> channel list \<Rightarrow> 'w \<Rightarrow> (channel \<times> driver_error) list \<times> 'w" where
  "reestablish_loop ds h [] w = ([], w)"
| "reestablish_loop ds h (c # cs) w =
     (case bt_get ds c of
        None \<Rightarrow> (case reestablish_loop ds h cs w of (lost, w) \<Rightarrow> ((c, no_driver c) # lost, w))
      | Some d \<Rightarrow>
          (case d_reestablish d h w of
             (Inr ChOpen, w) \<Rightarrow> reestablish_loop ds h cs w
           | (Inr ChClosed, w) \<Rightarrow>
               (case reestablish_loop ds h cs w of (lost, w) \<Rightarrow>
                 ((c, DriverError (''channel '' @ channel_debug c @ '' read back closed after re-establishment'')) # lost, w))
           | (Inl e, w) \<Rightarrow> (case reestablish_loop ds h cs w of (lost, w) \<Rightarrow> ((c, e) # lost, w))))"

definition reestablish_channels ::
    "'w driver_set \<Rightarrow> host \<Rightarrow> channel list \<Rightarrow> 'w \<Rightarrow> reestablish_outcome \<times> 'w" where
  "reestablish_channels ds h channels w =
     (case reestablish_loop ds h channels w of
        (lost, w) \<Rightarrow> (if lost = [] then Restored else Lost lost, w))"

section \<open>The scripted driver\<close>

text \<open>
  \<open>core/src/channel/fakes.rs\<close>: the driver of the error-injection tests.  The world of a set of them is
  each driver's own state and the call log they share; \<open>last_ttl_secs\<close> is shared with the test only.
\<close>

datatype script = Succeed | FailApply | FailRevert | FailBoth

record fake_driver =
  fk_channel :: channel
  fk_script :: script
  fk_open :: bool
  fk_secret :: "secret option"
  fk_last_ttl_secs :: "nat option"

record fake_world =
  fw_drivers :: "channel \<Rightarrow> fake_driver"
  fw_log :: "(channel \<times> string) list"

definition fake_new :: "channel \<Rightarrow> script \<Rightarrow> fake_driver" where
  "fake_new c s = \<lparr>fk_channel = c, fk_script = s, fk_open = False, fk_secret = None, fk_last_ttl_secs = None\<rparr>"

definition fake_with_secret :: "channel \<Rightarrow> secret \<Rightarrow> fake_driver" where
  "fake_with_secret c s =
     \<lparr>fk_channel = c, fk_script = Succeed, fk_open = False, fk_secret = Some s, fk_last_ttl_secs = None\<rparr>"

definition fake_already_open :: "channel \<Rightarrow> script \<Rightarrow> fake_driver" where
  "fake_already_open c s =
     \<lparr>fk_channel = c, fk_script = s, fk_open = True, fk_secret = None, fk_last_ttl_secs = None\<rparr>"

definition fake_set :: "channel \<Rightarrow> fake_driver \<Rightarrow> string \<Rightarrow> fake_world \<Rightarrow> fake_world" where
  "fake_set c d call w = w\<lparr>fw_drivers := (fw_drivers w)(c := d), fw_log := fw_log w @ [(c, call)]\<rparr>"

definition fake_apply :: "channel \<Rightarrow> host \<Rightarrow> apply_ctx \<Rightarrow> fake_world \<Rightarrow> (driver_error + unit) \<times> fake_world" where
  "fake_apply c h ctx w =
     (let d = fw_drivers w c;
          w' = fake_set c (d\<lparr>fk_last_ttl_secs := Some (ctx_ttl_secs ctx), fk_open := True\<rparr>) ''apply'' w
      in if fk_script d \<in> {FailApply, FailBoth}
         then (Err (DriverError (''scripted apply failure on '' @ channel_debug c)), w') else (Ok (), w'))"

definition fake_revert :: "channel \<Rightarrow> host \<Rightarrow> fake_world \<Rightarrow> (driver_error + unit) \<times> fake_world" where
  "fake_revert c h w =
     (let d = fw_drivers w c in
      if fk_script d \<in> {FailRevert, FailBoth}
      then (Err (DriverError (''scripted revert failure on '' @ channel_debug c)), fake_set c d ''revert'' w)
      else (Ok (), fake_set c (d\<lparr>fk_open := False\<rparr>) ''revert'' w))"

definition fake_verify :: "channel \<Rightarrow> host \<Rightarrow> fake_world \<Rightarrow> (driver_error + channel_state) \<times> fake_world" where
  "fake_verify c h w =
     (Ok (if fk_open (fw_drivers w c) then ChOpen else ChClosed), fake_set c (fw_drivers w c) ''verify'' w)"

definition fake_take_secret :: "channel \<Rightarrow> fake_world \<Rightarrow> secret option \<times> fake_world" where
  "fake_take_secret c w =
     (let d = fw_drivers w c in
      (fk_secret d, w\<lparr>fw_drivers := (fw_drivers w)(c := d\<lparr>fk_secret := None\<rparr>)\<rparr>))"

definition fake_suspend :: "channel \<Rightarrow> fake_world \<Rightarrow> fake_world" where
  "fake_suspend c w = fake_set c ((fw_drivers w c)\<lparr>fk_open := False\<rparr>) ''suspend'' w"

definition fake :: "channel \<Rightarrow> fake_world driver" where
  "fake c = \<lparr>d_channel = c, d_apply = fake_apply c, d_revert = fake_revert c, d_verify = fake_verify c,
     d_renew = default_renew, d_take_secret = fake_take_secret c,
     d_reestablish = default_reestablish (fake_verify c), d_suspend = fake_suspend c\<rparr>"

definition fake_drivers :: "channel list \<Rightarrow> fake_world driver_set" where
  "fake_drivers cs = bt_collect (map (\<lambda>c. (c, fake c)) cs)"

end
