(* ===== verification/Inventory_Check.thy ===== *)
theory Inventory_Check
  imports Inventory
begin

text \<open>
  The load-time checks of \<open>core/src/inventory.rs\<close>, in the order the code makes them, and the
  declarative meaning of an accepted inventory.
\<close>

section \<open>Refusals\<close>

datatype inventory_error =
    Toml string
  | EmptyHostName
  | DuplicateHostName string
  | EmptyAddress string
  | NoChannels string
  | DuplicateChannel string
  | SshConfigMissing string
  | SshConfigUnused string
  | NoEmergencyKeys string
  | PostureUnchanged string
  | BadEmergencyKey string string
  | BmcConfigMissing string
  | BmcConfigUnused string
  | BmcMethodUnimplemented string string
  | VncConfigMissing string
  | VncConfigUnused string
  | VncCommandQuoted string string
  | VncMissingPasswordFile string
  | VncClearHasPasswordFile string
  | VncUnknownPlaceholder string string string
  | VncBadPort string string
  | VncBadPasswordLen string
  | VncLocalPortConflict string string "16 word"
  | GenericConfigMissing string string
  | GenericConfigUnused string string
  | GenericVerifyNotNone string string string
  | GenericPlaceholder string string string string
  | GenericBadStatus string string
  | GenericZeroTimeout string string
  | MqttPasswordAuth string
  | DeviceBadId string
  | DeviceTransportMismatch string
  | SigningKeyMissing string string
  | SigningUnused
  | DeviceMqttUnimplemented string
  | EmbeddedChannelUnsupported string string
  | InvApproval authority_error
  | AccessWithoutApproval string
  | AccessNoProfiles string
  | UnknownProfile string string
  | OverrideForUnpermittedProfile string string

definition vnc_refusal :: "string \<Rightarrow> string \<Rightarrow> vnc_template_error \<Rightarrow> inventory_error" where
  "vnc_refusal host which e =
     (case e of
        Quoted \<Rightarrow> VncCommandQuoted host which
      | MissingPasswordFile \<Rightarrow> VncMissingPasswordFile host
      | ClearHasPasswordFile \<Rightarrow> VncClearHasPasswordFile host
      | UnknownPlaceholder ph \<Rightarrow> VncUnknownPlaceholder host which ph)"

section \<open>The generic channels of one host\<close>

definition check_verify_none :: "host \<Rightarrow> string \<Rightarrow> string \<Rightarrow> inventory_error + unit" where
  "check_verify_none h ch s =
     (if s = ''none'' then Ok () else Err (GenericVerifyNotNone (h_name h) ch s))"

definition check_template :: "host \<Rightarrow> string \<Rightarrow> string \<Rightarrow> string \<Rightarrow> inventory_error + unit" where
  "check_template h ch field template =
     map_err (\<lambda>e. GenericPlaceholder (h_name h) ch field (generic_template_error_display e))
       (forbid_placeholders template)"

definition check_status :: "host \<Rightarrow> string \<Rightarrow> 16 word \<Rightarrow> inventory_error + unit" where
  "check_status h which status =
     (if 100 \<le> status \<and> status \<le> 599 then Ok () else Err (GenericBadStatus (h_name h) which))"

text \<open>The presence rule every channel table shares: a table exactly when the channel is declared.\<close>

definition paired :: "'e \<Rightarrow> 'e \<Rightarrow> 'a option \<Rightarrow> bool \<Rightarrow> ('a \<Rightarrow> 'e + unit) \<Rightarrow> 'e + unit" where
  "paired absent unused table wants check =
     (case (table, wants) of
        (None, True) \<Rightarrow> Err absent
      | (Some _, False) \<Rightarrow> Err unused
      | (Some cfg, True) \<Rightarrow> check cfg
      | (None, False) \<Rightarrow> Ok ())"

definition check_http_request :: "host \<Rightarrow> string \<times> http_request_spec \<Rightarrow> inventory_error + unit" where
  "check_http_request h wr =
     bind_ok (check_status h (fst wr) (hr_expect_status (snd wr))) (\<lambda>_.
     bind_ok (check_template h ''http'' ''path'' (hr_path (snd wr))) (\<lambda>_.
     case hr_body (snd wr) of
       Some body \<Rightarrow> check_template h ''http'' ''body'' body
     | None \<Rightarrow> Ok ()))"

definition check_http :: "host \<Rightarrow> http_config \<Rightarrow> inventory_error + unit" where
  "check_http h cfg =
     bind_ok (check_each (check_http_request h) [(''open'', http_open cfg), (''revert'', http_revert cfg)]) (\<lambda>_.
     case http_verify cfg of
       VerifyNone s \<Rightarrow> check_verify_none h ''http'' s
     | VerifyProbe v \<Rightarrow>
         bind_ok (check_status h ''verify'' (hv_expect_status v)) (\<lambda>_.
         check_template h ''http'' ''path'' (hv_path v)))"

definition is_password_auth :: "mqtt_auth option \<Rightarrow> bool" where
  "is_password_auth a = (case a of Some (PasswordAuth _) \<Rightarrow> True | _ \<Rightarrow> False)"

definition check_mqtt :: "host \<Rightarrow> mqtt_config \<Rightarrow> inventory_error + unit" where
  "check_mqtt h cfg =
     (if is_password_auth (mqtt_auth cfg) then Err (MqttPasswordAuth (h_name h))
      else bind_ok (check_each (\<lambda>spec.
             bind_ok (check_template h ''mqtt'' ''topic'' (mm_topic spec)) (\<lambda>_.
             check_template h ''mqtt'' ''payload'' (mm_payload spec))) [mqtt_open cfg, mqtt_revert cfg]) (\<lambda>_.
           case mqtt_verify cfg of
             VerifyNone s \<Rightarrow> check_verify_none h ''mqtt'' s
           | VerifyProbe v \<Rightarrow>
               bind_ok (check_template h ''mqtt'' ''topic'' (mv_topic v)) (\<lambda>_.
               if mv_timeout_secs v = 0 then Err (GenericZeroTimeout (h_name h) ''mqtt'') else Ok ())))"

definition check_serial :: "host \<Rightarrow> serial_config \<Rightarrow> inventory_error + unit" where
  "check_serial h cfg =
     (if serial_timeout_secs cfg = 0 then Err (GenericZeroTimeout (h_name h) ''serial'')
      else bind_ok (check_each (\<lambda>spec. check_template h ''serial'' ''send'' (sc_send spec))
                      [serial_open cfg, serial_revert cfg]) (\<lambda>_.
           case serial_verify cfg of
             VerifyNone s \<Rightarrow> check_verify_none h ''serial'' s
           | VerifyProbe v \<Rightarrow> check_template h ''serial'' ''send'' (sv_send v)))"

definition validate_generic :: "host \<Rightarrow> inventory_error + unit" where
  "validate_generic h =
     bind_ok (paired (GenericConfigMissing (h_name h) ''http'') (GenericConfigUnused (h_name h) ''http'')
                (h_http h) (Http \<in> set (h_channels h)) (check_http h)) (\<lambda>_.
     bind_ok (paired (GenericConfigMissing (h_name h) ''mqtt'') (GenericConfigUnused (h_name h) ''mqtt'')
                (h_mqtt h) (Mqtt \<in> set (h_channels h)) (check_mqtt h)) (\<lambda>_.
     paired (GenericConfigMissing (h_name h) ''serial'') (GenericConfigUnused (h_name h) ''serial'')
       (h_serial h) (Serial \<in> set (h_channels h)) (check_serial h)))"

section \<open>The device channel of one host\<close>

definition check_device :: "inventory \<Rightarrow> host \<Rightarrow> device_config \<Rightarrow> inventory_error + unit" where
  "check_device iv h d =
     (if device_id_bytes d = None then Err (DeviceBadId (h_name h))
      else if (dev_http d \<noteq> None, dev_mqtt d \<noteq> None, dev_serial d \<noteq> None) \<noteq>
              (case dev_transport d of
                 ViaHttp \<Rightarrow> (True, False, False)
               | ViaMqtt \<Rightarrow> (False, True, False)
               | ViaSerial \<Rightarrow> (False, False, True))
           then Err (DeviceTransportMismatch (h_name h))
      else if (case dev_mqtt d of Some m \<Rightarrow> is_password_auth (dm_auth m) | None \<Rightarrow> False)
           then Err (MqttPasswordAuth (h_name h))
      else if dev_transport d = ViaMqtt then Err (DeviceMqttUnimplemented (h_name h))
      else if (case dev_serial d of Some s \<Rightarrow> ds_timeout_secs s = 0 | None \<Rightarrow> False)
           then Err (GenericZeroTimeout (h_name h) ''device'')
      else
        let needed_present =
          (case dev_alg d of
             DevEd25519 \<Rightarrow> (''key_file'', Option.bind (inv_signing iv) sg_key_file)
           | DevP256 \<Rightarrow> (''p256_key_file'', Option.bind (inv_signing iv) sg_p256_key_file))
        in if snd needed_present = None then Err (SigningKeyMissing (h_name h) (fst needed_present)) else Ok ())"

definition validate_device :: "inventory \<Rightarrow> host \<Rightarrow> inventory_error + unit" where
  "validate_device iv h =
     paired (GenericConfigMissing (h_name h) ''device'') (GenericConfigUnused (h_name h) ''device'')
       (h_device h) (Device \<in> set (h_channels h)) (check_device iv h)"

section \<open>One host\<close>

definition check_ssh :: "crates \<Rightarrow> host \<Rightarrow> ssh_config \<Rightarrow> inventory_error + unit" where
  "check_ssh X h ssh =
     (if Ssh \<in> set (h_channels h) \<and> ssh_root_posture_default ssh = ssh_root_posture_emergency ssh
      then Err (PostureUnchanged (h_name h))
      else if AuthorizedKeys \<in> set (h_channels h) \<and> ssh_emergency_keys ssh = []
      then Err (NoEmergencyKeys (h_name h))
      else check_each (\<lambda>key. map_err (\<lambda>e. BadEmergencyKey (h_name h) (fence_error_display X e))
                                (validate_key_line key)) (ssh_emergency_keys ssh))"

definition bmc_method_name :: "bmc_method \<Rightarrow> string" where
  "bmc_method_name m = (case m of Redfish \<Rightarrow> ''redfish'' | Racadm \<Rightarrow> ''racadm'' | Ipmitool \<Rightarrow> ''ipmitool'')"

definition check_bmc :: "host \<Rightarrow> bmc_config \<Rightarrow> inventory_error + unit" where
  "check_bmc h bmc =
     (if bmc_method bmc \<noteq> Redfish then Err (BmcMethodUnimplemented (h_name h) (bmc_method_name (bmc_method bmc)))
      else Ok ())"

text \<open>The \<open>vnc\<close> rules, except the ownership of the local port, which spans hosts.\<close>

definition check_vnc :: "host \<Rightarrow> vnc_config \<Rightarrow> inventory_error + unit" where
  "check_vnc h vnc =
     (if vnc_rfb_port vnc = 0 then Err (VncBadPort (h_name h) ''rfb_port'')
      else if vnc_local_port vnc = 0 then Err (VncBadPort (h_name h) ''local_port'')
      else if vnc_password_len vnc = 0 then Err (VncBadPasswordLen (h_name h))
      else
        bind_ok (map_err (vnc_refusal (h_name h) ''set_password_cmd'')
                   (check_set_command (vnc_set_password_cmd vnc))) (\<lambda>_.
        map_err (vnc_refusal (h_name h) ''clear_password_cmd'')
          (check_clear_command (vnc_clear_password_cmd vnc))))"

definition claim_port ::
    "host \<Rightarrow> (16 word, string) btree_map \<Rightarrow> inventory_error + (16 word, string) btree_map" where
  "claim_port h ports =
     (case h_vnc h of
        None \<Rightarrow> Ok ports
      | Some vnc \<Rightarrow>
          (case bt_get ports (vnc_local_port vnc) of
             Some other \<Rightarrow> Err (VncLocalPortConflict (h_name h) other (vnc_local_port vnc))
           | None \<Rightarrow> Ok (bt_insert (vnc_local_port vnc) (h_name h) ports)))"

definition shell_channel_name :: "channel \<Rightarrow> string option" where
  "shell_channel_name ch =
     (case ch of Ssh \<Rightarrow> Some ''ssh'' | AuthorizedKeys \<Rightarrow> Some ''authorized-keys'' | Vnc \<Rightarrow> Some ''vnc'' | _ \<Rightarrow> None)"

definition check_embedded :: "host \<Rightarrow> inventory_error + unit" where
  "check_embedded h =
     (if h_os h = Embedded then
        check_each (\<lambda>ch. case shell_channel_name ch of
                           Some name \<Rightarrow> Err (EmbeddedChannelUnsupported (h_name h) name)
                         | None \<Rightarrow> Ok ()) (h_channels h)
      else Ok ())"

text \<open>The body of the loop over hosts; its state is the names and the local ports seen so far.\<close>

definition validate_host ::
    "crates \<Rightarrow> inventory \<Rightarrow> host \<Rightarrow> string fset \<times> (16 word, string) btree_map
      \<Rightarrow> inventory_error + (string fset \<times> (16 word, string) btree_map)" where
  "validate_host X iv h st =
     (if h_name h = [] then Err EmptyHostName
      else if h_name h |\<in>| fst st then Err (DuplicateHostName (h_name h))
      else if h_address h = [] then Err (EmptyAddress (h_name h))
      else if h_channels h = [] then Err (NoChannels (h_name h))
      else if card (set (h_channels h)) \<noteq> length (h_channels h) then Err (DuplicateChannel (h_name h))
      else
        bind_ok (paired (SshConfigMissing (h_name h)) (SshConfigUnused (h_name h)) (h_ssh h)
                   (Ssh \<in> set (h_channels h) \<or> AuthorizedKeys \<in> set (h_channels h)) (check_ssh X h)) (\<lambda>_.
        bind_ok (paired (BmcConfigMissing (h_name h)) (BmcConfigUnused (h_name h)) (h_bmc h)
                   (Bmc \<in> set (h_channels h)) (check_bmc h)) (\<lambda>_.
        bind_ok (paired (VncConfigMissing (h_name h)) (VncConfigUnused (h_name h)) (h_vnc h)
                   (Vnc \<in> set (h_channels h)) (check_vnc h)) (\<lambda>_.
        bind_ok (claim_port h (snd st)) (\<lambda>ports.
        bind_ok (validate_generic h) (\<lambda>_.
        bind_ok (validate_device iv h) (\<lambda>_.
        bind_ok (check_embedded h) (\<lambda>_.
        Ok (finsert (h_name h) (fst st), ports)))))))))"

primrec validate_hosts ::
    "crates \<Rightarrow> inventory \<Rightarrow> host list \<Rightarrow> string fset \<times> (16 word, string) btree_map \<Rightarrow> inventory_error + unit" where
  "validate_hosts X iv [] st = Ok ()"
| "validate_hosts X iv (h # hs) st = bind_ok (validate_host X iv h st) (validate_hosts X iv hs)"

section \<open>The whole inventory\<close>

text \<open>As for \<open>from_spec\<close>, the outer option is \<open>None\<close> when building the policy does not return.\<close>

definition approval_model :: "crates \<Rightarrow> inventory \<Rightarrow> (inventory_error + authority_model option) option" where
  "approval_model X iv =
     (case inv_approval iv of
        None \<Rightarrow> Some (Ok None)
      | Some spec \<Rightarrow> map_option (\<lambda>r. map_err InvApproval (bind_ok r (\<lambda>m. Ok (Some m)))) (from_spec X spec))"

definition check_override ::
    "crates \<Rightarrow> authority_model \<Rightarrow> host \<Rightarrow> host_access \<Rightarrow> string \<times> authority_body \<Rightarrow> inventory_error + unit" where
  "check_override X m h access pb =
     (if fst pb \<notin> set (ha_profiles access) then Err (OverrideForUnpermittedProfile (h_name h) (fst pb))
      else bind_ok (map_err InvApproval (resolve_override X m (fst pb) (snd pb))) (\<lambda>_. Ok ()))"

definition check_access :: "crates \<Rightarrow> authority_model option \<Rightarrow> host \<Rightarrow> inventory_error + unit" where
  "check_access X model h =
     (case h_access h of
        None \<Rightarrow> Ok ()
      | Some access \<Rightarrow>
          (case model of
             None \<Rightarrow> Err (AccessWithoutApproval (h_name h))
           | Some m \<Rightarrow>
               if ha_profiles access = [] then Err (AccessNoProfiles (h_name h))
               else bind_ok (check_each (\<lambda>p. if profile m p = None then Err (UnknownProfile (h_name h) p) else Ok ())
                               (ha_profiles access)) (\<lambda>_.
                    check_each (check_override X m h access) (ha_overrides access))))"

definition validate :: "crates \<Rightarrow> inventory \<Rightarrow> (inventory_error + unit) option" where
  "validate X iv =
     (case validate_hosts X iv (inv_hosts iv) ({||}, []) of
        Inl e \<Rightarrow> Some (Err e)
      | Inr _ \<Rightarrow>
          if inv_signing iv \<noteq> None \<and> \<not> list_ex (\<lambda>h. Device \<in> set (h_channels h)) (inv_hosts iv)
          then Some (Err SigningUnused)
          else map_option (\<lambda>r. bind_ok r (\<lambda>model. check_each (check_access X model) (inv_hosts iv)))
                 (approval_model X iv))"

definition inventory_parse ::
    "(string \<Rightarrow> string + inventory) \<Rightarrow> crates \<Rightarrow> string \<Rightarrow> (inventory_error + inventory) option" where
  "inventory_parse toml_of X toml_text =
     (case toml_of toml_text of
        Inl e \<Rightarrow> Some (Err (Toml e))
      | Inr iv \<Rightarrow> map_option (\<lambda>r. bind_ok r (\<lambda>_. Ok iv)) (validate X iv))"

end
