(* ===== verification/Group_Graph.thy ===== *)
theory Group_Graph
  imports Authority
begin

text \<open>
  The three-colour search of \<open>check_group_acyclic\<close>.  The loop invariant relates the colours to the
  stack: grey nodes are exactly the nodes with a leave entry, black nodes are closed under children
  and well-founded, every child of a node with a leave entry is black or lies above that entry, and
  an entry is a child of the nearest leave entry below it.
\<close>

section \<open>Definitions\<close>

definition group_children :: "authority_model \<Rightarrow> string \<Rightarrow> string set" where
  "group_children m p =
     {c. \<exists>g. bt_get (m_groups m) p = Some g \<and> (\<exists>w\<in>set (au_factors g). wf_factor w = FGroup c)}"

definition group_edge :: "authority_model \<Rightarrow> (string \<times> string) set" where
  "group_edge m = {(c, p). c \<in> group_children m p}"

definition groups_resolved :: "authority_model \<Rightarrow> bool" where
  "groups_resolved m = (\<forall>p c. c \<in> group_children m p \<longrightarrow> bt_contains (m_groups m) c)"

definition coloured :: "(string, colour) btree_map \<Rightarrow> colour \<Rightarrow> string set" where
  "coloured col c = {n. bt_get col n = Some c}"

definition black_edge :: "authority_model \<Rightarrow> (string, colour) btree_map \<Rightarrow> (string \<times> string) set" where
  "black_edge m col = {(c, p). p \<in> coloured col Black \<and> c \<in> group_children m p}"

definition leaves :: "(string \<times> bool) list \<Rightarrow> string set" where
  "leaves s = {n. (n, False) \<in> set s}"

fun covered :: "authority_model \<Rightarrow> string set \<Rightarrow> string set \<Rightarrow> (string \<times> bool) list \<Rightarrow> bool" where
  "covered m B A [] = True"
| "covered m B A ((n, False) # s) =
     (group_children m n \<subseteq> B \<union> A \<and> n \<notin> A \<and> covered m B (insert n A) s)"
| "covered m B A ((n, True) # s) = covered m B (insert n A) s"

primrec linked :: "authority_model \<Rightarrow> (string \<times> bool) list \<Rightarrow> bool" where
  "linked m [] = True"
| "linked m (e # s) =
     ((case find (\<lambda>e. \<not> snd e) s of None \<Rightarrow> True | Some p \<Rightarrow> fst e \<in> group_children m (fst p)) \<and> linked m s)"

definition white_children :: "(string, colour) btree_map \<Rightarrow> weighted_factor list \<Rightarrow> string list" where
  "white_children col fs =
     List.map_filter (\<lambda>w. case wf_factor w of
       FGroup c \<Rightarrow> if bt_get col c = Some White then Some c else None | _ \<Rightarrow> None) fs"

definition dfs_inv :: "authority_model \<Rightarrow> (string \<times> bool) list \<Rightarrow> (string, colour) btree_map \<Rightarrow> bool" where
  "dfs_inv m stack col \<longleftrightarrow>
     bt_ok col \<and> fst ` set col = fst ` set (m_groups m) \<and> fst ` set stack \<subseteq> fst ` set (m_groups m) \<and>
     coloured col Grey = leaves stack \<and>
     (\<forall>p\<in>coloured col Black. group_children m p \<subseteq> coloured col Black) \<and>
     wf (black_edge m col) \<and> covered m (coloured col Black) {} stack \<and> linked m stack"

section \<open>Lemmas\<close>

lemma map_of_const: "map_of (map (\<lambda>e. (fst e, v)) es) n = (if n \<in> fst ` set es then Some v else None)"
  by (induction es) auto

lemma leaves_Cons [simp]: "leaves ((n, b) # s) = (if b then leaves s else insert n (leaves s))"
  by (auto simp: leaves_def)

lemma leaves_append [simp]: "leaves (s @ t) = leaves s \<union> leaves t"
  by (auto simp: leaves_def)

lemma coloured_insert:
  "coloured (bt_insert n c col) d = (if d = c then insert n (coloured col d) else coloured col d - {n})"
  by (auto simp: coloured_def)

lemma coloured_disjoint: "c \<noteq> d \<Longrightarrow> n \<in> coloured col c \<Longrightarrow> n \<notin> coloured col d"
  by (simp add: coloured_def)

lemma coloured_cases: "n \<in> fst ` set col \<Longrightarrow> n \<in> coloured col White \<or> n \<in> coloured col Grey \<or> n \<in> coloured col Black"
  by (metis (mono_tags, lifting) bt_contains_def bt_contains_iff coloured_def colour.exhaust mem_Collect_eq
      not_Some_eq)

lemma covered_not_leaf: "covered m B A s \<Longrightarrow> n \<in> A \<Longrightarrow> n \<notin> leaves s"
  by (induction m B A s rule: covered.induct) (auto simp: leaves_def)

lemma covered_mono:
  "covered m B A s \<Longrightarrow> A \<subseteq> A' \<Longrightarrow> B \<subseteq> B' \<Longrightarrow> leaves s \<inter> A' = {} \<Longrightarrow> covered m B' A' s"
proof (induction m B A s arbitrary: A' rule: covered.induct)
  case (2 m B A n s)
  have "leaves s \<inter> insert n A' = {}"
    using 2 covered_not_leaf [of m B "insert n A" s n] by auto
  then show ?case using 2 by auto
next
  case (3 m B A n s)
  have "leaves s \<inter> insert n A' = {}"
    using 3 covered_not_leaf [of m B "insert n A" s n] by auto
  then show ?case using 3 by auto
qed simp

lemma covered_blacken: "covered m B (insert n A) s \<Longrightarrow> covered m (insert n B) A s"
proof (induction m B "insert n A" s arbitrary: A rule: covered.induct)
  case (2 m B k s)
  then show ?case by (auto simp: insert_commute [of _ n])
next
  case (3 m B k s)
  then show ?case by (auto simp: insert_commute [of _ n])
qed simp

lemma covered_pushes:
  "covered m B A (map (\<lambda>c. (c, True)) cs @ s) = covered m B (set cs \<union> A) s"
  by (induction cs arbitrary: A) auto

lemma linked_path:
  "linked m ((x, b) # s) \<Longrightarrow> c \<in> leaves s \<Longrightarrow> (x, c) \<in> (group_edge m)\<^sup>+"
proof (induction s arbitrary: x b)
  case (Cons e s)
  obtain y b' where e: "e = (y, b')" by (cases e)
  show ?case
  proof (cases b')
    case True
    then show ?thesis using Cons e by auto
  next
    case False
    then have edge: "(x, y) \<in> group_edge m" using Cons.prems e by (simp add: group_edge_def)
    show ?thesis
    proof (cases "c = y")
      case False
      then have "(y, c) \<in> (group_edge m)\<^sup>+" using Cons e \<open>\<not> b'\<close> by auto
      then show ?thesis using edge by simp
    qed (use edge in auto)
  qed
qed (simp add: leaves_def)

lemma dfs_children_no_grey:
  assumes "\<forall>w\<in>set fs. \<forall>c. wf_factor w = FGroup c \<longrightarrow> c \<in> coloured col White \<union> coloured col Black"
  shows "dfs_children col fs stack = Some (Ok (map (\<lambda>c. (c, True)) (rev (white_children col fs)) @ stack))"
  using assms
  by (induction fs arbitrary: stack)
    (auto simp: white_children_def coloured_def map_filter_simps split: factor.splits)

lemma dfs_children_grey:
  assumes "\<forall>w\<in>set fs. \<forall>c. wf_factor w = FGroup c \<longrightarrow> c \<in> fst ` set col"
    and "\<exists>w\<in>set fs. \<exists>c\<in>coloured col Grey. wf_factor w = FGroup c"
  shows "\<exists>w\<in>set fs. \<exists>c\<in>coloured col Grey. wf_factor w = FGroup c \<and>
    dfs_children col fs stack = Some (Err (GroupCycle c))"
  using assms
proof (induction fs arbitrary: stack)
  case (Cons w fs)
  show ?case
  proof (cases "\<exists>c\<in>coloured col Grey. wf_factor w = FGroup c")
    case True
    then show ?thesis by (auto simp: coloured_def)
  next
    case False
    then have more: "\<exists>w\<in>set fs. \<exists>c\<in>coloured col Grey. wf_factor w = FGroup c" using Cons.prems by auto
    obtain stack' where "dfs_children col (w # fs) stack = dfs_children col fs stack'"
    proof (cases "wf_factor w")
      case (FGroup c)
      then have "c \<in> coloured col White \<or> c \<in> coloured col Black"
        using Cons.prems(1) False coloured_cases [of c col] by auto
      then show ?thesis using FGroup that by (auto simp: coloured_def)
    qed (use that in auto)
    then show ?thesis using Cons.IH [of stack'] Cons.prems(1) more by auto
  qed
qed simp

lemma white_children_in:
  "c \<in> set (white_children col fs) \<longleftrightarrow> c \<in> coloured col White \<and> (\<exists>w\<in>set fs. wf_factor w = FGroup c)"
  by (induction fs) (auto simp: white_children_def coloured_def map_filter_simps split: factor.splits)

lemma find_leave_pushes [simp]:
  "find (\<lambda>e. \<not> snd e) (map (\<lambda>c. (c, True)) ds @ (n, False) # s) = Some (n, False)"
  by (induction ds) auto

lemma wf_add_top:
  assumes "wf r" "n \<notin> Domain r" "n \<notin> C"
  shows "wf (r \<union> {(c, p). p = n \<and> c \<in> C})"
proof (rule wf_Un)
  show "wf {(c, p). p = n \<and> c \<in> C}"
    by (rule wf_subset [OF wf_measure [of "\<lambda>x. if x = n then 1 else 0"]]) (use assms(3) in auto)
qed (use assms in auto)

lemma dfs_inv_leave:
  assumes "dfs_inv m ((n, False) # s) col"
  shows "dfs_inv m s (bt_insert n Black col)"
proof -
  let ?B = "coloured col Black"
  have inv: "group_children m n \<subseteq> ?B" "covered m ?B {n} s" "linked m s"
    "coloured col Grey = insert n (leaves s)" "\<forall>p\<in>?B. group_children m p \<subseteq> ?B" "wf (black_edge m col)"
    using assms by (auto simp: dfs_inv_def)
  have n: "n \<notin> ?B" "n \<notin> leaves s"
    using inv(4) coloured_disjoint [of Grey Black n col] covered_not_leaf [OF inv(2)] by auto
  have e: "black_edge m (bt_insert n Black col) = black_edge m col \<union> {(c, p). p = n \<and> c \<in> group_children m n}"
    by (auto simp: black_edge_def coloured_insert)
  have "wf (black_edge m (bt_insert n Black col))"
    unfolding e using inv n by (intro wf_add_top) (auto simp: black_edge_def)
  then show ?thesis
    using assms inv n covered_blacken [of m ?B n "{}" s]
    by (auto simp: dfs_inv_def coloured_insert set_bt_insert_fst)
qed

lemma dfs_inv_black_again:
  assumes "dfs_inv m ((n, True) # s) col" "n \<in> coloured col Black"
  shows "dfs_inv m s col"
proof -
  have "leaves s \<inter> {} = {}" by simp
  then have "covered m (coloured col Black) {} s"
    using covered_blacken [of m "coloured col Black" n "{}" s] assms
    by (simp add: dfs_inv_def insert_absorb)
  then show ?thesis using assms by (auto simp: dfs_inv_def)
qed

lemma dfs_inv_enter:
  assumes "dfs_inv m ((n, True) # s) col" "n \<in> coloured col White"
    and "\<forall>c\<in>set cs. c \<in> coloured (bt_insert n Grey col) White \<and> c \<in> group_children m n"
    and "group_children m n \<subseteq> set cs \<union> coloured (bt_insert n Grey col) Black" "groups_resolved m"
  shows "dfs_inv m (map (\<lambda>c. (c, True)) cs @ (n, False) # s) (bt_insert n Grey col)"
proof -
  let ?col = "bt_insert n Grey col" and ?B = "coloured col Black"
  have inv: "covered m ?B {n} s" "linked m ((n, True) # s)" "coloured col Grey = leaves s"
    "\<forall>p\<in>?B. group_children m p \<subseteq> ?B" "wf (black_edge m col)" "n \<in> fst ` set (m_groups m)"
    using assms by (auto simp: dfs_inv_def)
  have B: "coloured ?col Black = ?B"
    using assms(2) coloured_disjoint [of White Black n col] by (auto simp: coloured_insert)
  have cs: "set cs \<inter> leaves s = {}" "n \<notin> set cs"
    using assms(3) inv(3) coloured_disjoint [of White Grey _ col] by (auto simp: coloured_insert)
  have "covered m ?B (insert n (set cs)) s"
    using covered_mono [OF inv(1), of "insert n (set cs)" ?B] cs covered_not_leaf [OF inv(1)] by auto
  then have cov: "covered m (coloured ?col Black) {} (map (\<lambda>c. (c, True)) cs @ (n, False) # s)"
    using assms(4) cs B by (auto simp: covered_pushes)
  have "linked m (map (\<lambda>c. (c, True)) ds @ (n, False) # s)" if "set ds \<subseteq> group_children m n" for ds
    using that inv(2) by (induction ds) (auto split: option.splits)
  then have "linked m (map (\<lambda>c. (c, True)) cs @ (n, False) # s)" using assms(3) by blast
  moreover have "leaves (map (\<lambda>c. (c, True)) cs) = {}" by (auto simp: leaves_def)
  moreover have "set cs \<subseteq> fst ` set (m_groups m)"
    using assms(3,5) by (auto simp: groups_resolved_def bt_contains_iff)
  ultimately show ?thesis
    using assms(1) inv cov B
    by (auto simp: dfs_inv_def coloured_insert set_bt_insert_fst black_edge_def image_Un image_image)
qed

text \<open>Re-entering a black node costs two iterations and changes nothing.\<close>

lemma dfs_loop_black_again:
  assumes "dfs_inv m ((n, True) # s) col" "n \<in> coloured col Black"
  shows "dfs_loop m ((n, True) # s) col = dfs_loop m s col"
proof -
  let ?col = "bt_insert n Grey col"
  obtain g where g: "bt_get (m_groups m) n = Some g"
    using assms(1) by (auto simp: dfs_inv_def bt_contains_iff [symmetric] bt_contains_def)
  have "n \<notin> group_children m n"
    using assms wf_not_refl [of "black_edge m col" n] by (auto simp: dfs_inv_def black_edge_def)
  moreover have "group_children m n \<subseteq> coloured col Black" using assms by (auto simp: dfs_inv_def)
  ultimately have b: "group_children m n \<subseteq> coloured ?col Black" by (auto simp: coloured_insert)
  then have all: "\<forall>w\<in>set (au_factors g). \<forall>c. wf_factor w = FGroup c \<longrightarrow> c \<in> coloured ?col Black"
    using g by (auto simp: group_children_def)
  then have "white_children ?col (au_factors g) = []"
    using white_children_in [of _ ?col "au_factors g"] coloured_disjoint [of White Black _ ?col]
    by (metis colour.distinct(3) list.set_intros(1) neq_Nil_conv)
  then have ch: "dfs_children ?col (au_factors g) ((n, False) # s) = Some (Ok ((n, False) # s))"
    using dfs_children_no_grey [of "au_factors g" ?col "(n, False) # s"] all by simp
  have "bt_insert n Black ?col = col"
    using assms by (intro bt_eqI) (auto simp: dfs_inv_def coloured_def)
  then show ?thesis
    using g ch by (simp add: dfs_loop.simps [of m "(n, True) # s"] dfs_loop.simps [of m "(n, False) # s"])
qed

definition dfs_result_ok ::
    "authority_model \<Rightarrow> (string \<times> bool) list \<Rightarrow> (string, colour) btree_map
      \<Rightarrow> authority_error + (string, colour) btree_map \<Rightarrow> bool" where
  "dfs_result_ok m stack col r =
     (case r of
        Inl e \<Rightarrow> \<exists>c. e = GroupCycle c \<and> (c, c) \<in> (group_edge m)\<^sup>+
      | Inr col' \<Rightarrow> dfs_inv m [] col' \<and> coloured col Black \<union> fst ` set stack \<subseteq> coloured col' Black)"

lemma finite_coloured [simp]: "finite (coloured col c)"
  by (rule finite_subset [of _ "fst ` set col"]) (auto simp: coloured_def bt_contains_iff [symmetric] bt_contains_def)

lemma dfs_enter_white:
  assumes inv: "dfs_inv m ((n, True) # s) col" and w: "n \<in> coloured col White" and res: "groups_resolved m"
  shows "(\<exists>c. dfs_loop m ((n, True) # s) col = Some (Err (GroupCycle c)) \<and> (c, c) \<in> (group_edge m)\<^sup>+) \<or>
    (\<exists>cs. dfs_loop m ((n, True) # s) col =
        dfs_loop m (map (\<lambda>c. (c, True)) cs @ (n, False) # s) (bt_insert n Grey col) \<and>
      dfs_inv m (map (\<lambda>c. (c, True)) cs @ (n, False) # s) (bt_insert n Grey col))"
proof -
  let ?col = "bt_insert n Grey col"
  obtain g where g: "bt_get (m_groups m) n = Some g"
    using inv by (auto simp: dfs_inv_def bt_contains_iff [symmetric] bt_contains_def)
  have ch: "group_children m n = {c. \<exists>w\<in>set (au_factors g). wf_factor w = FGroup c}"
    using g by (auto simp: group_children_def)
  have dom: "\<forall>w\<in>set (au_factors g). \<forall>c. wf_factor w = FGroup c \<longrightarrow> c \<in> fst ` set ?col"
    using res inv ch by (auto simp: groups_resolved_def dfs_inv_def set_bt_insert_fst bt_contains_iff)
  show ?thesis
  proof (cases "\<exists>w\<in>set (au_factors g). \<exists>c\<in>coloured ?col Grey. wf_factor w = FGroup c")
    case True
    then obtain c where c: "c \<in> group_children m n" "c \<in> coloured ?col Grey"
      "dfs_children ?col (au_factors g) ((n, False) # s) = Some (Err (GroupCycle c))"
      using dfs_children_grey [OF dom True, of "(n, False) # s"] ch by blast
    have "(c, n) \<in> group_edge m" using c by (simp add: group_edge_def)
    moreover have "c = n \<or> (n, c) \<in> (group_edge m)\<^sup>+"
      using c(2) inv linked_path [of m n True s c] by (auto simp: coloured_insert dfs_inv_def)
    ultimately have "(c, c) \<in> (group_edge m)\<^sup>+" by auto
    then show ?thesis using c(3) g by (simp add: dfs_loop.simps [of m "(n, True) # s"])
  next
    case False
    let ?cs = "rev (white_children ?col (au_factors g))"
    have wb: "\<forall>w\<in>set (au_factors g). \<forall>c. wf_factor w = FGroup c \<longrightarrow> c \<in> coloured ?col White \<union> coloured ?col Black"
      using dom False coloured_cases [of _ ?col] by blast
    note st = dfs_children_no_grey [OF wb, of "(n, False) # s"]
    have "dfs_inv m (map (\<lambda>c. (c, True)) ?cs @ (n, False) # s) ?col"
    proof (rule dfs_inv_enter [OF inv w _ _ res])
      show "\<forall>c\<in>set ?cs. c \<in> coloured ?col White \<and> c \<in> group_children m n"
        using ch by (auto simp: white_children_in)
      show "group_children m n \<subseteq> set ?cs \<union> coloured ?col Black"
        using ch wb by (fastforce simp: white_children_in)
    qed
    then show ?thesis
      using st g by (intro disjI2 exI [of _ ?cs]) (simp add: dfs_loop.simps [of m "(n, True) # s"] Let_def)
  qed
qed

lemma dfs_loop_total:
  assumes "groups_resolved m" "dfs_inv m stack col"
  shows "\<exists>r. dfs_loop m stack col = Some r \<and> dfs_result_ok m stack col r"
  using assms(2)
proof (induction "(card (coloured col White), length stack)" arbitrary: stack col
    rule: wf_induct_rule [OF wf_lex_prod [OF wf_less wf_less]])
  case 1
  note IH = 1(1) and inv = 1(2)
  show ?case
  proof (cases stack)
    case Nil
    then show ?thesis using inv by (simp add: dfs_loop.simps dfs_result_ok_def)
  next
    case (Cons e s)
    obtain n b where e: "e = (n, b)" by (cases e)
    show ?thesis
    proof (cases b)
      case False
      have st: "dfs_loop m stack col = dfs_loop m s (bt_insert n Black col)"
        by (simp add: Cons e False dfs_loop.simps [of m "(n, False) # s"])
      have "n \<notin> coloured col White"
        using inv coloured_disjoint [of Grey White n col] by (auto simp: Cons e False dfs_inv_def)
      then have "coloured (bt_insert n Black col) White = coloured col White"
        by (auto simp: coloured_insert)
      then obtain r where "dfs_loop m s (bt_insert n Black col) = Some r"
        "dfs_result_ok m s (bt_insert n Black col) r"
        using IH [of "bt_insert n Black col" s] dfs_inv_leave inv by (auto simp: Cons e False)
      then show ?thesis
        using st by (auto simp: Cons e dfs_result_ok_def coloured_insert split: sum.splits)
    next
      case True
      have ng: "n \<notin> coloured col Grey"
        using inv covered_not_leaf [of m _ "{n}" s n] by (auto simp: Cons e True dfs_inv_def)
      have "n \<in> fst ` set col" using inv by (simp add: Cons e dfs_inv_def)
      then consider (black) "n \<in> coloured col Black" | (white) "n \<in> coloured col White"
        using ng coloured_cases by blast
      then show ?thesis
      proof cases
        case black
        then obtain r where "dfs_loop m s col = Some r" "dfs_result_ok m s col r"
          using IH [of col s] dfs_inv_black_again inv by (auto simp: Cons e True)
        then show ?thesis
          using dfs_loop_black_again black inv
          by (auto simp: Cons e True dfs_result_ok_def split: sum.splits)
      next
        case white
        have stk: "stack = (n, True) # s" using Cons e True by simp
        have less: "card (coloured (bt_insert n Grey col) White) < card (coloured col White)"
          using white by (intro psubset_card_mono) (auto simp: coloured_insert)
        consider (cyc) c where "dfs_loop m stack col = Some (Err (GroupCycle c))" "(c, c) \<in> (group_edge m)\<^sup>+"
          | (go) cs where "dfs_loop m stack col =
              dfs_loop m (map (\<lambda>c. (c, True)) cs @ (n, False) # s) (bt_insert n Grey col)"
            "dfs_inv m (map (\<lambda>c. (c, True)) cs @ (n, False) # s) (bt_insert n Grey col)"
          using dfs_enter_white [OF inv [unfolded stk] white assms(1)] stk by blast
        then show ?thesis
        proof cases
          case go
          then obtain r where "dfs_loop m stack col = Some r"
            "dfs_result_ok m (map (\<lambda>c. (c, True)) cs @ (n, False) # s) (bt_insert n Grey col) r"
            using IH [of "bt_insert n Grey col" "map (\<lambda>c. (c, True)) cs @ (n, False) # s"] less by auto
          moreover have "coloured col Black \<subseteq> coloured (bt_insert n Grey col) Black"
            using white coloured_disjoint [of White Black n col] by (auto simp: coloured_insert)
          ultimately show ?thesis
            by (auto simp: Cons e dfs_result_ok_def image_Un split: sum.splits)
        qed (auto simp: dfs_result_ok_def)
      qed
    qed
  qed
qed

lemma dfs_starts_total:
  assumes "groups_resolved m" "dfs_inv m [] col" "set starts \<subseteq> fst ` set (m_groups m)"
  shows "(\<exists>c. dfs_starts m starts col = Some (Err (GroupCycle c)) \<and> (c, c) \<in> (group_edge m)\<^sup>+) \<or>
    dfs_starts m starts col = Some (Ok ()) \<and>
      (\<exists>col'. dfs_inv m [] col' \<and> coloured col Black \<union> set starts \<subseteq> coloured col' Black)"
  using assms(2,3)
proof (induction starts arbitrary: col)
  case (Cons n rest)
  have dom: "n \<in> fst ` set col" and nog: "coloured col Grey = {}"
    using Cons.prems by (auto simp: dfs_inv_def leaves_def)
  show ?case
  proof (cases "n \<in> coloured col White")
    case True
    have "dfs_inv m [(n, True)] col" using Cons.prems by (auto simp: dfs_inv_def leaves_def)
    then obtain r where r: "dfs_loop m [(n, True)] col = Some r" "dfs_result_ok m [(n, True)] col r"
      using dfs_loop_total assms(1) by blast
    show ?thesis
    proof (cases r)
      case (Inl e)
      then show ?thesis using r True by (auto simp: dfs_result_ok_def coloured_def)
    next
      case (Inr col')
      then show ?thesis
        using Cons.IH [of col'] Cons.prems(2) r True
        by (fastforce simp: dfs_result_ok_def coloured_def)
    qed
  next
    case False
    then have "n \<in> coloured col Black" using dom nog coloured_cases by blast
    then show ?thesis
      using Cons.IH [of col] Cons.prems by (fastforce simp: coloured_def)
  qed
qed auto

lemma dfs_inv_init: "dfs_inv m [] (bt_collect (map (\<lambda>e. (fst e, White)) (m_groups m)))"
proof -
  let ?col = "bt_collect (map (\<lambda>e. (fst e, White)) (m_groups m))"
  have get: "bt_get ?col n = (if n \<in> fst ` set (m_groups m) then Some White else None)" for n
    by (simp add: bt_get_collect rev_map map_of_const)
  have "x \<in> fst ` set ?col \<longleftrightarrow> x \<in> fst ` set (m_groups m)" for x
    using get [of x] bt_contains_iff [of ?col x] by (simp add: bt_contains_def split: if_splits)
  then have "fst ` set ?col = fst ` set (m_groups m)" by blast
  moreover have "coloured ?col Grey = {}" "coloured ?col Black = {}"
    by (auto simp: coloured_def get split: if_splits)
  ultimately show ?thesis by (simp add: dfs_inv_def leaves_def black_edge_def)
qed

lemma check_group_acyclic_cases:
  assumes "groups_resolved m"
  shows "check_group_acyclic m = Some (Ok ()) \<and> wf (group_edge m) \<or>
    (\<exists>c. check_group_acyclic m = Some (Err (GroupCycle c)) \<and> (c, c) \<in> (group_edge m)\<^sup>+)"
proof -
  let ?col = "bt_collect (map (\<lambda>e. (fst e, White)) (m_groups m))"
  have "wf (group_edge m)" if "dfs_inv m [] col'" "fst ` set (m_groups m) \<subseteq> coloured col' Black" for col'
  proof -
    have "group_edge m \<subseteq> black_edge m col'"
      using that(2) map_of_SomeD by (fastforce simp: group_edge_def black_edge_def group_children_def image_iff)
    then show ?thesis using that(1) wf_subset by (auto simp: dfs_inv_def)
  qed
  then show ?thesis
    using dfs_starts_total [OF assms dfs_inv_init, of "map fst (m_groups m)"]
    by (auto simp: check_group_acyclic_def)
qed

section \<open>Properties\<close>

text \<open>
  C19. The cycle check always returns.  It accepts exactly the models whose group graph is acyclic, and
  when it refuses, the group it names lies on a cycle.
\<close>

theorem check_group_acyclic_correct:
  assumes "groups_resolved m"
  shows "(check_group_acyclic m = Some (Ok ()) \<longleftrightarrow> acyclic (group_edge m)) \<and>
    (\<not> acyclic (group_edge m) \<longleftrightarrow>
      (\<exists>c. check_group_acyclic m = Some (Err (GroupCycle c)) \<and> (c, c) \<in> (group_edge m)\<^sup>+))"
  using check_group_acyclic_cases [OF assms] by (auto simp: acyclic_def dest: wf_acyclic)

theorem check_group_acyclic_correct_witness:
  "let g = \<lparr>au_threshold = 1, au_factors = [\<lparr>wf_weight = 1, wf_factor = FGroup ''a''\<rparr>]\<rparr>;
       m = \<lparr>m_authenticators = [], m_groups = [(''a'', g)], m_profiles = [], m_mcp_profiles = {||}\<rparr>
   in groups_resolved m \<and> (\<exists>c. check_group_acyclic m = Some (Err (GroupCycle c)))"
proof -
  define g where "g = \<lparr>au_threshold = 1, au_factors = [\<lparr>wf_weight = 1, wf_factor = FGroup ''a''\<rparr>]\<rparr>"
  define m where "m = \<lparr>m_authenticators = [], m_groups = [(''a'', g)], m_profiles = [], m_mcp_profiles = {||}\<rparr>"
  have res: "groups_resolved m"
    by (auto simp: groups_resolved_def group_children_def m_def g_def bt_contains_def split: if_splits)
  have "(''a'', ''a'') \<in> group_edge m"
    by (simp add: group_edge_def group_children_def m_def g_def)
  then have "\<not> acyclic (group_edge m)" by (auto simp: acyclic_def)
  then show ?thesis
    using check_group_acyclic_correct [OF res] res by (auto simp: Let_def m_def g_def)
qed

end
