(* ===== verification/Authority_Props.thy ===== *)
theory Authority_Props
  imports Group_Graph
begin

text \<open>
  What a policy means, apart from how it is computed, and that building and evaluation implement it.
  A group is satisfied when some set of its satisfied factors reaches its threshold; evaluation is
  shown to decide that relation on every checked model.
\<close>

section \<open>Specification\<close>

inductive factor_sat :: "authority_model \<Rightarrow> string fset \<Rightarrow> duration \<Rightarrow> factor \<Rightarrow> bool"
  for m :: authority_model and S :: "string fset" and el :: duration where
  sat_authenticator: "i |\<in>| S \<Longrightarrow> factor_sat m S el (FAuthenticator i)"
| sat_wait: "d \<le> el \<Longrightarrow> factor_sat m S el (FWait d)"
| sat_group: "bt_get (m_groups m) i = Some g \<Longrightarrow> I \<subseteq> {..<length (au_factors g)} \<Longrightarrow>
     \<forall>k\<in>I. factor_sat m S el (wf_factor (au_factors g ! k)) \<Longrightarrow>
     au_threshold g \<le> (\<Sum>k\<in>I. wf_weight (au_factors g ! k)) \<Longrightarrow> factor_sat m S el (FGroup i)"

definition authority_met :: "authority_model \<Rightarrow> string fset \<Rightarrow> duration \<Rightarrow> authority \<Rightarrow> bool" where
  "authority_met m S el au \<longleftrightarrow>
     (\<exists>I\<subseteq>{..<length (au_factors au)}.
        (\<forall>k\<in>I. factor_sat m S el (wf_factor (au_factors au ! k))) \<and>
        au_threshold au \<le> (\<Sum>k\<in>I. wf_weight (au_factors au ! k)))"

text \<open>What building one authority guarantees, and what its references resolve to.\<close>

definition authority_built :: "authority \<Rightarrow> bool" where
  "authority_built au \<longleftrightarrow> 0 < au_threshold au \<and> au_threshold au \<le> sum_list (map wf_weight (au_factors au)) \<and>
     (\<forall>w\<in>set (au_factors au). 0 < wf_weight w \<and> (\<forall>d. wf_factor w = FWait d \<longrightarrow> 0 < d))"

definition authority_resolved :: "authority_model \<Rightarrow> authority \<Rightarrow> bool" where
  "authority_resolved m au \<longleftrightarrow>
     (\<forall>w\<in>set (au_factors au).
        (\<forall>i. wf_factor w = FAuthenticator i \<longrightarrow> bt_contains (m_authenticators m) i) \<and>
        (\<forall>i. wf_factor w = FGroup i \<longrightarrow> bt_contains (m_groups m) i))"

definition built_map :: "(string, authority) btree_map \<Rightarrow> bool" where
  "built_map acc \<longleftrightarrow> (\<forall>i g. bt_get acc i = Some g \<longrightarrow> authority_built g)"

definition model_ok :: "authority_model \<Rightarrow> bool" where
  "model_ok m \<longleftrightarrow>
     m_profiles m \<noteq> [] \<and>
     (\<forall>i g. bt_get (m_groups m) i = Some g \<longrightarrow> authority_built g \<and> authority_resolved m g) \<and>
     (\<forall>i p. bt_get (m_profiles m) i = Some p \<longrightarrow> authority_built p \<and> authority_resolved m p) \<and>
     wf (group_edge m)"

text \<open>The groups an authority reaches, and the waits in them.\<close>

inductive reaches :: "authority_model \<Rightarrow> weighted_factor list \<Rightarrow> string \<Rightarrow> bool"
  for m :: authority_model where
  reaches_here: "w \<in> set fs \<Longrightarrow> wf_factor w = FGroup i \<Longrightarrow> reaches m fs i"
| reaches_step: "reaches m fs i \<Longrightarrow> bt_get (m_groups m) i = Some g \<Longrightarrow> w \<in> set (au_factors g) \<Longrightarrow>
     wf_factor w = FGroup j \<Longrightarrow> reaches m fs j"

definition reachable_wait :: "authority_model \<Rightarrow> weighted_factor list \<Rightarrow> duration \<Rightarrow> bool" where
  "reachable_wait m fs d \<longleftrightarrow>
     (\<exists>w\<in>set fs. wf_factor w = FWait d) \<or>
     (\<exists>i g. reaches m fs i \<and> bt_get (m_groups m) i = Some g \<and> (\<exists>w\<in>set (au_factors g). wf_factor w = FWait d))"

section \<open>Lemmas\<close>

subsection \<open>Satisfaction\<close>

inductive_simps factor_sat_simps [simp]:
  "factor_sat m S el (FAuthenticator i)" "factor_sat m S el (FWait d)"

inductive_cases factor_sat_groupE: "factor_sat m S el (FGroup i)"

abbreviation weight_where :: "(factor \<Rightarrow> bool) \<Rightarrow> weighted_factor list \<Rightarrow> nat" where
  "weight_where P fs \<equiv> sum_list (map wf_weight (filter (\<lambda>w. P (wf_factor w)) fs))"

lemma weight_where_nth:
  "weight_where P fs = (\<Sum>k\<in>{k. k < length fs \<and> P (wf_factor (fs ! k))}. wf_weight (fs ! k))"
proof -
  have "weight_where P fs = sum_list (map (\<lambda>w. if P (wf_factor w) then wf_weight w else 0) fs)"
    by (induction fs) auto
  also have "\<dots> = (\<Sum>k<length fs. if P (wf_factor (fs ! k)) then wf_weight (fs ! k) else 0)"
    by (simp add: sum_list_sum_nth atLeast0LessThan)
  also have "\<dots> = (\<Sum>k\<in>{k. k < length fs \<and> P (wf_factor (fs ! k))}. wf_weight (fs ! k))"
    by (intro sum.mono_neutral_cong_right) auto
  finally show ?thesis .
qed

lemma subset_reaches_threshold:
  "(\<exists>I\<subseteq>{..<length fs}. (\<forall>k\<in>I. P (wf_factor (fs ! k))) \<and> t \<le> (\<Sum>k\<in>I. wf_weight (fs ! k))) \<longleftrightarrow>
     t \<le> weight_where P fs"
proof
  assume "\<exists>I\<subseteq>{..<length fs}. (\<forall>k\<in>I. P (wf_factor (fs ! k))) \<and> t \<le> (\<Sum>k\<in>I. wf_weight (fs ! k))"
  then obtain I where I: "I \<subseteq> {..<length fs}" "\<forall>k\<in>I. P (wf_factor (fs ! k))"
    "t \<le> (\<Sum>k\<in>I. wf_weight (fs ! k))" by blast
  have "(\<Sum>k\<in>I. wf_weight (fs ! k)) \<le> weight_where P fs"
    unfolding weight_where_nth using I by (intro sum_mono2) auto
  then show "t \<le> weight_where P fs" using I(3) by linarith
next
  assume "t \<le> weight_where P fs"
  then show "\<exists>I\<subseteq>{..<length fs}. (\<forall>k\<in>I. P (wf_factor (fs ! k))) \<and> t \<le> (\<Sum>k\<in>I. wf_weight (fs ! k))"
    unfolding weight_where_nth
    by (intro exI [of _ "{k. k < length fs \<and> P (wf_factor (fs ! k))}"]) auto
qed

lemma authority_met_weight:
  "authority_met m S el au \<longleftrightarrow> au_threshold au \<le> weight_where (factor_sat m S el) (au_factors au)"
  unfolding authority_met_def by (rule subset_reaches_threshold)

lemma factor_sat_group:
  "factor_sat m S el (FGroup i) \<longleftrightarrow>
     (\<exists>g. bt_get (m_groups m) i = Some g \<and> authority_met m S el g)"
  unfolding authority_met_def by (auto elim!: factor_sat_groupE intro: sat_group)

lemma factor_sat_mono:
  assumes "factor_sat m S el f" "S |\<subseteq>| S'" "el \<le> el'"
  shows "factor_sat m S' el' f"
  using assms
proof (induction rule: factor_sat.induct)
  case (sat_group i g I)
  then show ?case by (intro factor_sat.sat_group [of m i g I]) auto
qed auto

lemma authority_met_mono:
  "authority_met m S el au \<Longrightarrow> S |\<subseteq>| S' \<Longrightarrow> el \<le> el' \<Longrightarrow> authority_met m S' el' au"
  unfolding authority_met_def by (meson factor_sat_mono)

subsection \<open>Evaluation computes satisfaction\<close>

definition verdict :: "authority_model \<Rightarrow> string fset \<Rightarrow> duration \<Rightarrow> weighted_factor list \<Rightarrow> nat \<times> missing list" where
  "verdict m S el fs =
     (weight_where (factor_sat m S el) fs,
      map (\<lambda>w. missing_of el (wf_factor w)) (filter (\<lambda>w. \<not> factor_sat m S el (wf_factor w)) fs))"

lemma evaluate_factors_step:
  assumes "\<And>w i g. w \<in> set fs \<Longrightarrow> wf_factor w = FGroup i \<Longrightarrow> bt_get (m_groups m) i = Some g \<Longrightarrow>
    evaluate_factors m (S, el) (au_factors g) = Some (verdict m S el (au_factors g))"
  shows "evaluate_factors m (S, el) fs = Some (verdict m S el fs)"
  using assms
proof (induction fs)
  case Nil
  then show ?case by (simp add: evaluate_factors.simps verdict_def)
next
  case (Cons w fs)
  have "evaluate_factors m (S, el) fs = Some (verdict m S el fs)" using Cons by auto
  moreover have "(case wf_factor w of
       FAuthenticator i \<Rightarrow> Some (i |\<in>| fst (S, el))
     | FGroup i \<Rightarrow> (case bt_get (m_groups m) i of None \<Rightarrow> Some False
         | Some g \<Rightarrow> Option.bind (evaluate_factors m (S, el) (au_factors g)) (\<lambda>r. Some (fst r \<ge> au_threshold g)))
     | FWait d \<Rightarrow> Some (snd (S, el) \<ge> d)) = Some (factor_sat m S el (wf_factor w))"
    using Cons.prems [of w]
    by (auto simp: factor_sat_group authority_met_weight verdict_def split: factor.splits option.splits)
  ultimately show ?case
    by (simp add: evaluate_factors.simps [of m _ "w # fs"] tally_def) (simp add: verdict_def)
qed

lemma evaluate_group:
  assumes "wf (group_edge m)"
  shows "bt_get (m_groups m) i = Some g \<Longrightarrow>
    evaluate_factors m (S, el) (au_factors g) = Some (verdict m S el (au_factors g))"
proof (induction i arbitrary: g rule: wf_induct_rule [OF assms])
  case (1 i)
  show ?case
  proof (rule evaluate_factors_step)
    fix w j h assume "w \<in> set (au_factors g)" "wf_factor w = FGroup j" "bt_get (m_groups m) j = Some h"
    then show "evaluate_factors m (S, el) (au_factors h) = Some (verdict m S el (au_factors h))"
      using 1 by (auto simp: group_edge_def group_children_def)
  qed
qed

lemma evaluate_factors_verdict:
  "wf (group_edge m) \<Longrightarrow> evaluate_factors m (S, el) fs = Some (verdict m S el fs)"
  by (rule evaluate_factors_step) (rule evaluate_group)

subsection \<open>The longest wait\<close>

text \<open>What a run of the search over \<open>fs\<close> from state \<open>st\<close> to state \<open>r\<close> has established.\<close>

definition wait_found ::
    "authority_model \<Rightarrow> weighted_factor list \<Rightarrow> duration \<times> string fset \<Rightarrow> duration \<times> string fset \<Rightarrow> bool" where
  "wait_found m fs st r \<longleftrightarrow>
     fst st \<le> fst r \<and> snd st |\<subseteq>| snd r \<and>
     (\<forall>w\<in>set fs. \<forall>d. wf_factor w = FWait d \<longrightarrow> d \<le> fst r) \<and>
     (\<forall>w\<in>set fs. \<forall>i. wf_factor w = FGroup i \<longrightarrow> i |\<in>| snd r) \<and>
     (\<forall>i g. i |\<in>| snd r \<longrightarrow> i |\<notin>| snd st \<longrightarrow> bt_get (m_groups m) i = Some g \<longrightarrow>
        (\<forall>w\<in>set (au_factors g). (\<forall>d. wf_factor w = FWait d \<longrightarrow> d \<le> fst r) \<and>
          (\<forall>j. wf_factor w = FGroup j \<longrightarrow> j |\<in>| snd r))) \<and>
     (fst r = fst st \<or> fst r = 0 \<or> reachable_wait m fs (fst r))"

lemma reaches_sub: "reaches m fs i \<Longrightarrow> set fs \<subseteq> set fs' \<Longrightarrow> reaches m fs' i"
  by (induction rule: reaches.induct) (auto intro: reaches.intros)

lemma reaches_into:
  assumes "reaches m (au_factors g) j" "w \<in> set fs" "wf_factor w = FGroup i" "bt_get (m_groups m) i = Some g"
  shows "reaches m fs j"
  using assms by (induction "au_factors g" j rule: reaches.induct) (auto intro: reaches.intros)

lemma reachable_wait_sub: "reachable_wait m fs d \<Longrightarrow> set fs \<subseteq> set fs' \<Longrightarrow> reachable_wait m fs' d"
  unfolding reachable_wait_def using reaches_sub [of m fs _ fs'] by blast

lemma reachable_wait_into:
  "reachable_wait m (au_factors g) d \<Longrightarrow> w \<in> set fs \<Longrightarrow> wf_factor w = FGroup i \<Longrightarrow>
     bt_get (m_groups m) i = Some g \<Longrightarrow> reachable_wait m fs d"
  unfolding reachable_wait_def by (meson reaches_here reaches_into)

lemma wait_foundD:
  assumes "wait_found m fs st r"
  shows "w \<in> set fs \<Longrightarrow> wf_factor w = FWait d \<Longrightarrow> d \<le> fst r"
    and "w \<in> set fs \<Longrightarrow> wf_factor w = FGroup i \<Longrightarrow> i |\<in>| snd r"
    and "i |\<in>| snd r \<Longrightarrow> i |\<notin>| snd st \<Longrightarrow> bt_get (m_groups m) i = Some g \<Longrightarrow>
      w \<in> set (au_factors g) \<Longrightarrow> wf_factor w = FWait d \<Longrightarrow> d \<le> fst r"
    and "i |\<in>| snd r \<Longrightarrow> i |\<notin>| snd st \<Longrightarrow> bt_get (m_groups m) i = Some g \<Longrightarrow>
      w \<in> set (au_factors g) \<Longrightarrow> wf_factor w = FGroup j \<Longrightarrow> j |\<in>| snd r"
  using assms by (simp_all add: wait_found_def)

text \<open>One factor: the value it contributes and the groups seen after it.\<close>

lemma wait_found_Cons:
  assumes head: "wait_found m [w] (0, snd st) r0"
    and rest: "wait_found m fs (if fst r0 > fst st then fst r0 else fst st, snd r0) r"
  shows "wait_found m (w # fs) st r"
proof -
  let ?st = "(if fst r0 > fst st then fst r0 else fst st, snd r0)"
  have "snd st |\<subseteq>| snd r0" using head by (simp add: wait_found_def)
  moreover have "fst ?st \<le> fst r" "snd r0 |\<subseteq>| snd r" using rest by (simp_all add: wait_found_def)
  ultimately have le: "fst st \<le> fst r" "fst r0 \<le> fst r" "snd st |\<subseteq>| snd r" "snd r0 |\<subseteq>| snd r"
    by (auto split: if_splits)
  have rest_w: "\<forall>v\<in>set fs. \<forall>d. wf_factor v = FWait d \<longrightarrow> d \<le> fst r"
    and rest_g: "\<forall>v\<in>set fs. \<forall>i. wf_factor v = FGroup i \<longrightarrow> i |\<in>| snd r"
    using rest by (simp_all add: wait_found_def)
  have "\<forall>d. wf_factor w = FWait d \<longrightarrow> d \<le> fst r0" "\<forall>i. wf_factor w = FGroup i \<longrightarrow> i |\<in>| snd r0"
    using head by (simp_all add: wait_found_def)
  then have ws: "\<forall>v\<in>set (w # fs). \<forall>d. wf_factor v = FWait d \<longrightarrow> d \<le> fst r"
    and gs: "\<forall>v\<in>set (w # fs). \<forall>i. wf_factor v = FGroup i \<longrightarrow> i |\<in>| snd r"
    using rest_w rest_g le(2,4) by force+
  have new: "\<forall>w\<in>set (au_factors g). (\<forall>d. wf_factor w = FWait d \<longrightarrow> d \<le> fst r) \<and>
      (\<forall>j. wf_factor w = FGroup j \<longrightarrow> j |\<in>| snd r)"
    if "i |\<in>| snd r" "i |\<notin>| snd st" "bt_get (m_groups m) i = Some g" for i g
  proof (cases "i |\<in>| snd r0")
    case True
    then have "\<forall>w\<in>set (au_factors g). (\<forall>d. wf_factor w = FWait d \<longrightarrow> d \<le> fst r0) \<and>
      (\<forall>j. wf_factor w = FGroup j \<longrightarrow> j |\<in>| snd r0)"
      using head that by (simp add: wait_found_def)
    then show ?thesis using le(2,4) by (meson fsubsetD order_trans)
  next
    case False
    then show ?thesis using rest that by (simp add: wait_found_def)
  qed
  have "fst r0 = 0 \<or> reachable_wait m (w # fs) (fst r0)"
    using head reachable_wait_sub [of m "[w]" _ "w # fs"] by (auto simp: wait_found_def)
  moreover have "fst r = fst ?st \<or> fst r = 0 \<or> reachable_wait m (w # fs) (fst r)"
    using rest reachable_wait_sub [of m fs _ "w # fs"] by (auto simp: wait_found_def)
  ultimately have att: "fst r = fst st \<or> fst r = 0 \<or> reachable_wait m (w # fs) (fst r)"
    by (auto split: if_splits)
  show ?thesis
    unfolding wait_found_def using le(1,3) ws gs att by (intro conjI allI impI new) assumption+
qed

lemma wait_found_enter:
  assumes "wait_found m (au_factors g) (0, finsert i seen) r" "wf_factor w = FGroup i"
    "bt_get (m_groups m) i = Some g"
  shows "wait_found m [w] (0, seen) r"
proof -
  have "fst r = 0 \<or> reachable_wait m (au_factors g) (fst r)" "finsert i seen |\<subseteq>| snd r"
    using assms(1) by (simp_all add: wait_found_def)
  then have att: "fst r = 0 \<or> reachable_wait m [w] (fst r)" and sub: "i |\<in>| snd r" "seen |\<subseteq>| snd r"
    using assms(2,3) reachable_wait_into [of m g _ w "[w]" i] by auto
  have new: "\<forall>w\<in>set (au_factors h). (\<forall>d. wf_factor w = FWait d \<longrightarrow> d \<le> fst r) \<and>
      (\<forall>j. wf_factor w = FGroup j \<longrightarrow> j |\<in>| snd r)"
    if j: "j |\<in>| snd r" "j |\<notin>| snd (0 :: duration, seen)" "bt_get (m_groups m) j = Some h" for j h
  proof (cases "j = i")
    case True
    then have "h = g" using j(3) assms(3) by simp
    then show ?thesis using wait_foundD(1,2) [OF assms(1)] by blast
  next
    case False
    then have "j |\<notin>| snd (0 :: duration, finsert i seen)" using j(2) by simp
    then show ?thesis using wait_foundD(3,4) [OF assms(1) j(1) _ j(3)] by blast
  qed
  have "\<forall>v\<in>set [w]. \<forall>d. wf_factor v = FWait d \<longrightarrow> d \<le> fst r"
    "\<forall>v\<in>set [w]. \<forall>j. wf_factor v = FGroup j \<longrightarrow> j |\<in>| snd r"
    using assms(2) sub(1) by simp_all
  moreover have "fst (0 :: duration, seen) \<le> fst r" "snd (0 :: duration, seen) |\<subseteq>| snd r"
    "fst r = fst (0 :: duration, seen) \<or> fst r = 0 \<or> reachable_wait m [w] (fst r)"
    using sub(2) att by simp_all
  ultimately show ?thesis
    unfolding wait_found_def by (intro conjI allI impI new) assumption+
qed

lemma max_wait_inner_total:
  "\<exists>r. max_wait_inner m fs st = Some r \<and> wait_found m fs st r"
proof (induction "(card (fst ` set (m_groups m) - fset (snd st)), length fs)" arbitrary: fs st
    rule: wf_induct_rule [OF wf_lex_prod [OF wf_less wf_less]])
  case 1
  show ?case
  proof (cases fs)
    case Nil
    then show ?thesis by (simp add: max_wait_inner.simps wait_found_def)
  next
    case (Cons w rest)
    let ?head = "case wf_factor w of
               FWait d \<Rightarrow> Some (d, snd st)
             | FGroup i \<Rightarrow>
                 if i |\<notin>| snd st then
                   (case bt_get (m_groups m) i of
                      Some g \<Rightarrow> max_wait_inner m (au_factors g) (0, finsert i (snd st))
                    | None \<Rightarrow> Some (0, finsert i (snd st)))
                 else Some (0, snd st)
             | FAuthenticator _ \<Rightarrow> Some (0, snd st)"
    have "\<exists>r0. ?head = Some r0 \<and> wait_found m [w] (0, snd st) r0"
    proof (cases "wf_factor w")
      case (FGroup i)
      show ?thesis
      proof (cases "i |\<in>| snd st \<or> bt_get (m_groups m) i = None")
        case True
        then show ?thesis using FGroup by (auto simp: wait_found_def)
      next
        case False
        then obtain g where g: "bt_get (m_groups m) i = Some g" "i |\<notin>| snd st" by auto
        have "i \<in> fst ` set (m_groups m)"
          using g(1) bt_contains_iff [of "m_groups m" i] by (simp add: bt_contains_def)
        then have "card (fst ` set (m_groups m) - fset (finsert i (snd st)))
            < card (fst ` set (m_groups m) - fset (snd st))"
          using g(2) by (intro psubset_card_mono) auto
        then obtain r0 where "max_wait_inner m (au_factors g) (0, finsert i (snd st)) = Some r0"
          "wait_found m (au_factors g) (0, finsert i (snd st)) r0"
          using 1 [of "(0, finsert i (snd st))" "au_factors g"] by auto
        then show ?thesis using g FGroup wait_found_enter [of m g i "snd st" r0 w] by auto
      qed
    qed (auto simp: wait_found_def reachable_wait_def)
    then obtain r0 where r0: "?head = Some r0" "wait_found m [w] (0, snd st) r0" by blast
    let ?st = "(if fst r0 > fst st then fst r0 else fst st, snd r0)"
    have "card (fst ` set (m_groups m) - fset (snd ?st)) \<le> card (fst ` set (m_groups m) - fset (snd st))"
      using r0(2) by (intro card_mono) (auto simp: wait_found_def)
    then obtain r where "max_wait_inner m rest ?st = Some r" "wait_found m rest ?st r"
      using 1 [of ?st rest] Cons by (auto simp: le_less)
    then have "max_wait_inner m fs st = Some r" "wait_found m fs st r"
      using r0 wait_found_Cons [OF r0(2)] by (simp_all add: Cons max_wait_inner.simps [of m "w # rest"])
    then show ?thesis by blast
  qed
qed

lemma wait_found_reachable:
  assumes "wait_found m fs (0, {||}) r" "reachable_wait m fs d"
  shows "d \<le> fst r"
proof -
  note found = wait_foundD [OF assms(1)]
  have "i |\<in>| snd r" if "reaches m fs i" for i
    using that assms(1)
  proof (induction fs i rule: reaches.induct)
    case (reaches_here w fs i)
    then show ?case by (blast intro: wait_foundD(2))
  next
    case (reaches_step fs i g w j)
    then show ?case by (auto intro: wait_foundD(4))
  qed
  moreover have "i |\<notin>| snd (0 :: duration, {||} :: string fset)" for i by simp
  ultimately show ?thesis
    using assms(2) found(1,3) unfolding reachable_wait_def by blast
qed

subsection \<open>Building\<close>

lemma build_factor_ok:
  "build_factor X kind ident fs = Ok w \<Longrightarrow> 0 < wf_weight w \<and> (\<forall>d. wf_factor w = FWait d \<longrightarrow> 0 < d)"
  by (auto simp: build_factor_def Let_def dest!: ttl_parse_ttl_ok ttl_ok_duration(1)
      split: if_splits option.splits sum.splits)

lemma build_factors_ok:
  "build_factors X kind ident fs = Ok ws \<Longrightarrow> w \<in> set ws \<Longrightarrow>
     0 < wf_weight w \<and> (\<forall>d. wf_factor w = FWait d \<longrightarrow> 0 < d)"
proof (induction fs arbitrary: ws)
  case (Cons a fs)
  then show ?case using build_factor_ok by (auto simp: bind_ok_eq_Ok)
qed simp

lemma build_authority_ok: "build_authority X kind ident t fs = Ok au \<Longrightarrow> authority_built au"
  by (auto simp: build_authority_def bind_ok_eq_Ok authority_built_def Let_def
      dest: build_factors_ok split: if_splits)

lemma check_refs_ok: "check_refs m r au = Ok u \<longleftrightarrow> authority_resolved m au"
  by (auto simp: check_refs_def check_each_ok check_ref_def authority_resolved_def split: factor.splits if_splits)

lemma built_map_insert: "built_map acc \<Longrightarrow> authority_built au \<Longrightarrow> built_map (bt_insert i au acc)"
  by (simp add: built_map_def)

lemma build_groups_ok: "build_groups X specs acc = Ok groups \<Longrightarrow> built_map acc \<Longrightarrow> built_map groups"
proof (induction specs arbitrary: acc)
  case (Cons g specs)
  then obtain au where "build_authority X ''group'' (aus_id g) (aus_threshold g) (aus_factor g) = Ok au"
    "build_groups X specs (bt_insert (aus_id g) au acc) = Ok groups"
    by (auto simp: bind_ok_eq_Ok split: if_splits)
  then show ?case using Cons build_authority_ok built_map_insert by blast
qed simp

lemma build_profiles_ok:
  "build_profiles X specs acc mcp = Ok pm \<Longrightarrow> built_map acc \<Longrightarrow> built_map (fst pm)"
proof (induction specs arbitrary: acc mcp)
  case (Cons p specs)
  then obtain au mcp' where "build_authority X ''profile'' (ps_id p) (ps_threshold p) (ps_factor p) = Ok au"
    "build_profiles X specs (bt_insert (ps_id p) au acc) mcp' = Ok pm"
    by (auto simp: bind_ok_eq_Ok split: if_splits)
  then show ?case using Cons build_authority_ok built_map_insert by blast
qed auto

lemma authority_resolved_groups:
  assumes "\<forall>i g. bt_get (m_groups m) i = Some g \<longrightarrow> authority_resolved m g"
  shows "groups_resolved m"
  using assms unfolding groups_resolved_def group_children_def authority_resolved_def by blast

lemma map_entries_ok:
  assumes "check_each (\<lambda>e. check_refs m (f e) (snd e)) es = Ok u" "bt_get es i = Some g"
  shows "authority_resolved m g"
  using assms map_of_SomeD [OF assms(2)] by (fastforce simp: check_each_ok check_refs_ok)

lemma assemble_model_ok:
  assumes "assemble_model X spec = Ok m"
  shows "m_profiles m \<noteq> []" "built_map (m_groups m)" "built_map (m_profiles m)"
    "\<forall>i g. bt_get (m_groups m) i = Some g \<longrightarrow> authority_resolved m g"
    "\<forall>i g. bt_get (m_profiles m) i = Some g \<longrightarrow> authority_resolved m g"
proof -
  obtain pm u1 u2 where
    g: "build_groups X (sp_group spec) [] = Ok (m_groups m)" and
    p: "build_profiles X (sp_profile spec) [] {||} = Ok pm" "m_profiles m = fst pm" "fst pm \<noteq> []" and
    r: "check_each (\<lambda>e. check_refs m (''group '' @ debug_str X (fst e)) (snd e)) (m_groups m) = Ok u1"
       "check_each (\<lambda>e. check_refs m (''profile '' @ debug_str X (fst e)) (snd e)) (m_profiles m) = Ok u2"
    using assms by (auto simp: assemble_model_def bind_ok_eq_Ok Let_def split: if_splits)
  show "m_profiles m \<noteq> []" "built_map (m_groups m)" "built_map (m_profiles m)"
    using build_groups_ok [OF g] build_profiles_ok [OF p(1)] p(2,3) by (simp_all add: built_map_def)
  show "\<forall>i g. bt_get (m_groups m) i = Some g \<longrightarrow> authority_resolved m g"
    "\<forall>i g. bt_get (m_profiles m) i = Some g \<longrightarrow> authority_resolved m g"
    using map_entries_ok [OF r(1)] map_entries_ok [OF r(2)] by blast+
qed

lemma assemble_model_acyclic_check:
  "assemble_model X spec = Ok m \<Longrightarrow>
     check_group_acyclic m = Some (Ok ()) \<and> wf (group_edge m) \<or>
     (\<exists>c. check_group_acyclic m = Some (Err (GroupCycle c)) \<and> (c, c) \<in> (group_edge m)\<^sup>+)"
  by (intro check_group_acyclic_cases authority_resolved_groups assemble_model_ok)

lemma from_spec_returns: "\<exists>r. from_spec X spec = Some r"
proof (cases "assemble_model X spec")
  case (Inr m)
  then show ?thesis
    using assemble_model_acyclic_check [OF Inr] by (auto simp: from_spec_def)
qed (simp add: from_spec_def)

lemma from_spec_model_ok:
  assumes "from_spec X spec = Some (Ok m)"
  shows "model_ok m"
proof -
  have a: "assemble_model X spec = Ok m" "check_group_acyclic m = Some (Ok ())"
    using assms by (auto simp: from_spec_def split: sum.splits option.splits)
  then have "wf (group_edge m)" using assemble_model_acyclic_check by fastforce
  then show ?thesis
    using assemble_model_ok [OF a(1)] unfolding model_ok_def built_map_def by blast
qed

lemma nothing_sat_for_free:
  assumes "factor_sat m S el f" "S = {||}" "el = 0" "built_map (m_groups m)" "\<And>d. f = FWait d \<Longrightarrow> 0 < d"
  shows False
  using assms
proof (induction rule: factor_sat.induct)
  case (sat_group i g I)
  have "authority_built g" using sat_group by (simp add: built_map_def)
  moreover have "I = {}"
  proof (rule ccontr)
    assume "I \<noteq> {}"
    then obtain k where k: "k \<in> I" by blast
    then have "au_factors g ! k \<in> set (au_factors g)" using sat_group(2) by auto
    then show False using sat_group k \<open>authority_built g\<close> unfolding authority_built_def by blast
  qed
  ultimately show False using sat_group by (simp add: authority_built_def)
qed auto

lemma everyone_sat:
  assumes ok: "model_ok m" and S: "\<And>i. bt_contains (m_authenticators m) i \<Longrightarrow> i |\<in>| S"
    and el: "\<And>d. reachable_wait m fs d \<Longrightarrow> d \<le> el"
    and "reaches m fs i" "bt_get (m_groups m) i = Some g"
  shows "authority_met m S el g"
proof -
  have "wf (group_edge m)" using ok by (simp add: model_ok_def)
  then show ?thesis using assms(4,5)
  proof (induction i arbitrary: g rule: wf_induct_rule)
    case (less i)
    have g: "authority_built g" "authority_resolved m g" using ok less by (auto simp: model_ok_def)
    have "factor_sat m S el (wf_factor w)" if w: "w \<in> set (au_factors g)" for w
    proof (cases "wf_factor w")
      case (FGroup j)
      then obtain h where "bt_get (m_groups m) j = Some h"
        using g(2) w unfolding authority_resolved_def bt_contains_def by blast
      then show ?thesis
        using less w FGroup reaches_step [of m fs i g w j]
        by (auto simp: factor_sat_group group_edge_def group_children_def)
    next
      case (FWait d)
      then have "reachable_wait m fs d" using less.prems w unfolding reachable_wait_def by blast
      then show ?thesis using el FWait by simp
    qed (use g(2) w S in \<open>auto simp: authority_resolved_def\<close>)
    then have "filter (\<lambda>w. factor_sat m S el (wf_factor w)) (au_factors g) = au_factors g"
      by (simp add: filter_id_conv)
    then show ?case using g(1) by (simp add: authority_met_weight authority_built_def)
  qed
qed

lemma everyone_meets:
  assumes ok: "model_ok m" and S: "\<And>i. bt_contains (m_authenticators m) i \<Longrightarrow> i |\<in>| S"
    and el: "\<And>d. reachable_wait m (au_factors au) d \<Longrightarrow> d \<le> el"
    and au: "authority_built au" "authority_resolved m au"
  shows "authority_met m S el au"
proof -
  have "factor_sat m S el (wf_factor w)" if w: "w \<in> set (au_factors au)" for w
  proof (cases "wf_factor w")
    case (FGroup j)
    then obtain h where "bt_get (m_groups m) j = Some h"
      using au(2) w unfolding authority_resolved_def bt_contains_def by blast
    then show ?thesis
      using everyone_sat [OF ok S el, where i = j and g = h] reaches_here [OF w FGroup] FGroup
      by (auto simp: factor_sat_group)
  next
    case (FWait d)
    then have "reachable_wait m (au_factors au) d" using w unfolding reachable_wait_def by blast
    then show ?thesis using el FWait by simp
  qed (use au(2) w S in \<open>auto simp: authority_resolved_def\<close>)
  then have "filter (\<lambda>w. factor_sat m S el (wf_factor w)) (au_factors au) = au_factors au"
    by (simp add: filter_id_conv)
  then show ?thesis using au(1) by (simp add: authority_met_weight authority_built_def)
qed

lemma evaluate_spec:
  assumes "model_ok m"
  shows "\<exists>out. evaluate m au S el = Some out \<and> o_threshold out = au_threshold au \<and>
    (o_met out \<longleftrightarrow> authority_met m S el au) \<and>
    o_missing out = map (\<lambda>w. missing_of el (wf_factor w))
      (filter (\<lambda>w. \<not> factor_sat m S el (wf_factor w)) (au_factors au))"
  using assms
  by (auto simp: evaluate_def evaluate_factors_verdict model_ok_def verdict_def authority_met_weight)

subsection \<open>A small policy\<close>

text \<open>A keyed-MAC authenticator and a two-minute wait, both required, in a group a profile names.\<close>

definition small_crates :: crates where
  "small_crates = undefined\<lparr>debug_str := (\<lambda>s. s)\<rparr>"

definition small_spec :: approval_spec where
  "small_spec =
     \<lparr>sp_authenticator = [\<lparr>as_id = ''a'', as_kind = KHmac, as_public_key = None, as_secret_file = Some ''f'',
        as_hash_file = None, as_alg = None, as_credential_id = None\<rparr>],
      sp_group = [\<lparr>aus_id = ''g'', aus_threshold = 2, aus_factor =
        [\<lparr>fs_weight = 1, fs_authenticator = Some ''a'', fs_group = None, fs_wait = None\<rparr>,
         \<lparr>fs_weight = 1, fs_authenticator = None, fs_group = None, fs_wait = Some ''2m''\<rparr>]\<rparr>],
      sp_profile = [\<lparr>ps_id = ''p'', ps_threshold = 1, ps_factor =
        [\<lparr>fs_weight = 1, fs_authenticator = None, fs_group = Some ''g'', fs_wait = None\<rparr>], ps_mcp = False\<rparr>]\<rparr>"

definition small_profile :: authority where
  "small_profile = \<lparr>au_threshold = 1, au_factors = [\<lparr>wf_weight = 1, wf_factor = FGroup ''g''\<rparr>]\<rparr>"

definition small_model :: authority_model where
  "small_model =
     \<lparr>m_authenticators = [(''a'', AHmac ''f'')],
      m_groups = [(''g'', \<lparr>au_threshold = 2, au_factors =
        [\<lparr>wf_weight = 1, wf_factor = FAuthenticator ''a''\<rparr>,
         \<lparr>wf_weight = 1, wf_factor = FWait (from_secs 120)\<rparr>]\<rparr>)],
      m_profiles = [(''p'', small_profile)], m_mcp_profiles = {||}\<rparr>"

lemma small_wait: "ttl_parse ''2m'' = Ok (Ttl (from_secs 120))"
  by (simp add: ttl_parse_def ttl_unit_def strip_suffix_char_def is_ascii_digit_def parse_digits_u64_def
      digits_val_def u64_max_def checked_mul_u64_def ttl_from_secs_def max_ttl_secs_def)

lemma small_assembled: "assemble_model small_crates small_spec = Ok small_model"
  by (simp add: assemble_model_def small_spec_def small_model_def small_profile_def small_wait
      build_authenticator_def build_authority_def build_factor_def ok_or_def bt_contains_def Let_def
      check_refs_def check_ref_def)

lemma small_loaded: "from_spec small_crates small_spec = Some (Ok small_model)"
proof -
  have "(c, d) \<notin> group_edge small_model" for c d
    by (auto simp: group_edge_def group_children_def small_model_def split: if_splits)
  then have "group_edge small_model = {}" by auto
  then show ?thesis
    using assemble_model_acyclic_check [OF small_assembled] small_assembled by (simp add: from_spec_def)
qed

lemma small_profile_found: "profile small_model ''p'' = Some small_profile"
  by (simp add: profile_def small_model_def)

section \<open>Properties\<close>

text \<open>
  C24. Loading a policy always returns: no configuration makes it diverge in the cycle check or panic
  on a missing key.
\<close>

theorem from_spec_total: "\<exists>r. from_spec X spec = Some r"
  by (rule from_spec_returns)

text \<open>
  C16. Evaluation decides the policy: on a loaded model it always returns, it reports the gate open
  exactly when some set of satisfied factors reaches the threshold (recursively through groups), and
  it lists exactly the unsatisfied factors as missing.
\<close>

theorem evaluate_correct:
  assumes "from_spec X spec = Some (Ok m)"
  shows "\<exists>out. evaluate m au S el = Some out \<and>
    (o_met out \<longleftrightarrow>
      (\<exists>I\<subseteq>{..<length (au_factors au)}.
        (\<forall>k\<in>I. factor_sat m S el (wf_factor (au_factors au ! k))) \<and>
        au_threshold au \<le> (\<Sum>k\<in>I. wf_weight (au_factors au ! k)))) \<and>
    o_missing out = map (\<lambda>w. missing_of el (wf_factor w))
      (filter (\<lambda>w. \<not> factor_sat m S el (wf_factor w)) (au_factors au))"
proof -
  obtain out where "evaluate m au S el = Some out" "o_met out \<longleftrightarrow> authority_met m S el au"
    "o_missing out = map (\<lambda>w. missing_of el (wf_factor w))
      (filter (\<lambda>w. \<not> factor_sat m S el (wf_factor w)) (au_factors au))"
    using evaluate_spec [OF from_spec_model_ok [OF assms], of au S el] by blast
  then show ?thesis unfolding authority_met_def by (intro exI [of _ out] conjI)
qed

theorem evaluate_correct_witness:
  "from_spec small_crates small_spec = Some (Ok small_model) \<and>
   (\<exists>out. evaluate small_model small_profile {||} 0 = Some out \<and> o_missing out = [MGroup ''g''])"
proof -
  have "\<not> factor_sat small_model {||} 0 (FGroup ''g'')"
    by (simp add: factor_sat_group authority_met_weight small_model_def from_secs_def nanos_per_sec_def)
  then show ?thesis
    using evaluate_correct [OF small_loaded, of small_profile "{||}" 0] small_loaded
    by (auto simp: small_profile_def missing_of_def)
qed

text \<open>
  C25. A gate once met stays met: more proofs and more elapsed time never turn an open verdict back.
\<close>

theorem evaluate_monotone:
  assumes "from_spec X spec = Some (Ok m)" "evaluate m au S el = Some out" "o_met out"
    "S |\<subseteq>| S'" "el \<le> el'"
  shows "\<exists>out'. evaluate m au S' el' = Some out' \<and> o_met out'"
proof -
  have "authority_met m S el au"
    using evaluate_spec [OF from_spec_model_ok [OF assms(1)], of au S el] assms(2,3) by auto
  then have "authority_met m S' el' au" using authority_met_mono assms(4,5) by blast
  then show ?thesis using evaluate_spec [OF from_spec_model_ok [OF assms(1)], of au S' el'] by blast
qed

theorem evaluate_monotone_witness:
  "from_spec small_crates small_spec = Some (Ok small_model) \<and>
   (\<exists>out. evaluate small_model small_profile {|''a''|} (from_secs 120) = Some out \<and> o_met out) \<and>
   (\<exists>out. evaluate small_model small_profile {|''a'', ''b''|} (from_secs 180) = Some out \<and> o_met out)"
proof -
  have "authority_met small_model {|''a''|} (from_secs 120) small_profile"
    by (simp add: factor_sat_group authority_met_weight small_model_def small_profile_def)
  then obtain out where out: "evaluate small_model small_profile {|''a''|} (from_secs 120) = Some out" "o_met out"
    using evaluate_spec [OF from_spec_model_ok [OF small_loaded], of small_profile "{|''a''|}" "from_secs 120"]
    by blast
  then show ?thesis
    using evaluate_monotone [OF small_loaded out, of "{|''a'', ''b''|}" "from_secs 180"] small_loaded
    by (auto simp: from_secs_def nanos_per_sec_def)
qed

text \<open>
  C17. No loaded profile opens with no proof at all: with no authenticator satisfied and no time
  elapsed, evaluation reports the gate closed, through any nesting of groups and waits.
\<close>

theorem no_gate_opens_for_free:
  assumes "from_spec X spec = Some (Ok m)" "profile m p = Some au"
  shows "\<exists>out. evaluate m au {||} 0 = Some out \<and> \<not> o_met out"
proof -
  have ok: "model_ok m" by (rule from_spec_model_ok [OF assms(1)])
  have built: "authority_built au" "built_map (m_groups m)"
    using ok assms(2) unfolding model_ok_def profile_def built_map_def by blast+
  have "\<not> factor_sat m {||} 0 (wf_factor w)" if "w \<in> set (au_factors au)" for w
    using nothing_sat_for_free [of m "{||}" 0 "wf_factor w"] built that
    unfolding authority_built_def by blast
  then have "filter (\<lambda>w. factor_sat m {||} 0 (wf_factor w)) (au_factors au) = []"
    by (simp add: filter_empty_conv)
  then have "\<not> authority_met m {||} 0 au"
    using built(1) by (simp add: authority_met_weight authority_built_def)
  then show ?thesis using evaluate_spec [OF ok, of au "{||}" 0] by auto
qed

theorem no_gate_opens_for_free_witness:
  "from_spec small_crates small_spec = Some (Ok small_model) \<and>
   profile small_model ''p'' = Some small_profile \<and>
   (\<exists>out. evaluate small_model small_profile {||} 0 = Some out \<and> \<not> o_met out)"
  using no_gate_opens_for_free [OF small_loaded small_profile_found] small_loaded small_profile_found by simp

text \<open>
  C18. Every loaded profile can be opened: the longest wait is computed for it, and with every
  authenticator satisfied once that wait has elapsed, evaluation reports the gate met.  The computed
  wait is exact: it bounds every wait the profile can reach, and is one of them or zero.
\<close>

theorem every_profile_satisfiable:
  assumes "from_spec X spec = Some (Ok m)" "profile m p = Some au"
  shows "\<exists>w out. max_wait m au = Some w \<and>
    (\<forall>d. reachable_wait m (au_factors au) d \<longrightarrow> d \<le> w) \<and>
    (w = 0 \<or> reachable_wait m (au_factors au) w) \<and>
    evaluate m au (fset_of_list (map fst (m_authenticators m))) w = Some out \<and> o_met out"
proof -
  have ok: "model_ok m" by (rule from_spec_model_ok [OF assms(1)])
  obtain r where r: "max_wait_inner m (au_factors au) (0, {||}) = Some r"
    "wait_found m (au_factors au) (0, {||}) r"
    using max_wait_inner_total by blast
  have bound: "d \<le> fst r" if "reachable_wait m (au_factors au) d" for d
    using wait_found_reachable [OF r(2) that] .
  have attained: "fst r = 0 \<or> reachable_wait m (au_factors au) (fst r)"
    using r(2) by (simp add: wait_found_def)
  have au: "authority_built au" "authority_resolved m au"
    using ok assms(2) unfolding model_ok_def profile_def by blast+
  let ?S = "fset_of_list (map fst (m_authenticators m))"
  have "authority_met m ?S (fst r) au"
    by (rule everyone_meets [OF ok _ bound au]) (simp_all add: bt_contains_iff fset_of_list.rep_eq)
  then obtain out where "evaluate m au ?S (fst r) = Some out" "o_met out"
    using evaluate_spec [OF ok, of au ?S "fst r"] by blast
  moreover have "max_wait m au = Some (fst r)" using r(1) by (simp add: max_wait_def)
  ultimately show ?thesis using attained bound by blast
qed

theorem every_profile_satisfiable_witness:
  "from_spec small_crates small_spec = Some (Ok small_model) \<and>
   profile small_model ''p'' = Some small_profile \<and>
   (\<exists>w out. max_wait small_model small_profile = Some w \<and>
     evaluate small_model small_profile {|''a''|} w = Some out \<and> o_met out)"
proof -
  have "fset_of_list (map fst (m_authenticators small_model)) = {|''a''|}"
    by (simp add: small_model_def)
  then show ?thesis
    using every_profile_satisfiable [OF small_loaded small_profile_found] small_loaded small_profile_found
    by auto
qed

end
