(* ===== verification/Inventory_Props.thy ===== *)
theory Inventory_Props
  imports Inventory_Check Authority_Props
begin

text \<open>
  What an accepted inventory guarantees, stated without the order of the checks, and that the checks
  decide exactly that.
\<close>

section \<open>Specification\<close>

definition table_ok :: "'a option \<Rightarrow> bool \<Rightarrow> ('a \<Rightarrow> bool) \<Rightarrow> bool" where
  "table_ok table declared P \<longleftrightarrow> (table \<noteq> None) = declared \<and> (\<forall>c. table = Some c \<longrightarrow> P c)"

definition http_status :: "16 word \<Rightarrow> bool" where
  "http_status s \<longleftrightarrow> 100 \<le> unat s \<and> unat s < 600"

abbreviation literal :: "string \<Rightarrow> bool" where
  "literal t \<equiv> forbid_placeholders t = Ok ()"

definition http_ok :: "http_config \<Rightarrow> bool" where
  "http_ok c \<longleftrightarrow>
     (\<forall>r\<in>{http_open c, http_revert c}. http_status (hr_expect_status r) \<and> literal (hr_path r) \<and>
        (\<forall>b. hr_body r = Some b \<longrightarrow> literal b)) \<and>
     (case http_verify c of VerifyNone s \<Rightarrow> s = ''none''
      | VerifyProbe v \<Rightarrow> http_status (hv_expect_status v) \<and> literal (hv_path v))"

definition mqtt_ok :: "mqtt_config \<Rightarrow> bool" where
  "mqtt_ok c \<longleftrightarrow>
     \<not> is_password_auth (mqtt_auth c) \<and>
     (\<forall>s\<in>{mqtt_open c, mqtt_revert c}. literal (mm_topic s) \<and> literal (mm_payload s)) \<and>
     (case mqtt_verify c of VerifyNone s \<Rightarrow> s = ''none''
      | VerifyProbe v \<Rightarrow> literal (mv_topic v) \<and> 0 < mv_timeout_secs v)"

definition serial_ok :: "serial_config \<Rightarrow> bool" where
  "serial_ok c \<longleftrightarrow>
     0 < serial_timeout_secs c \<and> literal (sc_send (serial_open c)) \<and> literal (sc_send (serial_revert c)) \<and>
     (case serial_verify c of VerifyNone s \<Rightarrow> s = ''none'' | VerifyProbe v \<Rightarrow> literal (sv_send v))"

definition device_ok :: "signing_spec option \<Rightarrow> device_config \<Rightarrow> bool" where
  "device_ok signing d \<longleftrightarrow>
     device_id_bytes d \<noteq> None \<and> dev_mqtt d = None \<and>
     (case dev_transport d of
        ViaHttp \<Rightarrow> dev_http d \<noteq> None \<and> dev_serial d = None
      | ViaMqtt \<Rightarrow> False
      | ViaSerial \<Rightarrow> dev_http d = None \<and> (\<exists>s. dev_serial d = Some s \<and> 0 < ds_timeout_secs s)) \<and>
     (\<exists>s. signing = Some s \<and> (case dev_alg d of DevEd25519 \<Rightarrow> sg_key_file s | DevP256 \<Rightarrow> sg_p256_key_file s) \<noteq> None)"

definition ssh_ok :: "channel list \<Rightarrow> ssh_config \<Rightarrow> bool" where
  "ssh_ok chans c \<longleftrightarrow>
     (Ssh \<in> set chans \<longrightarrow> ssh_root_posture_default c \<noteq> ssh_root_posture_emergency c) \<and>
     (AuthorizedKeys \<in> set chans \<longrightarrow> ssh_emergency_keys c \<noteq> []) \<and>
     (\<forall>k\<in>set (ssh_emergency_keys c). validate_key_line k = Ok ())"

definition vnc_ok :: "vnc_config \<Rightarrow> bool" where
  "vnc_ok c \<longleftrightarrow>
     vnc_rfb_port c \<noteq> 0 \<and> vnc_local_port c \<noteq> 0 \<and> 0 < vnc_password_len c \<and>
     check_set_command (vnc_set_password_cmd c) = Ok () \<and> check_clear_command (vnc_clear_password_cmd c) = Ok ()"

definition host_valid :: "signing_spec option \<Rightarrow> host \<Rightarrow> bool" where
  "host_valid signing h \<longleftrightarrow>
     (let chans = set (h_channels h) in
      h_name h \<noteq> [] \<and> h_address h \<noteq> [] \<and> h_channels h \<noteq> [] \<and> distinct (h_channels h) \<and>
      table_ok (h_ssh h) (Ssh \<in> chans \<or> AuthorizedKeys \<in> chans) (ssh_ok (h_channels h)) \<and>
      table_ok (h_bmc h) (Bmc \<in> chans) (\<lambda>c. bmc_method c = Redfish) \<and>
      table_ok (h_vnc h) (Vnc \<in> chans) vnc_ok \<and>
      table_ok (h_http h) (Http \<in> chans) http_ok \<and>
      table_ok (h_mqtt h) (Mqtt \<in> chans) mqtt_ok \<and>
      table_ok (h_serial h) (Serial \<in> chans) serial_ok \<and>
      table_ok (h_device h) (Device \<in> chans) (device_ok signing) \<and>
      (h_os h = Embedded \<longrightarrow> chans \<inter> {Ssh, AuthorizedKeys, Vnc} = {}))"

definition local_ports :: "host list \<Rightarrow> 16 word list" where
  "local_ports hs = List.map_filter (\<lambda>h. map_option vnc_local_port (h_vnc h)) hs"

definition access_ok :: "crates \<Rightarrow> authority_model option \<Rightarrow> host \<Rightarrow> bool" where
  "access_ok X model h \<longleftrightarrow>
     (\<forall>a. h_access h = Some a \<longrightarrow>
        (\<exists>m. model = Some m \<and> ha_profiles a \<noteq> [] \<and> (\<forall>p\<in>set (ha_profiles a). profile m p \<noteq> None) \<and>
          (\<forall>(p, body)\<in>set (ha_overrides a). p \<in> set (ha_profiles a) \<and> is_ok (resolve_override X m p body))))"

definition inventory_valid :: "crates \<Rightarrow> inventory \<Rightarrow> authority_model option \<Rightarrow> bool" where
  "inventory_valid X iv model \<longleftrightarrow>
     (\<forall>h\<in>set (inv_hosts iv). host_valid (inv_signing iv) h \<and> access_ok X model h) \<and>
     distinct (map h_name (inv_hosts iv)) \<and> distinct (local_ports (inv_hosts iv)) \<and>
     (inv_signing iv \<noteq> None \<longrightarrow> (\<exists>h\<in>set (inv_hosts iv). Device \<in> set (h_channels h)))"

section \<open>Lemmas\<close>

lemma paired_ok: "paired a u t w chk = Ok () \<longleftrightarrow> table_ok t w (\<lambda>c. chk c = Ok ())"
  by (auto simp: paired_def table_ok_def split: option.splits bool.splits)

lemma check_status_ok: "check_status h w s = Ok () \<longleftrightarrow> http_status s"
  by (auto simp: check_status_def http_status_def word_le_nat_alt)

lemma check_template_ok: "check_template h ch f t = Ok () \<longleftrightarrow> literal t"
  by (auto simp: check_template_def)

lemma check_verify_none_ok: "check_verify_none h ch s = Ok () \<longleftrightarrow> s = ''none''"
  by (auto simp: check_verify_none_def)

lemmas generic_checks = check_status_ok check_template_ok check_verify_none_ok

lemma check_http_ok: "check_http h c = Ok () \<longleftrightarrow> http_ok c"
  by (auto simp: check_http_def check_http_request_def http_ok_def bind_ok_eq_Ok check_each_ok generic_checks
      simp del: check_each.simps split: option.splits verify_mode.splits)

lemma check_mqtt_ok: "check_mqtt h c = Ok () \<longleftrightarrow> mqtt_ok c"
  by (auto simp: check_mqtt_def mqtt_ok_def bind_ok_eq_Ok check_each_ok generic_checks
      simp del: check_each.simps split: verify_mode.splits if_splits)

lemma check_serial_ok: "check_serial h c = Ok () \<longleftrightarrow> serial_ok c"
  by (auto simp: check_serial_def serial_ok_def bind_ok_eq_Ok check_each_ok generic_checks
      simp del: check_each.simps split: verify_mode.splits if_splits)

lemma check_device_ok: "check_device iv h d = Ok () \<longleftrightarrow> device_ok (inv_signing iv) d"
  by (cases "dev_transport d"; cases "dev_alg d")
    (auto simp: check_device_def device_ok_def Let_def bind_eq_Some_conv split: option.splits if_splits)

lemma check_ssh_ok: "check_ssh X h c = Ok () \<longleftrightarrow> ssh_ok (h_channels h) c"
  by (auto simp: check_ssh_def ssh_ok_def check_each_ok)

lemma check_vnc_ok: "check_vnc h c = Ok () \<longleftrightarrow> vnc_ok c"
  by (auto simp: check_vnc_def vnc_ok_def bind_ok_eq_Ok)

lemma check_embedded_ok:
  "check_embedded h = Ok () \<longleftrightarrow> (h_os h = Embedded \<longrightarrow> set (h_channels h) \<inter> {Ssh, AuthorizedKeys, Vnc} = {})"
  by (auto simp: check_embedded_def check_each_ok shell_channel_name_def split: option.splits channel.splits)

lemma claim_port_ok:
  "claim_port h ports = Ok ports' \<longleftrightarrow>
     (case h_vnc h of None \<Rightarrow> ports' = ports
      | Some v \<Rightarrow> bt_get ports (vnc_local_port v) = None \<and> ports' = bt_insert (vnc_local_port v) (h_name h) ports)"
  by (auto simp: claim_port_def split: option.splits)

lemma validate_host_ok:
  "validate_host X iv h st = Ok st' \<longleftrightarrow>
     host_valid (inv_signing iv) h \<and> h_name h |\<notin>| fst st \<and>
     (\<exists>ports. claim_port h (snd st) = Ok ports \<and> st' = (finsert (h_name h) (fst st), ports))"
proof -
  have "card (set (h_channels h)) = length (h_channels h) \<longleftrightarrow> distinct (h_channels h)"
    using card_distinct distinct_card by blast
  then show ?thesis
    unfolding validate_host_def host_valid_def Let_def validate_generic_def validate_device_def
    by (simp add: bind_ok_eq_Ok paired_ok check_ssh_ok check_bmc_def check_vnc_ok check_http_ok check_mqtt_ok
        check_serial_ok check_device_ok check_embedded_ok) blast
qed

lemma validate_hosts_ok:
  "validate_hosts X iv hs st = Ok () \<longleftrightarrow>
     (\<forall>h\<in>set hs. host_valid (inv_signing iv) h) \<and> distinct (map h_name hs) \<and>
     (\<forall>h\<in>set hs. h_name h |\<notin>| fst st) \<and> distinct (local_ports hs) \<and>
     (\<forall>p\<in>set (local_ports hs). bt_get (snd st) p = None)"
proof (induction hs arbitrary: st)
  case Nil
  then show ?case by (simp add: local_ports_def)
next
  case (Cons h hs)
  then show ?case
    by (cases "h_vnc h")
      (auto simp: bind_ok_eq_Ok validate_host_ok claim_port_ok local_ports_def List.map_filter_simps image_iff
        split: if_splits)
qed

lemma check_access_ok: "check_access X model h = Ok () \<longleftrightarrow> access_ok X model h"
proof -
  have "check_override X m h a pb = Ok () \<longleftrightarrow>
      fst pb \<in> set (ha_profiles a) \<and> is_ok (resolve_override X m (fst pb) (snd pb))" for m a pb
    by (auto simp: check_override_def bind_ok_eq_Ok is_ok_def split: sum.splits if_splits)
  then show ?thesis
    by (auto simp: check_access_def access_ok_def bind_ok_eq_Ok check_each_ok split: option.splits if_splits)
qed

lemma approval_model_ok:
  "approval_model X iv = Some (Ok model) \<longleftrightarrow>
     (case inv_approval iv of None \<Rightarrow> model = None
      | Some spec \<Rightarrow> \<exists>m. from_spec X spec = Some (Ok m) \<and> model = Some m)"
  by (auto simp: approval_model_def bind_ok_eq_Ok split: option.splits)

lemma approval_model_returns: "\<exists>r. approval_model X iv = Some r"
proof (cases "inv_approval iv")
  case (Some spec)
  then show ?thesis using from_spec_returns [of X spec] by (auto simp: approval_model_def)
qed (simp add: approval_model_def)

lemma validate_ok:
  "validate X iv = Some (Ok ()) \<longleftrightarrow>
     (\<exists>model. approval_model X iv = Some (Ok model) \<and> inventory_valid X iv model)"
proof -
  have "validate_hosts X iv (inv_hosts iv) ({||}, []) = Ok u \<longleftrightarrow>
      (\<forall>h\<in>set (inv_hosts iv). host_valid (inv_signing iv) h) \<and> distinct (map h_name (inv_hosts iv)) \<and>
      distinct (local_ports (inv_hosts iv))" for u
    using validate_hosts_ok [of X iv "inv_hosts iv" "({||}, [])"] by simp
  then show ?thesis
    by (cases "validate_hosts X iv (inv_hosts iv) ({||}, [])")
      (auto simp: validate_def inventory_valid_def bind_ok_eq_Ok check_each_ok check_access_ok list_ex_iff)
qed

text \<open>One host with the \<open>ssh\<close> channel, under the small policy.\<close>

definition small_ssh :: ssh_config where
  "small_ssh = \<lparr>ssh_agent_user = ''u'', ssh_port = default_ssh_port, ssh_root_posture_default = PostureNo,
     ssh_root_posture_emergency = PostureYes, ssh_authorized_keys_path = default_authorized_keys_path,
     ssh_emergency_keys = [], ssh_identity_file = None, ssh_become_cmd = None, ssh_reload_cmd = None,
     ssh_dropin_path = None\<rparr>"

definition small_host :: host where
  "small_host = \<lparr>h_name = ''h'', h_address = ''a'', h_os = Freebsd, h_channels = [Ssh], h_ssh = Some small_ssh,
     h_bmc = None, h_vnc = None, h_http = None, h_mqtt = None, h_serial = None, h_device = None,
     h_access = Some \<lparr>ha_profiles = [''p''], ha_overrides = []\<rparr>, h_drill = False\<rparr>"

definition small_inventory :: inventory where
  "small_inventory = \<lparr>inv_hosts = [small_host], inv_signing = None, inv_approval = Some small_spec\<rparr>"

lemma small_inventory_valid: "validate small_crates small_inventory = Some (Ok ())"
proof -
  have "host_valid None small_host"
    by (simp add: host_valid_def small_host_def table_ok_def ssh_ok_def small_ssh_def)
  moreover have "access_ok small_crates (Some small_model) small_host"
    using small_profile_found by (simp add: access_ok_def small_host_def)
  ultimately have "inventory_valid small_crates small_inventory (Some small_model)"
    by (simp add: inventory_valid_def small_inventory_def local_ports_def List.map_filter_simps small_host_def)
  then show ?thesis
    using small_loaded by (auto simp: validate_ok approval_model_ok small_inventory_def)
qed

section \<open>Properties\<close>

text \<open>
  C20. Loading an inventory decides exactly the rules of the schema, and always returns.  It accepts
  if and only if the approval policy (when there is one) builds to a model under which every host's
  access rules resolve, each host has exactly the tables its channels need with every table well
  formed, host names and daemon-local ports are pairwise distinct, embedded hosts declare no channel
  that needs a shell, and signing keys are declared exactly where a device needs them.
\<close>

theorem inventory_validate_exact:
  "(\<exists>r. validate X iv = Some r) \<and>
   (validate X iv = Some (Ok ()) \<longleftrightarrow>
      (\<exists>model. inventory_valid X iv model \<and>
        (case inv_approval iv of None \<Rightarrow> model = None
         | Some spec \<Rightarrow> \<exists>m. from_spec X spec = Some (Ok m) \<and> model = Some m)))"
proof
  show "\<exists>r. validate X iv = Some r"
    using approval_model_returns [of X iv] by (auto simp: validate_def split: sum.splits)
qed (use validate_ok [of X iv] in \<open>simp only: approval_model_ok conj_commute\<close>)

text \<open>
  C21. What is refused at load is never met later.  On every host of an accepted inventory: rendering
  the sshd reload command never reaches the unreachable case; installing its emergency keys is never
  refused because of a key; its device identity decodes and a signing key file is configured for its
  algorithm; and every profile it permits is defined, every override builds.
\<close>

theorem accepted_inventory_safe:
  assumes "validate X iv = Some (Ok ())" "h \<in> set (inv_hosts iv)"
  shows "(\<forall>ssh. h_ssh h = Some ssh \<longrightarrow> reload_command h ssh \<noteq> None \<and>
            (\<forall>existing key msg. fence_upsert existing (ssh_emergency_keys ssh) \<noteq> Err (BadKey key msg))) \<and>
     (\<forall>d. h_device h = Some d \<longrightarrow> device_id_bytes d \<noteq> None \<and>
            (\<exists>s. inv_signing iv = Some s \<and>
              (case dev_alg d of DevEd25519 \<Rightarrow> sg_key_file s | DevP256 \<Rightarrow> sg_p256_key_file s) \<noteq> None)) \<and>
     (\<forall>a. h_access h = Some a \<longrightarrow>
        (\<exists>spec m. inv_approval iv = Some spec \<and> from_spec X spec = Some (Ok m) \<and>
           (\<forall>p\<in>set (ha_profiles a). profile m p \<noteq> None) \<and>
           (\<forall>(p, body)\<in>set (ha_overrides a). is_ok (resolve_override X m p body))))"
proof -
  obtain model where m: "approval_model X iv = Some (Ok model)" "inventory_valid X iv model"
    using assms(1) validate_ok by blast
  then have h: "host_valid (inv_signing iv) h" "access_ok X model h"
    using assms(2) by (simp_all add: inventory_valid_def)
  have "reload_command h ssh \<noteq> None" "fence_upsert existing (ssh_emergency_keys ssh) \<noteq> Err (BadKey key msg)"
    if ssh: "h_ssh h = Some ssh" for ssh existing key msg
  proof -
    have "Ssh \<in> set (h_channels h) \<or> AuthorizedKeys \<in> set (h_channels h)" "h_os h = Embedded \<longrightarrow>
        set (h_channels h) \<inter> {Ssh, AuthorizedKeys, Vnc} = {}" "ssh_ok (h_channels h) ssh"
      using h(1) ssh by (simp_all add: host_valid_def table_ok_def Let_def)
    then have "h_os h \<noteq> Embedded" "check_each validate_key_line (ssh_emergency_keys ssh) = Ok ()"
      by (auto simp: ssh_ok_def check_each_ok)
    then show "reload_command h ssh \<noteq> None" "fence_upsert existing (ssh_emergency_keys ssh) \<noteq> Err (BadKey key msg)"
      by (auto simp: reload_command_def fence_upsert_def bind_ok_def Let_def locate_fence_def
          split: option.splits os.splits sum.splits list.splits if_splits)
  qed
  moreover have "device_ok (inv_signing iv) d" if "h_device h = Some d" for d
    using h(1) that by (simp add: host_valid_def table_ok_def Let_def)
  moreover have "\<exists>spec m. inv_approval iv = Some spec \<and> from_spec X spec = Some (Ok m) \<and>
      (\<forall>p\<in>set (ha_profiles a). profile m p \<noteq> None) \<and>
      (\<forall>(p, body)\<in>set (ha_overrides a). is_ok (resolve_override X m p body))" if a: "h_access h = Some a" for a
    using h(2) a m(1) unfolding approval_model_ok access_ok_def by (fastforce split: option.splits)
  ultimately show ?thesis unfolding device_ok_def by blast
qed

theorem accepted_inventory_safe_witness:
  "validate small_crates small_inventory = Some (Ok ()) \<and> small_host \<in> set (inv_hosts small_inventory) \<and>
   reload_command small_host small_ssh \<noteq> None"
proof -
  have "small_host \<in> set (inv_hosts small_inventory)" "h_ssh small_host = Some small_ssh"
    by (simp_all add: small_inventory_def small_host_def)
  then show ?thesis
    using accepted_inventory_safe [OF small_inventory_valid, of small_host] small_inventory_valid by blast
qed

end
