(* ===== verification/Channel_Props.thy ===== *)
theory Channel_Props
  imports Channel Inventory_Props
begin

text \<open>
  What the orchestration guarantees of any driver set that keeps the contract stated at the head of
  \<open>core/src/channel.rs\<close>.  The contract is a locale over the actual state of each channel on the host;
  the scripted drivers keep it.
\<close>

section \<open>The contract\<close>

locale driver_contract =
  fixes ds :: "'w driver_set"
    and actual :: "channel \<Rightarrow> host \<Rightarrow> 'w \<Rightarrow> bool"
  assumes apply_opens: "bt_get ds c = Some d \<Longrightarrow> d_apply d h ctx w = (Ok (), w') \<Longrightarrow> actual c h w'"
    and apply_frame: "bt_get ds c = Some d \<Longrightarrow> d_apply d h ctx w = (r, w') \<Longrightarrow> j \<noteq> c \<Longrightarrow> actual j h w' = actual j h w"
    and revert_closes: "bt_get ds c = Some d \<Longrightarrow> d_revert d h w = (Ok (), w') \<Longrightarrow> \<not> actual c h w'"
    and revert_frame: "bt_get ds c = Some d \<Longrightarrow> d_revert d h w = (r, w') \<Longrightarrow> j \<noteq> c \<Longrightarrow> actual j h w' = actual j h w"
    and reestablish_reads: "bt_get ds c = Some d \<Longrightarrow> d_reestablish d h w = (Ok ChOpen, w') \<Longrightarrow> actual c h w'"
    and reestablish_frame:
      "bt_get ds c = Some d \<Longrightarrow> d_reestablish d h w = (s, w') \<Longrightarrow> j \<noteq> c \<Longrightarrow> actual j h w' = actual j h w"
begin

lemma unwind_spec:
  "list_all (bt_contains ds) cs \<Longrightarrow> distinct cs \<Longrightarrow>
     \<exists>reverted stuck w'. unwind ds h cs w = Some ((reverted, stuck), w') \<and>
       set reverted \<union> set stuck = set cs \<and> set reverted \<inter> set stuck = {} \<and>
       (\<forall>c\<in>set reverted. \<not> actual c h w') \<and> (\<forall>c. c \<notin> set cs \<longrightarrow> actual c h w' = actual c h w)"
proof (induction cs arbitrary: w)
  case (Cons c cs)
  then obtain d where d: "bt_get ds c = Some d" by (auto simp: bt_contains_def)
  obtain r w1 where r: "d_revert d h w = (r, w1)" by (cases "d_revert d h w")
  have "list_all (bt_contains ds) cs" "distinct cs" using Cons.prems by simp_all
  then obtain rv st w' where ih: "unwind ds h cs w1 = Some ((rv, st), w')" "set rv \<union> set st = set cs"
    "set rv \<inter> set st = {}" "\<forall>c\<in>set rv. \<not> actual c h w'" "\<forall>c. c \<notin> set cs \<longrightarrow> actual c h w' = actual c h w1"
    using Cons.IH [of w1] by blast
  have frame: "actual j h w' = actual j h w" if "j \<notin> set (c # cs)" for j
    using ih(5) revert_frame [OF d r] that by auto
  have c: "c \<notin> set rv \<union> set st" "actual c h w' = actual c h w1" using ih(2,5) Cons.prems by auto
  show ?case
  proof (cases r)
    case (Inl e)
    then show ?thesis using d r ih c(1) frame by (intro exI [of _ rv] exI [of _ "c # st"] exI [of _ w']) auto
  next
    case (Inr u)
    then have "\<not> actual c h w'" using revert_closes [OF d] r c(2) by simp
    then show ?thesis
      using Inr d r ih c(1) frame by (intro exI [of _ "c # rv"] exI [of _ st] exI [of _ w']) auto
  qed
qed simp

text \<open>What an open attempt over \<open>channels\<close> has established, from world \<open>w0\<close> to world \<open>w'\<close>.\<close>

definition opened :: "host \<Rightarrow> channel list \<Rightarrow> 'w \<Rightarrow> apply_outcome \<Rightarrow> 'w \<Rightarrow> bool" where
  "opened h channels w0 out w' \<longleftrightarrow>
     (case out of
        Applied applied \<Rightarrow> applied = channels \<and> (\<forall>c\<in>set channels. actual c h w') \<and>
          (\<forall>c. c \<notin> set channels \<longrightarrow> actual c h w' = actual c h w0)
      | Failed f _ reverted stuck \<Rightarrow>
          \<exists>pre post. channels = pre @ f # post \<and> set reverted \<union> set stuck = set (f # pre) \<and>
            set reverted \<inter> set stuck = {} \<and> (\<forall>c\<in>set reverted. \<not> actual c h w') \<and>
            (\<forall>c. c \<notin> set (f # pre) \<longrightarrow> actual c h w' = actual c h w0))"

lemma apply_loop_spec:
  "list_all (bt_contains ds) (applied @ cs) \<Longrightarrow> distinct (applied @ cs) \<Longrightarrow>
     (\<forall>c\<in>set applied. actual c h w) \<Longrightarrow> (\<forall>c. c \<notin> set applied \<longrightarrow> actual c h w = actual c h w0) \<Longrightarrow>
     \<exists>out w'. apply_loop ds h ctx applied cs w = Some (out, w') \<and> opened h (applied @ cs) w0 out w'"
proof (induction cs arbitrary: applied w)
  case Nil
  then show ?case by (simp add: opened_def)
next
  case (Cons c cs)
  then obtain d where d: "bt_get ds c = Some d" by (auto simp: bt_contains_def)
  obtain r w1 where r: "d_apply d h ctx w = (r, w1)" by (cases "d_apply d h ctx w")
  note frame = apply_frame [OF d r]
  show ?case
  proof (cases r)
    case (Inl e)
    have "list_all (bt_contains ds) (c # rev applied)" "distinct (c # rev applied)" using Cons.prems by auto
    then obtain rv st w' where u: "unwind ds h (c # rev applied) w1 = Some ((rv, st), w')"
      "set rv \<union> set st = set (c # applied)" "set rv \<inter> set st = {}" "\<forall>c\<in>set rv. \<not> actual c h w'"
      "\<forall>j. j \<notin> set (c # applied) \<longrightarrow> actual j h w' = actual j h w1"
      using unwind_spec [of "c # rev applied" h w1] by auto
    have "actual j h w' = actual j h w0" if "j \<notin> set (c # applied)" for j
      using u(5) frame [of j] Cons.prems(4) that by auto
    then have "opened h (applied @ c # cs) w0 (Failed c e rv st) w'"
      using u unfolding opened_def by auto
    moreover have "apply_loop ds h ctx applied (c # cs) w = Some (Failed c e rv st, w')"
      using Inl d r u(1) by (simp del: unwind.simps)
    ultimately show ?thesis by blast
  next
    case (Inr u)
    have "actual c h w1" using apply_opens [OF d] r Inr by simp
    moreover have "c \<notin> set applied" using Cons.prems(2) by simp
    ultimately have "\<forall>j\<in>set (applied @ [c]). actual j h w1" "\<forall>j. j \<notin> set (applied @ [c]) \<longrightarrow> actual j h w1 = actual j h w0"
      using Cons.prems(3,4) frame by (auto, metis)
    then show ?thesis
      using Cons.IH [of "applied @ [c]" w1] Cons.prems(1,2) d r Inr by simp
  qed
qed

lemma apply_channels_spec:
  assumes "list_all (bt_contains ds) cs" "distinct cs"
  shows "\<exists>out w'. apply_channels ds h cs ctx w = Some (out, w') \<and> opened h cs w out w'"
  using apply_loop_spec [of "[]" cs h w w ctx] assms by (simp add: apply_channels_def)

lemma revert_loop_spec:
  "distinct cs \<Longrightarrow> revert_loop ds h cs w = (stuck, w') \<Longrightarrow>
     set (map fst stuck) \<subseteq> set cs \<and> (\<forall>c\<in>set cs. c \<notin> fst ` set stuck \<longrightarrow> \<not> actual c h w') \<and>
     (\<forall>c. c \<notin> set cs \<longrightarrow> actual c h w' = actual c h w)"
proof (induction cs arbitrary: w stuck)
  case (Cons c cs)
  show ?case
  proof (cases "bt_get ds c")
    case None
    then obtain st where "revert_loop ds h cs w = (st, w')" "stuck = (c, no_driver c) # st"
      using Cons.prems(2) by (auto split: prod.splits)
    then show ?thesis using Cons.IH [of w st] Cons.prems(1) by auto
  next
    case (Some d)
    obtain r w1 where r: "d_revert d h w = (r, w1)" by (cases "d_revert d h w")
    obtain st where st: "revert_loop ds h cs w1 = (st, w')" "stuck = (case r of Inl e \<Rightarrow> (c, e) # st | Inr _ \<Rightarrow> st)"
      using Cons.prems(2) Some r by (cases r) (auto split: prod.splits)
    have ih: "set (map fst st) \<subseteq> set cs" "\<forall>c\<in>set cs. c \<notin> fst ` set st \<longrightarrow> \<not> actual c h w'"
      "\<forall>c. c \<notin> set cs \<longrightarrow> actual c h w' = actual c h w1"
      using Cons.IH [OF _ st(1)] Cons.prems(1) by auto
    have "\<not> actual c h w'" if "r = Ok ()"
      using revert_closes [OF Some] r ih(3) Cons.prems(1) that by auto
    then show ?thesis
      using ih st(2) revert_frame [OF Some r] by (cases r) auto
  qed
qed simp

lemma revert_channels_spec:
  assumes "distinct cs" "revert_channels ds h cs w = (out, w')"
  shows "(\<forall>c. c \<notin> set cs \<longrightarrow> actual c h w' = actual c h w) \<and>
    (case out of Reverted \<Rightarrow> \<forall>c\<in>set cs. \<not> actual c h w'
     | Stuck stuck \<Rightarrow> stuck \<noteq> [] \<and> fst ` set stuck \<subseteq> set cs \<and>
         (\<forall>c\<in>set cs. c \<notin> fst ` set stuck \<longrightarrow> \<not> actual c h w'))"
proof -
  obtain st where st: "revert_loop ds h (rev cs) w = (st, w')" "out = (if st = [] then Reverted else Stuck st)"
    using assms(2) by (auto simp: revert_channels_def split: prod.splits)
  then show ?thesis using revert_loop_spec [of "rev cs" h w st w'] assms(1) by auto
qed

lemma reestablish_loop_spec:
  "distinct cs \<Longrightarrow> reestablish_loop ds h cs w = (lost, w') \<Longrightarrow>
     (\<forall>c\<in>set cs. c \<notin> fst ` set lost \<longrightarrow> actual c h w') \<and>
     (\<forall>c. c \<notin> set cs \<longrightarrow> actual c h w' = actual c h w)"
proof (induction cs arbitrary: w lost)
  case (Cons c cs)
  show ?case
  proof (cases "bt_get ds c")
    case None
    then obtain l where "reestablish_loop ds h cs w = (l, w')" "lost = (c, no_driver c) # l"
      using Cons.prems(2) by (auto split: prod.splits)
    then show ?thesis using Cons.IH [of w l] Cons.prems(1) by auto
  next
    case (Some d)
    obtain r w1 where r: "d_reestablish d h w = (r, w1)" by (cases "d_reestablish d h w")
    obtain l where l: "reestablish_loop ds h cs w1 = (l, w')" "r = Ok ChOpen \<and> lost = l \<or> (\<exists>e. lost = (c, e) # l)"
      using Cons.prems(2) Some r by (auto split: prod.splits sum.splits channel_state.splits)
    have ih: "\<forall>c\<in>set cs. c \<notin> fst ` set l \<longrightarrow> actual c h w'" "\<forall>c. c \<notin> set cs \<longrightarrow> actual c h w' = actual c h w1"
      using Cons.IH [OF _ l(1)] Cons.prems(1) by auto
    have "actual c h w'" if "r = Ok ChOpen"
      using reestablish_reads [OF Some] r ih(2) Cons.prems(1) that by auto
    then show ?thesis using ih l(2) reestablish_frame [OF Some r] by auto
  qed
qed simp

end

section \<open>The scripted drivers keep the contract\<close>

abbreviation fake_actual :: "channel \<Rightarrow> host \<Rightarrow> fake_world \<Rightarrow> bool" where
  "fake_actual c h w \<equiv> fk_open (fw_drivers w c)"

lemma fake_drivers_get: "bt_get (fake_drivers cs) c = (if c \<in> set cs then Some (fake c) else None)"
proof -
  have "map_of (rev (map (\<lambda>c. (c, fake c)) cs)) c = (if c \<in> set cs then Some (fake c) else None)"
    by (induction cs) (auto simp: map_add_def split: option.splits)
  then show ?thesis by (simp add: fake_drivers_def bt_get_collect)
qed

lemmas fake_calls = fake_def fake_apply_def fake_revert_def fake_verify_def fake_set_def default_reestablish_def Let_def

interpretation fakes: driver_contract "fake_drivers cs" fake_actual for cs
  by unfold_locales (auto simp: fake_drivers_get fake_calls split: if_splits)

text \<open>The calls of one open attempt and of one revert, on a set of scripted drivers.\<close>

lemma fake_script_kept [simp]:
  "fk_script (fw_drivers (snd (fake_apply c h ctx w)) j) = fk_script (fw_drivers w j)"
  "fk_script (fw_drivers (snd (fake_revert c h w)) j) = fk_script (fw_drivers w j)"
  by (auto simp: fake_calls)

lemma fake_log [simp]:
  "fw_log (snd (fake_apply c h ctx w)) = fw_log w @ [(c, ''apply'')]"
  "fw_log (snd (fake_revert c h w)) = fw_log w @ [(c, ''revert'')]"
  by (auto simp: fake_calls)

definition fails_apply :: "fake_world \<Rightarrow> channel \<Rightarrow> bool" where
  "fails_apply w c \<longleftrightarrow> fk_script (fw_drivers w c) \<in> {FailApply, FailBoth}"

definition fails_revert :: "fake_world \<Rightarrow> channel \<Rightarrow> bool" where
  "fails_revert w c \<longleftrightarrow> fk_script (fw_drivers w c) \<in> {FailRevert, FailBoth}"

lemma fake_results:
  "is_ok (fst (fake_apply c h ctx w)) \<longleftrightarrow> \<not> fails_apply w c"
  "is_ok (fst (fake_revert c h w)) \<longleftrightarrow> \<not> fails_revert w c"
  by (auto simp: fake_calls fails_apply_def fails_revert_def)

lemma fake_fails_kept [simp]:
  "fails_apply (snd (fake_apply c h ctx w)) = fails_apply w" "fails_revert (snd (fake_apply c h ctx w)) = fails_revert w"
  "fails_apply (snd (fake_revert c h w)) = fails_apply w" "fails_revert (snd (fake_revert c h w)) = fails_revert w"
  by (auto simp: fails_apply_def fails_revert_def fun_eq_iff)

lemma fake_unwind:
  "set cs \<subseteq> set reg \<Longrightarrow>
     \<exists>w'. unwind (fake_drivers reg) h cs w =
       Some ((filter (\<lambda>c. \<not> fails_revert w c) cs, filter (fails_revert w) cs), w') \<and>
       fw_log w' = fw_log w @ map (\<lambda>c. (c, ''revert'')) cs"
proof (induction cs arbitrary: w)
  case (Cons c cs)
  define w1 where "w1 = snd (fake_revert c h w)"
  obtain w' where "unwind (fake_drivers reg) h cs w1 =
      Some ((filter (\<lambda>c. \<not> fails_revert w1 c) cs, filter (fails_revert w1) cs), w')"
      "fw_log w' = fw_log w1 @ map (\<lambda>c. (c, ''revert'')) cs"
    using Cons by fastforce
  moreover have "d_revert (fake c) h w = (fst (fake_revert c h w), w1)" by (simp add: fake_def w1_def)
  moreover have "fails_revert w1 = fails_revert w" "fw_log w1 = fw_log w @ [(c, ''revert'')]" by (simp_all add: w1_def)
  ultimately show ?case
    using Cons.prems fake_results(2) [of c h w] by (auto simp: fake_drivers_get)
qed simp

primrec upto_first :: "('a \<Rightarrow> bool) \<Rightarrow> 'a list \<Rightarrow> 'a list" where
  "upto_first P [] = []"
| "upto_first P (x # xs) = (if P x then [x] else x # upto_first P xs)"

lemma upto_first_Nil [simp]: "upto_first P xs = [] \<longleftrightarrow> xs = []"
  by (cases xs) auto

lemma fake_apply_loop:
  "set (applied @ cs) \<subseteq> set reg \<Longrightarrow>
     \<exists>out w'. apply_loop (fake_drivers reg) h ctx applied cs w = Some (out, w') \<and>
       (let tried = upto_first (fails_apply w) cs; back = rev (applied @ tried) in
        if list_ex (fails_apply w) cs
        then (\<exists>e. out = Failed (last tried) e (filter (\<lambda>c. \<not> fails_revert w c) back) (filter (fails_revert w) back)) \<and>
          fw_log w' = fw_log w @ map (\<lambda>c. (c, ''apply'')) tried @ map (\<lambda>c. (c, ''revert'')) back
        else out = Applied (applied @ cs) \<and> fw_log w' = fw_log w @ map (\<lambda>c. (c, ''apply'')) cs)"
proof (induction cs arbitrary: applied w)
  case (Cons c cs)
  define w1 where "w1 = snd (fake_apply c h ctx w)"
  have step: "d_apply (fake c) h ctx w = (fst (fake_apply c h ctx w), w1)" "bt_get (fake_drivers reg) c = Some (fake c)"
    using Cons.prems by (simp_all add: fake_def w1_def fake_drivers_get)
  have kept: "fails_apply w1 = fails_apply w" "fails_revert w1 = fails_revert w" "fw_log w1 = fw_log w @ [(c, ''apply'')]"
    by (simp_all add: w1_def)
  show ?case
  proof (cases "fails_apply w c")
    case True
    then obtain e where "fst (fake_apply c h ctx w) = Inl e"
      using fake_results(1) [of c h ctx w] by (cases "fst (fake_apply c h ctx w)") auto
    moreover obtain w' where "unwind (fake_drivers reg) h (c # rev applied) w1 =
        Some ((filter (\<lambda>c. \<not> fails_revert w1 c) (c # rev applied), filter (fails_revert w1) (c # rev applied)), w')"
        "fw_log w' = fw_log w1 @ map (\<lambda>c. (c, ''revert'')) (c # rev applied)"
      using fake_unwind [of "c # rev applied" reg h w1] Cons.prems by auto
    ultimately show ?thesis using True step kept by (simp add: Let_def del: unwind.simps)
  next
    case False
    then have "fst (fake_apply c h ctx w) = Inr ()"
      using fake_results(1) [of c h ctx w] by (cases "fst (fake_apply c h ctx w)") auto
    then have "apply_loop (fake_drivers reg) h ctx applied (c # cs) w = apply_loop (fake_drivers reg) h ctx (applied @ [c]) cs w1"
      using step by simp
    then show ?thesis
      using False Cons.IH [of "applied @ [c]" w1] Cons.prems kept
      by (cases "list_ex (fails_apply w) cs") (auto simp: Let_def list_ex_iff)
  qed
qed simp

lemma fake_revert_loop:
  "\<exists>w'. revert_loop (fake_drivers reg) h cs w = (fst (revert_loop (fake_drivers reg) h cs w), w') \<and>
     map fst (fst (revert_loop (fake_drivers reg) h cs w)) = filter (\<lambda>c. c \<notin> set reg \<or> fails_revert w c) cs \<and>
     fw_log w' = fw_log w @ map (\<lambda>c. (c, ''revert'')) (filter (\<lambda>c. c \<in> set reg) cs)"
proof (induction cs arbitrary: w)
  case (Cons c cs)
  define w1 where "w1 = snd (fake_revert c h w)"
  have r: "d_revert (fake c) h w = (fst (fake_revert c h w), w1)" by (simp add: fake_def w1_def)
  have "fails_revert w1 = fails_revert w" "fw_log w1 = fw_log w @ [(c, ''revert'')]" by (simp_all add: w1_def)
  then show ?case
    using Cons.IH [of w] Cons.IH [of w1] r fake_results(2) [of c h w]
    by (cases "fst (fake_revert c h w)") (auto simp: fake_drivers_get split: prod.splits)
qed simp

text \<open>Two scripted drivers, the second of which fails to apply and to revert.\<close>

definition demo_world :: fake_world where
  "demo_world = \<lparr>fw_drivers = (\<lambda>c. fake_new c (if c = Bmc then FailBoth else Succeed)), fw_log = []\<rparr>"

definition demo_ctx :: apply_ctx where
  "demo_ctx = \<lparr>ctx_ttl_secs = 60, ctx_expires_at = 60000000000\<rparr>"

section \<open>Properties\<close>

text \<open>
  C14. A failed open never presents as cleanly open.  On drivers that keep the contract, opening a
  host's distinct drivable channels never panics.  If it reports success, every channel is open and no
  other changed.  If it reports failure, some channel failed, the channels attempted are split into
  those reverted, which are closed, and those stuck, and no channel outside them changed; in
  particular a channel that this attempt left open is reported stuck.
\<close>

theorem apply_channels_accounts:
  assumes "driver_contract ds actual" "list_all (bt_contains ds) cs" "distinct cs"
  shows "\<exists>out w'. apply_channels ds h cs ctx w = Some (out, w') \<and>
    (case out of
       Applied applied \<Rightarrow> applied = cs \<and> (\<forall>c\<in>set cs. actual c h w') \<and>
         (\<forall>c. c \<notin> set cs \<longrightarrow> actual c h w' = actual c h w)
     | Failed f e reverted stuck \<Rightarrow>
         (\<exists>pre post. cs = pre @ f # post \<and> set reverted \<union> set stuck = set (f # pre)) \<and>
         set reverted \<inter> set stuck = {} \<and> (\<forall>c\<in>set reverted. \<not> actual c h w') \<and>
         (\<forall>c. c \<notin> set reverted \<union> set stuck \<longrightarrow> actual c h w' = actual c h w) \<and>
         (\<forall>c. actual c h w' \<and> \<not> actual c h w \<longrightarrow> c \<in> set stuck))"
proof -
  obtain out w' where r: "apply_channels ds h cs ctx w = Some (out, w')"
    "driver_contract.opened actual h cs w out w'"
    using driver_contract.apply_channels_spec [OF assms] by blast
  note opened = r(2) [unfolded driver_contract.opened_def [OF assms(1)]]
  show ?thesis
  proof (cases out)
    case (Failed f e rv st)
    then show ?thesis using r(1) opened by auto
  qed (use r(1) opened in auto)
qed

theorem apply_channels_accounts_witness:
  "driver_contract (fake_drivers [Ssh, Bmc]) fake_actual \<and>
   (\<exists>out w'. apply_channels (fake_drivers [Ssh, Bmc]) small_host [Ssh, Bmc] demo_ctx demo_world = Some (out, w'))"
proof -
  have "list_all (bt_contains (fake_drivers [Ssh, Bmc])) [Ssh, Bmc]" "distinct [Ssh, Bmc]"
    by (simp_all add: bt_contains_def fake_drivers_get)
  then show ?thesis
    using apply_channels_accounts [OF fakes.driver_contract_axioms, of "[Ssh, Bmc]" "[Ssh, Bmc]" small_host demo_ctx demo_world]
      fakes.driver_contract_axioms by blast
qed

text \<open>
  C15. Reverting never loses a channel.  On drivers that keep the contract, a revert of distinct
  channels that reports success leaves every one of them closed; otherwise each channel not reported
  stuck is closed, only channels of the grant are reported, and no other channel changed.
\<close>

theorem revert_channels_accounts:
  assumes "driver_contract ds actual" "distinct cs" "revert_channels ds h cs w = (out, w')"
  shows "(\<forall>c. c \<notin> set cs \<longrightarrow> actual c h w' = actual c h w) \<and>
    (case out of Reverted \<Rightarrow> \<forall>c\<in>set cs. \<not> actual c h w'
     | Stuck stuck \<Rightarrow> stuck \<noteq> [] \<and> fst ` set stuck \<subseteq> set cs \<and>
         (\<forall>c\<in>set cs. c \<notin> fst ` set stuck \<longrightarrow> \<not> actual c h w'))"
  by (rule driver_contract.revert_channels_spec [OF assms])

theorem revert_channels_accounts_witness:
  "driver_contract (fake_drivers [Ssh, Bmc]) fake_actual \<and>
   (let (out, w') = revert_channels (fake_drivers [Ssh, Bmc]) small_host [Ssh, Bmc] demo_world
    in case out of Reverted \<Rightarrow> False | Stuck stuck \<Rightarrow> fst ` set stuck \<subseteq> {Ssh, Bmc})"
proof -
  obtain out w' where r: "revert_channels (fake_drivers [Ssh, Bmc]) small_host [Ssh, Bmc] demo_world = (out, w')"
    by (cases "revert_channels (fake_drivers [Ssh, Bmc]) small_host [Ssh, Bmc] demo_world")
  moreover have "out \<noteq> Reverted"
    using r by (auto simp: revert_channels_def fake_drivers_get fake_calls demo_world_def fake_new_def
        split: if_splits prod.splits)
  ultimately show ?thesis
    using revert_channels_accounts [OF fakes.driver_contract_axioms _ r] fakes.driver_contract_axioms
    by (cases out) auto
qed

text \<open>
  C23. The order of the driver calls, on scripted drivers.  An open applies the channels in order up to
  and including the first that fails, then reverts that one and the applied ones in reverse, once
  each; a revert calls every drivable channel once, in reverse order, also after a failure, and
  reports exactly those that failed or have no driver.
\<close>

theorem driver_call_order:
  assumes "set cs \<subseteq> set reg"
  shows "(\<exists>out w'. apply_channels (fake_drivers reg) h cs ctx w = Some (out, w') \<and>
      (let tried = upto_first (fails_apply w) cs in
       if list_ex (fails_apply w) cs
       then (\<exists>e. out = Failed (last tried) e (filter (\<lambda>c. \<not> fails_revert w c) (rev tried))
                (filter (fails_revert w) (rev tried))) \<and>
         fw_log w' = fw_log w @ map (\<lambda>c. (c, ''apply'')) tried @ map (\<lambda>c. (c, ''revert'')) (rev tried)
       else out = Applied cs \<and> fw_log w' = fw_log w @ map (\<lambda>c. (c, ''apply'')) cs)) \<and>
    (\<exists>out w'. revert_channels (fake_drivers reg) h chans w = (out, w') \<and>
      fw_log w' = fw_log w @ map (\<lambda>c. (c, ''revert'')) (filter (\<lambda>c. c \<in> set reg) (rev chans)) \<and>
      (let bad = filter (\<lambda>c. c \<notin> set reg \<or> fails_revert w c) (rev chans) in
       case out of Reverted \<Rightarrow> bad = [] | Stuck stuck \<Rightarrow> bad \<noteq> [] \<and> map fst stuck = bad))"
    (is "?opens \<and> ?reverts")
proof
  show ?opens
    using fake_apply_loop [of "[]" cs reg h ctx w, unfolded append_Nil Let_def] assms
    unfolding apply_channels_def Let_def by blast
  obtain st w' where l: "revert_loop (fake_drivers reg) h (rev chans) w = (st, w')"
    "map fst st = filter (\<lambda>c. c \<notin> set reg \<or> fails_revert w c) (rev chans)"
    "fw_log w' = fw_log w @ map (\<lambda>c. (c, ''revert'')) (filter (\<lambda>c. c \<in> set reg) (rev chans))"
    using fake_revert_loop [of reg h "rev chans" w] by (metis prod.collapse fst_conv)
  then show ?reverts by (auto simp: revert_channels_def Let_def simp flip: l(2))
qed

theorem driver_call_order_witness:
  "\<exists>w'. apply_channels (fake_drivers [Ssh, Bmc]) small_host [Ssh, Bmc] demo_ctx demo_world =
       Some (Failed Bmc (DriverError ''scripted apply failure on Bmc'') [Ssh] [Bmc], w') \<and>
     fw_log w' = [(Ssh, ''apply''), (Bmc, ''apply''), (Bmc, ''revert''), (Ssh, ''revert'')]"
proof -
  have f: "fails_apply demo_world Bmc" "\<not> fails_apply demo_world Ssh" "fails_revert demo_world Bmc" "\<not> fails_revert demo_world Ssh"
    by (simp_all add: fails_apply_def fails_revert_def demo_world_def fake_new_def)
  have log: "fw_log demo_world = []" by (simp add: demo_world_def)
  obtain e w' where w': "apply_channels (fake_drivers [Ssh, Bmc]) small_host [Ssh, Bmc] demo_ctx demo_world =
      Some (Failed Bmc e [Ssh] [Bmc], w')"
    "fw_log w' = [(Ssh, ''apply''), (Bmc, ''apply''), (Bmc, ''revert''), (Ssh, ''revert'')]"
    using driver_call_order [of "[Ssh, Bmc]" "[Ssh, Bmc]" small_host demo_ctx demo_world "[]"] f log
    by auto
  moreover have "e = DriverError ''scripted apply failure on Bmc''"
    using w'(1) by (auto simp: apply_channels_def fake_drivers_get fake_calls demo_world_def fake_new_def channel_debug_def
        split: if_splits option.splits)
  ultimately show ?thesis by blast
qed

end
