(* ===== verification/Snapshot.thy ===== *)
theory Snapshot
  imports Registry
begin

text \<open>
  \<open>core/src/snapshot.rs\<close>: the registry's on-disk shape.  A document is what \<open>snapshot\<close> builds and
  \<open>from_parts\<close> validates; \<open>stored\<close> is the effect of writing it and reading it back, which keeps every
  field and rounds each instant to whole seconds since the epoch.
\<close>

section \<open>Data\<close>

definition state_version :: nat where
  "state_version = 4"

record grant_record =
  gr_state :: string
  gr_opened_at :: "system_time option"
  gr_expires_at :: "system_time option"
  gr_since :: "system_time option"
  gr_channels :: "channel list"
  gr_requested_at :: "system_time option"
  gr_approval_deadline :: "system_time option"
  gr_ttl_secs :: "nat option"
  gr_nonce :: "string option"
  gr_profile :: "string option"
  gr_satisfied :: "string list option"

record state_doc =
  doc_version :: nat
  doc_grants :: "(string, grant_record) btree_map"

definition state_doc_default :: state_doc where
  "state_doc_default = \<lparr>doc_version = state_version, doc_grants = []\<rparr>"

datatype snapshot_error =
    UnknownHosts "string list"
  | ExpiryNotAfterOpening string
  | SnapExceedsCap string nat
  | ApprovalDeadlineNotAfterRequest string
  | ApprovalWindowExceedsCap string nat
  | SnapMalformed string string

primrec join_debug :: "crates \<Rightarrow> string list \<Rightarrow> string" where
  "join_debug X [] = []"
| "join_debug X (h # hs) = debug_str X h @ (if hs = [] then [] else '', '' @ join_debug X hs)"

definition snapshot_error_display :: "crates \<Rightarrow> snapshot_error \<Rightarrow> string" where
  "snapshot_error_display X e =
     (case e of
        UnknownHosts hosts \<Rightarrow>
          ''state records grants for hosts not in the inventory: ['' @ join_debug X hosts
          @ '']; a host cannot leave the inventory while its grant is live''
      | ExpiryNotAfterOpening h \<Rightarrow> ''state for host '' @ debug_str X h @ '' expires at or before it opened''
      | SnapExceedsCap h secs \<Rightarrow>
          ''state for host '' @ debug_str X h @ '' spans '' @ show_nat secs @ ''s, over the ''
          @ show_nat max_ttl_secs @ ''s cap''
      | ApprovalDeadlineNotAfterRequest h \<Rightarrow>
          ''pending state for host '' @ debug_str X h @ '' has an approval deadline at or before its request''
      | ApprovalWindowExceedsCap h secs \<Rightarrow>
          ''pending state for host '' @ debug_str X h @ '' has a '' @ show_nat secs
          @ ''s approval window, over the '' @ show_nat max_approval_window_secs @ ''s cap''
      | SnapMalformed h message \<Rightarrow> ''state for host '' @ debug_str X h @ '' is malformed: '' @ message)"

section \<open>Instants on disk\<close>

definition epoch_serialize :: "system_time \<Rightarrow> nat" where
  "epoch_serialize t = (case duration_since t 0 of Some d \<Rightarrow> as_secs d | None \<Rightarrow> 0)"

definition from_secs_checked :: "nat \<Rightarrow> system_time option" where
  "from_secs_checked secs = checked_add_time 0 (from_secs secs)"

text \<open>Writing an optional instant and reading it back; the outer \<open>None\<close> is the load error.\<close>

definition epoch_stored :: "system_time option \<Rightarrow> system_time option option" where
  "epoch_stored t =
     (case t of None \<Rightarrow> Some None | Some u \<Rightarrow> map_option Some (from_secs_checked (epoch_serialize u)))"

definition record_stored :: "grant_record \<Rightarrow> grant_record option" where
  "record_stored r =
     Option.bind (epoch_stored (gr_opened_at r)) (\<lambda>opened.
     Option.bind (epoch_stored (gr_expires_at r)) (\<lambda>expires.
     Option.bind (epoch_stored (gr_since r)) (\<lambda>since.
     Option.bind (epoch_stored (gr_requested_at r)) (\<lambda>requested.
     Option.bind (epoch_stored (gr_approval_deadline r)) (\<lambda>deadline.
     Some (r\<lparr>gr_opened_at := opened, gr_expires_at := expires, gr_since := since,
             gr_requested_at := requested, gr_approval_deadline := deadline\<rparr>))))))"

definition stored :: "state_doc \<Rightarrow> state_doc option" where
  "stored doc =
     map_option (\<lambda>rs. doc\<lparr>doc_grants := rs\<rparr>)
       (those (map (\<lambda>e. map_option (\<lambda>r. (fst e, r)) (record_stored (snd e))) (doc_grants doc)))"

section \<open>Records\<close>

definition base_record :: grant_record where
  "base_record = \<lparr>gr_state = [], gr_opened_at = None, gr_expires_at = None, gr_since = None, gr_channels = [],
     gr_requested_at = None, gr_approval_deadline = None, gr_ttl_secs = None, gr_nonce = None,
     gr_profile = None, gr_satisfied = None\<rparr>"

definition record_of :: "crates \<Rightarrow> grant_parts_view \<Rightarrow> grant_record" where
  "record_of X parts =
     (case parts of
        PPending requested deadline t nonce prof satisfied \<Rightarrow>
          base_record\<lparr>gr_state := ''pending'', gr_requested_at := Some requested,
            gr_approval_deadline := Some deadline, gr_ttl_secs := Some (as_secs (ttl_duration t)),
            gr_nonce := Some (hexlower_encode X nonce), gr_profile := Some prof,
            gr_satisfied := Some (sorted_list_of_fset satisfied)\<rparr>
      | POpening opened expires channels \<Rightarrow>
          base_record\<lparr>gr_state := ''opening'', gr_opened_at := Some opened, gr_expires_at := Some expires,
            gr_channels := channels\<rparr>
      | POpen opened expires channels \<Rightarrow>
          base_record\<lparr>gr_state := ''open'', gr_opened_at := Some opened, gr_expires_at := Some expires,
            gr_channels := channels\<rparr>
      | PNeedsRevert channels since \<Rightarrow>
          base_record\<lparr>gr_state := ''needs-revert'', gr_since := Some since, gr_channels := channels\<rparr>)"

definition no_pending_fields :: "string \<Rightarrow> grant_record \<Rightarrow> snapshot_error + unit" where
  "no_pending_fields host r =
     (if gr_requested_at r \<noteq> None \<or> gr_approval_deadline r \<noteq> None \<or> gr_ttl_secs r \<noteq> None \<or> gr_nonce r \<noteq> None
         \<or> gr_profile r \<noteq> None \<or> gr_satisfied r \<noteq> None
      then Err (SnapMalformed host
             ''requested_at/approval_deadline/ttl_secs/nonce/profile/satisfied belong to pending only'')
      else Ok ())"

definition record_interval :: "string \<Rightarrow> grant_record \<Rightarrow> snapshot_error + system_time \<times> system_time" where
  "record_interval host r =
     bind_ok (no_pending_fields host r) (\<lambda>_.
     bind_ok (ok_or (SnapMalformed host ''missing opened_at'') (gr_opened_at r)) (\<lambda>opened.
     bind_ok (ok_or (SnapMalformed host ''missing expires_at'') (gr_expires_at r)) (\<lambda>expires.
     if gr_since r \<noteq> None
     then Err (SnapMalformed host (CHR 0x22 # ''since'' @ CHR 0x22 # '' belongs to needs-revert only''))
     else case duration_since expires opened of
            None \<Rightarrow> Err (ExpiryNotAfterOpening host)
          | Some span \<Rightarrow>
              if span = 0 then Err (ExpiryNotAfterOpening host)
              else if as_secs span > max_ttl_secs then Err (SnapExceedsCap host (as_secs span))
              else Ok (opened, expires))))"

definition pending_parts :: "crates \<Rightarrow> string \<Rightarrow> grant_record \<Rightarrow> snapshot_error + grant_parts_view" where
  "pending_parts X host r =
     (if gr_opened_at r \<noteq> None \<or> gr_expires_at r \<noteq> None \<or> gr_since r \<noteq> None
      then Err (SnapMalformed host
             ''pending carries requested_at/approval_deadline/ttl_secs/nonce, not opened/expires/since'')
      else if gr_channels r \<noteq> [] then Err (SnapMalformed host ''a pending request has no applied channels'')
      else
        bind_ok (ok_or (SnapMalformed host ''missing requested_at'') (gr_requested_at r)) (\<lambda>requested.
        bind_ok (ok_or (SnapMalformed host ''missing approval_deadline'') (gr_approval_deadline r)) (\<lambda>deadline.
        bind_ok (ok_or (SnapMalformed host ''missing ttl_secs'') (gr_ttl_secs r)) (\<lambda>ttl_secs.
        bind_ok (map_err (\<lambda>_. if ttl_secs > max_ttl_secs then SnapExceedsCap host ttl_secs
                              else SnapMalformed host ''ttl_secs is zero'') (ttl_from_secs ttl_secs)) (\<lambda>t.
        case duration_since deadline requested of
          None \<Rightarrow> Err (ApprovalDeadlineNotAfterRequest host)
        | Some window \<Rightarrow>
            if window = 0 then Err (ApprovalDeadlineNotAfterRequest host)
            else if as_secs window > max_approval_window_secs
            then Err (ApprovalWindowExceedsCap host (as_secs window))
            else
              bind_ok (ok_or (SnapMalformed host ''missing nonce'') (gr_nonce r)) (\<lambda>hex.
              bind_ok (ok_or (SnapMalformed host ''nonce is not valid hex'')
                         (hexlower_decode X (as_bytes hex))) (\<lambda>bytes.
              if length bytes \<noteq> 32 then Err (SnapMalformed host ''nonce is not 32 bytes'')
              else Ok (PPending requested deadline t bytes
                     (case gr_profile r of Some p \<Rightarrow> p | None \<Rightarrow> [])
                     (fset_of_list (case gr_satisfied r of Some s \<Rightarrow> s | None \<Rightarrow> []))))))))))"

definition parts_of :: "crates \<Rightarrow> string \<Rightarrow> grant_record \<Rightarrow> snapshot_error + grant_parts_view" where
  "parts_of X host r =
     (if gr_state r = ''pending'' then pending_parts X host r
      else if gr_state r = ''opening'' then
        bind_ok (record_interval host r) (\<lambda>oe. Ok (POpening (fst oe) (snd oe) (gr_channels r)))
      else if gr_state r = ''open'' then
        bind_ok (record_interval host r) (\<lambda>oe. Ok (POpen (fst oe) (snd oe) (gr_channels r)))
      else if gr_state r = ''needs-revert'' then
        bind_ok (no_pending_fields host r) (\<lambda>_.
        if gr_opened_at r \<noteq> None \<or> gr_expires_at r \<noteq> None
        then Err (SnapMalformed host
               (''needs-revert carries only '' @ CHR 0x22 # ''since'' @ CHR 0x22 # '' and channels''))
        else bind_ok (ok_or (SnapMalformed host ''missing since'') (gr_since r)) (\<lambda>since.
             Ok (PNeedsRevert (gr_channels r) since)))
      else Err (SnapMalformed host (''unknown state '' @ debug_str X (gr_state r))))"

section \<open>Documents\<close>

definition snapshot :: "crates \<Rightarrow> grant_registry \<Rightarrow> state_doc" where
  "snapshot X r =
     \<lparr>doc_version = state_version,
      doc_grants = bt_collect (List.map_filter
        (\<lambda>e. map_option (\<lambda>parts. (fst e, record_of X parts)) (grant_parts (snd e))) (r_grants r))\<rparr>"

primrec restore_all ::
    "crates \<Rightarrow> (string \<times> grant_record) list \<Rightarrow> grant_registry \<Rightarrow> snapshot_error + grant_registry" where
  "restore_all X [] r = Ok r"
| "restore_all X (e # es) r =
     bind_ok (parts_of X (fst e) (snd e)) (\<lambda>parts. restore_all X es (reg_restore (fst e) (grant_restore parts) r))"

definition from_parts :: "crates \<Rightarrow> inventory \<Rightarrow> state_doc \<Rightarrow> snapshot_error + grant_registry" where
  "from_parts X iv doc =
     (let registry = reg_new iv;
          unknown = filter (\<lambda>host. \<not> reg_knows host registry) (map fst (doc_grants doc))
      in if unknown \<noteq> [] then Err (UnknownHosts unknown)
         else restore_all X (doc_grants doc) registry)"

end
