(* ===== verification/Snapshot_Props.thy ===== *)
theory Snapshot_Props
  imports Snapshot
begin

text \<open>
  Persistence: a registry whose grants satisfy the loader's rules survives being written and read
  back, up to whole seconds; grants opened through the lifecycle satisfy them, renewed ones need not.
\<close>

section \<open>Specification\<close>

text \<open>The documented behaviour of the hexadecimal codec that the nonce relies on.\<close>

definition hex_codec :: "crates \<Rightarrow> bool" where
  "hex_codec X \<longleftrightarrow> (\<forall>n. hexlower_decode X (as_bytes (hexlower_encode X n)) = Some n)"

definition grant_storable :: "grant \<Rightarrow> bool" where
  "grant_storable g =
     (case g_state g of
        Pending q d t n _ _ \<Rightarrow> ttl_ok t \<and> length n = 32 \<and> q < d \<and> as_secs (nat (d - q)) \<le> max_approval_window_secs
      | Opening opened e _ \<Rightarrow> opened < e \<and> as_secs (nat (e - opened)) \<le> max_ttl_secs
      | Open opened e _ \<Rightarrow> opened < e \<and> as_secs (nat (e - opened)) \<le> max_ttl_secs
      | _ \<Rightarrow> True)"

text \<open>What the Rust types guarantee of a pending request: a valid time to live and a 32-byte nonce.\<close>

definition grant_typed :: "grant \<Rightarrow> bool" where
  "grant_typed g = (case g_state g of Pending _ _ t n _ _ \<Rightarrow> ttl_ok t \<and> length n = 32 | _ \<Rightarrow> True)"

definition whole_seconds :: "system_time \<Rightarrow> system_time" where
  "whole_seconds t = (if t < 0 then 0 else t div int nanos_per_sec * int nanos_per_sec)"

definition round_grant :: "grant \<Rightarrow> grant" where
  "round_grant g =
     \<lparr>g_state = (case g_state g of
        Closed \<Rightarrow> Closed
      | Pending q d t n p s \<Rightarrow> Pending (whole_seconds q) (whole_seconds d) t n p s
      | Opening a e cs \<Rightarrow> Opening (whole_seconds a) (whole_seconds e) cs
      | Open a e cs \<Rightarrow> Open (whole_seconds a) (whole_seconds e) cs
      | NeedsRevert cs s \<Rightarrow> NeedsRevert cs (whole_seconds s))\<rparr>"

definition grant_times :: "grant \<Rightarrow> system_time list" where
  "grant_times g =
     (case g_state g of
        Closed \<Rightarrow> []
      | Pending q d _ _ _ _ \<Rightarrow> [q, d]
      | Opening a e _ \<Rightarrow> [a, e]
      | Open a e _ \<Rightarrow> [a, e]
      | NeedsRevert _ s \<Rightarrow> [s])"

definition registry_of :: "inventory \<Rightarrow> grant_registry \<Rightarrow> bool" where
  "registry_of iv r \<longleftrightarrow> map fst (r_grants r) = map fst (r_grants (reg_new iv))"

definition round_registry :: "grant_registry \<Rightarrow> grant_registry" where
  "round_registry r = r\<lparr>r_grants := map (\<lambda>e. (fst e, round_grant (snd e))) (r_grants r)\<rparr>"

definition all_grants :: "(grant \<Rightarrow> bool) \<Rightarrow> grant_registry \<Rightarrow> bool" where
  "all_grants P r \<longleftrightarrow> (\<forall>e\<in>set (r_grants r). P (snd e))"

section \<open>Lemmas\<close>

subsection \<open>One record\<close>

lemma interval_record:
  assumes "gr_opened_at r = Some a" "gr_expires_at r = Some e" "gr_since r = None" "gr_requested_at r = None"
    "gr_approval_deadline r = None" "gr_ttl_secs r = None" "gr_nonce r = None" "gr_profile r = None"
    "gr_satisfied r = None" "a < e" "as_secs (nat (e - a)) \<le> max_ttl_secs"
  shows "record_interval h r = Ok (a, e)"
  using assms by (simp add: record_interval_def no_pending_fields_def duration_since_def)

lemma parts_of_record_of:
  assumes "hex_codec X" "grant_storable g" "grant_parts g = Some p"
  shows "parts_of X h (record_of X p) = Ok p"
proof (cases "g_state g")
  case (Pending q d t n pr s)
  then have p: "p = PPending q d t n pr s" and st: "ttl_ok t" "length n = 32" "q < d"
    "as_secs (nat (d - q)) \<le> max_approval_window_secs"
    using assms(2,3) by (auto simp: grant_parts_def grant_storable_def)
  have "fset_of_list (sorted_list_of_fset s) = s"
    by (metis fset_of_list.rep_eq fset_inject sorted_list_of_fset.rep_eq sorted_list_of_set(1) finite_fset)
  moreover have "ttl_from_secs (as_secs (ttl_duration t)) = Ok t" using st(1) by (rule ttl_ok_secs)
  ultimately show ?thesis
    using assms(1) st p
    by (simp add: parts_of_def record_of_def base_record_def pending_parts_def duration_since_def hex_codec_def)
next
  case (Opening a e cs)
  then have p: "p = POpening a e cs" "a < e" "as_secs (nat (e - a)) \<le> max_ttl_secs"
    using assms(2,3) by (simp_all add: grant_parts_def grant_storable_def)
  then show ?thesis by (simp add: parts_of_def record_of_def base_record_def interval_record)
next
  case (Open a e cs)
  then have p: "p = POpen a e cs" "a < e" "as_secs (nat (e - a)) \<le> max_ttl_secs"
    using assms(2,3) by (simp_all add: grant_parts_def grant_storable_def)
  then show ?thesis by (simp add: parts_of_def record_of_def base_record_def interval_record)
next
  case (NeedsRevert cs s)
  then have "p = PNeedsRevert cs s" using assms(3) by (simp add: grant_parts_def)
  then show ?thesis by (simp add: parts_of_def record_of_def base_record_def no_pending_fields_def)
next
  case Closed
  then show ?thesis using assms(3) by (simp add: grant_parts_def)
qed

lemma record_interval_refuses:
  assumes "gr_opened_at r = Some a" "gr_expires_at r = Some e"
    "\<not> (a < e \<and> as_secs (nat (e - a)) \<le> max_ttl_secs)"
  shows "record_interval h r \<noteq> Ok x"
  using assms by (auto simp: record_interval_def bind_ok_eq_Ok duration_since_def split: if_splits option.splits)

lemma parts_of_unstorable:
  assumes "grant_typed g" "\<not> grant_storable g"
  shows "\<exists>p. grant_parts g = Some p \<and> (\<forall>q. parts_of X h (record_of X p) \<noteq> Ok q)"
proof (cases "g_state g")
  case (Pending q d t n pr s)
  then have "\<not> (q < d \<and> as_secs (nat (d - q)) \<le> max_approval_window_secs)"
    using assms by (auto simp: grant_typed_def grant_storable_def)
  then show ?thesis
    using Pending by (auto simp: grant_parts_def parts_of_def record_of_def base_record_def pending_parts_def
        bind_ok_eq_Ok duration_since_def split: if_splits option.splits)
next
  case (Opening a e cs)
  then have "\<not> (a < e \<and> as_secs (nat (e - a)) \<le> max_ttl_secs)" using assms(2) by (simp add: grant_storable_def)
  then show ?thesis
    using Opening by (auto simp: grant_parts_def parts_of_def record_of_def base_record_def bind_ok_eq_Ok
        record_interval_refuses)
next
  case (Open a e cs)
  then have "\<not> (a < e \<and> as_secs (nat (e - a)) \<le> max_ttl_secs)" using assms(2) by (simp add: grant_storable_def)
  then show ?thesis
    using Open by (auto simp: grant_parts_def parts_of_def record_of_def base_record_def bind_ok_eq_Ok
        record_interval_refuses)
qed (use assms(2) in \<open>simp_all add: grant_storable_def\<close>)

lemma whole_seconds_le: "0 \<le> t \<Longrightarrow> whole_seconds t \<le> t"
  by (simp add: whole_seconds_def minus_mod_eq_div_mult [symmetric] nanos_per_sec_def)

lemma epoch_stored_Some:
  assumes "t < clock_end"
  shows "epoch_stored (Some t) = Some (Some (whole_seconds t))"
proof -
  have "int (from_secs (epoch_serialize t)) = whole_seconds t"
    by (auto simp: epoch_serialize_def whole_seconds_def duration_since_def from_secs_def as_secs_def
        nat_div_distrib nanos_per_sec_def)
  moreover have "whole_seconds t < clock_end"
    using assms whole_seconds_le [of t] by (cases "t < 0") (auto simp: whole_seconds_def clock_end_def)
  ultimately show ?thesis
    by (simp add: epoch_stored_def from_secs_checked_def checked_add_time_def)
qed

lemma epoch_stored_None [simp]: "epoch_stored None = Some None"
  by (simp add: epoch_stored_def)

lemma record_stored_round:
  assumes "\<forall>t\<in>set (grant_times g). t < clock_end" "grant_parts g = Some p"
  obtains q where "grant_parts (round_grant g) = Some q" "record_stored (record_of X p) = Some (record_of X q)"
  using assms
  by (cases "g_state g")
    (auto simp: grant_parts_def round_grant_def grant_times_def record_of_def record_stored_def base_record_def
      epoch_stored_Some)

subsection \<open>Collections of records\<close>

lemma bt_ok_filtered:
  "bt_ok es \<Longrightarrow> bt_ok (List.map_filter (\<lambda>e. map_option (\<lambda>p. (fst e, f p)) (g (snd e))) es)"
proof (induction es)
  case (Cons e es)
  have "fst x \<in> fst ` set es" if "x \<in> set (List.map_filter (\<lambda>e. map_option (\<lambda>p. (fst e, f p)) (g (snd e))) es)" for x
    using that by (force simp: List.map_filter_def)
  then show ?case using Cons by (fastforce simp: List.map_filter_simps split: option.splits)
qed (simp add: List.map_filter_simps)

lemma bt_get_filtered:
  "bt_ok es \<Longrightarrow> bt_get (List.map_filter (\<lambda>e. map_option (\<lambda>p. (fst e, f p)) (g (snd e))) es) k =
     Option.bind (bt_get es k) (\<lambda>v. map_option f (g v))"
proof (induction es)
  case (Cons e es)
  have "bt_get es (fst e) = None" using Cons.prems by (auto simp: map_of_eq_None_iff)
  then show ?case using Cons by (auto simp: List.map_filter_simps split: option.splits)
qed (simp add: List.map_filter_simps)

lemma registry_of_bt_ok: "registry_of iv r \<Longrightarrow> bt_ok (r_grants r)"
  using bt_ok_collect by (metis registry_of_def bt_ok_def reg_new_def grant_registry.select_convs(1))

lemma registry_of_contains: "registry_of iv r \<Longrightarrow> bt_contains (r_grants r) h = bt_contains (r_grants (reg_new iv)) h"
  unfolding registry_of_def by (metis bt_contains_iff list.set_map)

lemma snapshot_grants:
  assumes "bt_ok (r_grants r)"
  shows "bt_ok (doc_grants (snapshot X r))"
    "bt_get (doc_grants (snapshot X r)) k = Option.bind (bt_get (r_grants r) k) (\<lambda>g. map_option (record_of X) (grant_parts g))"
  using bt_ok_filtered [OF assms, of "record_of X" grant_parts] bt_get_filtered [OF assms, of "record_of X" grant_parts k]
  by (simp_all add: snapshot_def bt_collect_id)

lemma restore_all_ok:
  "(\<forall>e\<in>set es. parts_of X (fst e) (snd e) = Ok (p (fst e))) \<Longrightarrow> distinct (map fst es) \<Longrightarrow>
     \<exists>r'. restore_all X es r = Ok r' \<and> map fst (r_grants r') = map fst (r_grants r) \<and>
       (\<forall>k. bt_get (r_grants r') k =
          (if k \<in> fst ` set es \<and> bt_contains (r_grants r) k then Some (grant_restore (p k)) else bt_get (r_grants r) k))"
proof (induction es arbitrary: r)
  case (Cons e es)
  define r1 where "r1 = reg_restore (fst e) (grant_restore (p (fst e))) r"
  obtain r' where r': "restore_all X es r1 = Ok r'" "map fst (r_grants r') = map fst (r_grants r1)"
    "\<forall>k. bt_get (r_grants r') k =
       (if k \<in> fst ` set es \<and> bt_contains (r_grants r1) k then Some (grant_restore (p k)) else bt_get (r_grants r1) k)"
    using Cons.IH [of r1] Cons.prems by auto
  have "fst e \<notin> fst ` set es" using Cons.prems(2) by simp
  then have "bt_get (r_grants r') k =
      (if k \<in> fst ` set (e # es) \<and> bt_contains (r_grants r) k then Some (grant_restore (p k)) else bt_get (r_grants r) k)" for k
    using r'(3) by (auto simp: r1_def reg_restore_def bt_contains_def)
  moreover have "restore_all X (e # es) r = Ok r'" using r'(1) Cons.prems by (simp add: r1_def)
  moreover have "map fst (r_grants r') = map fst (r_grants r)" using r'(2) by (simp add: r1_def reg_restore_def)
  ultimately show ?case by blast
qed simp

lemma from_parts_snapshot:
  assumes "hex_codec X" "registry_of iv r" "all_grants grant_storable r"
  shows "from_parts X iv (snapshot X r) = Ok r"
proof -
  note ok = registry_of_bt_ok [OF assms(2)]
  let ?es = "doc_grants (snapshot X r)"
  define p where "p k = the (grant_parts (the (bt_get (r_grants r) k)))" for k
  have rec: "\<exists>g. bt_get (r_grants r) (fst e) = Some g \<and> grant_parts g = Some (p (fst e)) \<and> snd e = record_of X (p (fst e))"
    if "e \<in> set ?es" for e
  proof -
    have "bt_get ?es (fst e) = Some (snd e)" using that snapshot_grants(1) [OF ok] by (simp add: bt_get_in_set [symmetric])
    then show ?thesis using snapshot_grants(2) [OF ok] by (auto simp: p_def bind_eq_Some_conv)
  qed
  have "parts_of X (fst e) (snd e) = Ok (p (fst e))" if e: "e \<in> set ?es" for e
  proof -
    obtain g where g: "bt_get (r_grants r) (fst e) = Some g" "grant_parts g = Some (p (fst e))" "snd e = record_of X (p (fst e))"
      using rec [OF e] by blast
    then have "grant_storable g" using assms(3) map_of_SomeD by (fastforce simp: all_grants_def)
    then show ?thesis using parts_of_record_of [OF assms(1) _ g(2)] g(3) by simp
  qed
  then obtain r' where r': "restore_all X ?es (reg_new iv) = Ok r'" "map fst (r_grants r') = map fst (r_grants (reg_new iv))"
    "\<forall>k. bt_get (r_grants r') k = (if k \<in> fst ` set ?es \<and> bt_contains (r_grants (reg_new iv)) k
       then Some (grant_restore (p k)) else bt_get (r_grants (reg_new iv)) k)"
    using restore_all_ok [of ?es X p "reg_new iv"] bt_ok_distinct [OF snapshot_grants(1) [OF ok]] by blast
  have new: "bt_get (r_grants (reg_new iv)) k = Some grant_new" if "bt_contains (r_grants (reg_new iv)) k" for k
    using that reg_new_grant [of iv k] by (auto simp: bt_contains_def)
  have "bt_get (r_grants r') k = bt_get (r_grants r) k" for k
  proof (cases "bt_get (r_grants r) k")
    case None
    then have "\<not> bt_contains (r_grants (reg_new iv)) k"
      using registry_of_contains [OF assms(2), of k] by (simp add: bt_contains_def)
    then show ?thesis using r'(3) None by (simp add: bt_contains_def)
  next
    case (Some g)
    then have c: "bt_contains (r_grants (reg_new iv)) k"
      using registry_of_contains [OF assms(2), of k] by (simp add: bt_contains_def)
    have es: "k \<in> fst ` set ?es \<longleftrightarrow> grant_parts g \<noteq> None"
      using snapshot_grants(2) [OF ok, where X = X and k = k] Some bt_contains_iff [of ?es k] by (simp add: bt_contains_def)
    show ?thesis
    proof (cases "grant_parts g")
      case None
      then have "g = grant_new" by (cases g) (simp add: grant_new_def)
      then show ?thesis using None es r'(3) c new Some by simp
    next
      case (Some q)
      then have "grant_restore (p k) = g"
        using \<open>bt_get (r_grants r) k = Some g\<close> by (simp add: p_def grant_restore_parts)
      then show ?thesis using Some es r'(3) c \<open>bt_get (r_grants r) k = Some g\<close> by simp
    qed
  qed
  moreover have "bt_ok (r_grants r')" using r'(2) assms(2) ok by (simp add: bt_ok_def registry_of_def)
  ultimately have "r_grants r' = r_grants r" using ok by (intro bt_eqI) auto
  then have "r' = r" by simp
  moreover have "filter (\<lambda>host. \<not> reg_knows host (reg_new iv)) (map fst ?es) = []"
  proof -
    have "reg_knows (fst e) (reg_new iv)" if "e \<in> set ?es" for e
      using rec [OF that] registry_of_contains [OF assms(2), of "fst e"] by (auto simp: reg_knows_def bt_contains_def)
    then show ?thesis by (auto simp: filter_empty_conv)
  qed
  ultimately show ?thesis using r'(1) by (simp add: from_parts_def Let_def)
qed

lemma restore_all_refuses:
  "e \<in> set es \<Longrightarrow> \<forall>p. parts_of X (fst e) (snd e) \<noteq> Ok p \<Longrightarrow> restore_all X es r \<noteq> Ok r'"
  by (induction es arbitrary: r) (auto simp: bind_ok_eq_Ok)

lemma from_parts_refuses:
  assumes "registry_of iv r" "all_grants grant_typed r" "\<not> all_grants grant_storable r"
  shows "\<exists>e. from_parts X iv (snapshot X r) = Err e"
proof -
  note ok = registry_of_bt_ok [OF assms(1)]
  obtain h g where h: "(h, g) \<in> set (r_grants r)" "grant_typed g" "\<not> grant_storable g"
    using assms(2,3) by (fastforce simp: all_grants_def)
  obtain p where p: "grant_parts g = Some p" "\<forall>q. parts_of X h (record_of X p) \<noteq> Ok q"
    using parts_of_unstorable [OF h(2,3)] by blast
  have "bt_get (r_grants r) h = Some g" using h(1) ok by (simp add: bt_get_in_set [symmetric])
  then have "bt_get (doc_grants (snapshot X r)) h = Some (record_of X p)"
    using snapshot_grants(2) [OF ok] p(1) by simp
  then have "(h, record_of X p) \<in> set (doc_grants (snapshot X r))" by (rule map_of_SomeD)
  then have "restore_all X (doc_grants (snapshot X r)) s \<noteq> Ok r'" for s r'
    using p(2) restore_all_refuses by fastforce
  then show ?thesis by (cases "from_parts X iv (snapshot X r)") (auto simp: from_parts_def Let_def split: if_splits)
qed

lemma stored_filtered:
  "(\<And>e. e \<in> set es \<Longrightarrow> \<forall>t\<in>set (grant_times (snd e)). t < clock_end) \<Longrightarrow>
     those (map (\<lambda>e. map_option (\<lambda>r. (fst e, r)) (record_stored (snd e)))
       (List.map_filter (\<lambda>e. map_option (\<lambda>p. (fst e, record_of X p)) (grant_parts (snd e))) es)) =
     Some (List.map_filter (\<lambda>e. map_option (\<lambda>p. (fst e, record_of X p)) (grant_parts (snd e)))
       (map (\<lambda>e. (fst e, round_grant (snd e))) es))"
proof (induction es)
  case (Cons e es)
  note ih = Cons.IH [OF Cons.prems [OF list.set_intros(2)]]
  show ?case
  proof (cases "grant_parts (snd e)")
    case None
    then have "grant_parts (round_grant (snd e)) = None" by (simp add: round_grant_def)
    then show ?thesis using None ih by (simp add: List.map_filter_simps del: grant_parts_None)
  next
    case (Some p)
    obtain q where "grant_parts (round_grant (snd e)) = Some q" "record_stored (record_of X p) = Some (record_of X q)"
      using record_stored_round [OF _ Some] Cons.prems [of e] by auto
    then show ?thesis using Some ih by (simp add: List.map_filter_simps)
  qed
qed (simp add: List.map_filter_simps)

lemma round_registry_hosts: "map fst (r_grants (round_registry r)) = map fst (r_grants r)"
  by (simp add: round_registry_def)

lemma stored_snapshot:
  assumes "bt_ok (r_grants r)" "all_grants (\<lambda>g. \<forall>t\<in>set (grant_times g). t < clock_end) r"
  shows "stored (snapshot X r) = Some (snapshot X (round_registry r))"
proof -
  have "bt_ok (r_grants (round_registry r))" using assms(1) round_registry_hosts by (simp add: bt_ok_def)
  then have "doc_grants (snapshot X (round_registry r)) = List.map_filter
      (\<lambda>e. map_option (\<lambda>p. (fst e, record_of X p)) (grant_parts (snd e))) (r_grants (round_registry r))"
    by (simp add: snapshot_def bt_collect_id bt_ok_filtered)
  moreover have "doc_grants (snapshot X r) = List.map_filter
      (\<lambda>e. map_option (\<lambda>p. (fst e, record_of X p)) (grant_parts (snd e))) (r_grants r)"
    using assms(1) by (simp add: snapshot_def bt_collect_id bt_ok_filtered)
  ultimately show ?thesis
    using stored_filtered [of "r_grants r" X] assms(2)
    by (simp add: stored_def all_grants_def round_registry_def snapshot_def)
qed

subsection \<open>Histories\<close>

text \<open>A grant as \<open>begin_open\<close> and \<open>approve_to_opening\<close> leave it: a whole number of seconds, within the cap.\<close>

lemma whole_seconds_add: "0 \<le> t \<Longrightarrow> whole_seconds (t + int (from_secs k)) = whole_seconds t + int (from_secs k)"
  by (simp add: whole_seconds_def from_secs_def nanos_per_sec_def)

lemma opened_storable:
  assumes "0 \<le> now" "ttl_ok t" "g_state g = Opening now (now + int (ttl_duration t)) cs \<or> g_state g = Open now (now + int (ttl_duration t)) cs"
  shows "grant_storable (round_grant g)"
proof -
  obtain k where k: "0 < k" "k \<le> max_ttl_secs" "ttl_duration t = from_secs k" using assms(2) by (auto simp: ttl_ok_def)
  then have "0 < from_secs k" by (simp add: from_secs_def nanos_per_sec_def)
  then show ?thesis
    using assms(1,3) k by (auto simp: grant_storable_def round_grant_def whole_seconds_add)
qed

text \<open>One host, opened for a day, and renewed for a day in the last hour.\<close>

definition one_host :: inventory where
  "one_host = \<lparr>inv_hosts = [undefined\<lparr>h_name := ''a''\<rparr>], inv_signing = None, inv_approval = None\<rparr>"

definition one_grant :: "grant_state \<Rightarrow> grant_registry" where
  "one_grant st = \<lparr>r_grants = [(''a'', \<lparr>g_state = st\<rparr>)]\<rparr>"

lemma one_host_new: "reg_new one_host = one_grant Closed"
  by (simp add: reg_new_def one_host_def one_grant_def bt_collect_def grant_new_def)

lemma one_grant_mut:
  "grant_mut ''a'' m (one_grant st) = (map_err GrantErr (fst (m \<lparr>g_state = st\<rparr>)), one_grant (g_state (snd (m \<lparr>g_state = st\<rparr>))))"
  by (simp add: grant_mut_def one_grant_def bt_set_def)

lemma day_ok: "ttl_ok (Ttl (from_secs 86400))"
  by (auto simp: ttl_ok_def max_ttl_secs_def)

lemma renewed_reachable:
  "reg_reach one_host (int (from_secs 82800)) (one_grant (Open 0 (int (from_secs 169200)) []))"
proof -
  let ?day = "int (from_secs 86400)" and ?late = "int (from_secs 82800)"
  have "reg_begin_open ''a'' 0 (Ttl (from_secs 86400)) [] (one_grant Closed) = (Ok ?day, one_grant (Opening 0 ?day []))"
    by (simp add: reg_begin_open_def one_grant_mut grant_begin_open_def grant_status_def checked_add_time_def
        clock_end_def from_secs_def nanos_per_sec_def)
  then have 1: "reg_reach one_host 0 (one_grant (Opening 0 ?day []))"
    by (rule reg_reach_step [OF reg_reach_new [of one_host 0, unfolded one_host_new] reg_step_begin_open [OF day_ok]])
  have "reg_finish_open ''a'' (one_grant (Opening 0 ?day [])) = (Ok (), one_grant (Open 0 ?day []))"
    by (simp add: reg_finish_open_def one_grant_mut grant_finish_open_def)
  then have "reg_reach one_host 0 (one_grant (Open 0 ?day []))"
    by (rule reg_reach_step [OF 1 reg_step_finish_open])
  then have 2: "reg_reach one_host ?late (one_grant (Open 0 ?day []))"
    by (rule reg_reach_tick) simp
  have "reg_renew ''a'' ?late (Ttl (from_secs 86400)) (one_grant (Open 0 ?day [])) =
      (Ok (int (from_secs 169200)), one_grant (Open 0 (int (from_secs 169200)) []))"
    by (simp add: reg_renew_def one_grant_mut grant_renew_def grant_status_def duration_since_def checked_add_time_def
        clock_end_def from_secs_def nanos_per_sec_def renewal_window_secs_def)
  then show ?thesis by (rule reg_reach_step [OF 2 reg_step_renew [OF day_ok]])
qed

section \<open>Properties\<close>

text \<open>
  C33. What a restart keeps.  For a registry of the inventory's hosts whose instants are in the clock's
  range, the document written is read back, and loading it gives either the same registry with every
  instant rounded down to whole seconds, or an error and no registry.  It loads exactly when every rounded grant
  keeps the loader's rules: an opening or open grant ends after it began and within the cap on one time
  to live, a pending one after its request and within the cap on the approval window.  The hexadecimal
  codec is assumed to decode what it encodes; pending requests have the time to live and nonce their types give.
\<close>

theorem snapshot_survives_restart:
  assumes "hex_codec X" "map fst (r_grants r) = map fst (r_grants (reg_new iv))"
    "all_grants (\<lambda>g. \<forall>t\<in>set (grant_times g). t < clock_end) r" "all_grants grant_typed r"
  shows "\<exists>doc. stored (snapshot X r) = Some doc \<and> doc_version doc = state_version \<and>
    (if all_grants (\<lambda>g. grant_storable (round_grant g)) r then from_parts X iv doc = Ok (round_registry r)
     else \<exists>e. from_parts X iv doc = Err e)"
proof -
  let ?r = "round_registry r"
  have reg: "registry_of iv r" "registry_of iv ?r"
    using assms(2) by (simp_all add: registry_of_def round_registry_hosts)
  have storable: "all_grants grant_storable ?r \<longleftrightarrow> all_grants (\<lambda>g. grant_storable (round_grant g)) r"
    by (simp add: all_grants_def round_registry_def)
  have "grant_typed (round_grant g) = grant_typed g" for g
    by (simp add: grant_typed_def round_grant_def split: grant_state.split)
  then have typed: "all_grants grant_typed ?r" using assms(4) by (simp add: all_grants_def round_registry_def)
  have "doc_version (snapshot X ?r) = state_version" by (simp add: snapshot_def)
  then show ?thesis
    using from_parts_snapshot [OF assms(1) reg(2)] from_parts_refuses [OF reg(2) typed, of X] storable
      stored_snapshot [OF registry_of_bt_ok [OF reg(1)] assms(3)] by auto
qed

theorem snapshot_survives_restart_witness:
  "\<exists>X iv r. hex_codec X \<and> r = one_grant (Open 1000000001 61000000001 [Ssh]) \<and>
     (\<exists>doc. stored (snapshot X r) = Some doc \<and>
        from_parts X iv doc = Ok (one_grant (Open 1000000000 61000000000 [Ssh])))"
proof -
  define X where "X = (undefined :: crates)\<lparr>hexlower_encode := map char_of_byte, hexlower_decode := Some\<rparr>"
  have X: "hex_codec X" by (simp add: hex_codec_def X_def as_bytes_def o_def)
  let ?r = "one_grant (Open 1000000001 61000000001 [Ssh])"
  have round: "round_grant \<lparr>g_state = Open 1000000001 61000000001 [Ssh]\<rparr> = \<lparr>g_state = Open 1000000000 61000000000 [Ssh]\<rparr>"
    by (simp add: round_grant_def whole_seconds_def nanos_per_sec_def)
  have "map fst (r_grants ?r) = map fst (r_grants (reg_new one_host))" by (simp add: one_host_new) (simp add: one_grant_def)
  moreover have "all_grants (\<lambda>g. \<forall>t\<in>set (grant_times g). t < clock_end) ?r" "all_grants grant_typed ?r"
    by (simp_all add: all_grants_def one_grant_def grant_times_def clock_end_def grant_typed_def)
  moreover have "all_grants (\<lambda>g. grant_storable (round_grant g)) ?r"
    using round by (simp add: all_grants_def one_grant_def grant_storable_def max_ttl_secs_def as_secs_def nanos_per_sec_def)
  ultimately show ?thesis
    using snapshot_survives_restart [OF X, of ?r one_host] X round
    by (auto simp: round_registry_def one_grant_def)
qed

text \<open>
  A legal renewal can make the state file unloadable.  A grant opened for a day and renewed for a
  day in its last hour is reachable and reported open with a day left, yet the loader refuses the
  document that records it as over the cap: a renewal moves the expiry and keeps the opening instant,
  while the loader bounds the distance between the two by the cap on one time to live.
\<close>

theorem renewal_blocks_reload:
  "\<exists>iv now r doc. reg_reach iv now r \<and> reg_status ''a'' now r = Ok (StOpen (from_secs max_ttl_secs)) \<and>
     stored (snapshot X r) = Some doc \<and> from_parts X iv doc = Err (SnapExceedsCap ''a'' 169200)"
proof -
  let ?r = "one_grant (Open 0 (int (from_secs 169200)) [])" and ?late = "int (from_secs 82800)"
  let ?doc = "snapshot X ?r"
  have "round_registry ?r = ?r"
    by (simp add: round_registry_def one_grant_def round_grant_def whole_seconds_def from_secs_def nanos_per_sec_def)
  moreover have "all_grants (\<lambda>g. \<forall>t\<in>set (grant_times g). t < clock_end) ?r"
    by (simp add: all_grants_def one_grant_def grant_times_def clock_end_def from_secs_def nanos_per_sec_def)
  moreover have "bt_ok (r_grants ?r)" by (simp add: one_grant_def)
  ultimately have "stored ?doc = Some ?doc" using stored_snapshot [of ?r X] by simp
  moreover have "reg_status ''a'' ?late ?r = Ok (StOpen (from_secs max_ttl_secs))"
    by (simp add: reg_status_def one_grant_def grant_status_def duration_since_def from_secs_def nanos_per_sec_def max_ttl_secs_def)
  moreover have "from_parts X one_host ?doc = Err (SnapExceedsCap ''a'' 169200)"
    by (simp add: from_parts_def one_host_new reg_knows_def snapshot_def one_grant_def bt_contains_def grant_parts_def
        List.map_filter_simps bt_collect_def parts_of_def record_of_def base_record_def record_interval_def
        no_pending_fields_def duration_since_def max_ttl_secs_def from_secs_def as_secs_def nanos_per_sec_def)
  ultimately show ?thesis using renewed_reachable by blast
qed

end
