(* ===== verification/Wire_Cbor.thy ===== *)
theory Wire_Cbor
  imports Prelude
begin

unbundle bit_operations_syntax

text \<open>
  The deterministic CBOR subset of the token payloads (\<open>wire/src/cbor.rs\<close>) and the wire errors
  (\<open>wire/src/lib.rs\<close>).  A writer is its buffer's size with the bytes written so far; a reader is the
  rest of its buffer.  The reading lemmas are equivalences: a reader step succeeds exactly on the
  bytes the writer produces, so a value has one encoding.
\<close>

section \<open>Errors\<close>

datatype wire_error = BadPrefix | BadBase64 | Malformed string | UnknownVersion | VersionKeyMismatch
  | WireBadKey | WireBadSignature | BufferTooSmall

definition wire_max_ttl_secs :: "32 word" where
  "wire_max_ttl_secs = 86400"

fun wire_error_display :: "wire_error \<Rightarrow> string" where
  "wire_error_display BadPrefix = ''not a lychgate token (bad prefix)''"
| "wire_error_display BadBase64 = ''base64url segment failed to decode''"
| "wire_error_display (Malformed why) = ''malformed payload: '' @ why"
| "wire_error_display UnknownVersion = ''unknown token version''"
| "wire_error_display VersionKeyMismatch = ''token version does not match the supplied key kind''"
| "wire_error_display WireBadKey = ''invalid public key for the token's scheme''"
| "wire_error_display WireBadSignature = ''signature verification failed''"
| "wire_error_display BufferTooSmall = ''output buffer too small''"

section \<open>Writer\<close>

definition major_uint :: byte where
  "major_uint = 0"

definition major_bstr :: byte where
  "major_bstr = 2"

definition major_map :: byte where
  "major_map = 5"

record writer =
  wr_cap :: nat
  wr_out :: "byte list"

definition wr_new :: "nat \<Rightarrow> writer" where
  "wr_new cap = \<lparr>wr_cap = cap, wr_out = []\<rparr>"

definition wr_push :: "byte \<Rightarrow> writer \<Rightarrow> wire_error + writer" where
  "wr_push b w =
     (if wr_cap w \<le> length (wr_out w) then Err BufferTooSmall
      else Ok (w\<lparr>wr_out := wr_out w @ [b]\<rparr>))"

primrec wr_bytes :: "byte list \<Rightarrow> writer \<Rightarrow> wire_error + writer" where
  "wr_bytes [] w = Ok w"
| "wr_bytes (b # bs) w = bind_ok (wr_push b w) (wr_bytes bs)"

definition wr_head :: "byte \<Rightarrow> 64 word \<Rightarrow> writer \<Rightarrow> wire_error + writer" where
  "wr_head major v w =
     (let m = push_bit 5 major in
      if v < 24 then wr_push (m OR ucast v) w
      else if v \<le> 0xff then bind_ok (wr_push (m OR 24) w) (wr_push (ucast v))
      else if v \<le> 0xffff then bind_ok (wr_push (m OR 25) w) (wr_bytes (be_bytes 2 v))
      else if v \<le> 0xffffffff then bind_ok (wr_push (m OR 26) w) (wr_bytes (be_bytes 4 v))
      else bind_ok (wr_push (m OR 27) w) (wr_bytes (be64 v)))"

definition wr_map :: "64 word \<Rightarrow> writer \<Rightarrow> wire_error + writer" where
  "wr_map entries w = wr_head major_map entries w"

definition wr_uint_entry :: "64 word \<Rightarrow> 64 word \<Rightarrow> writer \<Rightarrow> wire_error + writer" where
  "wr_uint_entry k v w = bind_ok (wr_head major_uint k w) (wr_head major_uint v)"

definition wr_bstr_entry :: "64 word \<Rightarrow> byte list \<Rightarrow> writer \<Rightarrow> wire_error + writer" where
  "wr_bstr_entry k bs w =
     bind_ok (wr_head major_uint k w) (\<lambda>w.
     bind_ok (wr_head major_bstr (word_of_nat (length bs)) w) (wr_bytes bs))"

section \<open>Reader\<close>

type_synonym reader = "byte list"

fun rd_byte :: "reader \<Rightarrow> wire_error + byte \<times> reader" where
  "rd_byte [] = Err (Malformed ''truncated'')"
| "rd_byte (b # r) = Ok (b, r)"

primrec rd_bytes :: "nat \<Rightarrow> reader \<Rightarrow> wire_error + byte list \<times> reader" where
  "rd_bytes 0 r = Ok ([], r)"
| "rd_bytes (Suc n) r =
     bind_ok (rd_byte r) (\<lambda>(b, r). bind_ok (rd_bytes n r) (\<lambda>(bs, r). Ok (b # bs, r)))"

definition from_be :: "byte list \<Rightarrow> nat" where
  "from_be bs = foldl (\<lambda>a b. a * 256 + unat b) 0 bs"

text \<open>An argument of \<open>n\<close> bytes, refused when it would have fitted in fewer.\<close>

definition rd_arg :: "nat \<Rightarrow> 64 word \<Rightarrow> reader \<Rightarrow> wire_error + 64 word \<times> reader" where
  "rd_arg n most r =
     bind_ok (rd_bytes n r) (\<lambda>(bs, r).
       let v = word_of_nat (from_be bs) in
       if v \<le> most then Err (Malformed ''non-minimal integer'') else Ok (v, r))"

definition rd_head :: "byte \<Rightarrow> string \<Rightarrow> reader \<Rightarrow> wire_error + 64 word \<times> reader" where
  "rd_head major what r =
     bind_ok (rd_byte r) (\<lambda>(initial, r).
       if drop_bit 5 initial \<noteq> major then Err (Malformed what)
       else
         let info = initial AND 0x1f in
         if info \<le> 23 then Ok (ucast info, r)
         else if info = 24 then rd_arg 1 23 r
         else if info = 25 then rd_arg 2 0xff r
         else if info = 26 then rd_arg 4 0xffff r
         else if info = 27 then rd_arg 8 0xffffffff r
         else Err (Malformed ''indefinite or reserved length''))"

definition rd_map :: "64 word \<Rightarrow> reader \<Rightarrow> wire_error + reader" where
  "rd_map expect r =
     bind_ok (rd_head major_map ''not a map'' r) (\<lambda>(n, r).
       if n \<noteq> expect then Err (Malformed ''wrong map size'') else Ok r)"

definition rd_key :: "64 word \<Rightarrow> reader \<Rightarrow> wire_error + reader" where
  "rd_key expect r =
     bind_ok (rd_head major_uint ''map key is not an unsigned integer'' r) (\<lambda>(k, r).
       if k \<noteq> expect then Err (Malformed ''unexpected map key'') else Ok r)"

definition rd_uint_entry :: "64 word \<Rightarrow> string \<Rightarrow> reader \<Rightarrow> wire_error + 64 word \<times> reader" where
  "rd_uint_entry k what r = bind_ok (rd_key k r) (rd_head major_uint what)"

definition rd_uint_entry_u32 :: "64 word \<Rightarrow> reader \<Rightarrow> wire_error + 32 word \<times> reader" where
  "rd_uint_entry_u32 k r =
     bind_ok (rd_uint_entry k ''expected an unsigned integer'' r) (\<lambda>(v, r).
       if v \<le> 0xffffffff then Ok (ucast v, r) else Err (Malformed ''integer too large for field''))"

definition rd_bstr16_entry :: "64 word \<Rightarrow> reader \<Rightarrow> wire_error + byte list \<times> reader" where
  "rd_bstr16_entry k r =
     bind_ok (rd_key k r) (\<lambda>r.
     bind_ok (rd_head major_bstr ''expected a byte string'' r) (\<lambda>(len, r).
       if len \<noteq> 16 then Err (Malformed ''wrong byte-string length'') else rd_bytes 16 r))"

definition rd_end :: "reader \<Rightarrow> wire_error + unit" where
  "rd_end r = (if r \<noteq> [] then Err (Malformed ''trailing bytes'') else Ok ())"

section \<open>What is written\<close>

definition head_bytes :: "byte \<Rightarrow> 64 word \<Rightarrow> byte list" where
  "head_bytes major v =
     (let m = push_bit 5 major in
      if v < 24 then [m OR ucast v]
      else if v \<le> 0xff then [m OR 24, ucast v]
      else if v \<le> 0xffff then (m OR 25) # be_bytes 2 v
      else if v \<le> 0xffffffff then (m OR 26) # be_bytes 4 v
      else (m OR 27) # be64 v)"

definition wr_put :: "byte list \<Rightarrow> writer \<Rightarrow> wire_error + writer" where
  "wr_put bs w =
     (if length (wr_out w) + length bs \<le> wr_cap w then Ok (w\<lparr>wr_out := wr_out w @ bs\<rparr>)
      else Err BufferTooSmall)"

lemma wr_push_put: "wr_push b = wr_put [b]"
  by (auto simp: wr_push_def wr_put_def fun_eq_iff)

lemma wr_put_put: "bind_ok (wr_put as w) (wr_put bs) = wr_put (as @ bs) w"
  by (simp add: wr_put_def)

lemma wr_bytes_put: "length (wr_out w) \<le> wr_cap w \<Longrightarrow> wr_bytes bs w = wr_put bs w"
proof (induction bs arbitrary: w)
  case (Cons b bs)
  then show ?case
    by (auto simp: wr_push_def wr_put_def)
qed (simp add: wr_put_def)

text \<open>A writer never holds more than its buffer.\<close>

definition wr_ok :: "writer \<Rightarrow> bool" where
  "wr_ok w = (length (wr_out w) \<le> wr_cap w)"

lemma wr_new_ok [simp]: "wr_ok (wr_new cap)"
  by (simp add: wr_ok_def wr_new_def)

lemma wr_put_ok: "wr_put bs w = Ok w' \<Longrightarrow> wr_ok w'"
  by (auto simp: wr_put_def wr_ok_def split: if_splits)

lemma wr_put_cong:
  assumes "\<And>w. wr_ok w \<Longrightarrow> f w = wr_put bs w"
  shows "bind_ok (wr_put as w) f = wr_put (as @ bs) w"
  using assms wr_put_ok [of as w]
  by (cases "wr_put as w") (auto simp flip: wr_put_put)

lemma wr_bytes_ok: "wr_ok w \<Longrightarrow> wr_bytes bs w = wr_put bs w"
  by (simp add: wr_bytes_put wr_ok_def)

lemma wr_head_put: "wr_head m v w = wr_put (head_bytes m v) w"
  unfolding wr_head_def head_bytes_def Let_def wr_push_put
  by (simp add: wr_put_put wr_put_cong [OF wr_bytes_ok])

lemma wr_map_put: "wr_map n w = wr_put (head_bytes major_map n) w"
  by (simp add: wr_map_def wr_head_put)

lemma wr_uint_entry_put:
  "wr_uint_entry k v w = wr_put (head_bytes major_uint k @ head_bytes major_uint v) w"
  unfolding wr_uint_entry_def wr_head_put by (rule wr_put_put)

lemma wr_bstr_entry_put:
  "wr_bstr_entry k bs w =
     wr_put (head_bytes major_uint k @ head_bytes major_bstr (word_of_nat (length bs)) @ bs) w"
  unfolding wr_bstr_entry_def wr_head_put
  by (rule wr_put_cong) (rule wr_put_cong [OF wr_bytes_ok])

lemmas wr_puts = wr_map_put wr_uint_entry_put wr_bstr_entry_put

section \<open>Big-endian arguments\<close>

lemma from_be_Nil [simp]: "from_be [] = 0"
  by (simp add: from_be_def)

lemma from_be_snoc [simp]: "from_be (bs @ [b]) = from_be bs * 256 + unat b"
  by (simp add: from_be_def)

lemma unat_byte_less [simp]: "unat (b :: byte) < 256"
  using unsigned_less [of b, where ?'a = nat] by simp

lemma from_be_less: "from_be bs < 256 ^ length bs"
proof (induction bs rule: rev_induct)
  case (snoc b bs)
  have "from_be bs * 256 + unat b < (from_be bs + 1) * 256" using unat_byte_less [of b] by simp
  also have "\<dots> \<le> 256 ^ length bs * 256" using snoc by (intro mult_right_mono) simp_all
  finally show ?case by simp
qed simp

lemma from_be_inj: "length as = length bs \<Longrightarrow> from_be as = from_be bs \<Longrightarrow> as = bs"
proof (induction as arbitrary: bs rule: rev_induct)
  case (snoc a as)
  then obtain b bs' where bs: "bs = bs' @ [b]" by (cases bs rule: rev_cases) auto
  have eq: "from_be as * 256 + unat a = from_be bs' * 256 + unat b" using snoc.prems(2) by (simp add: bs)
  have "unat a = unat b" using arg_cong [OF eq, of "\<lambda>x. x mod 256"] by simp
  then have "a = b" by (simp only: word_unat_eq_iff)
  moreover from this eq have "from_be as = from_be bs'" by simp
  ultimately show ?case using snoc.IH [of bs'] snoc.prems(1) by (simp add: bs)
qed simp

lemma be_bytes_Suc: "be_bytes (Suc n) w = be_bytes n (drop_bit 8 w) @ [ucast w]"
proof -
  have "rev [0..<Suc n] = map Suc (rev [0..<n]) @ [0]"
    by (simp add: rev_map [symmetric] map_Suc_upt upt_conv_Cons del: upt_Suc)
  then show ?thesis
    unfolding be_bytes_def by (simp add: comp_def ac_simps)
qed

lemma from_be_be_bytes:
  fixes w :: "64 word"
  shows "from_be (be_bytes n w) = unat w mod 256 ^ n"
proof (induction n arbitrary: w)
  case 0
  then show ?case by (simp add: be_bytes_def)
next
  case (Suc n)
  have "unat (drop_bit 8 w) = unat w div 256"
    by (simp add: drop_bit_eq_div unat_div)
  moreover have "unat (ucast w :: byte) = unat w mod 256"
    by (simp add: unsigned_ucast_eq take_bit_eq_mod)
  ultimately show ?case
    using Suc [of "drop_bit 8 w"] by (simp add: be_bytes_Suc mod_mult2_eq)
qed

lemma from_be_be_bytes_less:
  "unat (w :: 64 word) < 256 ^ n \<Longrightarrow> from_be (be_bytes n w) = unat w"
  by (simp add: from_be_be_bytes)

lemma be_bytes_from_be:
  assumes "length bs = n" "n \<le> 8"
  shows "be_bytes n (word_of_nat (from_be bs) :: 64 word) = bs"
proof (rule from_be_inj)
  have "from_be bs < 256 ^ n" using from_be_less [of bs] assms by simp
  moreover have "(256 :: nat) ^ n \<le> 256 ^ 8" using assms by (intro power_increasing) simp_all
  ultimately show "from_be (be_bytes n (word_of_nat (from_be bs) :: 64 word)) = from_be bs"
    by (simp add: from_be_be_bytes unat_of_nat take_bit_nat_eq_self)
qed (simp add: assms)

section \<open>What is read\<close>

lemma rd_byte_eq_Ok [simp]: "rd_byte r = Ok (b, r') \<longleftrightarrow> r = b # r'"
  by (cases r) auto

lemma rd_bytes_eq_Ok [simp]: "rd_bytes n r = Ok (bs, r') \<longleftrightarrow> r = bs @ r' \<and> length bs = n"
  by (induction n arbitrary: r bs) (auto simp: bind_ok_eq_Ok length_Suc_conv)

lemma unat_from_be:
  "length bs \<le> 8 \<Longrightarrow> unat (word_of_nat (from_be bs) :: 64 word) = from_be bs"
proof -
  assume "length bs \<le> 8"
  then have "(256 :: nat) ^ length bs \<le> 256 ^ 8" by (intro power_increasing) simp_all
  with from_be_less [of bs] have "from_be bs < 256 ^ 8" by linarith
  then show ?thesis by (simp add: unat_of_nat take_bit_nat_eq_self)
qed

lemma rd_arg_eq_Ok:
  assumes "n \<le> 8"
  shows "rd_arg n most r = Ok (v, r') \<longleftrightarrow>
    most < v \<and> unat v < 256 ^ n \<and> r = be_bytes n v @ r'" (is "?L \<longleftrightarrow> ?R")
proof
  assume ?L
  then obtain bs where bs: "r = bs @ r'" "length bs = n" "v = word_of_nat (from_be bs)" "most < v"
    by (auto simp: rd_arg_def bind_ok_eq_Ok Let_def not_le split: if_splits)
  then show ?R
    using assms from_be_less [of bs] by (simp add: be_bytes_from_be unat_from_be)
next
  assume R: ?R
  then have "word_of_nat (from_be (be_bytes n v)) = v"
    by (simp add: from_be_be_bytes_less)
  moreover have "rd_bytes n r = Ok (be_bytes n v, r')" using R by simp
  ultimately show ?L
    using R by (simp add: rd_arg_def not_le del: rd_bytes_eq_Ok)
qed

text \<open>The first byte of a head: three bits of major type, five of argument.\<close>

lemma low_bits: "i < 2 ^ k \<Longrightarrow> bit (i :: byte) n \<Longrightarrow> n < k"
  by (metis bit_take_bit_iff less_mask_eq take_bit_eq_mask)

lemma and_low_mask: "(b :: byte) AND 0x1f = take_bit 5 b"
  by (simp add: take_bit_eq_mask mask_eq_exp_minus_1)

lemma head_byte_parts:
  assumes "m < 8" "i < 32"
  shows "drop_bit 5 (push_bit 5 m OR i) = (m :: byte)" "(push_bit 5 m OR i) AND 0x1f = (i :: byte)"
proof -
  have m: "n < 3" if "bit m n" for n using low_bits [of m 3 n] assms that by simp
  have i: "n < 5" if "bit i n" for n using low_bits [of i 5 n] assms that by simp
  show "drop_bit 5 (push_bit 5 m OR i) = m"
    by (rule bit_word_eqI) (auto simp: bit_or_iff bit_push_bit_iff bit_drop_bit_eq dest: m i)
  show "(push_bit 5 m OR i) AND 0x1f = i"
    unfolding and_low_mask by (rule bit_word_eqI) (auto simp: bit_or_iff bit_take_bit_iff bit_push_bit_iff dest: m i)
qed

lemma head_byte_join: "push_bit 5 (drop_bit 5 b) OR (b AND 0x1f) = (b :: byte)"
  unfolding and_low_mask
  by (rule bit_word_eqI) (auto simp: bit_or_iff bit_take_bit_iff bit_push_bit_iff bit_drop_bit_eq)

lemma unat_to_byte: "unat (ucast (v :: 64 word) :: byte) = unat v mod 256"
  by (simp add: unsigned_ucast_eq take_bit_eq_mod)

lemma unat_from_byte: "unat (ucast (b :: byte) :: 64 word) = unat b"
proof -
  have "unat b < 2 ^ 64" using unat_byte_less [of b] by (rule less_trans) simp
  then show ?thesis by (simp add: unsigned_ucast_eq take_bit_nat_eq_self)
qed

lemma ucast_small:
  "v < 24 \<Longrightarrow> ucast (ucast (v :: 64 word) :: byte) = v"
  "ucast (ucast (i :: byte) :: 64 word) = i"
  unfolding word_unat_eq_iff unat_to_byte unat_from_byte by (simp_all add: word_less_nat_alt)

lemma ucast_bounds:
  "(v :: 64 word) < 24 \<Longrightarrow> (ucast v :: byte) \<le> 23"
  "(i :: byte) \<le> 23 \<Longrightarrow> (ucast i :: 64 word) < 24"
  unfolding word_le_nat_alt word_less_nat_alt unat_to_byte unat_from_byte by simp_all

lemma arg_widths:
  "unat (v :: 64 word) < 256 ^ 1 \<longleftrightarrow> v \<le> 0xff"
  "unat (v :: 64 word) < 256 ^ 2 \<longleftrightarrow> v \<le> 0xffff"
  "unat (v :: 64 word) < 256 ^ 4 \<longleftrightarrow> v \<le> 0xffffffff"
  "unat (v :: 64 word) < 256 ^ 8"
  using unsigned_less [of v, where ?'a = nat] by (auto simp: word_le_nat_alt)

lemma be_bytes_1: "be_bytes 1 v = [ucast v]"
  by (simp add: be_bytes_def)

lemmas rd_args = rd_arg_eq_Ok [of 1, simplified be_bytes_1 arg_widths, simplified]
  rd_arg_eq_Ok [of 2, simplified arg_widths, simplified]
  rd_arg_eq_Ok [of 4, simplified arg_widths, simplified]
  rd_arg_eq_Ok [of 8, simplified arg_widths, folded be64_def, simplified]

lemma rd_head_cons:
  assumes "m < 8" "i < 32"
  shows "rd_head m what ((push_bit 5 m OR i) # r) =
    (if i \<le> 23 then Ok (ucast i, r) else if i = 24 then rd_arg 1 23 r else if i = 25 then rd_arg 2 0xff r
     else if i = 26 then rd_arg 4 0xffff r else if i = 27 then rd_arg 8 0xffffffff r
     else Err (Malformed ''indefinite or reserved length''))"
  unfolding rd_head_def rd_byte.simps bind_ok_simps prod.case head_byte_parts [OF assms] Let_def by simp

lemma head_bytes_cases:
  "v < 24 \<Longrightarrow> head_bytes m v = [push_bit 5 m OR ucast v]"
  "23 < v \<Longrightarrow> v \<le> 0xff \<Longrightarrow> head_bytes m v = [push_bit 5 m OR 24, ucast v]"
  "0xff < v \<Longrightarrow> v \<le> 0xffff \<Longrightarrow> head_bytes m v = (push_bit 5 m OR 25) # be_bytes 2 v"
  "0xffff < v \<Longrightarrow> v \<le> 0xffffffff \<Longrightarrow> head_bytes m v = (push_bit 5 m OR 26) # be_bytes 4 v"
  "0xffffffff < v \<Longrightarrow> head_bytes m v = (push_bit 5 m OR 27) # be64 v"
  unfolding head_bytes_def Let_def word_less_nat_alt word_le_nat_alt by simp_all

lemma rd_head_written:
  assumes "m < 8"
  shows "rd_head m what (head_bytes m v @ r) = Ok (v, r)"
proof -
  consider "v < 24" | "23 < v" "v \<le> 0xff" | "0xff < v" "v \<le> 0xffff"
    | "0xffff < v" "v \<le> 0xffffffff" | "0xffffffff < v"
    unfolding word_less_nat_alt word_le_nat_alt by fastforce
  then show ?thesis
  proof cases
    case 1
    have "ucast v < (32 :: byte)" using ucast_bounds(1) [OF 1] by (simp add: word_le_nat_alt word_less_nat_alt)
    then show ?thesis
      using 1 ucast_bounds(1) [OF 1] by (simp add: head_bytes_cases rd_head_cons [OF assms] ucast_small)
  qed (simp_all add: head_bytes_cases rd_head_cons [OF assms] rd_args)
qed

lemma rd_head_only:
  assumes "rd_head m what r = Ok (v, r')"
  shows "r = head_bytes m v @ r'"
proof -
  from assms obtain b r1 where r: "r = b # r1" and m: "drop_bit 5 b = m"
    by (cases r) (auto simp: rd_head_def split: if_splits)
  define i where "i = b AND 0x1f"
  have b: "b = push_bit 5 m OR i" using head_byte_join [of b] by (simp add: m i_def)
  have "i \<le> 23 \<and> v = ucast i \<and> r1 = r' \<or> i = 24 \<and> rd_arg 1 23 r1 = Ok (v, r') \<or>
      i = 25 \<and> rd_arg 2 0xff r1 = Ok (v, r') \<or> i = 26 \<and> rd_arg 4 0xffff r1 = Ok (v, r') \<or>
      i = 27 \<and> rd_arg 8 0xffffffff r1 = Ok (v, r')"
    using assms unfolding rd_head_def r rd_byte.simps bind_ok_simps prod.case m Let_def i_def [symmetric]
    by (simp split: if_splits)
  then show ?thesis
    unfolding r b by (auto simp: rd_args head_bytes_cases ucast_bounds ucast_small)
qed

lemma rd_head_eq_Ok: "m < 8 \<Longrightarrow> rd_head m what r = Ok (v, r') \<longleftrightarrow> r = head_bytes m v @ r'"
  using rd_head_written rd_head_only by blast

lemma majors_small [simp]: "major_uint < 8" "major_bstr < 8" "major_map < 8"
  by (simp_all add: major_uint_def major_bstr_def major_map_def)

lemma rd_map_eq_Ok: "rd_map n r = Ok r' \<longleftrightarrow> r = head_bytes major_map n @ r'"
  by (auto simp: rd_map_def bind_ok_eq_Ok rd_head_eq_Ok split: if_splits)

lemma rd_key_eq_Ok: "rd_key k r = Ok r' \<longleftrightarrow> r = head_bytes major_uint k @ r'"
  by (auto simp: rd_key_def bind_ok_eq_Ok rd_head_eq_Ok split: if_splits)

lemma rd_uint_entry_eq_Ok:
  "rd_uint_entry k what r = Ok (v, r') \<longleftrightarrow> r = head_bytes major_uint k @ head_bytes major_uint v @ r'"
  by (auto simp: rd_uint_entry_def bind_ok_eq_Ok rd_key_eq_Ok rd_head_eq_Ok)

lemma unat_u32_to_u64: "unat (ucast (v :: 32 word) :: 64 word) = unat v"
proof -
  have "unat v < 2 ^ 64" using unsigned_less [of v, where ?'a = nat] by (rule less_trans) simp
  then show ?thesis by (simp add: unsigned_ucast_eq take_bit_nat_eq_self)
qed

lemma unat_u64_to_u32: "unat (ucast (v :: 64 word) :: 32 word) = unat v mod 4294967296"
  by (simp add: unsigned_ucast_eq take_bit_eq_mod)

lemma u32_of_u64_iff:
  "(v :: 64 word) \<le> 0xffffffff \<and> ucast v = (u :: 32 word) \<longleftrightarrow> v = ucast u"
  unfolding word_unat_eq_iff unat_u32_to_u64 unat_u64_to_u32 word_le_nat_alt
  using unsigned_less [of u, where ?'a = nat] by auto

lemma rd_uint_entry_u32_eq_Ok:
  "rd_uint_entry_u32 k r = Ok (v, r') \<longleftrightarrow>
     r = head_bytes major_uint k @ head_bytes major_uint (ucast v) @ r'"
proof -
  have "rd_uint_entry_u32 k r = Ok (v, r') \<longleftrightarrow>
      (\<exists>a. (a \<le> 0xffffffff \<and> ucast a = v) \<and> r = head_bytes major_uint k @ head_bytes major_uint a @ r')"
    by (auto simp: rd_uint_entry_u32_def bind_ok_eq_Ok rd_uint_entry_eq_Ok split: if_splits)
  then show ?thesis unfolding u32_of_u64_iff by simp
qed

lemma rd_bstr16_entry_eq_Ok:
  "rd_bstr16_entry k r = Ok (bs, r') \<longleftrightarrow>
     length bs = 16 \<and> r = head_bytes major_uint k @ head_bytes major_bstr 16 @ bs @ r'"
  by (auto simp: rd_bstr16_entry_def bind_ok_eq_Ok rd_key_eq_Ok rd_head_eq_Ok split: if_splits)

lemma rd_end_eq_Ok: "rd_end r = Ok u \<longleftrightarrow> r = []"
  by (simp add: rd_end_def)

lemmas rd_oks = rd_map_eq_Ok rd_uint_entry_eq_Ok rd_uint_entry_u32_eq_Ok rd_bstr16_entry_eq_Ok rd_end_eq_Ok

text \<open>The width of a head by its value.\<close>

lemma head_bytes_length:
  "length (head_bytes m v) \<le> 9"
  "v < 24 \<Longrightarrow> length (head_bytes m v) = 1"
  "length (head_bytes m (ucast (u :: 32 word))) \<le> 5"
proof -
  show "length (head_bytes m v) \<le> 9" "v < 24 \<Longrightarrow> length (head_bytes m v) = 1"
    by (simp_all add: head_bytes_def Let_def)
  have "(ucast u :: 64 word) \<le> 0xffffffff" using u32_of_u64_iff by blast
  then show "length (head_bytes m (ucast (u :: 32 word))) \<le> 5"
    by (simp add: head_bytes_def Let_def)
qed

end
