(* ===== verification/Wire_Der.thy ===== *)
theory Wire_Der
  imports Wire_Cbor
begin

unbundle bit_operations_syntax

text \<open>
  The raw P-256 signature to DER transform (\<open>wire/src/p256der.rs\<close>).  The bytes written into the
  output buffer are returned as a list; writing at a position is appending.
\<close>

definition max_p256_der_len :: nat where
  "max_p256_der_len = 72"

text \<open>The tail of a half from its first non-zero byte on: \<open>&half[32 - significant..]\<close>.\<close>

definition significant :: "byte list \<Rightarrow> byte list" where
  "significant half = dropWhile (\<lambda>b. b = 0) half"

definition high_bit :: "byte \<Rightarrow> bool" where
  "high_bit b = (b AND 0x80 \<noteq> 0)"

definition integer_len :: "byte list \<Rightarrow> nat" where
  "integer_len half =
     (case significant half of
        [] \<Rightarrow> 1
      | b # bs \<Rightarrow> if high_bit b then length (b # bs) + 1 else length (b # bs))"

definition write_integer :: "byte list \<Rightarrow> byte list" where
  "write_integer half =
     0x02 # word_of_nat (integer_len half) #
     (case significant half of
        [] \<Rightarrow> [0]
      | b # bs \<Rightarrow> (if high_bit b then [0] else []) @ b # bs)"

definition p256_raw_sig_to_der :: "byte list \<Rightarrow> wire_error + byte list" where
  "p256_raw_sig_to_der rs =
     (let r = take 32 rs; s = drop 32 rs;
          body = 2 + integer_len r + 2 + integer_len s in
      if max_p256_der_len < 2 + body then Err BufferTooSmall
      else Ok (0x30 # word_of_nat body # write_integer r @ write_integer s))"

text \<open>
  The content octets of a DER INTEGER: not empty, not negative, and no shorter octets for the same
  number.
\<close>

definition der_natural :: "byte list \<Rightarrow> nat \<Rightarrow> bool" where
  "der_natural bs n \<longleftrightarrow>
     bs \<noteq> [] \<and> from_be bs = n \<and> \<not> high_bit (hd bs) \<and>
     (hd bs = 0 \<and> 1 < length bs \<longrightarrow> high_bit (bs ! 1))"

definition integer_octets :: "byte list \<Rightarrow> byte list" where
  "integer_octets half = drop 2 (write_integer half)"

lemma from_be_zero [simp]: "from_be (0 # bs) = from_be bs"
  by (simp add: from_be_def)

lemma from_be_significant: "from_be (significant half) = from_be half"
  by (induction half) (auto simp: significant_def)

lemma significant_head: "significant half = b # bs \<Longrightarrow> b \<noteq> 0"
  by (induction half) (auto simp: significant_def split: if_splits)

lemma length_significant: "length (significant half) \<le> length half"
  by (simp add: significant_def length_dropWhile_le)

lemma high_bit_0 [simp]: "\<not> high_bit 0"
  by (simp add: high_bit_def)

lemma integer_octets_natural: "der_natural (integer_octets half) (from_be half)"
  using from_be_significant [of half] significant_head [of half]
  by (cases "significant half") (auto simp: der_natural_def integer_octets_def write_integer_def)

lemma integer_octets_length: "length (integer_octets half) = integer_len half"
  by (auto simp: integer_octets_def write_integer_def integer_len_def split: list.split)

lemma integer_len_bounds: "0 < integer_len half" "integer_len half \<le> length half + 1"
  using length_significant [of half] by (auto simp: integer_len_def split: list.split)

lemma write_integer_parts:
  "write_integer half = 0x02 # word_of_nat (length (integer_octets half)) # integer_octets half"
  unfolding integer_octets_length by (simp add: integer_octets_def write_integer_def)

text \<open>
  The DER transform is right on every raw signature.  It never runs out of its 72-byte buffer, and
  what it writes is a SEQUENCE with its exact length holding two INTEGERs, each with its exact length,
  whose content is the minimal non-negative encoding of the corresponding half.
\<close>

theorem p256_der_exact:
  assumes "length rs = 64"
  shows "\<exists>ro so. p256_raw_sig_to_der rs =
       Ok (0x30 # word_of_nat (4 + length ro + length so) #
           (0x02 # word_of_nat (length ro) # ro) @ (0x02 # word_of_nat (length so) # so)) \<and>
     der_natural ro (from_be (take 32 rs)) \<and> der_natural so (from_be (drop 32 rs)) \<and>
     length ro \<le> 33 \<and> length so \<le> 33 \<and> 6 + length ro + length so \<le> max_p256_der_len"
proof (intro exI conjI)
  let ?ro = "integer_octets (take 32 rs)" and ?so = "integer_octets (drop 32 rs)"
  show len: "length ?ro \<le> 33" "length ?so \<le> 33"
    using integer_len_bounds(2) [of "take 32 rs"] integer_len_bounds(2) [of "drop 32 rs"] assms
    by (simp_all add: integer_octets_length)
  then show "6 + length ?ro + length ?so \<le> max_p256_der_len"
    by (simp add: max_p256_der_len_def)
  with len show "p256_raw_sig_to_der rs =
       Ok (0x30 # word_of_nat (4 + length ?ro + length ?so) #
           (0x02 # word_of_nat (length ?ro) # ?ro) @ (0x02 # word_of_nat (length ?so) # ?so))"
    by (simp add: p256_raw_sig_to_der_def write_integer_parts integer_octets_length Let_def ac_simps)
qed (rule integer_octets_natural)+

theorem p256_der_exact_witness:
  "length (replicate 31 0 @ [0x81] @ replicate 32 (0 :: byte)) = 64 \<and>
   (\<exists>ro so. p256_raw_sig_to_der (replicate 31 0 @ [0x81] @ replicate 32 0) =
      Ok (0x30 # word_of_nat (4 + length ro + length so) #
          (0x02 # word_of_nat (length ro) # ro) @ (0x02 # word_of_nat (length so) # so)) \<and>
      der_natural ro 0x81 \<and> der_natural so 0)"
proof -
  define rs where "rs = replicate 31 0 @ [0x81] @ replicate 32 (0 :: byte)"
  have len: "length rs = 64" and vals: "from_be (take 32 rs) = 0x81" "from_be (drop 32 rs) = 0"
    unfolding rs_def by code_simp+
  show ?thesis
    unfolding rs_def [symmetric] using len p256_der_exact [OF len] unfolding vals by blast
qed

end
