(* ===== verification/Base64.thy ===== *)
theory Base64
  imports Prelude
begin

text \<open>
  Unpadded base64url as RFC 4648 defines it, with its round trip and length.  The source calls the
  \<open>data-encoding\<close> crate for it, so the codec is an argument of the model; this executable version is
  the concrete function with which the witnesses instantiate that argument.
\<close>

definition sextet_char :: "nat \<Rightarrow> char" where
  "sextet_char n = char_of
     (if n < 26 then n + 65 else if n < 52 then n + 71 else if n < 62 then n - 4
      else if n = 62 then 45 else 95 :: nat)"

definition char_sextet :: "char \<Rightarrow> nat option" where
  "char_sextet c =
     (let n = of_char c in
      if 65 \<le> n \<and> n \<le> 90 then Some (n - 65) else if 97 \<le> n \<and> n \<le> 122 then Some (n - 71)
      else if 48 \<le> n \<and> n \<le> 57 then Some (n + 4) else if n = 45 then Some 62
      else if n = 95 then Some 63 else None)"

fun sextets :: "nat list \<Rightarrow> nat list" where
  "sextets [] = []"
| "sextets [a] = [a div 4, (a mod 4) * 16]"
| "sextets [a, b] = [a div 4, (a mod 4) * 16 + b div 16, (b mod 16) * 4]"
| "sextets (a # b # c # r) =
     a div 4 # ((a mod 4) * 16 + b div 16) # ((b mod 16) * 4 + c div 64) # c mod 64 # sextets r"

fun octets :: "nat list \<Rightarrow> nat list option" where
  "octets [] = Some []"
| "octets [x] = None"
| "octets [x, y] = (if y mod 16 = 0 then Some [x * 4 + y div 16] else None)"
| "octets [x, y, z] =
     (if z mod 4 = 0 then Some [x * 4 + y div 16, (y mod 16) * 16 + z div 4] else None)"
| "octets (x # y # z # w # r) =
     map_option (\<lambda>t. (x * 4 + y div 16) # ((y mod 16) * 16 + z div 4) # ((z mod 4) * 64 + w) # t) (octets r)"

definition base64_encode :: "byte list \<Rightarrow> string" where
  "base64_encode bs = map sextet_char (sextets (map unat bs))"

definition base64_decode :: "string \<Rightarrow> byte list option" where
  "base64_decode s =
     map_option (map word_of_nat) (Option.bind (those (map char_sextet s)) octets)"

lemma sextets_less: "\<forall>a\<in>set as. a < 256 \<Longrightarrow> x \<in> set (sextets as) \<Longrightarrow> x < 64"
  by (induction as rule: sextets.induct) auto

lemma octets_sextets: "\<forall>a\<in>set as. a < 256 \<Longrightarrow> octets (sextets as) = Some as"
  by (induction as rule: sextets.induct) auto

lemma length_sextets: "length (sextets as) = (4 * length as + 2) div 3"
  by (induction as rule: sextets.induct) auto

lemma char_sextet_char: "n < 64 \<Longrightarrow> char_sextet (sextet_char n) = Some n"
  by (auto simp: char_sextet_def sextet_char_def Let_def)

lemma sextet_char_not_dot: "n < 64 \<Longrightarrow> sextet_char n \<noteq> CHR ''.''"
  using char_sextet_char [of n] by (auto simp: char_sextet_def)

lemma those_sextets: "\<forall>n\<in>set ns. n < 64 \<Longrightarrow> those (map char_sextet (map sextet_char ns)) = Some ns"
  by (induction ns) (simp_all add: char_sextet_char)

lemma bytes_small: "\<forall>a\<in>set (map unat bs). a < 256" for bs :: "byte list"
proof -
  have "unat b < 256" for b :: byte using unsigned_less [of b, where ?'a = nat] by simp
  then show ?thesis by simp
qed

lemma base64_roundtrip: "base64_decode (base64_encode bs) = Some bs"
  using those_sextets [of "sextets (map unat bs)"] sextets_less [OF bytes_small, of _ bs]
    octets_sextets [OF bytes_small, of bs]
  by (simp add: base64_decode_def base64_encode_def comp_def)

lemma base64_no_dot: "CHR ''.'' \<notin> set (base64_encode bs)"
  using sextets_less [OF bytes_small, of _ bs] sextet_char_not_dot by (force simp: base64_encode_def)

lemma base64_length: "length (base64_encode bs) = (4 * length bs + 2) div 3"
  by (simp add: base64_encode_def length_sextets)

end
