(* ===== verification/Wire_Token.thy ===== *)
theory Wire_Token
  imports Wire_Cbor Base64
begin

text \<open>
  Capability and revocation tokens (\<open>wire/src/token.rs\<close>): the payload codec, signing, assembly and
  verification.  The base64url codec, SHA-256 and the two signature schemes are arguments, gathered in
  the record \<open>wire_crates\<close>; fixed arrays of bytes are lists, with their lengths in \<open>cap_wf\<close> and
  \<open>rvk_wf\<close>.
\<close>

section \<open>Constants, payloads and keys\<close>

definition cap_prefix :: string where
  "cap_prefix = ''lgcap.''"

definition rvk_prefix :: string where
  "rvk_prefix = ''lgrvk.''"

definition ver_ed25519 :: byte where
  "ver_ed25519 = 1"

definition ver_p256 :: byte where
  "ver_p256 = 2"

definition sig_len :: nat where
  "sig_len = 64"

definition max_payload_len :: nat where
  "max_payload_len = 61"

definition max_token_len :: nat where
  "max_token_len = 6 + 82 + 1 + 86"

record capability =
  cap_ver :: byte
  cap_device_id :: "byte list"
  cap_grant_nonce :: "byte list"
  cap_capability :: "32 word"
  cap_ttl_secs :: "32 word"
  cap_issued_seq :: "64 word"

record revocation =
  rvk_ver :: byte
  rvk_device_id :: "byte list"
  rvk_grant_nonce :: "byte list"
  rvk_issued_seq :: "64 word"

datatype public_key = Ed25519Pub "byte list" | P256Sec1 "byte list"

fun public_ver :: "public_key \<Rightarrow> byte" where
  "public_ver (Ed25519Pub _) = ver_ed25519"
| "public_ver (P256Sec1 _) = ver_p256"

datatype signing_key = Ed25519Seed "byte list" | P256Scalar "byte list"

fun signing_ver :: "signing_key \<Rightarrow> byte" where
  "signing_ver (Ed25519Seed _) = ver_ed25519"
| "signing_ver (P256Scalar _) = ver_p256"

text \<open>
  The third-party functions.  The \<open>_ok\<close> fields say whether the bytes parse as a key or a signature;
  \<open>wc_p256_verify\<close> takes the digest of the message.
\<close>

record wire_crates =
  wc_b64_encode :: "byte list \<Rightarrow> string"
  wc_b64_decode :: "string \<Rightarrow> byte list option"
  wc_sha256 :: "byte list \<Rightarrow> byte list"
  wc_ed25519_key_ok :: "byte list \<Rightarrow> bool"
  wc_ed25519_verify :: "byte list \<Rightarrow> byte list \<Rightarrow> byte list \<Rightarrow> bool"
  wc_ed25519_sign :: "byte list \<Rightarrow> byte list \<Rightarrow> byte list"
  wc_p256_key_ok :: "byte list \<Rightarrow> bool"
  wc_p256_sig_ok :: "byte list \<Rightarrow> bool"
  wc_p256_verify :: "byte list \<Rightarrow> byte list \<Rightarrow> byte list \<Rightarrow> bool"
  wc_p256_scalar_ok :: "byte list \<Rightarrow> bool"
  wc_p256_sign :: "byte list \<Rightarrow> byte list \<Rightarrow> byte list"

section \<open>Payload codec\<close>

definition encode_capability :: "capability \<Rightarrow> nat \<Rightarrow> wire_error + byte list" where
  "encode_capability cap room =
     bind_ok (wr_map 6 (wr_new room)) (\<lambda>w.
     bind_ok (wr_uint_entry 0 (ucast (cap_ver cap)) w) (\<lambda>w.
     bind_ok (wr_bstr_entry 1 (cap_device_id cap) w) (\<lambda>w.
     bind_ok (wr_bstr_entry 2 (cap_grant_nonce cap) w) (\<lambda>w.
     bind_ok (wr_uint_entry 3 (ucast (cap_capability cap)) w) (\<lambda>w.
     bind_ok (wr_uint_entry 4 (ucast (cap_ttl_secs cap)) w) (\<lambda>w.
     bind_ok (wr_uint_entry 5 (cap_issued_seq cap) w) (\<lambda>w.
     Ok (wr_out w))))))))"

definition encode_revocation :: "revocation \<Rightarrow> nat \<Rightarrow> wire_error + byte list" where
  "encode_revocation rvk room =
     bind_ok (wr_map 4 (wr_new room)) (\<lambda>w.
     bind_ok (wr_uint_entry 0 (ucast (rvk_ver rvk)) w) (\<lambda>w.
     bind_ok (wr_bstr_entry 1 (rvk_device_id rvk) w) (\<lambda>w.
     bind_ok (wr_bstr_entry 2 (rvk_grant_nonce rvk) w) (\<lambda>w.
     bind_ok (wr_uint_entry 3 (rvk_issued_seq rvk) w) (\<lambda>w.
     Ok (wr_out w))))))"

definition read_ver :: "reader \<Rightarrow> wire_error + byte \<times> reader" where
  "read_ver r =
     bind_ok (rd_uint_entry 0 ''expected an unsigned integer'' r) (\<lambda>(ver, r).
       if ver = ucast ver_ed25519 \<or> ver = ucast ver_p256 then Ok (ucast ver, r) else Err UnknownVersion)"

definition decode_capability :: "byte list \<Rightarrow> wire_error + capability" where
  "decode_capability payload =
     bind_ok (rd_map 6 payload) (\<lambda>r.
     bind_ok (read_ver r) (\<lambda>(ver, r).
     bind_ok (rd_bstr16_entry 1 r) (\<lambda>(device_id, r).
     bind_ok (rd_bstr16_entry 2 r) (\<lambda>(nonce, r).
     bind_ok (rd_uint_entry_u32 3 r) (\<lambda>(capa, r).
     bind_ok (rd_uint_entry_u32 4 r) (\<lambda>(ttl, r).
     bind_ok (rd_uint_entry 5 ''expected an unsigned integer'' r) (\<lambda>(seq, r).
     bind_ok (rd_end r) (\<lambda>_.
     Ok \<lparr>cap_ver = ver, cap_device_id = device_id, cap_grant_nonce = nonce, cap_capability = capa,
         cap_ttl_secs = ttl, cap_issued_seq = seq\<rparr>))))))))"

definition decode_revocation :: "byte list \<Rightarrow> wire_error + revocation" where
  "decode_revocation payload =
     bind_ok (rd_map 4 payload) (\<lambda>r.
     bind_ok (read_ver r) (\<lambda>(ver, r).
     bind_ok (rd_bstr16_entry 1 r) (\<lambda>(device_id, r).
     bind_ok (rd_bstr16_entry 2 r) (\<lambda>(nonce, r).
     bind_ok (rd_uint_entry 3 ''expected an unsigned integer'' r) (\<lambda>(seq, r).
     bind_ok (rd_end r) (\<lambda>_.
     Ok \<lparr>rvk_ver = ver, rvk_device_id = device_id, rvk_grant_nonce = nonce, rvk_issued_seq = seq\<rparr>))))))"

section \<open>Verification\<close>

definition b64_decode :: "wire_crates \<Rightarrow> string \<Rightarrow> nat \<Rightarrow> wire_error + byte list" where
  "b64_decode X seg room =
     (case wc_b64_decode X seg of
        None \<Rightarrow> Err BadBase64
      | Some bs \<Rightarrow> if room < length bs then Err BadBase64 else Ok bs)"

definition signed_message :: "string \<Rightarrow> byte list \<Rightarrow> byte list" where
  "signed_message prefix payload = as_bytes prefix @ payload"

definition verify_sig :: "wire_crates \<Rightarrow> public_key \<Rightarrow> byte list \<Rightarrow> byte list \<Rightarrow> wire_error + unit" where
  "verify_sig X key message sig =
     (case key of
        Ed25519Pub pk \<Rightarrow>
          if \<not> wc_ed25519_key_ok X pk then Err WireBadKey
          else if wc_ed25519_verify X pk message sig then Ok () else Err WireBadSignature
      | P256Sec1 sec1 \<Rightarrow>
          if \<not> wc_p256_key_ok X sec1 then Err WireBadKey
          else if \<not> wc_p256_sig_ok X sig then Err WireBadSignature
          else if wc_p256_verify X sec1 (wc_sha256 X message) sig then Ok () else Err WireBadSignature)"

definition split_dot :: "string \<Rightarrow> (string \<times> string) option" where
  "split_dot s =
     (if CHR ''.'' \<in> set s
      then Some (takeWhile (\<lambda>c. c \<noteq> CHR ''.'') s, tl (dropWhile (\<lambda>c. c \<noteq> CHR ''.'') s))
      else None)"

definition open_token :: "wire_crates \<Rightarrow> string \<Rightarrow> public_key \<Rightarrow> string \<Rightarrow> wire_error + byte list" where
  "open_token X prefix key token =
     bind_ok (ok_or BadPrefix (strip_prefix prefix token)) (\<lambda>rest.
     bind_ok (ok_or BadBase64 (split_dot rest)) (\<lambda>(payload_b64, sig_b64).
     bind_ok (b64_decode X payload_b64 max_payload_len) (\<lambda>payload.
     bind_ok (b64_decode X sig_b64 sig_len) (\<lambda>sig.
       if length sig \<noteq> sig_len then Err WireBadSignature
       else bind_ok (verify_sig X key (signed_message prefix payload) sig) (\<lambda>_. Ok payload)))))"

definition verify_capability :: "wire_crates \<Rightarrow> public_key \<Rightarrow> string \<Rightarrow> wire_error + capability" where
  "verify_capability X key token =
     bind_ok (open_token X cap_prefix key token) (\<lambda>payload.
     bind_ok (decode_capability payload) (\<lambda>cap.
       if cap_ver cap \<noteq> public_ver key then Err VersionKeyMismatch else Ok cap))"

definition verify_revocation :: "wire_crates \<Rightarrow> public_key \<Rightarrow> string \<Rightarrow> wire_error + revocation" where
  "verify_revocation X key token =
     bind_ok (open_token X rvk_prefix key token) (\<lambda>payload.
     bind_ok (decode_revocation payload) (\<lambda>rvk.
       if rvk_ver rvk \<noteq> public_ver key then Err VersionKeyMismatch else Ok rvk))"

section \<open>Signing\<close>

definition sign_message :: "wire_crates \<Rightarrow> signing_key \<Rightarrow> byte list \<Rightarrow> wire_error + byte list" where
  "sign_message X key message =
     (case key of
        Ed25519Seed seed \<Rightarrow> Ok (wc_ed25519_sign X seed message)
      | P256Scalar scalar \<Rightarrow>
          if \<not> wc_p256_scalar_ok X scalar then Err WireBadKey else Ok (wc_p256_sign X scalar message))"

definition assemble :: "wire_crates \<Rightarrow> string \<Rightarrow> signing_key \<Rightarrow> byte list \<Rightarrow> wire_error + string" where
  "assemble X prefix key payload =
     bind_ok (sign_message X key (signed_message prefix payload)) (\<lambda>sig.
       let pseg = wc_b64_encode X payload; sseg = wc_b64_encode X sig in
       if max_token_len < length prefix + length pseg + 1 + length sseg then Err BufferTooSmall
       else Ok (prefix @ pseg @ ''.'' @ sseg))"

definition sign_capability_token :: "wire_crates \<Rightarrow> signing_key \<Rightarrow> capability \<Rightarrow> wire_error + string" where
  "sign_capability_token X key cap =
     (if cap_ver cap \<noteq> signing_ver key then Err VersionKeyMismatch
      else bind_ok (encode_capability cap max_payload_len) (assemble X cap_prefix key))"

definition sign_revocation_token :: "wire_crates \<Rightarrow> signing_key \<Rightarrow> revocation \<Rightarrow> wire_error + string" where
  "sign_revocation_token X key rvk =
     (if rvk_ver rvk \<noteq> signing_ver key then Err VersionKeyMismatch
      else bind_ok (encode_revocation rvk max_payload_len) (assemble X rvk_prefix key))"

section \<open>The payload codec is exact\<close>

definition known_ver :: "byte \<Rightarrow> bool" where
  "known_ver v = (v = ver_ed25519 \<or> v = ver_p256)"

definition cap_wf :: "capability \<Rightarrow> bool" where
  "cap_wf cap = (length (cap_device_id cap) = 16 \<and> length (cap_grant_nonce cap) = 16)"

definition rvk_wf :: "revocation \<Rightarrow> bool" where
  "rvk_wf rvk = (length (rvk_device_id rvk) = 16 \<and> length (rvk_grant_nonce rvk) = 16)"

definition uint_bytes :: "64 word \<Rightarrow> 64 word \<Rightarrow> byte list" where
  "uint_bytes k v = head_bytes major_uint k @ head_bytes major_uint v"

definition bstr_bytes :: "64 word \<Rightarrow> byte list \<Rightarrow> byte list" where
  "bstr_bytes k bs = head_bytes major_uint k @ head_bytes major_bstr (word_of_nat (length bs)) @ bs"

definition cap_bytes :: "capability \<Rightarrow> byte list" where
  "cap_bytes cap = head_bytes major_map 6 @ uint_bytes 0 (ucast (cap_ver cap)) @
     bstr_bytes 1 (cap_device_id cap) @ bstr_bytes 2 (cap_grant_nonce cap) @
     uint_bytes 3 (ucast (cap_capability cap)) @ uint_bytes 4 (ucast (cap_ttl_secs cap)) @
     uint_bytes 5 (cap_issued_seq cap)"

definition rvk_bytes :: "revocation \<Rightarrow> byte list" where
  "rvk_bytes rvk = head_bytes major_map 4 @ uint_bytes 0 (ucast (rvk_ver rvk)) @
     bstr_bytes 1 (rvk_device_id rvk) @ bstr_bytes 2 (rvk_grant_nonce rvk) @
     uint_bytes 3 (rvk_issued_seq rvk)"

lemma bind_put_put: "bind_ok (wr_put as w) (\<lambda>w. bind_ok (wr_put bs w) f) = bind_ok (wr_put (as @ bs) w) f"
  unfolding wr_put_put [symmetric] by (cases "wr_put as w") simp_all

lemma put_new:
  "bind_ok (wr_put bs (wr_new room)) (\<lambda>w. Ok (wr_out w)) =
     (if length bs \<le> room then Ok bs else Err BufferTooSmall)"
  by (simp add: wr_put_def wr_new_def)

lemma encode_capability_eq:
  "encode_capability cap room =
     (if length (cap_bytes cap) \<le> room then Ok (cap_bytes cap) else Err BufferTooSmall)"
  unfolding encode_capability_def wr_puts bind_put_put put_new
  by (simp add: cap_bytes_def uint_bytes_def bstr_bytes_def)

lemma encode_revocation_eq:
  "encode_revocation rvk room =
     (if length (rvk_bytes rvk) \<le> room then Ok (rvk_bytes rvk) else Err BufferTooSmall)"
  unfolding encode_revocation_def wr_puts bind_put_put put_new
  by (simp add: rvk_bytes_def uint_bytes_def bstr_bytes_def)

lemma known_ver_iff:
  "(w = ucast ver_ed25519 \<or> w = ucast ver_p256) \<and> ucast (w :: 64 word) = v \<longleftrightarrow> known_ver v \<and> w = ucast v"
  by (auto simp: known_ver_def ver_ed25519_def ver_p256_def)

lemma read_ver_eq_Ok:
  "read_ver r = Ok (v, r') \<longleftrightarrow> known_ver v \<and> r = uint_bytes 0 (ucast v) @ r'"
proof -
  have "read_ver r = Ok (v, r') \<longleftrightarrow>
      (\<exists>w. ((w = ucast ver_ed25519 \<or> w = ucast ver_p256) \<and> ucast w = v) \<and>
         rd_uint_entry 0 ''expected an unsigned integer'' r = Ok (w, r'))"
    by (cases "rd_uint_entry 0 ''expected an unsigned integer'' r") (auto simp: read_ver_def split: if_split_asm)
  then show ?thesis unfolding known_ver_iff rd_uint_entry_eq_Ok by (simp add: uint_bytes_def)
qed

lemma decode_capability_eq_Ok:
  "decode_capability p = Ok cap \<longleftrightarrow> known_ver (cap_ver cap) \<and> cap_wf cap \<and> p = cap_bytes cap"
  by (cases cap) (auto simp: decode_capability_def bind_ok_eq_Ok rd_oks read_ver_eq_Ok cap_bytes_def
      cap_wf_def uint_bytes_def bstr_bytes_def)

lemma decode_revocation_eq_Ok:
  "decode_revocation p = Ok rvk \<longleftrightarrow> known_ver (rvk_ver rvk) \<and> rvk_wf rvk \<and> p = rvk_bytes rvk"
  by (cases rvk) (auto simp: decode_revocation_def bind_ok_eq_Ok rd_oks read_ver_eq_Ok rvk_bytes_def
      rvk_wf_def uint_bytes_def bstr_bytes_def)

lemma cap_bytes_length:
  assumes "known_ver (cap_ver cap)" "cap_wf cap"
  shows "length (cap_bytes cap) \<le> max_payload_len"
proof -
  have "ucast (cap_ver cap) < (24 :: 64 word)"
    using assms(1) by (auto simp: known_ver_def ver_ed25519_def ver_p256_def)
  moreover have "length (head_bytes major_uint (ucast (cap_capability cap))) \<le> 5"
    "length (head_bytes major_uint (ucast (cap_ttl_secs cap))) \<le> 5"
    "length (head_bytes major_uint (cap_issued_seq cap)) \<le> 9"
    by (rule head_bytes_length)+
  ultimately show ?thesis
    using assms(2) by (simp add: cap_bytes_def uint_bytes_def bstr_bytes_def cap_wf_def
        head_bytes_length(2) max_payload_len_def)
qed

lemma rvk_bytes_length:
  assumes "known_ver (rvk_ver rvk)" "rvk_wf rvk"
  shows "length (rvk_bytes rvk) \<le> max_payload_len"
proof -
  have "ucast (rvk_ver rvk) < (24 :: 64 word)"
    using assms(1) by (auto simp: known_ver_def ver_ed25519_def ver_p256_def)
  moreover have "length (head_bytes major_uint (rvk_issued_seq rvk)) \<le> 9"
    by (rule head_bytes_length)
  ultimately show ?thesis
    using assms(2) by (simp add: rvk_bytes_def uint_bytes_def bstr_bytes_def rvk_wf_def
        head_bytes_length(2) max_payload_len_def)
qed

text \<open>
  C36. The payload codec is exact.  A byte string decodes to a capability exactly when it is what the
  encoder writes for that capability into the fixed buffer, the version is a known one and both arrays
  have 16 bytes, and likewise for revocations: encoding and decoding are inverse, a payload has a
  single valid encoding, and the fixed buffer always suffices.
\<close>

theorem payload_codec_exact:
  "(decode_capability p = Ok cap \<longleftrightarrow>
      known_ver (cap_ver cap) \<and> cap_wf cap \<and> encode_capability cap max_payload_len = Ok p) \<and>
   (decode_revocation p = Ok rvk \<longleftrightarrow>
      known_ver (rvk_ver rvk) \<and> rvk_wf rvk \<and> encode_revocation rvk max_payload_len = Ok p)"
  using cap_bytes_length [of cap] rvk_bytes_length [of rvk]
  by (auto simp: decode_capability_eq_Ok decode_revocation_eq_Ok encode_capability_eq
      encode_revocation_eq split: if_splits)

section \<open>Signing and verifying\<close>

text \<open>
  What the tokens rely on: the documented behaviour of unpadded base64url, and a key pair whose
  signatures, of 64 bytes, verify.
\<close>

definition b64_codec :: "wire_crates \<Rightarrow> bool" where
  "b64_codec X \<longleftrightarrow>
     (\<forall>bs. wc_b64_decode X (wc_b64_encode X bs) = Some bs) \<and>
     (\<forall>bs. CHR ''.'' \<notin> set (wc_b64_encode X bs)) \<and>
     (\<forall>bs. length (wc_b64_encode X bs) = (4 * length bs + 2) div 3)"

definition key_pair :: "wire_crates \<Rightarrow> signing_key \<Rightarrow> public_key \<Rightarrow> bool" where
  "key_pair X sk pk \<longleftrightarrow>
     (case (sk, pk) of
        (Ed25519Seed seed, Ed25519Pub k) \<Rightarrow>
          wc_ed25519_key_ok X k \<and>
          (\<forall>m. length (wc_ed25519_sign X seed m) = sig_len \<and>
               wc_ed25519_verify X k m (wc_ed25519_sign X seed m))
      | (P256Scalar scalar, P256Sec1 k) \<Rightarrow>
          wc_p256_scalar_ok X scalar \<and> wc_p256_key_ok X k \<and>
          (\<forall>m. length (wc_p256_sign X scalar m) = sig_len \<and> wc_p256_sig_ok X (wc_p256_sign X scalar m) \<and>
               wc_p256_verify X k (wc_sha256 X m) (wc_p256_sign X scalar m))
      | _ \<Rightarrow> False)"

lemma key_pair_signs:
  assumes "key_pair X sk pk"
  obtains sig where "sign_message X sk m = Ok sig" "length sig = sig_len" "verify_sig X pk m sig = Ok ()"
  using assms by (cases sk; cases pk) (auto simp: key_pair_def sign_message_def verify_sig_def)

lemma key_pair_ver: "key_pair X sk pk \<Longrightarrow> signing_ver sk = public_ver pk"
  by (cases sk; cases pk) (auto simp: key_pair_def)

lemma signing_ver_known [simp]: "known_ver (signing_ver sk)"
  by (cases sk) (simp_all add: known_ver_def)

lemma split_dot_join: "CHR ''.'' \<notin> set a \<Longrightarrow> split_dot (a @ CHR ''.'' # b) = Some (a, b)"
  by (induction a) (auto simp: split_dot_def split: if_splits)

lemma strip_prefix_join [simp]: "strip_prefix p (p @ s) = Some s"
  by (simp add: strip_prefix_def)

lemma assemble_opens:
  assumes "b64_codec X" "key_pair X sk pk" "length payload \<le> max_payload_len" "length prefix = 6"
  obtains token where "assemble X prefix sk payload = Ok token" "length token \<le> max_token_len"
    "open_token X prefix pk token = Ok payload" "take 6 token = prefix"
proof -
  obtain sig where sig: "sign_message X sk (signed_message prefix payload) = Ok sig" "length sig = sig_len"
      "verify_sig X pk (signed_message prefix payload) sig = Ok ()"
    using key_pair_signs [OF assms(2)] by blast
  define pseg sseg where "pseg = wc_b64_encode X payload" and "sseg = wc_b64_encode X sig"
  have b64: "wc_b64_decode X pseg = Some payload" "wc_b64_decode X sseg = Some sig"
      "CHR ''.'' \<notin> set pseg" "length pseg = (4 * length payload + 2) div 3"
      "length sseg = (4 * length sig + 2) div 3"
    using assms(1) unfolding b64_codec_def pseg_def sseg_def by blast+
  have room: "length pseg \<le> 82" "length sseg = 86"
    using b64(4,5) assms(3) sig(2) by (simp_all add: max_payload_len_def sig_len_def)
  show thesis
  proof (rule that [of "prefix @ pseg @ ''.'' @ sseg"])
    show "assemble X prefix sk payload = Ok (prefix @ pseg @ ''.'' @ sseg)"
      using room assms(4) unfolding assemble_def sig(1) bind_ok_simps Let_def pseg_def [symmetric] sseg_def [symmetric]
      by (simp add: max_token_len_def)
    show "length (prefix @ pseg @ ''.'' @ sseg) \<le> max_token_len"
      using room assms(4) by (simp add: max_token_len_def)
    show "open_token X prefix pk (prefix @ pseg @ ''.'' @ sseg) = Ok payload"
      using assms(3) sig(2,3) b64(1-3)
      by (simp add: open_token_def split_dot_join b64_decode_def)
    show "take 6 (prefix @ pseg @ ''.'' @ sseg) = prefix"
      using assms(4) by simp
  qed
qed

lemma other_prefix: "take 6 token = p \<Longrightarrow> length q = 6 \<Longrightarrow> p \<noteq> q \<Longrightarrow> open_token X q pk token = Err BadPrefix"
  by (auto simp: open_token_def strip_prefix_def)

lemma prefixes [simp]: "length cap_prefix = 6" "length rvk_prefix = 6" "cap_prefix \<noteq> rvk_prefix"
  "rvk_prefix \<noteq> cap_prefix"
  by (simp_all add: cap_prefix_def rvk_prefix_def)

lemma signed_capability:
  assumes "b64_codec X" "key_pair X sk pk" "cap_wf cap" "cap_ver cap = signing_ver sk"
  shows "\<exists>token. sign_capability_token X sk cap = Ok token \<and> length token \<le> max_token_len \<and>
    verify_capability X pk token = Ok cap \<and> verify_revocation X pk token = Err BadPrefix"
proof -
  have kv: "known_ver (cap_ver cap)" by (simp add: assms)
  note len = cap_bytes_length [OF kv assms(3)]
  obtain t where "assemble X cap_prefix sk (cap_bytes cap) = Ok t" "length t \<le> max_token_len"
      "open_token X cap_prefix pk t = Ok (cap_bytes cap)" "take 6 t = cap_prefix"
    using assemble_opens [OF assms(1,2) len, of cap_prefix] by auto
  moreover have "decode_capability (cap_bytes cap) = Ok cap"
    using kv assms(3) by (simp add: decode_capability_eq_Ok)
  ultimately show ?thesis
    using len assms(4) key_pair_ver [OF assms(2)]
    by (intro exI [of _ t]) (simp add: sign_capability_token_def encode_capability_eq
        verify_capability_def verify_revocation_def other_prefix)
qed

lemma signed_revocation:
  assumes "b64_codec X" "key_pair X sk pk" "rvk_wf rvk" "rvk_ver rvk = signing_ver sk"
  shows "\<exists>token. sign_revocation_token X sk rvk = Ok token \<and> length token \<le> max_token_len \<and>
    verify_revocation X pk token = Ok rvk \<and> verify_capability X pk token = Err BadPrefix"
proof -
  have kv: "known_ver (rvk_ver rvk)" by (simp add: assms)
  note len = rvk_bytes_length [OF kv assms(3)]
  obtain t where "assemble X rvk_prefix sk (rvk_bytes rvk) = Ok t" "length t \<le> max_token_len"
      "open_token X rvk_prefix pk t = Ok (rvk_bytes rvk)" "take 6 t = rvk_prefix"
    using assemble_opens [OF assms(1,2) len, of rvk_prefix] by auto
  moreover have "decode_revocation (rvk_bytes rvk) = Ok rvk"
    using kv assms(3) by (simp add: decode_revocation_eq_Ok)
  ultimately show ?thesis
    using len assms(4) key_pair_ver [OF assms(2)]
    by (intro exI [of _ t]) (simp add: sign_revocation_token_def encode_revocation_eq
        verify_capability_def verify_revocation_def other_prefix)
qed

text \<open>
  C37. Signing and verifying.  With a key pair of either kind, a capability whose version is the key's
  is always signed into a token that fits the fixed buffer, and the device's verification of that
  token returns the very capability; the same holds of revocations; and a token of one kind is never
  accepted as the other.
\<close>

theorem sign_verify_roundtrip:
  assumes "b64_codec X" "key_pair X sk pk"
    and "cap_wf cap" "cap_ver cap = signing_ver sk" "rvk_wf rvk" "rvk_ver rvk = signing_ver sk"
  shows "(\<exists>token. sign_capability_token X sk cap = Ok token \<and> length token \<le> max_token_len \<and>
            verify_capability X pk token = Ok cap \<and> verify_revocation X pk token = Err BadPrefix) \<and>
         (\<exists>token. sign_revocation_token X sk rvk = Ok token \<and> length token \<le> max_token_len \<and>
            verify_revocation X pk token = Ok rvk \<and> verify_capability X pk token = Err BadPrefix)"
  using signed_capability [OF assms(1-4)] signed_revocation [OF assms(1,2,5,6)] by (rule conjI)

text \<open>A concrete instance of the third-party functions, for the witnesses: the real base64url and a transparent signature.\<close>

definition pad64 :: "byte list \<Rightarrow> byte list" where
  "pad64 m = take sig_len (m @ replicate sig_len 0)"

definition small_wire :: wire_crates where
  "small_wire = \<lparr>wc_b64_encode = base64_encode, wc_b64_decode = base64_decode, wc_sha256 = id,
     wc_ed25519_key_ok = (\<lambda>_. True), wc_ed25519_verify = (\<lambda>k m s. s = pad64 m),
     wc_ed25519_sign = (\<lambda>_. pad64), wc_p256_key_ok = (\<lambda>_. True), wc_p256_sig_ok = (\<lambda>_. True),
     wc_p256_verify = (\<lambda>k d s. s = pad64 d), wc_p256_scalar_ok = (\<lambda>_. True), wc_p256_sign = (\<lambda>_. pad64)\<rparr>"

definition small_cap :: capability where
  "small_cap = \<lparr>cap_ver = 2, cap_device_id = replicate 16 7, cap_grant_nonce = replicate 16 9,
     cap_capability = 1, cap_ttl_secs = 600, cap_issued_seq = 5\<rparr>"

definition small_rvk :: revocation where
  "small_rvk = \<lparr>rvk_ver = 2, rvk_device_id = replicate 16 7, rvk_grant_nonce = replicate 16 9,
     rvk_issued_seq = 6\<rparr>"

lemma small_wire_b64: "b64_codec small_wire"
  by (simp add: b64_codec_def small_wire_def base64_roundtrip base64_no_dot base64_length)

lemma small_wire_keys: "key_pair small_wire (P256Scalar []) (P256Sec1 [])"
  by (simp add: key_pair_def small_wire_def pad64_def sig_len_def min_def)

theorem sign_verify_roundtrip_witness:
  "b64_codec small_wire \<and> key_pair small_wire (P256Scalar []) (P256Sec1 []) \<and>
   (\<exists>token. sign_capability_token small_wire (P256Scalar []) small_cap = Ok token \<and>
      verify_capability small_wire (P256Sec1 []) token = Ok small_cap)"
  using sign_verify_roundtrip [OF small_wire_b64 small_wire_keys, of small_cap small_rvk]
  by (auto simp: small_wire_b64 small_wire_keys small_cap_def small_rvk_def cap_wf_def rvk_wf_def ver_p256_def)

section \<open>What an accepted token proves\<close>

lemma open_token_Ok:
  "open_token X prefix pk token = Ok payload \<Longrightarrow>
     length payload \<le> max_payload_len \<and>
     (\<exists>sig. length sig = sig_len \<and> verify_sig X pk (signed_message prefix payload) sig = Ok ())"
  by (auto simp: open_token_def bind_ok_eq_Ok b64_decode_def split: if_splits option.splits)

lemma verify_capability_Ok:
  assumes "verify_capability X pk token = Ok cap"
  shows "cap_ver cap = public_ver pk \<and> known_ver (cap_ver cap) \<and> cap_wf cap \<and>
    (\<exists>sig. length sig = sig_len \<and> verify_sig X pk (signed_message cap_prefix (cap_bytes cap)) sig = Ok ())"
  using assms open_token_Ok
  by (fastforce simp: verify_capability_def bind_ok_eq_Ok decode_capability_eq_Ok split: if_splits)

lemma verify_revocation_Ok:
  assumes "verify_revocation X pk token = Ok rvk"
  shows "rvk_ver rvk = public_ver pk \<and> known_ver (rvk_ver rvk) \<and> rvk_wf rvk \<and>
    (\<exists>sig. length sig = sig_len \<and> verify_sig X pk (signed_message rvk_prefix (rvk_bytes rvk)) sig = Ok ())"
  using assms open_token_Ok
  by (fastforce simp: verify_revocation_def bind_ok_eq_Ok decode_revocation_eq_Ok split: if_splits)

lemma cap_bytes_inj:
  "known_ver (cap_ver c) \<Longrightarrow> cap_wf c \<Longrightarrow> known_ver (cap_ver d) \<Longrightarrow> cap_wf d \<Longrightarrow>
     cap_bytes c = cap_bytes d \<Longrightarrow> c = d"
  by (metis decode_capability_eq_Ok sum.inject(2))

text \<open>
  C38. What an accepted token proves.  When verification returns a capability there is a signature,
  valid under the trust root, over the prefix followed by the canonical encoding of that capability,
  in the key's own version; the same for a revocation.  A signature over one message is never good
  for another: signed messages of two different accepted capabilities differ, and no capability's
  message is a revocation's.
\<close>

theorem accepted_token_binds:
  assumes "verify_capability X pk token = Ok cap" "verify_revocation X pk token' = Ok rvk"
    and "verify_capability X pk token'' = Ok cap'"
  shows "(\<exists>payload sig. encode_capability cap max_payload_len = Ok payload \<and> length sig = sig_len \<and>
            verify_sig X pk (signed_message cap_prefix payload) sig = Ok ()) \<and>
         (\<exists>payload sig. encode_revocation rvk max_payload_len = Ok payload \<and> length sig = sig_len \<and>
            verify_sig X pk (signed_message rvk_prefix payload) sig = Ok ()) \<and>
         cap_ver cap = public_ver pk \<and> rvk_ver rvk = public_ver pk \<and>
         (signed_message cap_prefix (cap_bytes cap) = signed_message cap_prefix (cap_bytes cap') \<longleftrightarrow> cap = cap') \<and>
         signed_message cap_prefix (cap_bytes cap) \<noteq> signed_message rvk_prefix (rvk_bytes rvk)"
proof -
  note c = verify_capability_Ok [OF assms(1)] and r = verify_revocation_Ok [OF assms(2)]
    and c' = verify_capability_Ok [OF assms(3)]
  have "encode_capability cap max_payload_len = Ok (cap_bytes cap)"
    unfolding encode_capability_eq using c cap_bytes_length by (metis (full_types))
  moreover have "encode_revocation rvk max_payload_len = Ok (rvk_bytes rvk)"
    unfolding encode_revocation_eq using r rvk_bytes_length by (metis (full_types))
  moreover have "signed_message cap_prefix (cap_bytes cap) \<noteq> signed_message rvk_prefix (rvk_bytes rvk)"
    unfolding signed_message_def by (simp add: append_eq_append_conv)
  moreover have "signed_message cap_prefix (cap_bytes cap) = signed_message cap_prefix (cap_bytes cap') \<longleftrightarrow> cap = cap'"
    using c c' cap_bytes_inj [of cap cap'] by (auto simp: signed_message_def)
  ultimately show ?thesis using c r by blast
qed

lemma small_tokens:
  obtains t u where "verify_capability small_wire (P256Sec1 []) t = Ok small_cap"
    "verify_revocation small_wire (P256Sec1 []) u = Ok small_rvk"
proof -
  let ?pk = "P256Sec1 []" and ?sk = "P256Scalar []"
  have ok: "known_ver (cap_ver small_cap)" "cap_wf small_cap" "known_ver (rvk_ver small_rvk)" "rvk_wf small_rvk"
    by (simp_all add: small_cap_def small_rvk_def known_ver_def ver_p256_def cap_wf_def rvk_wf_def)
  obtain t where "open_token small_wire cap_prefix ?pk t = Ok (cap_bytes small_cap)"
    using assemble_opens [OF small_wire_b64 small_wire_keys cap_bytes_length [OF ok(1,2)]] by (metis prefixes(1))
  moreover obtain u where "open_token small_wire rvk_prefix ?pk u = Ok (rvk_bytes small_rvk)"
    using assemble_opens [OF small_wire_b64 small_wire_keys rvk_bytes_length [OF ok(3,4)]] by (metis prefixes(2))
  moreover have "decode_capability (cap_bytes small_cap) = Ok small_cap"
      "decode_revocation (rvk_bytes small_rvk) = Ok small_rvk"
    using ok by (simp_all add: decode_capability_eq_Ok decode_revocation_eq_Ok)
  ultimately show thesis
    by (intro that [of t u]) (simp_all add: verify_capability_def verify_revocation_def ver_p256_def,
        simp_all add: small_cap_def small_rvk_def)
qed

theorem accepted_token_binds_witness:
  "\<exists>t u. verify_capability small_wire (P256Sec1 []) t = Ok small_cap \<and>
     verify_revocation small_wire (P256Sec1 []) u = Ok small_rvk \<and>
     (\<exists>payload sig. encode_capability small_cap max_payload_len = Ok payload \<and>
        verify_sig small_wire (P256Sec1 []) (signed_message cap_prefix payload) sig = Ok ())"
proof -
  obtain t u where tu: "verify_capability small_wire (P256Sec1 []) t = Ok small_cap"
    "verify_revocation small_wire (P256Sec1 []) u = Ok small_rvk" by (rule small_tokens)
  show ?thesis using accepted_token_binds [OF tu tu(1)] tu by blast
qed

end
