(* ===== verification/Wire_Line.thy ===== *)
theory Wire_Line
  imports Wire_Token
begin

unbundle bit_operations_syntax

text \<open>
  The line protocol between daemon and device (\<open>wire/src/line.rs\<close>): commands, replies, their fixed
  buffer rendering and their parsing, with the round trips in both directions.
\<close>

section \<open>Vocabulary\<close>

definition max_line_len :: nat where
  "max_line_len = 4 + max_token_len + 16"

datatype line_command = CmdToken string | CmdRevoke string | CmdStatus | CmdSePubkey | CmdSeSign string

datatype close_reason = CloseRevert | CloseExpiry | CloseBoot

datatype fail_state = Energized | DeEnergized

record line_report =
  rp_open :: "(byte list \<times> 64 word) option"
  rp_seq :: "64 word"
  rp_load :: "bool option"
  rp_fail :: "fail_state option"
  rp_reason :: "close_reason option"

datatype line_reply = AckOpen "byte list" "64 word" | AckClosed | Nak string | State line_report
  | Pubkey string | Sig string

definition hex_char :: "nat \<Rightarrow> char" where
  "hex_char n = (''0123456789abcdef'' ! n)"

definition hex_nonce :: "byte list \<Rightarrow> string" where
  "hex_nonce nonce =
     concat (map (\<lambda>b. [hex_char (unat (drop_bit 4 b)), hex_char (unat (b AND 0x0f))]) nonce)"

fun parse_hex_pairs :: "string \<Rightarrow> wire_error + byte list" where
  "parse_hex_pairs (a # b # s) =
     bind_ok (ok_or (Malformed ''nonce is not hex'') (hex_digit a)) (\<lambda>hi.
     bind_ok (ok_or (Malformed ''nonce is not hex'') (hex_digit b)) (\<lambda>lo.
     bind_ok (parse_hex_pairs s) (\<lambda>bs. Ok (word_of_nat (16 * hi + lo) # bs))))"
| "parse_hex_pairs _ = Ok []"

definition parse_hex_nonce :: "string \<Rightarrow> wire_error + byte list" where
  "parse_hex_nonce s =
     (if length s \<noteq> 32 then Err (Malformed ''nonce is not 32 hex chars'') else parse_hex_pairs s)"

section \<open>Rendering\<close>

text \<open>The fixed-buffer writer: what is written so far, refused when the buffer would overflow.\<close>

definition ln_push :: "string \<Rightarrow> string \<Rightarrow> wire_error + string" where
  "ln_push s line = (if max_line_len < length line + length s then Err BufferTooSmall else Ok (line @ s))"

definition ln_push_u64 :: "64 word \<Rightarrow> string \<Rightarrow> wire_error + string" where
  "ln_push_u64 n line = ln_push (show_nat (unat n)) line"

definition render_command :: "line_command \<Rightarrow> wire_error + string" where
  "render_command cmd =
     (case cmd of
        CmdToken t \<Rightarrow> bind_ok (ln_push ''TOK '' []) (ln_push t)
      | CmdRevoke t \<Rightarrow> bind_ok (ln_push ''RVK '' []) (ln_push t)
      | CmdStatus \<Rightarrow> ln_push ''STAT'' []
      | CmdSePubkey \<Rightarrow> ln_push ''SE-PUBKEY?'' []
      | CmdSeSign c \<Rightarrow> bind_ok (ln_push ''SE-SIGN '' []) (ln_push c))"

fun fail_trailer :: "fail_state \<Rightarrow> string" where
  "fail_trailer Energized = '' fail=energized''"
| "fail_trailer DeEnergized = '' fail=de-energized''"

fun reason_trailer :: "close_reason \<Rightarrow> string" where
  "reason_trailer CloseRevert = '' reason=revert''"
| "reason_trailer CloseExpiry = '' reason=expiry''"
| "reason_trailer CloseBoot = '' reason=boot''"

definition ln_push_opt :: "('a \<Rightarrow> string) \<Rightarrow> 'a option \<Rightarrow> string \<Rightarrow> wire_error + string" where
  "ln_push_opt f x line = (case x of None \<Rightarrow> Ok line | Some a \<Rightarrow> ln_push (f a) line)"

definition render_state :: "line_report \<Rightarrow> string \<Rightarrow> wire_error + string" where
  "render_state report line =
     bind_ok (ln_push ''STATE '' line) (\<lambda>line.
     bind_ok (case rp_open report of
                Some (nonce, remaining) \<Rightarrow>
                  bind_ok (ln_push ''open '' line) (\<lambda>line.
                  bind_ok (ln_push (hex_nonce nonce) line) (\<lambda>line.
                  bind_ok (ln_push '' '' line) (ln_push_u64 remaining)))
              | None \<Rightarrow> ln_push ''closed'' line) (\<lambda>line.
     bind_ok (ln_push '' seq='' line) (\<lambda>line.
     bind_ok (ln_push_u64 (rp_seq report) line) (\<lambda>line.
     bind_ok (ln_push_opt (\<lambda>b. if b then '' load=on'' else '' load=off'') (rp_load report) line) (\<lambda>line.
     bind_ok (ln_push_opt fail_trailer (rp_fail report) line)
             (ln_push_opt reason_trailer (rp_reason report)))))))"

definition render_reply :: "line_reply \<Rightarrow> wire_error + string" where
  "render_reply reply =
     (case reply of
        AckOpen nonce remaining \<Rightarrow>
          bind_ok (ln_push ''ACK '' []) (\<lambda>line.
          bind_ok (ln_push (hex_nonce nonce) line) (\<lambda>line.
          bind_ok (ln_push '' '' line) (ln_push_u64 remaining)))
      | AckClosed \<Rightarrow> ln_push ''ACK closed'' []
      | Nak reason \<Rightarrow> bind_ok (ln_push ''NAK '' []) (ln_push reason)
      | State report \<Rightarrow> render_state report []
      | Pubkey hex \<Rightarrow> bind_ok (ln_push ''PUBKEY '' []) (ln_push hex)
      | Sig token \<Rightarrow> bind_ok (ln_push ''SIG '' []) (ln_push token))"

section \<open>Parsing\<close>

definition is_eol :: "char \<Rightarrow> bool" where
  "is_eol c = (c = CHR 0x0D \<or> c = CHR 0x0A)"

definition trim_eol :: "string \<Rightarrow> string" where
  "trim_eol s = rev (dropWhile is_eol (rev s))"

definition parse_command :: "string \<Rightarrow> wire_error + line_command" where
  "parse_command line0 =
     (let line = trim_eol line0 in
      if line = ''STAT'' then Ok CmdStatus
      else if line = ''SE-PUBKEY?'' then Ok CmdSePubkey
      else case strip_prefix ''TOK '' line of
        Some rest \<Rightarrow> Ok (CmdToken rest)
      | None \<Rightarrow> (case strip_prefix ''RVK '' line of
        Some rest \<Rightarrow> Ok (CmdRevoke rest)
      | None \<Rightarrow> (case strip_prefix ''SE-SIGN '' line of
        Some rest \<Rightarrow> Ok (CmdSeSign rest)
      | None \<Rightarrow> Err (Malformed ''unknown command''))))"

definition line_u64 :: "string \<Rightarrow> string \<Rightarrow> wire_error + 64 word" where
  "line_u64 s what =
     (if s = [] \<or> \<not> list_all is_ascii_digit s then Err (Malformed what)
      else ok_or (Malformed what) (map_option word_of_nat (parse_digits_u64 s)))"

fun split_char :: "char \<Rightarrow> string \<Rightarrow> string list" where
  "split_char c [] = [[]]"
| "split_char c (x # s) =
     (if x = c then [] # split_char c s
      else case split_char c s of [] \<Rightarrow> [[x]] | w # ws \<Rightarrow> (x # w) # ws)"

definition split_once :: "char \<Rightarrow> string \<Rightarrow> (string \<times> string) option" where
  "split_once c s =
     (if c \<in> set s then Some (takeWhile (\<lambda>x. x \<noteq> c) s, tl (dropWhile (\<lambda>x. x \<noteq> c) s)) else None)"

text \<open>One trailer of a report; the flag is \<open>saw_seq\<close>.\<close>

definition parse_trailer :: "string \<Rightarrow> line_report \<times> bool \<Rightarrow> wire_error + line_report \<times> bool" where
  "parse_trailer word st =
     (let (report, saw_seq) = st in
      bind_ok (ok_or (Malformed ''trailer is not key=value'') (split_once (CHR ''='') word)) (\<lambda>(k, v).
        if k = ''seq'' then
          bind_ok (line_u64 v ''seq is not a number'') (\<lambda>n. Ok (report\<lparr>rp_seq := n\<rparr>, True))
        else if k = ''load'' then
          if v = ''on'' then Ok (report\<lparr>rp_load := Some True\<rparr>, saw_seq)
          else if v = ''off'' then Ok (report\<lparr>rp_load := Some False\<rparr>, saw_seq)
          else Err (Malformed ''load is neither on nor off'')
        else if k = ''fail'' then
          if v = ''energized'' then Ok (report\<lparr>rp_fail := Some Energized\<rparr>, saw_seq)
          else if v = ''de-energized'' then Ok (report\<lparr>rp_fail := Some DeEnergized\<rparr>, saw_seq)
          else Err (Malformed ''unknown fail state'')
        else if k = ''reason'' then
          if v = ''revert'' then Ok (report\<lparr>rp_reason := Some CloseRevert\<rparr>, saw_seq)
          else if v = ''expiry'' then Ok (report\<lparr>rp_reason := Some CloseExpiry\<rparr>, saw_seq)
          else if v = ''boot'' then Ok (report\<lparr>rp_reason := Some CloseBoot\<rparr>, saw_seq)
          else Err (Malformed ''unknown close reason'')
        else Err (Malformed ''unknown trailer'')))"

primrec parse_trailers :: "string list \<Rightarrow> line_report \<times> bool \<Rightarrow> wire_error + line_report \<times> bool" where
  "parse_trailers [] st = Ok st"
| "parse_trailers (w # ws) st = bind_ok (parse_trailer w st) (parse_trailers ws)"

definition parse_open :: "string list \<Rightarrow> wire_error + (byte list \<times> 64 word) option \<times> string list" where
  "parse_open words =
     (case words of
        [] \<Rightarrow> Err (Malformed ''STATE is neither open nor closed'')
      | w # ws \<Rightarrow>
          if w = ''open'' then
            (case ws of
               [] \<Rightarrow> Err (Malformed ''STATE open lacks a nonce'')
             | n # ws' \<Rightarrow>
                 bind_ok (parse_hex_nonce n) (\<lambda>nonce.
                 (case ws' of
                    [] \<Rightarrow> Err (Malformed ''STATE open lacks remaining_secs'')
                  | m # ws'' \<Rightarrow>
                      bind_ok (line_u64 m ''remaining_secs is not a number'') (\<lambda>remaining.
                      Ok (Some (nonce, remaining), ws'')))))
          else if w = ''closed'' then Ok (None, ws)
          else Err (Malformed ''STATE is neither open nor closed''))"

definition parse_state :: "string \<Rightarrow> wire_error + line_report" where
  "parse_state rest =
     bind_ok (parse_open (filter (\<lambda>w. w \<noteq> []) (split_char (CHR '' '') rest))) (\<lambda>(opened, words).
     bind_ok (parse_trailers words
       (\<lparr>rp_open = opened, rp_seq = 0, rp_load = None, rp_fail = None, rp_reason = None\<rparr>, False))
       (\<lambda>(report, saw_seq).
         if \<not> saw_seq then Err (Malformed ''STATE lacks seq='') else Ok report))"

definition parse_ack :: "string \<Rightarrow> wire_error + line_reply" where
  "parse_ack rest =
     bind_ok (ok_or (Malformed ''ACK lacks remaining_secs'') (split_once (CHR '' '') rest)) (\<lambda>(n, m).
     bind_ok (parse_hex_nonce n) (\<lambda>nonce.
     bind_ok (line_u64 m ''remaining_secs is not a number'') (\<lambda>remaining.
     Ok (AckOpen nonce remaining))))"

definition parse_reply :: "string \<Rightarrow> wire_error + line_reply" where
  "parse_reply line0 =
     (let line = trim_eol line0 in
      if line = ''ACK closed'' then Ok AckClosed
      else case strip_prefix ''ACK '' line of Some rest \<Rightarrow> parse_ack rest
      | None \<Rightarrow> (case strip_prefix ''NAK '' line of Some rest \<Rightarrow> Ok (Nak rest)
      | None \<Rightarrow> (case strip_prefix ''STATE '' line of
          Some rest \<Rightarrow> bind_ok (parse_state rest) (\<lambda>r. Ok (State r))
      | None \<Rightarrow> (case strip_prefix ''PUBKEY '' line of Some rest \<Rightarrow> Ok (Pubkey rest)
      | None \<Rightarrow> (case strip_prefix ''SIG '' line of Some rest \<Rightarrow> Ok (Sig rest)
      | None \<Rightarrow> Err (Malformed ''unknown reply''))))))"

section \<open>The line a reply renders to\<close>

lemma ln_push_push: "bind_ok (ln_push a l) (ln_push b) = ln_push (a @ b) l"
  by (simp add: ln_push_def)

lemma ln_push_bind_push: "bind_ok (ln_push a l) (\<lambda>l. bind_ok (ln_push b l) f) = bind_ok (ln_push (a @ b) l) f"
  unfolding ln_push_push [symmetric] by (cases "ln_push a l") simp_all

definition opt_text :: "('a \<Rightarrow> string) \<Rightarrow> 'a option \<Rightarrow> string" where
  "opt_text f x = (case x of None \<Rightarrow> [] | Some a \<Rightarrow> f a)"

lemma ln_push_opt_cases: "ln_push_opt f None = Ok" "ln_push_opt f (Some a) = ln_push (f a)"
  by (simp_all add: ln_push_opt_def fun_eq_iff)

lemma ln_push_opt_after: "bind_ok (ln_push a l) (ln_push_opt f x) = ln_push (a @ opt_text f x) l"
  by (cases x) (simp_all add: ln_push_opt_cases opt_text_def ln_push_push, simp add: ln_push_def)

lemma ln_push_bind_opt:
  "bind_ok (ln_push a l) (\<lambda>l. bind_ok (ln_push_opt f x l) g) = bind_ok (ln_push (a @ opt_text f x) l) g"
  unfolding ln_push_opt_after [symmetric] by (cases "ln_push a l") simp_all

definition open_text :: "(byte list \<times> 64 word) option \<Rightarrow> string" where
  "open_text x =
     (case x of Some (nonce, remaining) \<Rightarrow> ''open '' @ hex_nonce nonce @ '' '' @ show_nat (unat remaining)
      | None \<Rightarrow> ''closed'')"

definition load_trailer :: "bool \<Rightarrow> string" where
  "load_trailer b = (if b then '' load=on'' else '' load=off'')"

definition state_text :: "line_report \<Rightarrow> string" where
  "state_text r = open_text (rp_open r) @ '' seq='' @ show_nat (unat (rp_seq r)) @
     opt_text load_trailer (rp_load r) @ opt_text fail_trailer (rp_fail r) @ opt_text reason_trailer (rp_reason r)"

fun reply_text :: "line_reply \<Rightarrow> string" where
  "reply_text (AckOpen nonce n) = ''ACK '' @ hex_nonce nonce @ '' '' @ show_nat (unat n)"
| "reply_text AckClosed = ''ACK closed''"
| "reply_text (Nak r) = ''NAK '' @ r"
| "reply_text (State r) = ''STATE '' @ state_text r"
| "reply_text (Pubkey h) = ''PUBKEY '' @ h"
| "reply_text (Sig t) = ''SIG '' @ t"

lemma render_state_eq: "render_state r l = ln_push (''STATE '' @ state_text r) l"
proof (cases "rp_open r")
  case None
  then show ?thesis
    unfolding render_state_def load_trailer_def [symmetric] ln_push_u64_def option.case
      ln_push_bind_push ln_push_bind_opt ln_push_opt_after ln_push_push
    by (simp add: state_text_def open_text_def ln_push_push)
next
  case (Some x)
  have assoc: "bind_ok (bind_ok p f) g = bind_ok p (\<lambda>x. bind_ok (f x) g)" for p :: "wire_error + string" and f g
    by (cases p) simp_all
  show ?thesis
    unfolding Some render_state_def load_trailer_def [symmetric] ln_push_u64_def option.case prod.case_eq_if
      assoc ln_push_bind_push ln_push_bind_opt ln_push_opt_after ln_push_push
    by (simp add: Some state_text_def open_text_def prod.case_eq_if)
qed

lemma render_reply_eq: "render_reply reply = ln_push (reply_text reply) []"
  unfolding render_reply_def ln_push_u64_def
  by (cases reply) (simp_all add: ln_push_push ln_push_bind_push render_state_eq)

fun command_text :: "line_command \<Rightarrow> string" where
  "command_text (CmdToken t) = ''TOK '' @ t"
| "command_text (CmdRevoke t) = ''RVK '' @ t"
| "command_text CmdStatus = ''STAT''"
| "command_text CmdSePubkey = ''SE-PUBKEY?''"
| "command_text (CmdSeSign c) = ''SE-SIGN '' @ c"

lemma render_command_eq: "render_command cmd = ln_push (command_text cmd) []"
  unfolding render_command_def by (cases cmd) (simp_all add: ln_push_push)

section \<open>Hexadecimal and decimal\<close>

lemma and_nibble: "(b :: byte) AND 0x0f = take_bit 4 b"
  by (simp add: take_bit_eq_mask mask_eq_exp_minus_1)

lemma nibbles:
  fixes b :: byte
  shows "unat (drop_bit 4 b) < 16" "unat (b AND 0x0f) < 16"
    "16 * unat (drop_bit 4 b) + unat (b AND 0x0f) = unat b"
proof -
  have d: "unat (drop_bit 4 b) = unat b div 16"
    by (simp add: drop_bit_eq_div unat_div)
  have m: "unat (b AND 0x0f) = unat b mod 16"
    unfolding and_nibble by (simp add: take_bit_eq_mod unat_mod)
  show "unat (drop_bit 4 b) < 16" using unat_byte_less [of b] by (simp only: d)
  show "unat (b AND 0x0f) < 16" by (simp only: m)
  show "16 * unat (drop_bit 4 b) + unat (b AND 0x0f) = unat b" unfolding d m by simp
qed

lemma hex_digit_char: "n < 16 \<Longrightarrow> hex_digit (hex_char n) = Some n"
proof -
  have "list_all (\<lambda>n. hex_digit (hex_char n) = Some n) [0..<16]" by code_simp
  then show "n < 16 \<Longrightarrow> hex_digit (hex_char n) = Some n" by (simp add: list_all_iff)
qed

lemma parse_hex_pairs_hex: "parse_hex_pairs (hex_nonce bs) = Ok bs"
proof (induction bs)
  case (Cons b bs)
  have "word_of_nat (16 * unat (drop_bit 4 b) + unat (b AND 0x0f)) = b"
    unfolding nibbles by simp
  with Cons show ?case
    by (simp add: hex_nonce_def hex_digit_char nibbles(1,2) del: of_nat_add of_nat_mult)
qed (simp add: hex_nonce_def)

lemma length_hex_nonce [simp]: "length (hex_nonce bs) = 2 * length bs"
  by (induction bs) (simp_all add: hex_nonce_def)

lemma parse_hex_nonce_hex: "length bs = 16 \<Longrightarrow> parse_hex_nonce (hex_nonce bs) = Ok bs"
  by (simp add: parse_hex_nonce_def parse_hex_pairs_hex)

lemma hex_nonce_chars: "c \<in> set (hex_nonce bs) \<Longrightarrow> is_plain c"
proof -
  have "is_plain (hex_char n)" if "n < 16" for n
    using hex_digit_char [OF that] by (auto simp: hex_digit_def is_plain_def Let_def split: if_splits)
  then show "c \<in> set (hex_nonce bs) \<Longrightarrow> is_plain c"
    by (auto simp: hex_nonce_def nibbles)
qed

lemma show_nat_plain: "c \<in> set (show_nat n) \<Longrightarrow> is_plain c"
  by (simp add: is_plain_digit show_nat_digits)

lemma u64_unat_max: "unat (n :: 64 word) \<le> u64_max"
  using unsigned_less [of n, where ?'a = nat] by (simp add: u64_max_def)

lemma line_u64_show [simp]: "line_u64 (show_nat (unat n)) what = Ok n"
  using u64_unat_max [of n] show_nat_digits
  by (simp add: line_u64_def parse_digits_u64_def list_all_iff)

lemma show_nat_length: "n < 10 ^ k \<Longrightarrow> 0 < k \<Longrightarrow> length (show_nat n) \<le> k"
proof (induction k arbitrary: n)
  case (Suc k)
  show ?case
  proof (cases "n < 10")
    case False
    then have "0 < k" "n div 10 < 10 ^ k" using Suc.prems by (cases k; simp)+
    then have "length (show_nat (n div 10)) \<le> k" by (rule Suc.IH [rotated])
    then show ?thesis using False by (subst show_nat.simps) simp
  qed (subst show_nat.simps, simp)
qed simp

lemma show_u64_length: "length (show_nat (unat (n :: 64 word))) \<le> 20"
  using u64_unat_max [of n] by (intro show_nat_length) (simp_all add: u64_max_def)

section \<open>Round trips\<close>

lemma trim_eol_id: "s = [] \<or> \<not> is_eol (last s) \<Longrightarrow> trim_eol s = s"
  by (cases s rule: rev_cases) (auto simp: trim_eol_def)

lemma is_eol_not_plain: "is_plain c \<Longrightarrow> \<not> is_eol c"
  by (auto simp: is_plain_def is_eol_def)

lemma show_nat_last: "\<not> is_eol (last (show_nat n))"
  using show_nat_plain [OF last_in_set [OF show_nat_ne]] by (rule is_eol_not_plain)

definition no_eol :: "string \<Rightarrow> bool" where
  "no_eol s = (s = [] \<or> \<not> is_eol (last s))"

fun command_ok :: "line_command \<Rightarrow> bool" where
  "command_ok (CmdToken t) = no_eol t"
| "command_ok (CmdRevoke t) = no_eol t"
| "command_ok (CmdSeSign c) = no_eol c"
| "command_ok _ = True"

lemma command_text_trim: "command_ok cmd \<Longrightarrow> trim_eol (command_text cmd) = command_text cmd"
  by (rule trim_eol_id) (cases cmd; auto simp: no_eol_def is_eol_def)

lemma strip_prefix_Cons: "strip_prefix [] s = Some s" "strip_prefix (c # p) [] = None"
  "strip_prefix (c # p) (d # s) = (if c = d then strip_prefix p s else None)"
  by (simp_all add: strip_prefix_def)

lemma parse_command_text: "command_ok cmd \<Longrightarrow> parse_command (command_text cmd) = Ok cmd"
  unfolding parse_command_def Let_def command_text_trim
  by (cases cmd) (simp_all add: strip_prefix_Cons)

text \<open>Words separated by single spaces.\<close>

lemma split_char_word: "c \<notin> set w \<Longrightarrow> split_char c w = [w]"
  by (induction w) auto

lemma split_char_append: "c \<notin> set w \<Longrightarrow> split_char c (w @ c # s) = w # split_char c s"
  by (induction w) auto

lemma split_char_words:
  "\<forall>w\<in>set (w # ws). c \<notin> set w \<Longrightarrow> split_char c (w @ concat (map (\<lambda>w. c # w) ws)) = w # ws"
  by (induction ws arbitrary: w) (simp_all add: split_char_word split_char_append)

definition good_word :: "string \<Rightarrow> bool" where
  "good_word w = (w \<noteq> [] \<and> list_all is_plain w)"

definition opt_words :: "('a \<Rightarrow> string) \<Rightarrow> 'a option \<Rightarrow> string list" where
  "opt_words f x = (case x of None \<Rightarrow> [] | Some a \<Rightarrow> [tl (f a)])"

definition trailer_words :: "line_report \<Rightarrow> string list" where
  "trailer_words r = [''seq='' @ show_nat (unat (rp_seq r))] @ opt_words load_trailer (rp_load r) @
     opt_words fail_trailer (rp_fail r) @ opt_words reason_trailer (rp_reason r)"

definition open_words :: "(byte list \<times> 64 word) option \<Rightarrow> string list" where
  "open_words x =
     (case x of Some (nonce, n) \<Rightarrow> [''open'', hex_nonce nonce, show_nat (unat n)] | None \<Rightarrow> [''closed''])"

lemma trailer_shapes:
  "hd (load_trailer b) = CHR '' '' \<and> load_trailer b \<noteq> [] \<and> good_word (tl (load_trailer b))"
  "hd (fail_trailer f) = CHR '' '' \<and> fail_trailer f \<noteq> [] \<and> good_word (tl (fail_trailer f))"
  "hd (reason_trailer c) = CHR '' '' \<and> reason_trailer c \<noteq> [] \<and> good_word (tl (reason_trailer c))"
  apply (cases b; simp add: load_trailer_def good_word_def is_plain_def)
  apply (cases f; simp add: good_word_def is_plain_def)
  apply (cases c; simp add: good_word_def is_plain_def)
  done

lemma opt_words_text:
  "(\<And>a. hd (f a) = CHR '' '' \<and> f a \<noteq> [] \<and> good_word (tl (f a))) \<Longrightarrow>
     concat (map (\<lambda>w. CHR '' '' # w) (opt_words f x)) = opt_text f x \<and> list_all good_word (opt_words f x)"
  by (cases x) (simp_all add: opt_words_def opt_text_def, metis list.collapse)

lemmas trailers_ok = opt_words_text [OF trailer_shapes(1)] opt_words_text [OF trailer_shapes(2)]
  opt_words_text [OF trailer_shapes(3)]

lemma trailers_text:
  "concat (map (\<lambda>w. CHR '' '' # w) (trailer_words r)) = '' seq='' @ show_nat (unat (rp_seq r)) @
     opt_text load_trailer (rp_load r) @ opt_text fail_trailer (rp_fail r) @ opt_text reason_trailer (rp_reason r)"
  by (simp add: trailer_words_def trailers_ok)

lemma good_show_nat: "good_word (show_nat n)"
  using show_nat_plain by (simp add: good_word_def list_all_iff)

lemma good_hex: "length bs = 16 \<Longrightarrow> good_word (hex_nonce bs)"
  using hex_nonce_chars [of _ bs] length_hex_nonce [of bs]
  by (auto simp: good_word_def list_all_iff simp del: length_hex_nonce)

lemma good_literals: "good_word ''open''" "good_word ''closed''" "good_word s \<Longrightarrow> good_word (''seq='' @ s)"
  by (simp_all add: good_word_def is_plain_def)

definition report_ok :: "line_report \<Rightarrow> bool" where
  "report_ok r = (case rp_open r of None \<Rightarrow> True | Some (nonce, _) \<Rightarrow> length nonce = 16)"

lemma state_words_good: "report_ok r \<Longrightarrow> list_all good_word (open_words (rp_open r) @ trailer_words r)"
  unfolding trailer_words_def open_words_def report_ok_def list_all_append
  using good_hex by (auto simp: trailers_ok good_show_nat good_literals split: option.splits simp del: append.simps)

lemma state_text_words:
  "\<exists>w ws. open_words (rp_open r) @ trailer_words r = w # ws \<and>
     state_text r = w @ concat (map (\<lambda>w. CHR '' '' # w) ws)"
  using trailers_text [of r]
  by (cases "rp_open r") (auto simp: open_words_def state_text_def open_text_def)

lemma good_word_no_space: "good_word w \<Longrightarrow> CHR '' '' \<notin> set w"
  by (auto simp: good_word_def list_all_iff is_plain_def)

lemma state_text_split:
  assumes "report_ok r"
  shows "filter (\<lambda>w. w \<noteq> []) (split_char (CHR '' '') (state_text r)) = open_words (rp_open r) @ trailer_words r"
proof -
  obtain w ws where ws: "open_words (rp_open r) @ trailer_words r = w # ws"
      "state_text r = w @ concat (map (\<lambda>w. CHR '' '' # w) ws)"
    using state_text_words by blast
  have good: "list_all good_word (w # ws)" using state_words_good [OF assms] unfolding ws(1) .
  then have "split_char (CHR '' '') (state_text r) = w # ws"
    unfolding ws(2) by (intro split_char_words) (auto simp: list_all_iff good_word_no_space)
  moreover have "filter (\<lambda>w. w \<noteq> []) (w # ws) = w # ws"
    using good by (intro filter_True) (auto simp: list_all_iff good_word_def)
  ultimately show ?thesis unfolding ws(1) by (rule trans [OF arg_cong])
qed

lemma parse_open_words:
  "report_ok r \<Longrightarrow> parse_open (open_words (rp_open r) @ ws) = Ok (rp_open r, ws)"
  by (auto simp: parse_open_def open_words_def report_ok_def parse_hex_nonce_hex split: option.splits)

lemma split_once_Cons:
  "split_once c (x # s) = (if x = c then Some ([], s) else map_option (\<lambda>(a, b). (x # a, b)) (split_once c s))"
  by (auto simp: split_once_def)

lemma parse_trailer_words:
  "parse_trailer (''seq='' @ show_nat (unat n)) (rep, saw) = Ok (rep\<lparr>rp_seq := n\<rparr>, True)"
  "parse_trailer (tl (load_trailer b)) (rep, saw) = Ok (rep\<lparr>rp_load := Some b\<rparr>, saw)"
  "parse_trailer (tl (fail_trailer f)) (rep, saw) = Ok (rep\<lparr>rp_fail := Some f\<rparr>, saw)"
  "parse_trailer (tl (reason_trailer c)) (rep, saw) = Ok (rep\<lparr>rp_reason := Some c\<rparr>, saw)"
  apply (simp add: parse_trailer_def split_once_Cons)
  apply (cases b; simp add: load_trailer_def parse_trailer_def split_once_Cons)
  apply (cases f; simp add: parse_trailer_def split_once_Cons)
  apply (cases c; simp add: parse_trailer_def split_once_Cons)
  done

lemma parse_trailers_append:
  "parse_trailers (ws @ vs) st = bind_ok (parse_trailers ws st) (parse_trailers vs)"
  by (induction ws arbitrary: st) (simp_all, case_tac "parse_trailer a st", simp_all)

lemma parse_opt_words:
  "(\<And>a rep. parse_trailer (tl (f a)) (rep, saw) = Ok (upd a rep, saw)) \<Longrightarrow>
     parse_trailers (opt_words f x) (rep, saw) = Ok (case x of None \<Rightarrow> rep | Some a \<Rightarrow> upd a rep, saw)"
  by (cases x) (simp_all add: opt_words_def)

lemma parse_trailer_list:
  "parse_trailers (trailer_words r)
     (\<lparr>rp_open = o', rp_seq = 0, rp_load = None, rp_fail = None, rp_reason = None\<rparr>, False) =
     Ok (r\<lparr>rp_open := o'\<rparr>, True)"
  unfolding trailer_words_def parse_trailers_append
  by (cases r; cases "rp_load r"; cases "rp_fail r"; cases "rp_reason r")
     (simp_all add: opt_words_def parse_trailer_words del: append.simps)

lemma parse_state_text: "report_ok r \<Longrightarrow> parse_state (state_text r) = Ok r"
  by (simp add: parse_state_def state_text_split parse_open_words parse_trailer_list)

fun reply_ok :: "line_reply \<Rightarrow> bool" where
  "reply_ok (AckOpen nonce _) = (length nonce = 16)"
| "reply_ok AckClosed = True"
| "reply_ok (Nak s) = no_eol s"
| "reply_ok (State r) = report_ok r"
| "reply_ok (Pubkey s) = no_eol s"
| "reply_ok (Sig s) = no_eol s"

lemma state_text_last:
  assumes "report_ok r"
  shows "state_text r \<noteq> [] \<and> \<not> is_eol (last (state_text r))"
proof -
  obtain w ws where ws: "open_words (rp_open r) @ trailer_words r = w # ws"
      "state_text r = w @ concat (map (\<lambda>w. CHR '' '' # w) ws)"
    using state_text_words by blast
  have good: "list_all good_word (w # ws)" using state_words_good [OF assms] unfolding ws(1) .
  then have "is_plain c \<or> c = CHR '' ''" if "c \<in> set (state_text r)" for c
    using that unfolding ws(2) by (auto simp: good_word_def list_all_iff split: if_splits)
  moreover have "state_text r \<noteq> []" using good unfolding ws(2) by (simp add: good_word_def)
  ultimately have "is_plain (last (state_text r)) \<or> last (state_text r) = CHR '' ''" by simp
  with \<open>state_text r \<noteq> []\<close> show ?thesis using is_eol_not_plain by (auto simp: is_eol_def)
qed

lemma reply_text_trim: "reply_ok reply \<Longrightarrow> trim_eol (reply_text reply) = reply_text reply"
  by (rule trim_eol_id)
     (cases reply; use show_nat_last state_text_last in \<open>auto simp: no_eol_def is_eol_def\<close>)

lemma split_once_append: "c \<notin> set a \<Longrightarrow> split_once c (a @ c # b) = Some (a, b)"
  by (induction a) (auto simp: split_once_Cons)

lemma parse_ack_text:
  assumes "length nonce = 16"
  shows "parse_ack (hex_nonce nonce @ '' '' @ show_nat (unat n)) = Ok (AckOpen nonce n)"
  using good_word_no_space [OF good_hex [OF assms]]
  by (simp add: parse_ack_def split_once_append parse_hex_nonce_hex assms)

lemma ack_not_closed: "length nonce = 16 \<Longrightarrow> ''ACK '' @ hex_nonce nonce @ s \<noteq> ''ACK closed''"
proof
  assume n: "length nonce = 16" and eq: "''ACK '' @ hex_nonce nonce @ s = ''ACK closed''"
  from arg_cong [OF eq, of length] n show False by simp
qed

lemma parse_reply_text: "reply_ok reply \<Longrightarrow> parse_reply (reply_text reply) = Ok reply"
  unfolding parse_reply_def Let_def reply_text_trim
  using ack_not_closed parse_ack_text
  by (cases reply) (simp_all add: strip_prefix_Cons parse_state_text)

lemma ln_push_empty: "ln_push s [] = Ok line \<longleftrightarrow> line = s \<and> length s \<le> max_line_len"
  by (auto simp: ln_push_def)

lemma opt_text_length: "(\<And>a. length (f a) \<le> k) \<Longrightarrow> length (opt_text f x) \<le> k"
  by (cases x) (simp_all add: opt_text_def)

lemma trailer_lengths: "length (load_trailer b) \<le> 9" "length (fail_trailer f) \<le> 18" "length (reason_trailer c) \<le> 14"
  apply (simp add: load_trailer_def)
  apply (cases f; simp)
  apply (cases c; simp)
  done

lemma state_text_length:
  assumes "report_ok r"
  shows "length (state_text r) \<le> 124"
proof -
  have "length (open_text (rp_open r)) \<le> 58"
    using assms show_u64_length by (auto simp: open_text_def report_ok_def split: option.splits)
  then show ?thesis
    using show_u64_length [of "rp_seq r"] opt_text_length [of load_trailer, OF trailer_lengths(1), of "rp_load r"]
      opt_text_length [of fail_trailer, OF trailer_lengths(2), of "rp_fail r"] opt_text_length [of reason_trailer, OF trailer_lengths(3), of "rp_reason r"]
    by (simp add: state_text_def)
qed

text \<open>The replies a device sends always fit the buffer.\<close>

fun reply_short :: "line_reply \<Rightarrow> bool" where
  "reply_short (Nak s) = (length s \<le> 64)"
| "reply_short (Pubkey s) = (length s \<le> 180)"
| "reply_short (Sig s) = (length s \<le> 180)"
| "reply_short _ = True"

lemma render_reply_short:
  assumes "reply_ok reply" "reply_short reply"
  shows "render_reply reply = Ok (reply_text reply)"
proof -
  have "length (reply_text reply) \<le> 187"
  proof (cases reply)
    case (AckOpen nonce n)
    then show ?thesis using assms show_u64_length [of n] by simp
  next
    case (State r)
    then show ?thesis using assms state_text_length [of r] by simp
  qed (use assms in simp_all)
  then show ?thesis by (simp add: render_reply_eq ln_push_def max_line_len_def max_token_len_def)
qed

text \<open>
  C39. The line protocol round-trips.  A command or a reply that was rendered is parsed back, on the
  other side, as exactly itself, whether or not the transport appended line ends; and every command
  carrying a token of legal length, every acknowledgement and every state report does render within
  the fixed buffer.
\<close>

theorem line_roundtrip:
  assumes "command_ok cmd" "reply_ok reply" "list_all is_eol ends"
  shows "(render_command cmd = Ok line \<longrightarrow> parse_command (line @ ends) = Ok cmd) \<and>
    (render_reply reply = Ok line' \<longrightarrow> parse_reply (line' @ ends) = Ok reply) \<and>
    (length token \<le> max_token_len \<longrightarrow>
       is_ok (render_command (CmdToken token)) \<and> is_ok (render_command (CmdRevoke token))) \<and>
    (reply_short reply \<longrightarrow> is_ok (render_reply reply))"
proof -
  have trim: "trim_eol (s @ ends) = trim_eol s" for s
    using assms(3) dropWhile_append2 [of "rev ends" is_eol "rev s"] by (simp add: trim_eol_def list_all_iff)
  have cmd: "parse_command (s @ ends) = parse_command s" and reply: "parse_reply (s @ ends) = parse_reply s" for s
    by (simp_all add: parse_command_def parse_reply_def trim)
  show ?thesis
    using parse_command_text [OF assms(1)] parse_reply_text [OF assms(2)] render_reply_short [OF assms(2)]
    by (simp add: render_command_eq render_reply_eq ln_push_empty cmd reply)
       (auto simp: ln_push_def max_line_len_def)
qed

definition small_report :: line_report where
  "small_report = \<lparr>rp_open = Some (replicate 16 9, 600), rp_seq = 5, rp_load = Some True, rp_fail = None,
     rp_reason = Some CloseExpiry\<rparr>"

theorem line_roundtrip_witness:
  "command_ok (CmdToken ''x'') \<and> reply_ok (State small_report) \<and>
   parse_reply (''STATE '' @ state_text small_report @ [CHR 0x0A]) = Ok (State small_report)"
proof -
  have ok: "command_ok (CmdToken ''x'')" "reply_ok (State small_report)" "list_all is_eol [CHR 0x0A]"
    by (simp_all add: no_eol_def is_eol_def report_ok_def small_report_def)
  have "render_reply (State small_report) = Ok (''STATE '' @ state_text small_report)"
    using render_reply_short [OF ok(2)] by simp
  then show ?thesis
    using line_roundtrip [OF ok, of "[]" "''STATE '' @ state_text small_report" "[]"] ok by simp
qed

end
