(* ===== verification/Embed.thy ===== *)
theory Embed
  imports Wire_Line
begin

text \<open>
  The device engine (\<open>embed/src/lib.rs\<close>).  The three hardware traits are one record of functions over
  an abstract world \<open>'h\<close>; every call to the clock, the store or the gate threads that world, so two
  readings of the clock in one operation may differ.  Milliseconds of uptime are naturals with the
  64-bit saturation written out.
\<close>

section \<open>Hardware\<close>

record 'h hal =
  hal_uptime_ms :: "'h \<Rightarrow> nat \<times> 'h"
  hal_seq_load :: "'h \<Rightarrow> (unit + 64 word) \<times> 'h"
  hal_seq_store :: "64 word \<Rightarrow> 'h \<Rightarrow> (unit + unit) \<times> 'h"
  hal_set_open :: "bool \<Rightarrow> 'h \<Rightarrow> 'h"
  hal_gate_load :: "'h \<Rightarrow> bool option"
  hal_fail_state :: "'h \<Rightarrow> fail_state option"

datatype trust_root = TrustEd25519 "byte list" | TrustP256 "byte list"

fun trust_key :: "trust_root \<Rightarrow> public_key" where
  "trust_key (TrustEd25519 k) = Ed25519Pub k"
| "trust_key (TrustP256 k) = P256Sec1 k"

record dev_grant =
  dg_nonce :: "byte list"
  dg_expires_at_ms :: nat

record device_engine =
  de_device_id :: "byte list"
  de_trust :: trust_root
  de_grant :: "dev_grant option"
  de_last_close :: "close_reason option"

section \<open>Operations\<close>

definition engine_new :: "'h hal \<Rightarrow> byte list \<Rightarrow> trust_root \<Rightarrow> 'h \<Rightarrow> device_engine \<times> 'h" where
  "engine_new H device_id trust h =
     (\<lparr>de_device_id = device_id, de_trust = trust, de_grant = None, de_last_close = Some CloseBoot\<rparr>,
      hal_set_open H False h)"

definition engine_close :: "'h hal \<Rightarrow> close_reason \<Rightarrow> device_engine \<Rightarrow> 'h \<Rightarrow> device_engine \<times> 'h" where
  "engine_close H reason e h =
     (e\<lparr>de_grant := None, de_last_close := Some reason\<rparr>, hal_set_open H False h)"

definition engine_tick :: "'h hal \<Rightarrow> device_engine \<Rightarrow> 'h \<Rightarrow> device_engine \<times> 'h" where
  "engine_tick H e h =
     (case de_grant e of
        None \<Rightarrow> (e, h)
      | Some g \<Rightarrow>
          let (t, h) = hal_uptime_ms H h in
          if dg_expires_at_ms g \<le> t then engine_close H CloseExpiry e h else (e, h))"

definition div_ceil :: "nat \<Rightarrow> nat \<Rightarrow> nat" where
  "div_ceil a b = (if a mod b > 0 then a div b + 1 else a div b)"

definition remaining_secs :: "'h hal \<Rightarrow> dev_grant \<Rightarrow> 'h \<Rightarrow> 64 word \<times> 'h" where
  "remaining_secs H g h =
     (let (t, h) = hal_uptime_ms H h in (word_of_nat (div_ceil (dg_expires_at_ms g - t) 1000), h))"

definition engine_report :: "'h hal \<Rightarrow> device_engine \<Rightarrow> 'h \<Rightarrow> line_report \<times> 'h" where
  "engine_report H e h =
     (let (loaded, h) = hal_seq_load H h;
          seq = (case loaded of Inl _ \<Rightarrow> 0 | Inr s \<Rightarrow> s);
          (opened, h) = (case de_grant e of
             None \<Rightarrow> (None, h)
           | Some g \<Rightarrow> let (r, h) = remaining_secs H g h in (Some (dg_nonce g, r), h)) in
      (\<lparr>rp_open = opened, rp_seq = seq, rp_load = hal_gate_load H h, rp_fail = hal_fail_state H h,
        rp_reason = (if de_grant e = None then de_last_close e else None)\<rparr>, h))"

definition sat_add_u64 :: "nat \<Rightarrow> nat \<Rightarrow> nat" where
  "sat_add_u64 a b = min (a + b) u64_max"

definition sat_mul_u64 :: "nat \<Rightarrow> nat \<Rightarrow> nat" where
  "sat_mul_u64 a b = min (a * b) u64_max"

text \<open>\<open>accept_token\<close> from the freshness test on: the new grant.\<close>

definition open_grant :: "'h hal \<Rightarrow> capability \<Rightarrow> device_engine \<Rightarrow> 'h \<Rightarrow> line_reply \<times> device_engine \<times> 'h" where
  "open_grant H cap e h =
     (let (t, h) = hal_uptime_ms H h;
          expires = sat_add_u64 t (sat_mul_u64 (unat (cap_ttl_secs cap)) 1000);
          grant = \<lparr>dg_nonce = cap_grant_nonce cap, dg_expires_at_ms = expires\<rparr>;
          e = e\<lparr>de_grant := Some grant, de_last_close := None\<rparr>;
          h = hal_set_open H True h;
          (r, h) = remaining_secs H grant h in
      (AckOpen (dg_nonce grant) r, e, h))"

definition accept_fresh :: "'h hal \<Rightarrow> capability \<Rightarrow> 64 word \<Rightarrow> device_engine \<Rightarrow> 'h \<Rightarrow> line_reply \<times> device_engine \<times> 'h" where
  "accept_fresh H cap stored e h =
     (if cap_issued_seq cap \<le> stored then (Nak ''replay'', e, h)
      else if wire_max_ttl_secs < cap_ttl_secs cap then (Nak ''ttl'', e, h)
      else case hal_seq_store H (cap_issued_seq cap) h of
             (Inl _, h) \<Rightarrow> (Nak ''store-failed'', e, h)
           | (Inr _, h) \<Rightarrow> open_grant H cap e h)"

definition accept_token :: "wire_crates \<Rightarrow> 'h hal \<Rightarrow> string \<Rightarrow> device_engine \<Rightarrow> 'h \<Rightarrow> line_reply \<times> device_engine \<times> 'h" where
  "accept_token X H token e h =
     (case verify_capability X (trust_key (de_trust e)) token of
        Inl VersionKeyMismatch \<Rightarrow> (Nak ''wrong-alg'', e, h)
      | Inl _ \<Rightarrow> (Nak ''bad-token'', e, h)
      | Inr cap \<Rightarrow>
          if cap_device_id cap \<noteq> de_device_id e then (Nak ''wrong-device'', e, h)
          else case hal_seq_load H h of
            (Inl _, h) \<Rightarrow> (Nak ''store-failed'', e, h)
          | (Inr stored, h) \<Rightarrow>
              (case de_grant e of
                 None \<Rightarrow> accept_fresh H cap stored e h
               | Some g \<Rightarrow>
                   if dg_nonce g = cap_grant_nonce cap \<and> cap_issued_seq cap = stored then
                     (let (r, h) = remaining_secs H g h in (AckOpen (dg_nonce g) r, e, h))
                   else if dg_nonce g \<noteq> cap_grant_nonce cap then (Nak ''busy'', e, h)
                   else accept_fresh H cap stored e h))"

definition accept_revocation :: "wire_crates \<Rightarrow> 'h hal \<Rightarrow> string \<Rightarrow> device_engine \<Rightarrow> 'h \<Rightarrow> line_reply \<times> device_engine \<times> 'h" where
  "accept_revocation X H token e h =
     (case verify_revocation X (trust_key (de_trust e)) token of
        Inl VersionKeyMismatch \<Rightarrow> (Nak ''wrong-alg'', e, h)
      | Inl _ \<Rightarrow> (Nak ''bad-token'', e, h)
      | Inr rvk \<Rightarrow>
          if rvk_device_id rvk \<noteq> de_device_id e then (Nak ''wrong-device'', e, h)
          else case hal_seq_load H h of
            (Inl _, h) \<Rightarrow> (Nak ''store-failed'', e, h)
          | (Inr stored, h) \<Rightarrow>
              if rvk_issued_seq rvk \<le> stored then (Nak ''replay'', e, h)
              else case hal_seq_store H (rvk_issued_seq rvk) h of
                (Inl _, h) \<Rightarrow> (Nak ''store-failed'', e, h)
              | (Inr _, h) \<Rightarrow>
                  (case de_grant e of
                     None \<Rightarrow> (AckClosed, e, h)
                   | Some g \<Rightarrow>
                       if dg_nonce g = rvk_grant_nonce rvk then
                         (let (e, h) = engine_close H CloseRevert e h in (AckClosed, e, h))
                       else (Nak ''wrong-grant'', e, h)))"

definition dispatch_line :: "wire_crates \<Rightarrow> 'h hal \<Rightarrow> string \<Rightarrow> device_engine \<Rightarrow> 'h \<Rightarrow> line_reply \<times> device_engine \<times> 'h" where
  "dispatch_line X H input e h =
     (case parse_command input of
        Inr (CmdToken token) \<Rightarrow> accept_token X H token e h
      | Inr (CmdRevoke token) \<Rightarrow> accept_revocation X H token e h
      | Inr CmdStatus \<Rightarrow> (let (r, h) = engine_report H e h in (State r, e, h))
      | Inr CmdSePubkey \<Rightarrow> (Nak ''unsupported'', e, h)
      | Inr (CmdSeSign _) \<Rightarrow> (Nak ''unsupported'', e, h)
      | Inl _ \<Rightarrow> (Nak ''bad-command'', e, h))"

text \<open>The outer \<open>None\<close> is the panic of a reply that does not fit the buffer.\<close>

definition handle_line :: "wire_crates \<Rightarrow> 'h hal \<Rightarrow> string \<Rightarrow> device_engine \<Rightarrow> 'h \<Rightarrow> (string \<times> device_engine \<times> 'h) option" where
  "handle_line X H input e h =
     (let (e, h) = engine_tick H e h;
          (reply, e, h) = dispatch_line X H input e h in
      case render_reply reply of Inl _ \<Rightarrow> None | Inr line \<Rightarrow> Some (line, e, h))"

section \<open>The device over its life\<close>

text \<open>
  Lines from anyone on the link, ticks of the main loop, and restarts; \<open>boot\<close> relates the hardware
  before a restart with the hardware after it.
\<close>

inductive device_reach :: "wire_crates \<Rightarrow> 'h hal \<Rightarrow> ('h \<Rightarrow> 'h \<Rightarrow> bool) \<Rightarrow>
    device_engine \<times> 'h \<Rightarrow> device_engine \<times> 'h \<Rightarrow> bool" for X H boot where
  device_start: "device_reach X H boot s s"
| device_line: "device_reach X H boot s (e, h) \<Longrightarrow> handle_line X H input e h = Some (line, e', h') \<Longrightarrow>
    device_reach X H boot s (e', h')"
| device_tick: "device_reach X H boot s (e, h) \<Longrightarrow> engine_tick H e h = (e', h') \<Longrightarrow>
    device_reach X H boot s (e', h')"
| device_boot: "device_reach X H boot s (e, h) \<Longrightarrow> boot h h1 \<Longrightarrow>
    engine_new H (de_device_id e) (de_trust e) h1 = (e', h') \<Longrightarrow> device_reach X H boot s (e', h')"

section \<open>The hardware's contract\<close>

text \<open>
  What the engine relies on: the clock does not go back; a loaded mark is the durable one; a store of a
  larger number that reports success is durable; the gate follows its command; a restart keeps the
  durable mark.  Hardware that \<open>spares\<close> the record also leaves a mark no smaller when a store fails.
\<close>

locale hal_contract =
  fixes H :: "'h hal"
    and mark :: "'h \<Rightarrow> 64 word"
    and pin :: "'h \<Rightarrow> bool"
    and now :: "'h \<Rightarrow> nat"
    and boot :: "'h \<Rightarrow> 'h \<Rightarrow> bool"
    and spares :: "'h \<Rightarrow> bool"
  assumes uptime_law: "hal_uptime_ms H h = (t, h') \<Longrightarrow>
      now h \<le> t \<and> now h' = t \<and> mark h' = mark h \<and> pin h' = pin h \<and> spares h' = spares h"
    and load_law: "hal_seq_load H h = (r, h') \<Longrightarrow>
      (\<forall>s. r = Ok s \<longrightarrow> s = mark h) \<and> now h' = now h \<and> mark h' = mark h \<and> pin h' = pin h \<and> spares h' = spares h"
    and store_law: "hal_seq_store H n h = (w, h') \<Longrightarrow> mark h < n \<Longrightarrow>
      (w = Ok () \<longrightarrow> mark h' = n) \<and> (spares h \<longrightarrow> spares h' \<and> mark h \<le> mark h') \<and> now h' = now h \<and> pin h' = pin h"
    and set_open_law: "pin (hal_set_open H b h) = b \<and> mark (hal_set_open H b h) = mark h \<and>
      now (hal_set_open H b h) = now h \<and> spares (hal_set_open H b h) = spares h"
    and boot_law: "boot h h' \<Longrightarrow> mark h' = mark h"
begin

definition device_inv :: "device_engine \<Rightarrow> 'h \<Rightarrow> bool" where
  "device_inv e h \<longleftrightarrow>
     pin h = (de_grant e \<noteq> None) \<and>
     (\<forall>g. de_grant e = Some g \<longrightarrow>
        length (dg_nonce g) = 16 \<and> dg_expires_at_ms g \<le> now h + 1000 * unat wire_max_ttl_secs)"

text \<open>
  What handling a line may do: leave the grant, close it, or open it on a verified and fresh capability
  for this device, whose sequence number becomes the mark.
\<close>

definition opens_on :: "wire_crates \<Rightarrow> string \<Rightarrow> device_engine \<Rightarrow> 'h \<Rightarrow> device_engine \<Rightarrow> 'h \<Rightarrow> bool" where
  "opens_on X token e h e' h' \<longleftrightarrow>
     (\<exists>cap g. verify_capability X (trust_key (de_trust e)) token = Ok cap \<and>
        cap_device_id cap = de_device_id e \<and> mark h < cap_issued_seq cap \<and> mark h' = cap_issued_seq cap \<and>
        cap_ttl_secs cap \<le> wire_max_ttl_secs \<and> de_grant e' = Some g \<and> dg_nonce g = cap_grant_nonce cap \<and>
        (\<forall>g0. de_grant e = Some g0 \<longrightarrow> dg_nonce g0 = dg_nonce g) \<and>
        dg_expires_at_ms g \<le> now h' + 1000 * unat (cap_ttl_secs cap))"

definition effect :: "wire_crates \<Rightarrow> string \<Rightarrow> device_engine \<Rightarrow> 'h \<Rightarrow> device_engine \<Rightarrow> 'h \<Rightarrow> bool" where
  "effect X token e h e' h' \<longleftrightarrow>
     de_device_id e' = de_device_id e \<and> de_trust e' = de_trust e \<and> now h \<le> now h' \<and>
     (spares h \<longrightarrow> spares h' \<and> mark h \<le> mark h') \<and>
     (de_grant e' = de_grant e \<and> pin h' = pin h \<or> de_grant e' = None \<and> \<not> pin h' \<or>
      pin h' \<and> opens_on X token e h e' h')"

lemma effect_refl:
  "now h \<le> now h' \<Longrightarrow> (spares h \<Longrightarrow> spares h' \<and> mark h \<le> mark h') \<Longrightarrow> pin h' = pin h \<Longrightarrow> effect X token e h e h'"
  by (simp add: effect_def)

lemma effect_inv:
  assumes "effect X token e h e' h'" "device_inv e h"
  shows "device_inv e' h'"
proof -
  have now: "now h \<le> now h'" using assms(1) by (simp add: effect_def)
  consider "de_grant e' = de_grant e" "pin h' = pin h" | "de_grant e' = None" "\<not> pin h'"
    | "pin h'" "opens_on X token e h e' h'"
    using assms(1) unfolding effect_def by auto
  then show ?thesis
  proof cases
    case 1
    have "dg_expires_at_ms g \<le> now h' + 1000 * unat wire_max_ttl_secs" if "de_grant e = Some g" for g
    proof -
      have "dg_expires_at_ms g \<le> now h + 1000 * unat wire_max_ttl_secs" using assms(2) that by (simp add: device_inv_def)
      with now show ?thesis by linarith
    qed
    with 1 assms(2) show ?thesis by (simp add: device_inv_def)
  next
    case 2
    then show ?thesis by (simp add: device_inv_def)
  next
    case 3
    then obtain cap g where cap: "verify_capability X (trust_key (de_trust e)) token = Ok cap"
        "cap_ttl_secs cap \<le> wire_max_ttl_secs" "de_grant e' = Some g" "dg_nonce g = cap_grant_nonce cap"
        "dg_expires_at_ms g \<le> now h' + 1000 * unat (cap_ttl_secs cap)"
      unfolding opens_on_def by blast
    have "length (dg_nonce g) = 16" using verify_capability_Ok [OF cap(1)] cap(4) by (simp add: cap_wf_def)
    moreover have "unat (cap_ttl_secs cap) \<le> unat wire_max_ttl_secs" using cap(2) by (simp add: word_le_nat_alt)
    ultimately show ?thesis using 3(1) cap(3,5) by (simp add: device_inv_def)
  qed
qed

lemma close_effect:
  assumes "engine_close H reason e h = (e', h')"
  shows "de_device_id e' = de_device_id e \<and> de_trust e' = de_trust e \<and> now h' = now h \<and> mark h' = mark h \<and>
    spares h' = spares h \<and> de_grant e' = None \<and> \<not> pin h'"
  using assms by (auto simp: engine_close_def set_open_law)

lemma tick_effect:
  assumes "engine_tick H e h = (e', h')"
  shows "effect X token e h e' h' \<and> mark h' = mark h \<and> spares h' = spares h \<and>
    (de_grant e' = de_grant e \<or> de_grant e' = None) \<and> (\<forall>g. de_grant e' = Some g \<longrightarrow> now h' < dg_expires_at_ms g)"
proof (cases "de_grant e")
  case None
  then show ?thesis using assms by (auto simp: engine_tick_def intro: effect_refl)
next
  case (Some g)
  obtain t h1 where t: "hal_uptime_ms H h = (t, h1)" by fastforce
  note up = uptime_law [OF t]
  show ?thesis
  proof (cases "dg_expires_at_ms g \<le> t")
    case True
    then have "engine_close H CloseExpiry e h1 = (e', h')" using assms by (simp add: engine_tick_def Some t)
    then show ?thesis using close_effect up by (simp add: effect_def)
  next
    case False
    then show ?thesis using assms up Some by (simp add: engine_tick_def t effect_refl)
  qed
qed

lemma remaining_effect:
  "remaining_secs H g h = (r, h') \<Longrightarrow> now h \<le> now h' \<and> mark h' = mark h \<and> pin h' = pin h \<and> spares h' = spares h"
  using uptime_law by (auto simp: remaining_secs_def split: prod.splits)

lemma sat_deadline: "sat_add_u64 t (sat_mul_u64 a 1000) \<le> t + 1000 * a"
  by (simp add: sat_add_u64_def sat_mul_u64_def)

lemma open_grant_effect:
  assumes "open_grant H cap e h = (reply, e', h')"
  shows "now h \<le> now h' \<and> mark h' = mark h \<and> spares h' = spares h \<and> pin h' \<and> de_device_id e' = de_device_id e \<and>
    de_trust e' = de_trust e \<and> (\<exists>r. reply = AckOpen (cap_grant_nonce cap) r) \<and>
    (\<exists>g. de_grant e' = Some g \<and> dg_nonce g = cap_grant_nonce cap \<and>
       dg_expires_at_ms g \<le> now h' + 1000 * unat (cap_ttl_secs cap))"
proof -
  obtain t h1 where t: "hal_uptime_ms H h = (t, h1)" by fastforce
  define g where "g = \<lparr>dg_nonce = cap_grant_nonce cap,
    dg_expires_at_ms = sat_add_u64 t (sat_mul_u64 (unat (cap_ttl_secs cap)) 1000)\<rparr>"
  obtain r h2 where r: "remaining_secs H g (hal_set_open H True h1) = (r, h2)" by fastforce
  have res: "reply = AckOpen (cap_grant_nonce cap) r" "e' = e\<lparr>de_grant := Some g, de_last_close := None\<rparr>" "h' = h2"
    using assms r unfolding open_grant_def t g_def [symmetric] by (simp_all add: g_def)
  note up = uptime_law [OF t] and rem = remaining_effect [OF r] and op = set_open_law [of True h1]
  have "dg_expires_at_ms g \<le> t + 1000 * unat (cap_ttl_secs cap)" by (simp add: g_def sat_deadline)
  then show ?thesis using up rem op by (simp add: res g_def)
qed

lemma accept_fresh_effect:
  assumes "accept_fresh H cap (mark h) e h = (reply, e', h')"
    and "verify_capability X (trust_key (de_trust e)) token = Ok cap" "cap_device_id cap = de_device_id e"
    and "\<And>g. de_grant e = Some g \<Longrightarrow> dg_nonce g = cap_grant_nonce cap"
  shows "effect X token e h e' h' \<and> reply_ok reply \<and> reply_short reply"
proof -
  have wf: "length (cap_grant_nonce cap) = 16" using verify_capability_Ok [OF assms(2)] by (simp add: cap_wf_def)
  obtain w h1 where w: "hal_seq_store H (cap_issued_seq cap) h = (w, h1)" by fastforce
  consider "cap_issued_seq cap \<le> mark h \<or> wire_max_ttl_secs < cap_ttl_secs cap"
    | "mark h < cap_issued_seq cap" "cap_ttl_secs cap \<le> wire_max_ttl_secs" by force
  then show ?thesis
  proof cases
    case 1
    then show ?thesis using assms(1)
      by (auto simp: accept_fresh_def no_eol_def is_eol_def effect_refl split: if_splits)
  next
    case 2
    note st = store_law [OF w 2(1)]
    have go: "\<not> cap_issued_seq cap \<le> mark h" "\<not> wire_max_ttl_secs < cap_ttl_secs cap" using 2 by simp_all
    show ?thesis
    proof (cases w)
      case (Inl u)
      then have "reply = Nak ''store-failed''" "e' = e" "h' = h1"
        using assms(1) go by (simp_all add: accept_fresh_def w)
      then show ?thesis using st by (simp add: no_eol_def is_eol_def effect_refl)
    next
      case (Inr u)
      have open': "open_grant H cap e h1 = (reply, e', h')"
        using assms(1) go Inr by (simp add: accept_fresh_def w)
      note op = open_grant_effect [OF open']
      have "opens_on X token e h e' h'"
        using op st 2 Inr assms(2-4) unfolding opens_on_def by fastforce
      then show ?thesis using op st 2 Inr wf by (auto simp: effect_def)
    qed
  qed
qed

lemma nak_ok: "reply_ok (Nak s) \<longleftrightarrow> no_eol s" "reply_short (Nak s) \<longleftrightarrow> length s \<le> 64"
  by simp_all

lemma nak_texts:
  "no_eol ''replay''" "no_eol ''ttl''" "no_eol ''store-failed''" "no_eol ''wrong-alg''" "no_eol ''bad-token''"
  "no_eol ''wrong-device''" "no_eol ''busy''" "no_eol ''wrong-grant''" "no_eol ''unsupported''" "no_eol ''bad-command''"
  by (simp_all add: no_eol_def is_eol_def)

lemma accept_token_effect:
  assumes "accept_token X H token e h = (reply, e', h')" "device_inv e h"
  shows "effect X token e h e' h' \<and> reply_ok reply \<and> reply_short reply"
proof (cases "verify_capability X (trust_key (de_trust e)) token")
  case (Inl err)
  then show ?thesis using assms(1)
    by (cases err) (auto simp: accept_token_def nak_texts intro!: effect_refl)
next
  case (Inr cap)
  show ?thesis
  proof (cases "cap_device_id cap = de_device_id e")
    case False
    then show ?thesis using assms(1) Inr by (auto simp: accept_token_def nak_texts intro!: effect_refl)
  next
    case True
    obtain r h1 where r: "hal_seq_load H h = (r, h1)" by fastforce
    note ld = load_law [OF r]
    have lift: "effect X token e h e' h'" if "effect X token e h1 e' h'"
      using that ld unfolding effect_def opens_on_def by simp
    show ?thesis
    proof (cases r)
      case (Inl u)
      then show ?thesis using assms(1) Inr True ld r by (auto simp: accept_token_def nak_texts intro!: effect_refl)
    next
      case (Inr stored)
      then have m: "stored = mark h1" using ld by simp
      show ?thesis
      proof (cases "de_grant e")
        case None
        then have "accept_fresh H cap (mark h1) e h1 = (reply, e', h')"
          using assms(1) r m True \<open>r = Ok stored\<close> \<open>verify_capability X _ token = Ok cap\<close> by (simp add: accept_token_def)
        from accept_fresh_effect [OF this \<open>verify_capability X _ token = Ok cap\<close> True] None lift
        show ?thesis by simp
      next
        case (Some g)
        consider "dg_nonce g = cap_grant_nonce cap" "cap_issued_seq cap = stored"
          | "dg_nonce g \<noteq> cap_grant_nonce cap"
          | "dg_nonce g = cap_grant_nonce cap" "cap_issued_seq cap \<noteq> stored" by blast
        then show ?thesis
        proof cases
          case 1
          obtain q h2 where q: "remaining_secs H g h1 = (q, h2)" by fastforce
          have "reply = AckOpen (dg_nonce g) q" "e' = e" "h' = h2"
            using assms(1) r True \<open>r = Ok stored\<close> \<open>verify_capability X _ token = Ok cap\<close> 1 Some q
            by (simp_all add: accept_token_def)
          then show ?thesis
            using remaining_effect [OF q] ld assms(2) Some by (simp add: effect_refl device_inv_def)
        next
          case 2
          then have "reply = Nak ''busy''" "e' = e" "h' = h1"
            using assms(1) r True \<open>r = Ok stored\<close> \<open>verify_capability X _ token = Ok cap\<close> Some
            by (simp_all add: accept_token_def)
          then show ?thesis using ld by (simp add: effect_refl nak_texts)
        next
          case 3
          then have "accept_fresh H cap (mark h1) e h1 = (reply, e', h')"
            using assms(1) r m True \<open>r = Ok stored\<close> \<open>verify_capability X _ token = Ok cap\<close> Some
            by (simp add: accept_token_def)
          from accept_fresh_effect [OF this \<open>verify_capability X _ token = Ok cap\<close> True] Some 3(1) lift
          show ?thesis by simp
        qed
      qed
    qed
  qed
qed

lemma accept_revocation_effect:
  assumes "accept_revocation X H token e h = (reply, e', h')"
  shows "effect X token' e h e' h' \<and> (de_grant e' = de_grant e \<or> de_grant e' = None) \<and> reply_ok reply \<and> reply_short reply"
proof (cases "verify_revocation X (trust_key (de_trust e)) token")
  case (Inl err)
  then show ?thesis using assms
    by (cases err) (auto simp: accept_revocation_def nak_texts intro!: effect_refl)
next
  case (Inr rvk)
  obtain r h1 where r: "hal_seq_load H h = (r, h1)" by fastforce
  obtain w h2 where w: "hal_seq_store H (rvk_issued_seq rvk) h1 = (w, h2)" by fastforce
  note ld = load_law [OF r]
  consider "rvk_device_id rvk \<noteq> de_device_id e" | u where "rvk_device_id rvk = de_device_id e" "r = Inl u"
    | stored where "rvk_device_id rvk = de_device_id e" "r = Inr stored" "rvk_issued_seq rvk \<le> stored"
    | stored where "rvk_device_id rvk = de_device_id e" "r = Inr stored" "\<not> rvk_issued_seq rvk \<le> stored"
    by (cases r) auto
  then show ?thesis
  proof cases
    case 4
    then have fresh: "mark h1 < rvk_issued_seq rvk" using ld by simp
    note st = store_law [OF w fresh]
    show ?thesis
    proof (cases w)
      case (Inl u)
      then have "reply = Nak ''store-failed''" "e' = e" "h' = h2"
        using assms Inr r w 4 by (simp_all add: accept_revocation_def)
      then show ?thesis using st ld by (simp add: effect_refl nak_texts)
    next
      case w': (Inr u)
      show ?thesis
      proof (cases "\<exists>g. de_grant e = Some g \<and> dg_nonce g = rvk_grant_nonce rvk")
        case True
        then have "engine_close H CloseRevert e h2 = (e', h')" "reply = AckClosed"
          using assms Inr r w w' 4 by (auto simp: accept_revocation_def split: prod.splits)
        then show ?thesis using close_effect st ld by (simp add: effect_def)
      next
        case False
        then have "reply = AckClosed \<or> reply = Nak ''wrong-grant''" "e' = e" "h' = h2"
          using assms Inr r w w' 4 by (auto simp: accept_revocation_def split: option.splits if_splits)
        then show ?thesis using st ld by (auto simp: nak_texts intro!: effect_refl)
      qed
    qed
  qed (use assms Inr r ld in \<open>auto simp: accept_revocation_def nak_texts intro!: effect_refl\<close>)
qed

lemma report_effect:
  assumes "engine_report H e h = (rep, h')" "device_inv e h"
  shows "now h \<le> now h' \<and> mark h' = mark h \<and> pin h' = pin h \<and> spares h' = spares h \<and> report_ok rep"
proof -
  obtain r h1 where r: "hal_seq_load H h = (r, h1)" by fastforce
  note ld = load_law [OF r]
  show ?thesis
  proof (cases "de_grant e")
    case None
    then show ?thesis using assms(1) ld by (auto simp: engine_report_def r Let_def report_ok_def)
  next
    case (Some g)
    obtain q h2 where q: "remaining_secs H g h1 = (q, h2)" by fastforce
    show ?thesis using assms ld Some remaining_effect [OF q]
      by (auto simp: engine_report_def r q Let_def report_ok_def device_inv_def)
  qed
qed

definition token_of :: "string \<Rightarrow> string" where
  "token_of input = (case parse_command input of Inr (CmdToken token) \<Rightarrow> token | _ \<Rightarrow> [])"

lemma dispatch_effect:
  assumes "dispatch_line X H input e h = (reply, e', h')" "device_inv e h"
  shows "effect X (token_of input) e h e' h' \<and> reply_ok reply \<and> reply_short reply \<and>
    ((\<forall>token. parse_command input \<noteq> Ok (CmdToken token)) \<longrightarrow> de_grant e' = de_grant e \<or> de_grant e' = None)"
proof (cases "parse_command input")
  case (Inl err)
  then show ?thesis using assms by (auto simp: dispatch_line_def nak_texts intro!: effect_refl)
next
  case (Inr cmd)
  show ?thesis
  proof (cases cmd)
    case (CmdToken token)
    then show ?thesis using assms accept_token_effect [of X token e h reply e' h'] Inr
      by (simp add: dispatch_line_def token_of_def)
  next
    case (CmdRevoke token)
    then have "accept_revocation X H token e h = (reply, e', h')" using assms Inr by (simp add: dispatch_line_def)
    from accept_revocation_effect [OF this] show ?thesis by simp
  next
    case CmdStatus
    obtain rep h1 where q: "engine_report H e h = (rep, h1)" by fastforce
    then have "reply = State rep" "e' = e" "h' = h1" using assms Inr CmdStatus by (simp_all add: dispatch_line_def)
    then show ?thesis using report_effect [OF q assms(2)] by (simp add: effect_refl)
  qed (use assms Inr in \<open>auto simp: dispatch_line_def nak_texts intro!: effect_refl\<close>)
qed

lemma handle_line_effect:
  assumes "device_inv e h"
  obtains line reply e1 h1 e' h' where "handle_line X H input e h = Some (line, e', h')"
    "engine_tick H e h = (e1, h1)" "effect X (token_of input) e1 h1 e' h'" "device_inv e1 h1" "device_inv e' h'"
    "reply_ok reply" "parse_reply line = Ok reply"
    "(\<forall>token. parse_command input \<noteq> Ok (CmdToken token)) \<longrightarrow> de_grant e' = de_grant e1 \<or> de_grant e' = None"
proof -
  obtain e1 h1 where t: "engine_tick H e h = (e1, h1)" by fastforce
  have inv1: "device_inv e1 h1" using effect_inv [OF _ assms] tick_effect [OF t] by blast
  obtain reply e' h' where d: "dispatch_line X H input e1 h1 = (reply, e', h')" by (cases "dispatch_line X H input e1 h1") auto
  note eff = dispatch_effect [OF d inv1]
  have r: "render_reply reply = Ok (reply_text reply)" using eff render_reply_short by blast
  show thesis
  proof (rule that [of "reply_text reply" e' h' e1 h1 reply])
    show "handle_line X H input e h = Some (reply_text reply, e', h')"
      by (simp add: handle_line_def t d r)
    show "device_inv e' h'" using eff inv1 effect_inv by blast
    show "parse_reply (reply_text reply) = Ok reply" using eff parse_reply_text by blast
    show "(\<forall>token. parse_command input \<noteq> Ok (CmdToken token)) \<longrightarrow> de_grant e' = de_grant e1 \<or> de_grant e' = None"
      using eff by (elim conjE)
  qed (use eff t inv1 in simp_all)
qed

lemma new_inv: "engine_new H d t h = (e, h') \<Longrightarrow>
    device_inv e h' \<and> mark h' = mark h \<and> spares h' = spares h \<and> de_device_id e = d \<and> de_trust e = t \<and> de_grant e = None"
  using set_open_law [of False h] by (auto simp: engine_new_def device_inv_def)

lemma reach_inv:
  assumes "device_reach X H boot s s'" "device_inv (fst s) (snd s)"
  shows "device_inv (fst s') (snd s') \<and>
    ((\<forall>h h'. boot h h' \<longrightarrow> spares h') \<longrightarrow> spares (snd s) \<longrightarrow> spares (snd s') \<and> mark (snd s) \<le> mark (snd s')) \<and>
    de_device_id (fst s') = de_device_id (fst s) \<and> de_trust (fst s') = de_trust (fst s)"
  using assms
proof (induction rule: device_reach.induct)
  case (device_line s e h input line e' h')
  then have inv: "device_inv e h" by simp
  then obtain e1 h1 where "engine_tick H e h = (e1, h1)" "effect X (token_of input) e1 h1 e' h'" "device_inv e' h'"
    using device_line.hyps(2) handle_line_effect [OF inv, of X input] by (metis option.inject prod.inject)
  then show ?case using device_line tick_effect [of e h e1 h1 X "[]"] unfolding effect_def by auto
next
  case (device_tick s e h e' h')
  note eff = tick_effect [OF device_tick.hyps(2), of X "[]"]
  have "device_inv e' h'" using eff effect_inv [of X "[]" e h e' h'] device_tick by simp
  then show ?case using eff device_tick unfolding effect_def by auto
next
  case (device_boot s e h h1 e' h')
  then show ?case using new_inv [OF device_boot.hyps(3)] boot_law [OF device_boot.hyps(2)] by simp
qed simp

lemma stale_token_inert:
  assumes "device_inv e h" "handle_line X H input e h = Some (line, e', h')"
    and "parse_command input = Ok (CmdToken token)"
    and "verify_capability X (trust_key (de_trust e)) token = Ok cap" "cap_issued_seq cap \<le> mark h"
  shows "de_grant e' = de_grant e \<or> de_grant e' = None"
proof -
  obtain e1 h1 where t: "engine_tick H e h = (e1, h1)" and eff: "effect X (token_of input) e1 h1 e' h'"
    using handle_line_effect [OF assms(1), of X input] assms(2) by (metis option.inject prod.inject)
  note tick = tick_effect [OF t, of X "[]"]
  have "token_of input = token" by (simp add: token_of_def assms(3))
  moreover have "de_trust e1 = de_trust e" "mark h1 = mark h" using tick by (auto simp: effect_def)
  ultimately have "\<not> opens_on X (token_of input) e1 h1 e' h'"
    using assms(4,5) by (auto simp: opens_on_def)
  then show ?thesis using eff tick unfolding effect_def by auto
qed

lemma only_tokens_open:
  assumes "device_inv e h" "handle_line X H input e h = Some (line, e', h')" "de_grant e' = Some g" "de_grant e \<noteq> Some g"
  obtains token cap where "parse_command input = Ok (CmdToken token)"
    "verify_capability X (trust_key (de_trust e)) token = Ok cap" "cap_device_id cap = de_device_id e"
    "mark h < cap_issued_seq cap" "mark h' = cap_issued_seq cap" "cap_ttl_secs cap \<le> wire_max_ttl_secs"
    "dg_nonce g = cap_grant_nonce cap" "dg_expires_at_ms g \<le> now h' + 1000 * unat (cap_ttl_secs cap)"
proof -
  obtain e1 h1 where t: "engine_tick H e h = (e1, h1)" and eff: "effect X (token_of input) e1 h1 e' h'"
    and other: "(\<forall>token. parse_command input \<noteq> Ok (CmdToken token)) \<longrightarrow> de_grant e' = de_grant e1 \<or> de_grant e' = None"
    using handle_line_effect [OF assms(1), of X input] assms(2) by (metis option.inject prod.inject)
  note tick = tick_effect [OF t, of X "[]"]
  have same: "de_trust e1 = de_trust e" "de_device_id e1 = de_device_id e" "mark h1 = mark h"
    using tick by (auto simp: effect_def)
  have new: "de_grant e' \<noteq> de_grant e1" using tick assms(3,4) by auto
  with other assms(3) obtain token where tok: "parse_command input = Ok (CmdToken token)" by auto
  then have "token_of input = token" by (simp add: token_of_def)
  then have "opens_on X token e1 h1 e' h'" using eff new assms(3) unfolding effect_def by auto
  then show thesis using that [OF tok] assms(3) unfolding opens_on_def same by auto
qed

end

end
