(* ===== verification/Firmware.thy ===== *)
theory Firmware
  imports Embed
begin

unbundle bit_operations_syntax

text \<open>
  The reference firmware's hardware layer: the two-slot, CRC-protected flash record of the anti-replay
  mark (\<open>firmware/esp32c3/logic/src/lib.rs\<close>), and the clock, store and gate the engine runs on
  (\<open>firmware/esp32c3/src/main.rs\<close>).  The flash part, the timer and the pin are the vendor's: the model
  keeps their content and a script of what they answer.
\<close>

section \<open>The flash record\<close>

definition slot_len :: nat where
  "slot_len = 16"

definition region_len :: nat where
  "region_len = 2 * slot_len"

definition slot_magic :: "byte list" where
  "slot_magic = as_bytes ''LGSQ''"

definition crc_bit :: "32 word \<Rightarrow> 32 word" where
  "crc_bit crc = (let mask = 0 - (crc AND 1) in drop_bit 1 crc XOR (0xedb88320 AND mask))"

definition crc_byte :: "32 word \<Rightarrow> byte \<Rightarrow> 32 word" where
  "crc_byte crc b = (crc_bit ^^ 8) (crc XOR ucast b)"

definition crc32 :: "byte list \<Rightarrow> 32 word" where
  "crc32 bs = NOT (foldl crc_byte 0xffffffff bs)"

definition le_bytes :: "nat \<Rightarrow> 'a::len word \<Rightarrow> byte list" where
  "le_bytes n w = rev (be_bytes n w)"

definition from_le :: "byte list \<Rightarrow> 'a::len word" where
  "from_le bs = word_of_nat (from_be (rev bs))"

definition encode_slot :: "64 word \<Rightarrow> byte list" where
  "encode_slot seq =
     (let body = slot_magic @ le_bytes 8 seq in body @ le_bytes 4 (crc32 body))"

definition decode_slot :: "byte list \<Rightarrow> 64 word option" where
  "decode_slot slot =
     (if length slot \<noteq> slot_len \<or> take 4 slot \<noteq> slot_magic then None
      else if crc32 (take 12 slot) \<noteq> from_le (drop 12 slot) then None
      else Some (from_le (take 8 (drop 4 slot))))"

definition read_mark :: "byte list \<Rightarrow> 64 word" where
  "read_mark region =
     (case (decode_slot (take slot_len region), decode_slot (drop slot_len region)) of
        (Some a, Some b) \<Rightarrow> max a b
      | (Some a, None) \<Rightarrow> a
      | (None, Some b) \<Rightarrow> b
      | (None, None) \<Rightarrow> 0)"

definition write_plan :: "byte list \<Rightarrow> 64 word \<Rightarrow> nat \<times> byte list" where
  "write_plan region seq =
     ((case (decode_slot (take slot_len region), decode_slot (drop slot_len region)) of
         (Some a, Some b) \<Rightarrow> if b \<le> a then 1 else 0
       | (Some _, None) \<Rightarrow> 1
       | (None, _) \<Rightarrow> 0),
      encode_slot seq)"

section \<open>The board\<close>

text \<open>
  The flash is two slots with a script of answers, since the driver under it is a library: for a read
  whether it succeeds, for a write whether it succeeds or what a failed one leaves behind.  The two slots
  lie in one erase sector, so a failed write may damage the slot it addressed or both.  Bytes never
  written read as erased.  The timer is its tick count, taken to stay below the counter's 52 bits, and the
  ticks that pass before each further reading.
\<close>

datatype write_answer =
    Written
  | Torn "byte list"
  | SectorLost "byte list" "byte list"

record board =
  bd_slot_a :: "byte list"
  bd_slot_b :: "byte list"
  bd_reads :: "bool list"
  bd_writes :: "write_answer list"
  bd_ticks :: nat
  bd_elapsed :: "nat list"
  bd_pin :: bool

definition slot_cells :: "byte list \<Rightarrow> byte list" where
  "slot_cells bs = take slot_len (bs @ replicate slot_len 0xff)"

definition bd_region :: "board \<Rightarrow> byte list" where
  "bd_region w = slot_cells (bd_slot_a w) @ slot_cells (bd_slot_b w)"

definition flash_read :: "board \<Rightarrow> (unit + byte list) \<times> board" where
  "flash_read w =
     (case bd_reads w of
        [] \<Rightarrow> (Ok (bd_region w), w)
      | ok # rest \<Rightarrow> (if ok then Ok (bd_region w) else Err (), w\<lparr>bd_reads := rest\<rparr>))"

definition put_slot :: "nat \<Rightarrow> byte list \<Rightarrow> board \<Rightarrow> board" where
  "put_slot slot bs w = (if slot = 0 then w\<lparr>bd_slot_a := bs\<rparr> else w\<lparr>bd_slot_b := bs\<rparr>)"

definition flash_write :: "nat \<Rightarrow> byte list \<Rightarrow> board \<Rightarrow> (unit + unit) \<times> board" where
  "flash_write slot bs w =
     (case bd_writes w of
        [] \<Rightarrow> (Ok (), put_slot slot bs w)
      | Written # rest \<Rightarrow> (Ok (), put_slot slot bs (w\<lparr>bd_writes := rest\<rparr>))
      | Torn torn # rest \<Rightarrow> (Err (), put_slot slot torn (w\<lparr>bd_writes := rest\<rparr>))
      | SectorLost a b # rest \<Rightarrow> (Err (), w\<lparr>bd_slot_a := a, bd_slot_b := b, bd_writes := rest\<rparr>))"

definition ticks_per_second :: nat where
  "ticks_per_second = 16000000"

definition systimer_uptime_ms :: "board \<Rightarrow> nat \<times> board" where
  "systimer_uptime_ms w =
     (let w = (case bd_elapsed w of [] \<Rightarrow> w | d # rest \<Rightarrow> w\<lparr>bd_ticks := bd_ticks w + d, bd_elapsed := rest\<rparr>) in
      (bd_ticks w div (ticks_per_second div 1000), w))"

definition flash_seq_load :: "board \<Rightarrow> (unit + 64 word) \<times> board" where
  "flash_seq_load w =
     (case flash_read w of
        (Inl _, w) \<Rightarrow> (Err (), w)
      | (Inr region, w) \<Rightarrow> (Ok (read_mark region), w))"

definition flash_seq_store :: "64 word \<Rightarrow> board \<Rightarrow> (unit + unit) \<times> board" where
  "flash_seq_store seq w =
     (case flash_read w of
        (Inl _, w) \<Rightarrow> (Err (), w)
      | (Inr region, w) \<Rightarrow> (let (slot, bytes) = write_plan region seq in flash_write slot bytes w))"

definition gpio_set_open :: "bool \<Rightarrow> board \<Rightarrow> board" where
  "gpio_set_open opened w = w\<lparr>bd_pin := opened\<rparr>"

definition esp32_hal :: "board hal" where
  "esp32_hal = \<lparr>hal_uptime_ms = systimer_uptime_ms, hal_seq_load = flash_seq_load,
     hal_seq_store = flash_seq_store, hal_set_open = gpio_set_open,
     hal_gate_load = (\<lambda>_. None), hal_fail_state = (\<lambda>_. None)\<rparr>"

text \<open>A restart: the flash content survives; everything else may change.\<close>

definition board_boot :: "board \<Rightarrow> board \<Rightarrow> bool" where
  "board_boot w w' \<longleftrightarrow> bd_slot_a w' = bd_slot_a w \<and> bd_slot_b w' = bd_slot_b w"

text \<open>Failed writes that damage at most the slot they addressed, now and after every restart.\<close>

primrec spares_other :: "write_answer \<Rightarrow> bool" where
  "spares_other Written = True"
| "spares_other (Torn bs) = True"
| "spares_other (SectorLost a b) = False"

definition spares_slots :: "board \<Rightarrow> bool" where
  "spares_slots w = list_all spares_other (bd_writes w)"

definition spared_boot :: "board \<Rightarrow> board \<Rightarrow> bool" where
  "spared_boot w w' \<longleftrightarrow> board_boot w w' \<and> spares_slots w'"

section \<open>The record is durable\<close>

lemma from_be_be32:
  fixes w :: "32 word"
  shows "from_be (be_bytes n w) = unat w mod 256 ^ n"
proof (induction n arbitrary: w)
  case 0
  then show ?case by (simp add: be_bytes_def)
next
  case (Suc n)
  have "unat (drop_bit 8 w) = unat w div 256"
    by (simp add: drop_bit_eq_div unat_div)
  moreover have "unat (ucast w :: byte) = unat w mod 256"
    by (simp add: unsigned_ucast_eq take_bit_eq_mod)
  ultimately show ?case
    using Suc [of "drop_bit 8 w"] by (simp add: be_bytes_Suc mod_mult2_eq)
qed

lemma length_le_bytes [simp]: "length (le_bytes n w) = n"
  by (simp add: le_bytes_def)

lemma from_le_u32: "from_le (le_bytes 4 (w :: 32 word)) = w"
proof -
  have "unat w < 256 ^ 4" using unsigned_less [of w, where ?'a = nat] by simp
  then show ?thesis by (simp add: from_le_def le_bytes_def from_be_be32)
qed

lemma from_le_u64: "from_le (le_bytes 8 (w :: 64 word)) = w"
  by (simp add: from_le_def le_bytes_def from_be_be_bytes_less [OF arg_widths(4)])

lemma length_slot_magic [simp]: "length slot_magic = 4"
  by (simp add: slot_magic_def)

lemma length_encode_slot [simp]: "length (encode_slot seq) = slot_len"
  by (simp add: encode_slot_def Let_def slot_len_def)

lemma decode_encode_slot: "decode_slot (encode_slot seq) = Some seq"
  by (simp add: decode_slot_def encode_slot_def Let_def slot_len_def from_le_u32 from_le_u64)

text \<open>What one slot is worth to the reader.\<close>

definition slot_val :: "byte list \<Rightarrow> 64 word" where
  "slot_val s = (case decode_slot s of None \<Rightarrow> 0 | Some v \<Rightarrow> v)"

lemma read_mark_slots:
  "length a = slot_len \<Longrightarrow> read_mark (a @ b) = max (slot_val a) (slot_val b)"
  by (auto simp: read_mark_def slot_val_def max_def split: option.splits)

definition region_put :: "byte list \<Rightarrow> nat \<Rightarrow> byte list \<Rightarrow> byte list" where
  "region_put region slot bs =
     take (slot * slot_len) region @ bs @ drop (slot * slot_len + slot_len) region"

lemma write_plan_spares_best:
  assumes "length a = slot_len" "length b = slot_len" "write_plan (a @ b) seq = (slot, bytes)"
  shows "slot = 0 \<and> slot_val b = read_mark (a @ b) \<or> slot = 1 \<and> slot_val a = read_mark (a @ b)"
    and "bytes = encode_slot seq"
  using assms by (auto simp: write_plan_def read_mark_def slot_val_def max_def split: option.splits if_splits)

lemma region_slots:
  assumes "length region = region_len"
  obtains a b where "region = a @ b" "length a = slot_len" "length b = slot_len"
  using that [of "take slot_len region" "drop slot_len region"] assms by (simp add: region_len_def slot_len_def)

lemma mark_after_write:
  assumes "length region = region_len" "write_plan region seq = (slot, bytes)" "length bs = slot_len"
  shows "read_mark (region_put region slot bs) = max (read_mark region) (slot_val bs)"
proof -
  obtain a b where ab: "region = a @ b" "length a = slot_len" "length b = slot_len"
    using assms(1) by (rule region_slots)
  from write_plan_spares_best(1) [OF ab(2,3) assms(2) [unfolded ab(1)]] show ?thesis
    using ab assms(3) by (auto simp: region_put_def read_mark_slots max.commute)
qed

lemma read_mark_erased: "read_mark (replicate region_len 0xff) = 0"
  by code_simp



section \<open>The board keeps the hardware contract\<close>

definition board_mark :: "board \<Rightarrow> 64 word" where
  "board_mark w = read_mark (bd_region w)"

definition board_now :: "board \<Rightarrow> nat" where
  "board_now w = bd_ticks w div (ticks_per_second div 1000)"

lemma length_slot_cells [simp]: "length (slot_cells bs) = slot_len"
  by (simp add: slot_cells_def)

lemma slot_cells_id: "length bs = slot_len \<Longrightarrow> slot_cells bs = bs"
  by (simp add: slot_cells_def)

lemma bd_region_ext [simp]:
  "bd_region (w\<lparr>bd_reads := r\<rparr>) = bd_region w" "bd_region (w\<lparr>bd_writes := v\<rparr>) = bd_region w"
  "bd_region (w\<lparr>bd_pin := p\<rparr>) = bd_region w" "bd_region (w\<lparr>bd_ticks := t, bd_elapsed := d\<rparr>) = bd_region w"
  by (simp_all add: bd_region_def)

lemma flash_read_keeps:
  "flash_read w = (r, w') \<Longrightarrow> bd_region w' = bd_region w \<and> bd_pin w' = bd_pin w \<and> bd_ticks w' = bd_ticks w \<and>
     bd_writes w' = bd_writes w \<and> (\<forall>region. r = Ok region \<longrightarrow> region = bd_region w)"
  by (auto simp: flash_read_def split: list.splits if_splits)

lemma put_slot_mark:
  assumes "write_plan (bd_region w) seq = (slot, bytes)"
  shows "board_mark (put_slot slot bs w) = max (board_mark w) (slot_val (slot_cells bs))"
  using write_plan_spares_best(1) [OF _ _ assms [unfolded bd_region_def]]
  by (auto simp: put_slot_def board_mark_def bd_region_def read_mark_slots max.commute)

lemma put_slot_keeps [simp]: "bd_pin (put_slot s b w) = bd_pin w" "bd_ticks (put_slot s b w) = bd_ticks w"
  "bd_writes (put_slot s b w) = bd_writes w"
  by (simp_all add: put_slot_def)

lemma flash_seq_store_law:
  assumes "flash_seq_store seq w = (r, w')" "board_mark w < seq"
  shows "(r = Ok () \<longrightarrow> board_mark w' = seq) \<and> (spares_slots w \<longrightarrow> spares_slots w' \<and> board_mark w \<le> board_mark w') \<and>
    board_now w' = board_now w \<and> bd_pin w' = bd_pin w"
proof -
  obtain q w1 where q: "flash_read w = (q, w1)" by fastforce
  note rd = flash_read_keeps [OF q]
  show ?thesis
  proof (cases q)
    case (Inl u)
    then show ?thesis using assms(1) rd by (auto simp: flash_seq_store_def q board_mark_def board_now_def spares_slots_def)
  next
    case (Inr region)
    obtain slot bytes where p: "write_plan region seq = (slot, bytes)" by fastforce
    have reg: "region = bd_region w1" using rd Inr by simp
    have bytes: "bytes = encode_slot seq" using p by (auto simp: write_plan_def)
    have mark: "board_mark (put_slot slot bs (w1\<lparr>bd_writes := v\<rparr>)) = max (board_mark w) (slot_val (slot_cells bs))" for bs v
      using put_slot_mark [of "w1\<lparr>bd_writes := v\<rparr>" seq slot bytes bs] p reg rd by (simp add: board_mark_def)
    have mark': "board_mark (put_slot slot bs w1) = max (board_mark w) (slot_val (slot_cells bs))" for bs
      using put_slot_mark [of w1 seq slot bytes bs] p reg rd by (simp add: board_mark_def)
    have val: "slot_val (slot_cells bytes) = seq"
      by (simp add: bytes slot_cells_id slot_val_def decode_encode_slot)
    have "flash_write slot bytes w1 = (r, w')" using assms(1) q Inr p by (simp add: flash_seq_store_def)
    then show ?thesis
      using assms(2) rd mark mark' val
      by (auto simp: flash_write_def board_now_def max_def spares_slots_def split: list.splits write_answer.splits)
  qed
qed

lemma esp32_laws:
  "hal_uptime_ms esp32_hal h = (t, h') \<Longrightarrow>
     board_now h \<le> t \<and> board_now h' = t \<and> board_mark h' = board_mark h \<and> bd_pin h' = bd_pin h \<and> spares_slots h' = spares_slots h"
  "hal_seq_load esp32_hal h = (r, h') \<Longrightarrow>
     (\<forall>s. r = Ok s \<longrightarrow> s = board_mark h) \<and> board_now h' = board_now h \<and> board_mark h' = board_mark h \<and>
     bd_pin h' = bd_pin h \<and> spares_slots h' = spares_slots h"
  "bd_pin (hal_set_open esp32_hal b h) = b \<and> board_mark (hal_set_open esp32_hal b h) = board_mark h \<and>
     board_now (hal_set_open esp32_hal b h) = board_now h \<and> spares_slots (hal_set_open esp32_hal b h) = spares_slots h"
  "board_boot h h' \<Longrightarrow> board_mark h' = board_mark h"
proof -
  show "hal_uptime_ms esp32_hal h = (t, h') \<Longrightarrow>
     board_now h \<le> t \<and> board_now h' = t \<and> board_mark h' = board_mark h \<and> bd_pin h' = bd_pin h \<and> spares_slots h' = spares_slots h"
    by (auto simp: esp32_hal_def systimer_uptime_ms_def board_now_def board_mark_def spares_slots_def Let_def div_le_mono
        split: list.splits)
  show "hal_seq_load esp32_hal h = (r, h') \<Longrightarrow>
     (\<forall>s. r = Ok s \<longrightarrow> s = board_mark h) \<and> board_now h' = board_now h \<and> board_mark h' = board_mark h \<and>
     bd_pin h' = bd_pin h \<and> spares_slots h' = spares_slots h"
    using flash_read_keeps [of h]
    by (auto simp: esp32_hal_def flash_seq_load_def board_now_def board_mark_def spares_slots_def split: prod.splits sum.splits)
qed (simp_all add: esp32_hal_def gpio_set_open_def board_mark_def board_now_def spares_slots_def board_boot_def bd_region_def)

text \<open>Over any life, and over a life in which failed writes spare the other slot.\<close>

interpretation esp: hal_contract esp32_hal board_mark bd_pin board_now board_boot spares_slots
  by unfold_locales (use esp32_laws flash_seq_store_law in \<open>auto simp: esp32_hal_def\<close>)

interpretation spared: hal_contract esp32_hal board_mark bd_pin board_now spared_boot spares_slots
  by unfold_locales (use esp32_laws flash_seq_store_law in \<open>auto simp: esp32_hal_def spared_boot_def\<close>)

end
