(* ===== verification/Device_Props.thy ===== *)
theory Device_Props
  imports Firmware
begin

text \<open>
  The promises of a device: the engine of \<open>embed\<close> on the reference firmware's hardware, over whole
  lives with hostile lines, failing flash and restarts.
\<close>

lemma max_ttl_ms: "1000 * unat wire_max_ttl_secs = 86400000"
  by (simp add: wire_max_ttl_secs_def)

lemma started_inv:
  assumes "engine_new esp32_hal d t w0 = (e0, w1)" "device_reach X esp32_hal board_boot (e0, w1) (e, w)"
  shows "esp.device_inv e w"
  using esp.new_inv [OF assms(1)] esp.reach_inv [OF assms(2)] by simp

lemma spared_life:
  assumes "device_reach X esp32_hal spared_boot s s'" "esp.device_inv (fst s) (snd s)" "spares_slots (snd s)"
  shows "esp.device_inv (fst s') (snd s') \<and> spares_slots (snd s') \<and> board_mark (snd s) \<le> board_mark (snd s') \<and>
    de_device_id (fst s') = de_device_id (fst s) \<and> de_trust (fst s') = de_trust (fst s)"
  using spared.reach_inv [OF assms(1,2)] assms(3) by (simp add: spared_boot_def)

text \<open>
  C34. The gate and the grant never disagree.  In every state a device can get into from power-up, by
  any lines, ticks, flash failures of any kind and restarts, the gate is open exactly when a grant is held, no
  deadline is more than a day ahead of the last clock reading, a tick leaves the gate open only before
  the deadline, and every further line gets a reply that the daemon can parse: the device never panics.
\<close>

theorem device_gate_tracks_grant:
  assumes "engine_new esp32_hal d t w0 = (e0, w1)" "device_reach X esp32_hal board_boot (e0, w1) (e, w)"
  shows "bd_pin w = (de_grant e \<noteq> None) \<and>
    (\<forall>g. de_grant e = Some g \<longrightarrow> dg_expires_at_ms g \<le> board_now w + 86400000) \<and>
    (\<forall>e' w'. engine_tick esp32_hal e w = (e', w') \<longrightarrow>
       bd_pin w' = (\<exists>g. de_grant e = Some g \<and> de_grant e' = Some g \<and> board_now w' < dg_expires_at_ms g)) \<and>
    (\<exists>line reply e' w'. handle_line X esp32_hal input e w = Some (line, e', w') \<and> parse_reply line = Ok reply)"
proof (intro conjI allI impI)
  have inv: "esp.device_inv e w" using started_inv [OF assms] by simp
  then show "bd_pin w = (de_grant e \<noteq> None)" by (simp add: esp.device_inv_def)
  show "dg_expires_at_ms g \<le> board_now w + 86400000" if "de_grant e = Some g" for g
    using inv that by (simp add: esp.device_inv_def max_ttl_ms)
  show "\<exists>line reply e' w'. handle_line X esp32_hal input e w = Some (line, e', w') \<and> parse_reply line = Ok reply"
    using esp.handle_line_effect [OF inv, of X input] by metis
  fix e' w' assume t: "engine_tick esp32_hal e w = (e', w')"
  note eff = esp.tick_effect [OF t, of X "[]"]
  then have "esp.device_inv e' w'" using esp.effect_inv [OF _ inv] by blast
  then show "bd_pin w' = (\<exists>g. de_grant e = Some g \<and> de_grant e' = Some g \<and> board_now w' < dg_expires_at_ms g)"
  proof (cases "de_grant e'")
    case (Some g)
    then have "de_grant e = Some g" "board_now w' < dg_expires_at_ms g" using eff by auto
    then show ?thesis using \<open>esp.device_inv e' w'\<close> Some by (simp add: esp.device_inv_def)
  qed (simp add: esp.device_inv_def)
qed

text \<open>
  C35. A token opens the gate at most once, while failed writes spare the other slot.  A line that puts a
  new grant in place carries a capability that verifies under the device's trust root, names this
  device, asks for at most a day and has a sequence number above the stored mark; that number becomes
  the mark; and when the same line is presented again after any further life of the device, restarts
  and failed writes included, it never opens the gate or moves a deadline again, provided no failed
  write damages the slot it did not address, which is what the two-slot record relies on.
\<close>

theorem device_replay_dead:
  assumes "engine_new esp32_hal d t w0 = (e0, w1)" "spares_slots w0"
    and "device_reach X esp32_hal spared_boot (e0, w1) (e, w)"
    and "handle_line X esp32_hal input e w = Some (line, e', w')" "de_grant e' = Some g" "de_grant e \<noteq> Some g"
    and "device_reach X esp32_hal spared_boot (e', w') (e2, w2)"
    and "handle_line X esp32_hal input e2 w2 = Some (line', e3, w3)"
  shows "(\<exists>token cap. parse_command input = Ok (CmdToken token) \<and>
            verify_capability X (trust_key t) token = Ok cap \<and> cap_device_id cap = d \<and>
            cap_ttl_secs cap \<le> wire_max_ttl_secs \<and> dg_nonce g = cap_grant_nonce cap \<and>
            board_mark w < cap_issued_seq cap \<and> board_mark w' = cap_issued_seq cap \<and>
            cap_issued_seq cap \<le> board_mark w2) \<and>
         (de_grant e3 = de_grant e2 \<or> de_grant e3 = None)"
proof -
  have new: "esp.device_inv e0 w1" "spares_slots w1" "de_device_id e0 = d" "de_trust e0 = t"
    using esp.new_inv [OF assms(1)] assms(2) by simp_all
  have start: "esp.device_inv e w" "spares_slots w" "de_device_id e = d" "de_trust e = t"
    using spared_life [OF assms(3)] new by simp_all
  obtain token cap where tok: "parse_command input = Ok (CmdToken token)"
      "verify_capability X (trust_key (de_trust e)) token = Ok cap" "cap_device_id cap = de_device_id e"
      "board_mark w < cap_issued_seq cap" "board_mark w' = cap_issued_seq cap"
      "cap_ttl_secs cap \<le> wire_max_ttl_secs" "dg_nonce g = cap_grant_nonce cap"
    by (rule esp.only_tokens_open [OF start(1) assms(4-6)])
  have reopened: "esp.device_inv e' w'" "spares_slots w'" "de_trust e' = t"
    using spared_life [OF device_line [OF device_start assms(4)]] start by simp_all
  have later: "esp.device_inv e2 w2" "board_mark w' \<le> board_mark w2" "de_trust e2 = t"
    using spared_life [OF assms(7)] reopened by simp_all
  have "de_grant e3 = de_grant e2 \<or> de_grant e3 = None"
    using esp.stale_token_inert [OF later(1) assms(8) tok(1)] tok(2,5) later(2,3) start(4) by simp
  then show ?thesis using tok later(2) start(3,4) by auto
qed

section \<open>Witnesses\<close>

text \<open>A codec that knows one token.\<close>

definition one_token_wire :: wire_crates where
  "one_token_wire = \<lparr>wc_b64_encode = (\<lambda>_. []),
     wc_b64_decode = (\<lambda>s. if s = ''P'' then Some (cap_bytes small_cap)
                          else if s = ''S'' then Some (replicate sig_len 0) else None),
     wc_sha256 = id, wc_ed25519_key_ok = (\<lambda>_. True), wc_ed25519_verify = (\<lambda>k m s. False),
     wc_ed25519_sign = (\<lambda>_ _. []), wc_p256_key_ok = (\<lambda>_. True), wc_p256_sig_ok = (\<lambda>_. True),
     wc_p256_verify = (\<lambda>k d s. d = signed_message cap_prefix (cap_bytes small_cap)),
     wc_p256_scalar_ok = (\<lambda>_. True), wc_p256_sign = (\<lambda>_ _. [])\<rparr>"

definition new_board :: board where
  "new_board = \<lparr>bd_slot_a = [], bd_slot_b = [], bd_reads = [], bd_writes = [], bd_ticks = 0,
     bd_elapsed = [], bd_pin = True\<rparr>"

definition small_trust :: trust_root where
  "small_trust = TrustP256 []"

lemma small_cap_facts: "length (cap_bytes small_cap) \<le> max_payload_len" "decode_capability (cap_bytes small_cap) = Ok small_cap"
proof -
  have ok: "known_ver (cap_ver small_cap)" "cap_wf small_cap"
    by (simp_all add: small_cap_def known_ver_def ver_p256_def cap_wf_def)
  show "length (cap_bytes small_cap) \<le> max_payload_len" by (rule cap_bytes_length [OF ok])
  show "decode_capability (cap_bytes small_cap) = Ok small_cap" using ok by (simp add: decode_capability_eq_Ok)
qed

lemma one_token_verifies: "verify_capability one_token_wire (P256Sec1 []) ''lgcap.P.S'' = Ok small_cap"
proof -
  have "open_token one_token_wire cap_prefix (P256Sec1 []) (cap_prefix @ ''P'' @ CHR ''.'' # ''S'') = Ok (cap_bytes small_cap)"
    using small_cap_facts(1)
    by (simp add: open_token_def split_dot_join [of "''P''", simplified] b64_decode_def one_token_wire_def verify_sig_def sig_len_def)
  then have "open_token one_token_wire cap_prefix (P256Sec1 []) ''lgcap.P.S'' = Ok (cap_bytes small_cap)"
    by (simp add: cap_prefix_def)
  then show ?thesis
    using small_cap_facts(2) by (simp add: verify_capability_def ver_p256_def) (simp add: small_cap_def)
qed

definition small_line :: string where
  "small_line = ''TOK lgcap.P.S''"

lemma small_line_parses: "parse_command small_line = Ok (CmdToken ''lgcap.P.S'')"
  using parse_command_text [of "CmdToken ''lgcap.P.S''"] by (simp add: small_line_def no_eol_def is_eol_def)

definition fresh_engine :: device_engine where
  "fresh_engine = \<lparr>de_device_id = replicate 16 7, de_trust = small_trust, de_grant = None, de_last_close = Some CloseBoot\<rparr>"

definition closed_board :: board where
  "closed_board = new_board\<lparr>bd_pin := False\<rparr>"

lemma small_new: "engine_new esp32_hal (replicate 16 7) small_trust new_board = (fresh_engine, closed_board)"
  by (simp add: engine_new_def fresh_engine_def closed_board_def esp32_hal_def gpio_set_open_def)

lemma closed_board_mark: "read_mark (bd_region closed_board) = 0"
proof -
  have "bd_region closed_board = replicate region_len 0xff"
    by (simp add: bd_region_def closed_board_def new_board_def slot_cells_def slot_len_def region_len_def numeral_eq_Suc)
  then show ?thesis by (simp only: read_mark_erased)
qed

lemma closed_board_simps: "bd_reads closed_board = []" "bd_writes closed_board = []" "bd_elapsed closed_board = []"
  by (simp_all add: closed_board_def new_board_def)

lemma small_accepts:
  "\<exists>reply e w g. dispatch_line one_token_wire esp32_hal small_line fresh_engine closed_board = (reply, e, w) \<and> de_grant e = Some g"
proof -
  have id: "cap_device_id small_cap = de_device_id fresh_engine" "de_grant fresh_engine = None"
      "cap_issued_seq small_cap = 5" "cap_ttl_secs small_cap = 600"
    by (simp_all add: small_cap_def fresh_engine_def)
  have v: "verify_capability one_token_wire (trust_key (de_trust fresh_engine)) ''lgcap.P.S'' = Ok small_cap"
    using one_token_verifies by (simp add: fresh_engine_def small_trust_def)
  have ld: "hal_seq_load esp32_hal closed_board = (Ok 0, closed_board)"
    by (simp add: esp32_hal_def flash_seq_load_def flash_read_def closed_board_simps closed_board_mark)
  obtain w where st: "hal_seq_store esp32_hal 5 closed_board = (Ok (), w)"
    by (cases "write_plan (bd_region closed_board) 5")
       (simp add: esp32_hal_def flash_seq_store_def flash_read_def closed_board_simps flash_write_def)
  obtain reply e w' where op: "open_grant esp32_hal small_cap fresh_engine w = (reply, e, w')"
    by (cases "open_grant esp32_hal small_cap fresh_engine w") auto
  have "dispatch_line one_token_wire esp32_hal small_line fresh_engine closed_board = (reply, e, w')"
    by (simp add: dispatch_line_def small_line_parses accept_token_def v id ld accept_fresh_def st op wire_max_ttl_secs_def)
  with esp.open_grant_effect [OF op] show ?thesis by blast
qed

lemma small_opens:
  obtains line e w g where "handle_line one_token_wire esp32_hal small_line fresh_engine closed_board = Some (line, e, w)"
    "de_grant e = Some g"
proof -
  have inv: "esp.device_inv fresh_engine closed_board" using esp.new_inv [OF small_new] by simp
  have t: "engine_tick esp32_hal fresh_engine closed_board = (fresh_engine, closed_board)"
    by (simp add: engine_tick_def fresh_engine_def)
  obtain reply e w g where d: "dispatch_line one_token_wire esp32_hal small_line fresh_engine closed_board = (reply, e, w)"
      "de_grant e = Some g"
    using small_accepts by blast
  obtain line e' w' where "handle_line one_token_wire esp32_hal small_line fresh_engine closed_board = Some (line, e', w')"
    using esp.handle_line_effect [OF inv] by metis
  with that d show thesis by (auto simp: handle_line_def t split: sum.splits)
qed

theorem device_gate_tracks_grant_witness:
  "\<exists>line e w g. device_reach one_token_wire esp32_hal board_boot (fresh_engine, closed_board) (e, w) \<and>
     handle_line one_token_wire esp32_hal small_line fresh_engine closed_board = Some (line, e, w) \<and>
     de_grant e = Some g \<and> bd_pin w \<and> dg_expires_at_ms g \<le> board_now w + 86400000"
proof -
  obtain line e w g where h: "handle_line one_token_wire esp32_hal small_line fresh_engine closed_board = Some (line, e, w)"
      "de_grant e = Some g" by (rule small_opens)
  have r: "device_reach one_token_wire esp32_hal board_boot (fresh_engine, closed_board) (e, w)"
    by (rule device_line [OF device_start h(1)])
  show ?thesis using device_gate_tracks_grant [OF small_new r] r h by auto
qed

theorem device_replay_dead_witness:
  "\<exists>line e w g line' e3 w3. handle_line one_token_wire esp32_hal small_line fresh_engine closed_board = Some (line, e, w) \<and>
     de_grant e = Some g \<and> handle_line one_token_wire esp32_hal small_line e w = Some (line', e3, w3) \<and>
     (de_grant e3 = Some g \<or> de_grant e3 = None)"
proof -
  obtain line e w g where h: "handle_line one_token_wire esp32_hal small_line fresh_engine closed_board = Some (line, e, w)"
      "de_grant e = Some g" by (rule small_opens)
  have inv: "esp.device_inv e w"
    by (rule started_inv [OF small_new device_line [OF device_start h(1)]])
  obtain line' e3 w3 where h3: "handle_line one_token_wire esp32_hal small_line e w = Some (line', e3, w3)"
    using esp.handle_line_effect [OF inv] by metis
  have "de_grant fresh_engine \<noteq> Some g" by (simp add: fresh_engine_def)
  moreover have "spares_slots new_board" by (simp add: spares_slots_def new_board_def)
  ultimately show ?thesis using device_replay_dead [OF small_new _ device_start h _ device_start h3] h h3 by auto
qed

end
