(* ===== verification/Messages.thy ===== *)
theory Messages
  imports Inventory_Check
begin

text \<open>
  The refusal texts of \<open>core/src/authority.rs\<close>, \<open>core/src/inventory.rs\<close>, \<open>core/src/generic.rs\<close> and
  \<open>core/src/vnc.rs\<close>: the \<open>Display\<close> implementations of their error types.
\<close>

definition em_dash :: string where
  "em_dash = map char_of [226, 128, 148 :: nat]"

definition authority_error_display :: "crates \<Rightarrow> authority_error \<Rightarrow> string" where
  "authority_error_display X e =
     (case e of
        NoProfiles \<Rightarrow>
          ''[approval] defines no profile; opening a grant could never be authorized (fail-closed)''
      | EmptyId kind \<Rightarrow> ''an [approval] '' @ kind @ '' has an empty id''
      | DuplicateAuthenticator ident \<Rightarrow>
          ''authenticator id '' @ debug_str X ident @ '' appears more than once''
      | DuplicateGroup ident \<Rightarrow> ''group id '' @ debug_str X ident @ '' appears more than once''
      | DuplicateProfile ident \<Rightarrow> ''profile id '' @ debug_str X ident @ '' appears more than once''
      | UnimplementedKind ident kind milestone \<Rightarrow>
          ''authenticator '' @ debug_str X ident @ '' is kind '' @ debug_str X kind
          @ '', which is not implemented yet (arrives in '' @ milestone
          @ ''); only ed25519 is live''
      | MissingMaterial ident kind field \<Rightarrow>
          ''authenticator '' @ debug_str X ident @ '' (kind '' @ debug_str X kind
          @ '') is missing its required '' @ field
      | BadPublicKey ident message \<Rightarrow>
          ''authenticator '' @ debug_str X ident @ '': public-key does not parse: '' @ message
      | Fido2UnknownAlg ident alg \<Rightarrow>
          ''fido2 authenticator '' @ debug_str X ident @ '' has alg '' @ debug_str X alg
          @ ''; expected \"es256\" or \"eddsa\"''
      | Fido2BadKey ident message \<Rightarrow> ''fido2 authenticator '' @ debug_str X ident @ '': '' @ message
      | ZeroThreshold kind ident \<Rightarrow>
          kind @ '' '' @ debug_str X ident
          @ '' has a threshold of 0, which would open with no proof at all''
      | ZeroWeight kind ident \<Rightarrow>
          kind @ '' '' @ debug_str X ident
          @ '' has a factor of weight 0, which could never contribute; dead config is a typo''
      | NoFactors kind ident \<Rightarrow>
          kind @ '' '' @ debug_str X ident @ '' lists no factors, so it could never be satisfied''
      | BadFactor kind ident message \<Rightarrow>
          kind @ '' '' @ debug_str X ident @ '' has a factor that '' @ message
      | BadWait kind ident message \<Rightarrow>
          kind @ '' '' @ debug_str X ident @ '' has a wait that does not parse: '' @ message
      | Unsatisfiable kind ident threshold available \<Rightarrow>
          kind @ '' '' @ debug_str X ident @ '' has threshold '' @ show_nat threshold
          @ '' but its factors sum to only '' @ show_nat available @ ''; it could never be opened''
      | DanglingAuthenticator referrer ident \<Rightarrow>
          referrer @ '' references authenticator '' @ debug_str X ident @ '', which is not defined''
      | DanglingGroup referrer ident \<Rightarrow>
          referrer @ '' references group '' @ debug_str X ident @ '', which is not defined''
      | GroupCycle ident \<Rightarrow>
          ''group '' @ debug_str X ident
          @ '' is part of a reference cycle; a gate that references itself could never be evaluated'')"

definition inventory_error_display :: "crates \<Rightarrow> inventory_error \<Rightarrow> string" where
  "inventory_error_display X e =
     (case e of
        Toml e1 \<Rightarrow> ''inventory is not valid: '' @ e1
      | EmptyHostName \<Rightarrow> ''a host has an empty name''
      | DuplicateHostName name \<Rightarrow> ''host name '' @ debug_str X name @ '' appears more than once''
      | EmptyAddress host \<Rightarrow> ''host '' @ debug_str X host @ '' has an empty address''
      | NoChannels host \<Rightarrow>
          ''host '' @ debug_str X host
          @ '' declares no channels; a host lychgate may not touch does not belong in the inventory''
      | DuplicateChannel host \<Rightarrow>
          ''host '' @ debug_str X host @ '' lists the same channel more than once''
      | SshConfigMissing host \<Rightarrow>
          ''host '' @ debug_str X host
          @ '' declares an ssh or authorized-keys channel but has no [hosts.ssh] config''
      | SshConfigUnused host \<Rightarrow>
          ''host '' @ debug_str X host
          @ '' has [hosts.ssh] config but declares neither the ssh nor the authorized-keys channel; dead config is a typo''
      | NoEmergencyKeys host \<Rightarrow>
          ''host '' @ debug_str X host
          @ '' declares the authorized-keys channel but [hosts.ssh] lists no emergency_keys''
      | PostureUnchanged host \<Rightarrow>
          ''host '' @ debug_str X host
          @ '': root_posture_emergency equals root_posture_default, so the ssh channel would change nothing; drop the ssh channel or change a posture''
      | BadEmergencyKey host message \<Rightarrow> ''host '' @ debug_str X host @ '': '' @ message
      | BmcConfigMissing host \<Rightarrow>
          ''host '' @ debug_str X host @ '' declares a bmc channel but has no [hosts.bmc] config''
      | BmcConfigUnused host \<Rightarrow>
          ''host '' @ debug_str X host
          @ '' has [hosts.bmc] config but declares no bmc channel; dead config is a typo''
      | BmcMethodUnimplemented host method \<Rightarrow>
          ''host '' @ debug_str X host @ '': bmc method '' @ debug_str X method
          @ '' is not implemented yet; only redfish is''
      | VncConfigMissing host \<Rightarrow>
          ''host '' @ debug_str X host @ '' declares a vnc channel but has no [hosts.vnc] config''
      | VncConfigUnused host \<Rightarrow>
          ''host '' @ debug_str X host
          @ '' has [hosts.vnc] config but declares no vnc channel; dead config is a typo''
      | VncCommandQuoted host which \<Rightarrow>
          ''host '' @ debug_str X host @ '': '' @ which
          @ '' contains a single quote; lychgate must own the shell quoting, so a template that quotes its own arguments is refused''
      | VncMissingPasswordFile host \<Rightarrow>
          ''host '' @ debug_str X host
          @ '': set_password_cmd never references {password_file}, so the generated password would never reach the target''
      | VncClearHasPasswordFile host \<Rightarrow>
          ''host '' @ debug_str X host
          @ '': clear_password_cmd references {password_file}, but the clear command is never handed a password''
      | VncUnknownPlaceholder host which placeholder \<Rightarrow>
          ''host '' @ debug_str X host @ '': '' @ which @ '' references unknown placeholder {''
          @ placeholder @ ''}; lychgate would leave it in the command literally''
      | VncBadPort host field \<Rightarrow> ''host '' @ debug_str X host @ '': vnc '' @ field @ '' is zero''
      | VncBadPasswordLen host \<Rightarrow>
          ''host '' @ debug_str X host @ '': vnc password_len is zero, which is no password at all''
      | VncLocalPortConflict host other port \<Rightarrow>
          ''host '' @ debug_str X host @ '': local_port '' @ show_nat (unat port)
          @ '' is also forwarded by host '' @ debug_str X other
          @ ''; two hosts cannot share one daemon-local forward port''
      | GenericConfigMissing host channel \<Rightarrow>
          ''host '' @ debug_str X host @ '' declares a '' @ channel
          @ '' channel but has no [hosts.'' @ channel @ ''] config''
      | GenericConfigUnused host channel \<Rightarrow>
          ''host '' @ debug_str X host @ '' has [hosts.'' @ channel @ ''] config but declares no ''
          @ channel @ '' channel; dead config is a typo''
      | GenericVerifyNotNone host channel got \<Rightarrow>
          ''host '' @ debug_str X host @ '': [hosts.'' @ channel @ ''] verify = '' @ debug_str X got
          @ ''; only the literal \"none\" (an explicit narrowing) or a verify table is meaningful''
      | GenericPlaceholder host channel field message \<Rightarrow>
          ''host '' @ debug_str X host @ '': [hosts.'' @ channel @ ''] '' @ field @ '' '' @ message
      | GenericBadStatus host which \<Rightarrow>
          ''host '' @ debug_str X host @ '': '' @ which
          @ '' expect_status is not an HTTP status (100..=599)''
      | GenericZeroTimeout host channel \<Rightarrow>
          ''host '' @ debug_str X host @ '': [hosts.'' @ channel
          @ ''] timeout_secs is zero, so every transaction would fail instantly''
      | MqttPasswordAuth host \<Rightarrow>
          ''host '' @ debug_str X host @ '': mqtt password auth is refused '' @ em_dash
          @ '' mosquitto clients take the password on argv, where every process on the daemon host can read it; use TLS client certificates or an anonymous listener''
      | DeviceBadId host \<Rightarrow>
          ''host '' @ debug_str X host
          @ '': device_id must be exactly 32 hex characters (16 bytes)''
      | DeviceTransportMismatch host \<Rightarrow>
          ''host '' @ debug_str X host
          @ '': [hosts.device] must carry exactly the sub-table matching its transport (e.g. transport = \"serial\" with [hosts.device.serial]); a mismatched or extra sub-table is dead config''
      | SigningKeyMissing host which \<Rightarrow>
          ''host '' @ debug_str X host @ '' declares a device channel whose alg needs [signing] ''
          @ which
          @ '', which is not configured; the daemon could never issue its tokens (fail-closed)''
      | SigningUnused \<Rightarrow>
          ''[signing] is configured but no host declares a device channel; dead config is a typo''
      | DeviceMqttUnimplemented host \<Rightarrow>
          ''host '' @ debug_str X host
          @ '': the device-mqtt transport is not implemented yet; use serial or http''
      | EmbeddedChannelUnsupported host channel \<Rightarrow>
          ''host '' @ debug_str X host @ '' is os = \"embedded\" but declares the '' @ channel
          @ '' channel, which needs a shell on the target; embedded hosts may declare only http, mqtt, serial, and bmc''
      | InvApproval e1 \<Rightarrow> ''[approval] policy is invalid: '' @ authority_error_display X e1
      | AccessWithoutApproval host \<Rightarrow>
          ''host '' @ debug_str X host
          @ '' declares [hosts.access] but the inventory has no [approval] policy; access profiles are meaningless without one''
      | AccessNoProfiles host \<Rightarrow>
          ''host '' @ debug_str X host
          @ '' declares [hosts.access] permitting no profiles; it could never be opened (fail-closed)''
      | UnknownProfile host prof \<Rightarrow>
          ''host '' @ debug_str X host @ '' references approval profile '' @ debug_str X prof
          @ '', which is not defined in [approval]''
      | OverrideForUnpermittedProfile host prof \<Rightarrow>
          ''host '' @ debug_str X host @ '' overrides profile '' @ debug_str X prof
          @ '' but does not permit it; dead config is a typo'')"

definition match_error_display :: "match_error \<Rightarrow> string" where
  "match_error_display e =
     (case e of
        MatchNeither \<Rightarrow>
          ''response matches neither the open nor the closed marker; the channel state is unverifiable''
      | MatchBoth \<Rightarrow>
          ''response matches both the open and the closed marker; the marker pair cannot distinguish the states'')"

definition vnc_template_error_display :: "vnc_template_error \<Rightarrow> string" where
  "vnc_template_error_display e =
     (case e of
        Quoted \<Rightarrow>
          ''contains a single quote; lychgate owns the shell quoting, so a template that quotes its own arguments is refused''
      | MissingPasswordFile \<Rightarrow>
          ''never references {password_file}, so the generated password would never reach the target''
      | ClearHasPasswordFile \<Rightarrow>
          ''references {password_file}, but the clear command is never handed a password''
      | UnknownPlaceholder p \<Rightarrow>
          ''references unknown placeholder {'' @ p
          @ ''}; lychgate would leave it in the command literally'')"

end
