(* ===== verification/Program.thy ===== *)
theory Program
  imports Prelude
begin

text \<open>
  Programs of the daemon.  The daemon releases every lock between two accesses to the grant store,
  a ledger, the journal, the drivers or the dead-man, so its operations are written as sequences of
  atomic steps over a shared state: \<open>Step\<close> performs one access and goes on.  \<open>Fatal\<close> is the outer
  \<open>Err\<close> of \<open>anyhow::Result\<close>, on which the process stops; \<open>Panic\<close> is a failed \<open>expect\<close>.
\<close>

section \<open>Programs\<close>

datatype ('s, 'a) prog =
    Return 'a
  | Fatal
  | Panic
  | Step "'s \<Rightarrow> 's \<times> ('s, 'a) prog"

primrec and_then :: "('s, 'a) prog \<Rightarrow> ('a \<Rightarrow> ('s, 'b) prog) \<Rightarrow> ('s, 'b) prog" where
  "and_then (Return a) k = k a"
| "and_then Fatal k = Fatal"
| "and_then Panic k = Panic"
| "and_then (Step f) k = Step (\<lambda>s. map_prod id (\<lambda>p. and_then p k) (f s))"

text \<open>Discarding the error of a call whose result is bound to \<open>_\<close>.\<close>

primrec attempt :: "('s, 'a) prog \<Rightarrow> ('s, 'a option) prog" where
  "attempt (Return a) = Return (Some a)"
| "attempt Fatal = Return None"
| "attempt Panic = Panic"
| "attempt (Step f) = Step (\<lambda>s. map_prod id attempt (f s))"

primrec for_each :: "('x \<Rightarrow> ('s, unit) prog) \<Rightarrow> 'x list \<Rightarrow> ('s, unit) prog" where
  "for_each body [] = Return ()"
| "for_each body (x # xs) = and_then (body x) (\<lambda>_. for_each body xs)"

definition act :: "('s \<Rightarrow> 'a \<times> 's) \<Rightarrow> ('s, 'a) prog" where
  "act f = Step (\<lambda>s. case f s of (a, s') \<Rightarrow> (s', Return a))"

text \<open>An access that may fail, or panic (\<open>None\<close>).\<close>

definition try_act :: "('s \<Rightarrow> ('e + 'a) option \<times> 's) \<Rightarrow> ('s, 'a) prog" where
  "try_act f = Step (\<lambda>s. case f s of (r, s') \<Rightarrow>
     (s', case r of None \<Rightarrow> Panic | Some (Inl e) \<Rightarrow> Fatal | Some (Inr a) \<Rightarrow> Return a))"

definition expect :: "'e + 'a \<Rightarrow> ('s, 'a) prog" where
  "expect r = (case r of Inl e \<Rightarrow> Panic | Inr a \<Rightarrow> Return a)"

definition expect_some :: "'a option \<Rightarrow> ('s, 'a) prog" where
  "expect_some r = (case r of None \<Rightarrow> Panic | Some a \<Rightarrow> Return a)"

section \<open>Running alone\<close>

datatype 'a exit = Done 'a | FatalExit | PanicExit

primrec run :: "('s, 'a) prog \<Rightarrow> 's \<Rightarrow> 'a exit \<times> 's" where
  "run (Return a) = (\<lambda>s. (Done a, s))"
| "run Fatal = (\<lambda>s. (FatalExit, s))"
| "run Panic = (\<lambda>s. (PanicExit, s))"
| "run (Step f) = (\<lambda>s. case map_prod id run (f s) of (s', g) \<Rightarrow> g s')"

text \<open>The configurations a program passes through, the first included: where a crash can find it.\<close>

inductive passes :: "('s, 'a) prog \<times> 's \<Rightarrow> ('s, 'a) prog \<times> 's \<Rightarrow> bool" where
  passes_refl: "passes c c"
| passes_step: "passes c (Step f, s) \<Longrightarrow> f s = (s', p) \<Longrightarrow> passes c (p, s')"

section \<open>Running beside others\<close>

text \<open>One step of a pool of threads: some thread performs its next access.\<close>

inductive pool_step :: "('s, 'a) prog list \<times> 's \<Rightarrow> ('s, 'a) prog list \<times> 's \<Rightarrow> bool" where
  pool_stepI: "i < length ps \<Longrightarrow> ps ! i = Step f \<Longrightarrow> f s = (s', p) \<Longrightarrow> pool_step (ps, s) (ps[i := p], s')"

text \<open>A schedule names the threads in the order they move; a thread that has ended idles.\<close>

fun schedule :: "nat list \<Rightarrow> ('s, 'a) prog list \<times> 's \<Rightarrow> ('s, 'a) prog list \<times> 's" where
  "schedule [] c = c"
| "schedule (i # is) (ps, s) =
     schedule is (case (if i < length ps then ps ! i else Fatal) of
        Step f \<Rightarrow> (ps[i := snd (f s)], fst (f s))
      | _ \<Rightarrow> (ps, s))"

section \<open>Preconditions\<close>

text \<open>
  \<open>wp I Q p s\<close>: from \<open>s\<close>, every configuration \<open>p\<close> passes through satisfies \<open>I\<close>, it does not panic, and
  a result it returns satisfies \<open>Q\<close>.
\<close>

primrec wp :: "('s \<Rightarrow> bool) \<Rightarrow> ('a \<Rightarrow> 's \<Rightarrow> bool) \<Rightarrow> ('s, 'a) prog \<Rightarrow> 's \<Rightarrow> bool" where
  "wp I Q (Return a) = (\<lambda>s. I s \<and> Q a s)"
| "wp I Q Fatal = (\<lambda>s. I s)"
| "wp I Q Panic = (\<lambda>s. False)"
| "wp I Q (Step f) = (\<lambda>s. I s \<and> (case map_prod id (wp I Q) (f s) of (s', P) \<Rightarrow> P s'))"

lemma wp_Step [simp]: "wp I Q (Step f) s \<longleftrightarrow> I s \<and> wp I Q (snd (f s)) (fst (f s))"
  by (simp add: split_beta)

lemma run_Step [simp]: "run (Step f) s = run (snd (f s)) (fst (f s))"
  by (simp add: split_beta)

declare wp.simps(4) [simp del] run.simps(4) [simp del]

lemma prog_induct [case_names Return Fatal Panic Step]:
  assumes "\<And>a. P (Return a)" "P Fatal" "P Panic" "\<And>f. (\<And>s. P (snd (f s))) \<Longrightarrow> P (Step f)"
  shows "P p"
proof (induction p)
  case (Step f)
  have "P (snd (f s))" for s
    by (rule Step [of "f s"]) (auto intro: snds.intros simp: prod_set_defs)
  then show ?case by (rule assms(4))
qed (rule assms)+

lemma wp_inv: "wp I Q p s \<Longrightarrow> I s"
  by (cases p) auto

lemma wp_mono: "wp I Q p s \<Longrightarrow> (\<And>a s. I s \<Longrightarrow> Q a s \<Longrightarrow> R a s) \<Longrightarrow> wp I R p s"
  by (induction p arbitrary: s rule: prog_induct) auto

lemma wp_and_then [simp]: "wp I Q (and_then p k) s = wp I (\<lambda>a s. wp I Q (k a) s) p s"
proof (induction p arbitrary: s rule: prog_induct)
  case (Return a)
  show ?case using wp_inv [of I Q "k a" s] by auto
qed simp_all

lemma wp_attempt: "wp I (\<lambda>a s. Q (Some a) s) p s \<Longrightarrow> (\<And>s. I s \<Longrightarrow> Q None s) \<Longrightarrow> wp I Q (attempt p) s"
  by (induction p arbitrary: s rule: prog_induct) auto

lemma wp_act [simp]: "wp I Q (act f) s \<longleftrightarrow> I s \<and> I (snd (f s)) \<and> Q (fst (f s)) (snd (f s))"
  by (simp add: act_def split_beta)

lemma wp_try_act [simp]:
  "wp I Q (try_act f) s \<longleftrightarrow> I s \<and> I (snd (f s)) \<and>
     (case fst (f s) of None \<Rightarrow> False | Some (Inl e) \<Rightarrow> True | Some (Inr a) \<Rightarrow> Q a (snd (f s)))"
  by (auto simp: try_act_def split: prod.splits option.splits sum.splits)

lemma wp_for_each:
  "I s \<Longrightarrow> J s \<Longrightarrow> (\<And>x s. x \<in> set xs \<Longrightarrow> I s \<Longrightarrow> J s \<Longrightarrow> wp I (\<lambda>_. J) (body x) s) \<Longrightarrow>
     wp I (\<lambda>_. J) (for_each body xs) s"
proof (induction xs arbitrary: s)
  case (Cons x xs)
  have "wp I (\<lambda>_. J) (body x) s" using Cons.prems by simp
  then have "wp I (\<lambda>_. wp I (\<lambda>_. J) (for_each body xs)) (body x) s"
    by (rule wp_mono) (use Cons in auto)
  then show ?case by simp
qed simp

text \<open>What a precondition gives of the program's own runs and of every crash.\<close>

lemma wp_run: "wp I Q p s \<Longrightarrow> run p s = (e, s') \<Longrightarrow> I s' \<and> e \<noteq> PanicExit \<and> (\<forall>a. e = Done a \<longrightarrow> Q a s')"
  by (induction p arbitrary: s rule: prog_induct) auto

lemma wp_passes:
  assumes "passes c d" "wp I Q (fst c) (snd c)"
  shows "wp I Q (fst d) (snd d)"
  using assms by (induction rule: passes.induct) auto

lemma run_and_then:
  "run (and_then p k) s =
     (case run p s of (Done a, s') \<Rightarrow> run (k a) s' | (FatalExit, s') \<Rightarrow> (FatalExit, s') | (PanicExit, s') \<Rightarrow> (PanicExit, s'))"
  by (induction p arbitrary: s rule: prog_induct) (auto simp: split_beta)

lemma run_act [simp]: "run (act f) s = (Done (fst (f s)), snd (f s))"
  by (simp add: act_def split_beta)

lemma run_passes: "\<exists>p'. passes (p, s) (p', snd (run p s))"
proof (induction p arbitrary: s rule: prog_induct)
  case (Step f)
  have "passes (Step f, s) (q, t)" if "passes (snd (f s), fst (f s)) (q, t)" for q t
    using that
  proof (induction "(snd (f s), fst (f s))" "(q, t)" arbitrary: q t rule: passes.induct)
    case passes_refl
    then show ?case using passes_step [OF passes.passes_refl, of f s] by simp
  qed (auto intro: passes_step)
  then show ?case using Step [of s "fst (f s)"] by auto
qed (auto intro: passes_refl)

end
