(* ===== verification/Store.thy ===== *)
theory Store
  imports Snapshot
begin

text \<open>
  The daemon's files: \<open>daemon/src/store.rs\<close> (the grant store), \<open>daemon/src/totp_ledger.rs\<close>,
  \<open>daemon/src/fido2_counters.rs\<close> and \<open>daemon/src/journal.rs\<close>.  The three read-modify-write files share
  one discipline: take the lock, read, write a temporary file and rename it over the old one, so a
  failed write leaves the old content.  A file carries the script of its own I/O faults: each fallible
  access consumes one entry, \<open>True\<close> meaning that it fails, and an exhausted script means success.
\<close>

section \<open>Files\<close>

datatype 'd file_state = Absent | Unparsable | Holds 'd

record 'd disk =
  dk_file :: "'d file_state"
  dk_faults :: "bool list"

definition next_fault :: "'d disk \<Rightarrow> bool \<times> 'd disk" where
  "next_fault dk =
     (case dk_faults dk of [] \<Rightarrow> (False, dk) | b # bs \<Rightarrow> (b, dk\<lparr>dk_faults := bs\<rparr>))"

text \<open>The paths, operating-system messages and lock ages of the errors are left out.\<close>

datatype store_error = StoreIo | StoreCorrupt | StoreLocked

datatype store_failure = FailStore store_error | FailSnapshot snapshot_error

section \<open>The grant store\<close>

definition readable_versions :: "nat list" where
  "readable_versions = [2, 3, state_version]"

definition store_read :: "state_doc disk \<Rightarrow> (store_error + state_doc) \<times> state_doc disk" where
  "store_read dk =
     (case next_fault dk of (fails, dk) \<Rightarrow>
        (if fails then Err StoreIo
         else case dk_file dk of
                Absent \<Rightarrow> Ok state_doc_default
              | Unparsable \<Rightarrow> Err StoreCorrupt
              | Holds doc \<Rightarrow> if doc_version doc \<notin> set readable_versions then Err StoreCorrupt else Ok doc,
         dk))"

definition store_write :: "state_doc \<Rightarrow> state_doc disk \<Rightarrow> (store_error + unit) \<times> state_doc disk" where
  "store_write doc dk =
     (case next_fault dk of (fails, dk) \<Rightarrow>
        if fails then (Err StoreIo, dk)
        else (Ok (), dk\<lparr>dk_file := (case stored doc of Some d \<Rightarrow> Holds d | None \<Rightarrow> Unparsable)\<rparr>))"

text \<open>
  \<open>mutate\<close>: the closure maps the document to its result and the new document; \<open>None\<close> is a panic in it,
  which releases the lock without writing.
\<close>

definition store_mutate ::
    "(state_doc \<Rightarrow> (snapshot_error + 'a \<times> state_doc) option) \<Rightarrow> state_doc disk
      \<Rightarrow> (store_failure + 'a) option \<times> state_doc disk" where
  "store_mutate f dk =
     (case next_fault dk of (locked, dk) \<Rightarrow>
        if locked then (Some (Err (FailStore StoreLocked)), dk)
        else case store_read dk of
               (Inl e, dk) \<Rightarrow> (Some (Err (FailStore e)), dk)
             | (Inr doc, dk) \<Rightarrow>
                 (case f doc of
                    None \<Rightarrow> (None, dk)
                  | Some (Inl e) \<Rightarrow> (Some (Err (FailSnapshot e)), dk)
                  | Some (Inr (out, doc)) \<Rightarrow>
                      (case store_write doc dk of
                         (Inl e, dk) \<Rightarrow> (Some (Err (FailStore e)), dk)
                       | (Inr _, dk) \<Rightarrow> (Some (Ok out), dk))))"

section \<open>Ledgers\<close>

definition ledger_version :: nat where
  "ledger_version = 1"

datatype ledger_error = LedgerIo | LedgerInvalid | LedgerLocked

text \<open>The reading and writing both ledgers share: \<open>version\<close> selects the document's version field.\<close>

definition ledger_read :: "('d \<Rightarrow> nat) \<Rightarrow> 'd \<Rightarrow> 'd disk \<Rightarrow> (ledger_error + 'd) \<times> 'd disk" where
  "ledger_read version fresh dk =
     (case next_fault dk of (fails, dk) \<Rightarrow>
        (if fails then Err LedgerIo
         else case dk_file dk of
                Absent \<Rightarrow> Ok fresh
              | Unparsable \<Rightarrow> Err LedgerInvalid
              | Holds doc \<Rightarrow> if version doc \<noteq> ledger_version then Err LedgerInvalid else Ok doc,
         dk))"

definition ledger_write :: "'d \<Rightarrow> 'd disk \<Rightarrow> (ledger_error + unit) \<times> 'd disk" where
  "ledger_write doc dk =
     (case next_fault dk of (fails, dk) \<Rightarrow>
        if fails then (Err LedgerIo, dk) else (Ok (), dk\<lparr>dk_file := Holds doc\<rparr>))"

definition ledger_lock :: "'d disk \<Rightarrow> (ledger_error + unit) \<times> 'd disk" where
  "ledger_lock dk = (case next_fault dk of (fails, dk) \<Rightarrow> (if fails then Err LedgerLocked else Ok (), dk))"

record totp_entry =
  te_authenticator :: string
  te_counter :: nat
  te_at :: nat

record totp_doc =
  td_version :: nat
  td_consumed :: "totp_entry list"

definition totp_doc_default :: totp_doc where
  "totp_doc_default = \<lparr>td_version = ledger_version, td_consumed = []\<rparr>"

definition retain_secs :: nat where
  "retain_secs = 600"

definition totp_read :: "totp_doc disk \<Rightarrow> (ledger_error + totp_doc) \<times> totp_doc disk" where
  "totp_read = ledger_read td_version totp_doc_default"

definition totp_consume ::
    "string \<Rightarrow> nat \<Rightarrow> system_time \<Rightarrow> totp_doc disk \<Rightarrow> (ledger_error + bool) \<times> totp_doc disk" where
  "totp_consume authenticator counter now dk =
     (case ledger_lock dk of
        (Inl e, dk) \<Rightarrow> (Err e, dk)
      | (Inr _, dk) \<Rightarrow>
          (case totp_read dk of
             (Inl e, dk) \<Rightarrow> (Err e, dk)
           | (Inr doc, dk) \<Rightarrow>
               (let now_secs = epoch_secs now;
                    doc = doc\<lparr>td_consumed := filter (\<lambda>e. now_secs - te_at e \<le> retain_secs) (td_consumed doc)\<rparr>
                in if list_ex (\<lambda>e. te_authenticator e = authenticator \<and> te_counter e = counter) (td_consumed doc)
                   then (case ledger_write doc dk of (Inl e, dk) \<Rightarrow> (Err e, dk) | (Inr _, dk) \<Rightarrow> (Ok False, dk))
                   else let entry = \<lparr>te_authenticator = authenticator, te_counter = counter, te_at = now_secs\<rparr>
                        in case ledger_write (doc\<lparr>td_consumed := td_consumed doc @ [entry]\<rparr>) dk of
                             (Inl e, dk) \<Rightarrow> (Err e, dk)
                           | (Inr _, dk) \<Rightarrow> (Ok True, dk))))"

record fido2_doc =
  fd_version :: nat
  fd_counters :: "(string, nat) btree_map"

definition fido2_doc_default :: fido2_doc where
  "fido2_doc_default = \<lparr>fd_version = ledger_version, fd_counters = []\<rparr>"

datatype counter_verdict = CounterOk | CounterRegressed

definition fido2_read :: "fido2_doc disk \<Rightarrow> (ledger_error + fido2_doc) \<times> fido2_doc disk" where
  "fido2_read = ledger_read fd_version fido2_doc_default"

definition fido2_observe ::
    "crates \<Rightarrow> byte list \<Rightarrow> nat \<Rightarrow> fido2_doc disk \<Rightarrow> (ledger_error + counter_verdict) \<times> fido2_doc disk" where
  "fido2_observe X credential_id counter dk =
     (let key = b64url_encode X credential_id in
      case ledger_lock dk of
        (Inl e, dk) \<Rightarrow> (Err e, dk)
      | (Inr _, dk) \<Rightarrow>
          (case fido2_read dk of
             (Inl e, dk) \<Rightarrow> (Err e, dk)
           | (Inr doc, dk) \<Rightarrow>
               (let recorded = (case bt_get (fd_counters doc) key of Some n \<Rightarrow> n | None \<Rightarrow> 0) in
                if recorded > 0 \<and> counter \<le> recorded then (Ok CounterRegressed, dk)
                else if counter > 0
                then (case ledger_write (doc\<lparr>fd_counters := bt_insert key counter (fd_counters doc)\<rparr>) dk of
                        (Inl e, dk) \<Rightarrow> (Err e, dk)
                      | (Inr _, dk) \<Rightarrow> (Ok CounterOk, dk))
                else (Ok CounterOk, dk))))"

section \<open>The journal\<close>

datatype event =
    EvDaemonStart string nat
  | EvDaemonStop
  | EvOpen string "channel list" "channel list" nat nat
  | EvOpenFailed string channel "channel list" string
  | EvRenew string nat nat
  | EvClose string bool
  | EvExpire string "channel list" nat nat
  | EvReestablish string "channel list"
  | EvRequested string "channel list" nat nat nat
  | EvProofAccepted string string
  | EvApproved string nat
  | EvRequestExpired string nat nat
  | EvRequestCancelled string
  | EvApprovalDenied string string
  | EvMcpRefused string string
  | EvDrillPassed string
  | EvDrillFailed string string

record journal_line =
  jl_ts :: nat
  jl_pid :: nat
  jl_seq :: nat
  jl_event :: event

text \<open>A record that fails may leave any part of its line behind; only synced lines are kept here.\<close>

record journal =
  jn_pid :: nat
  jn_seq :: nat
  jn_synced :: "journal_line list"
  jn_faults :: "bool list"

definition journal_record :: "system_time \<Rightarrow> event \<Rightarrow> journal \<Rightarrow> (unit + unit) \<times> journal" where
  "journal_record now ev j =
     (let line = \<lparr>jl_ts = epoch_secs now, jl_pid = jn_pid j, jl_seq = jn_seq j, jl_event = ev\<rparr>;
          ok = (Ok (), j\<lparr>jn_seq := jn_seq j + 1, jn_synced := jn_synced j @ [line], jn_faults := tl (jn_faults j)\<rparr>)
      in case jn_faults j of
           [] \<Rightarrow> ok
         | fails # rest \<Rightarrow> if fails then (Err (), j\<lparr>jn_faults := rest\<rparr>) else ok)"

text \<open>An access that fails leaves the file as it was.\<close>

lemma next_fault_file [simp]: "dk_file (snd (next_fault dk)) = dk_file dk"
  by (simp add: next_fault_def split: list.splits)

end
