(* ===== verification/Proto.thy ===== *)
theory Proto
  imports Registry
begin

text \<open>
  \<open>core/src/proto.rs\<close>: the wire protocol between \<open>lychgate\<close> and \<open>lychgated\<close>.  Reading and printing
  JSON is an argument, the record \<open>proto_json\<close>: the lenient version probe, the strict request reader
  and the printer of a request object.
\<close>

section \<open>Requests\<close>

definition proto_version :: nat where
  "proto_version = 4"

definition max_line_bytes :: nat where
  "max_line_bytes = 64 * 1024"

datatype op =
    OpOpen string string "string option"
  | OpApprove string string
  | OpClose string
  | OpRenew string string
  | OpStatus
  | OpDrill string

datatype proto_error =
    TooLarge nat
  | ProtoMalformed string
  | VersionMismatch nat
  | MissingField string string
  | UnknownOp string

definition proto_error_display :: "crates \<Rightarrow> proto_error \<Rightarrow> string" where
  "proto_error_display X e =
     (case e of
        TooLarge n \<Rightarrow> ''request of '' @ show_nat n @ '' bytes exceeds the '' @ show_nat max_line_bytes @ ''-byte cap''
      | ProtoMalformed m \<Rightarrow> ''malformed request: '' @ m
      | VersionMismatch v \<Rightarrow>
          ''request speaks protocol '' @ show_nat v @ ''; this daemon speaks '' @ show_nat proto_version
      | MissingField opn field \<Rightarrow> opn @ '' requires the '' @ debug_str X field @ '' field''
      | UnknownOp opn \<Rightarrow> ''unknown op '' @ debug_str X opn)"

record request_wire =
  rw_proto :: nat
  rw_op :: string
  rw_host :: "string option"
  rw_ttl :: "string option"
  rw_token :: "string option"
  rw_profile :: "string option"

record proto_json =
  pj_probe :: "string \<Rightarrow> string + nat option"
  pj_request :: "string \<Rightarrow> string + request_wire"
  pj_print :: "request_wire \<Rightarrow> string"

definition op_of_wire :: "request_wire \<Rightarrow> proto_error + op" where
  "op_of_wire wire =
     (let host = (\<lambda>opn. ok_or (MissingField opn ''host'') (rw_host wire));
          ttl = (\<lambda>opn. ok_or (MissingField opn ''ttl'') (rw_ttl wire));
          token = (\<lambda>opn. ok_or (MissingField opn ''token'') (rw_token wire));
          name = rw_op wire
      in if name = ''open'' then
           bind_ok (host ''open'') (\<lambda>h. bind_ok (ttl ''open'') (\<lambda>t. Ok (OpOpen h t (rw_profile wire))))
         else if name = ''approve'' then
           bind_ok (host ''approve'') (\<lambda>h. bind_ok (token ''approve'') (\<lambda>t. Ok (OpApprove h t)))
         else if name = ''close'' then bind_ok (host ''close'') (\<lambda>h. Ok (OpClose h))
         else if name = ''renew'' then
           bind_ok (host ''renew'') (\<lambda>h. bind_ok (ttl ''renew'') (\<lambda>t. Ok (OpRenew h t)))
         else if name = ''status'' then Ok OpStatus
         else if name = ''drill'' then bind_ok (host ''drill'') (\<lambda>h. Ok (OpDrill h))
         else Err (UnknownOp name))"

definition decode_request :: "proto_json \<Rightarrow> string \<Rightarrow> proto_error + op" where
  "decode_request J line =
     (if length line > max_line_bytes then Err (TooLarge (length line))
      else
        bind_ok (map_err ProtoMalformed (pj_probe J line)) (\<lambda>probe.
        case (case probe of Some v \<Rightarrow> if v \<noteq> proto_version then Some v else None | None \<Rightarrow> None) of
          Some v \<Rightarrow> Err (VersionMismatch v)
        | None \<Rightarrow> bind_ok (map_err ProtoMalformed (pj_request J line)) op_of_wire))"

definition wire_of_op :: "op \<Rightarrow> request_wire" where
  "wire_of_op opr =
     (let w = (\<lambda>name h t tok p. \<lparr>rw_proto = proto_version, rw_op = name, rw_host = h, rw_ttl = t, rw_token = tok,
                 rw_profile = p\<rparr>)
      in case opr of
           OpOpen h t p \<Rightarrow> w ''open'' (Some h) (Some t) None p
         | OpApprove h tok \<Rightarrow> w ''approve'' (Some h) None (Some tok) None
         | OpClose h \<Rightarrow> w ''close'' (Some h) None None None
         | OpRenew h t \<Rightarrow> w ''renew'' (Some h) (Some t) None None
         | OpStatus \<Rightarrow> w ''status'' None None None None
         | OpDrill h \<Rightarrow> w ''drill'' (Some h) None None None)"

definition encode_request :: "proto_json \<Rightarrow> op \<Rightarrow> string" where
  "encode_request J opr = pj_print J (wire_of_op opr)"

section \<open>Status lines\<close>

datatype wire_state =
    WClosed | WAwaitingApproval | WApprovalExpired | WOpening | WOpen | WExpired | WNeedsRevert

record grant_line =
  gl_host :: string
  gl_state :: wire_state
  gl_remaining_secs :: "nat option"
  gl_stuck_channels :: "channel list option"

definition status_line :: "string \<times> grant_status_view \<Rightarrow> grant_line" where
  "status_line hs =
     (let line = (\<lambda>st rem stuck. \<lparr>gl_host = fst hs, gl_state = st, gl_remaining_secs = rem, gl_stuck_channels = stuck\<rparr>)
      in case snd hs of
           StClosed \<Rightarrow> line WClosed None None
         | StAwaitingApproval r \<Rightarrow> line WAwaitingApproval (Some (as_secs r)) None
         | StApprovalExpired \<Rightarrow> line WApprovalExpired None None
         | StOpening \<Rightarrow> line WOpening None None
         | StOpen r \<Rightarrow> line WOpen (Some (as_secs r)) None
         | StExpired \<Rightarrow> line WExpired None None
         | StNeedsRevert cs \<Rightarrow> line WNeedsRevert None (Some cs))"

definition status_lines :: "grant_registry \<Rightarrow> system_time \<Rightarrow> grant_line list" where
  "status_lines r now = map status_line (reg_statuses now r)"

section \<open>Responses\<close>

record pending_challenge =
  pc_host :: string
  pc_challenge :: string
  pc_ttl_secs :: nat
  pc_requested_at :: nat
  pc_approval_deadline :: nat
  pc_profile :: string
  pc_weight :: nat
  pc_threshold :: nat
  pc_missing :: "string list"

datatype response_result = ResOk | ResRefused

record response =
  re_proto :: nat
  re_result :: response_result
  re_error :: "string option"
  re_expires_at :: "nat option"
  re_outcome :: "string option"
  re_grants :: "grant_line list option"
  re_secret :: "string option"
  re_secret_label :: "string option"
  re_pending :: "pending_challenge option"
  re_narrowings :: "string list option"

definition response_ok :: response where
  "response_ok = \<lparr>re_proto = proto_version, re_result = ResOk, re_error = None, re_expires_at = None,
     re_outcome = None, re_grants = None, re_secret = None, re_secret_label = None, re_pending = None,
     re_narrowings = None\<rparr>"

definition response_refused :: "string \<Rightarrow> response" where
  "response_refused error = response_ok\<lparr>re_error := Some error, re_result := ResRefused\<rparr>"

section \<open>Lemmas\<close>

lemma op_of_wire_of_op: "op_of_wire (wire_of_op opr) = Ok opr"
  by (cases opr) (simp_all add: op_of_wire_def wire_of_op_def Let_def)

text \<open>What the protocol relies on of the JSON crate: a printed request is read back.\<close>

definition json_codec :: "proto_json \<Rightarrow> bool" where
  "json_codec J \<longleftrightarrow> (\<forall>w. pj_probe J (pj_print J w) = Ok (Some (rw_proto w)) \<and> pj_request J (pj_print J w) = Ok w)"

lemma decode_printed:
  assumes "json_codec J" "length (pj_print J w) \<le> max_line_bytes"
  shows "decode_request J (pj_print J w) =
    (if rw_proto w = proto_version then op_of_wire w else Err (VersionMismatch (rw_proto w)))"
  using assms by (simp add: decode_request_def json_codec_def)

end
