(* ===== verification/Lifecycle.thy ===== *)
theory Lifecycle
  imports Program Store Proto Channel Messages
begin

text \<open>
  \<open>daemon/src/lifecycle.rs\<close>: the daemon.  The record \<open>daemon\<close> is what is fixed when it starts, \<open>sys\<close> is
  what its operations read and change: the grant store, the two ledgers, the journal, the console and
  the world the drivers and the dead-man act on.  Every access that takes a lock is one step of the
  program, so operations can be interleaved and can stop between any two accesses.
\<close>

section \<open>State\<close>

text \<open>\<open>daemon/src/drivers/deadman.rs\<close>: the trait \<open>DeadmanControl\<close>.\<close>

record 'w deadman_control =
  dc_install :: "host \<Rightarrow> system_time \<Rightarrow> 'w \<Rightarrow> (driver_error + unit) \<times> 'w"
  dc_reschedule :: "host \<Rightarrow> system_time \<Rightarrow> 'w \<Rightarrow> (driver_error + unit) \<times> 'w"
  dc_remove :: "host \<Rightarrow> 'w \<Rightarrow> (driver_error + bool) \<times> 'w"

record 'w daemon =
  dm_crates :: crates
  dm_inventory :: inventory
  dm_drivers :: "'w driver_set"
  dm_deadman :: "'w deadman_control"
  dm_approval_window :: duration
  dm_approval :: "authority_model option"
  dm_totp_secrets :: "(string, totp_secret) btree_map"
  dm_password_hashes :: "(string, string) btree_map"
  dm_hmac_secrets :: "(string, byte list) btree_map"
  dm_urandom :: "nat \<Rightarrow> nonce"

record 'w sys =
  sy_store :: "state_doc disk"
  sy_journal :: journal
  sy_totp_ledger :: "totp_doc disk"
  sy_fido2_counters :: "fido2_doc disk"
  sy_draws :: nat
  sy_console :: "string list"
  sy_world :: 'w

definition dry_run_profile :: string where
  "dry_run_profile = ''dry-run''"

definition drill_profile :: string where
  "drill_profile = ''drill''"

datatype origin = Operator | Mcp

definition driver_error_display :: "driver_error \<Rightarrow> string" where
  "driver_error_display e = (case e of DriverError m \<Rightarrow> m)"

primrec join_with :: "string \<Rightarrow> string list \<Rightarrow> string" where
  "join_with sep [] = []"
| "join_with sep (x # xs) = x @ (if xs = [] then [] else sep @ join_with sep xs)"

definition channels_debug :: "channel list \<Rightarrow> string" where
  "channels_debug cs = ''['' @ join_with '', '' (map channel_debug cs) @ '']''"

section \<open>Accesses\<close>

definition with_world :: "('w \<Rightarrow> 'a \<times> 'w) \<Rightarrow> ('w sys, 'a) prog" where
  "with_world f = act (\<lambda>s. case f (sy_world s) of (a, w) \<Rightarrow> (a, s\<lparr>sy_world := w\<rparr>))"

definition lift_store ::
    "(state_doc disk \<Rightarrow> ('e + 'a) option \<times> state_doc disk) \<Rightarrow> ('w sys, 'a) prog" where
  "lift_store f = try_act (\<lambda>s. case f (sy_store s) of (r, dk) \<Rightarrow> (r, s\<lparr>sy_store := dk\<rparr>))"

definition println :: "string \<Rightarrow> ('w sys, unit) prog" where
  "println line = act (\<lambda>s. ((), s\<lparr>sy_console := sy_console s @ [line]\<rparr>))"

definition generate_nonce :: "'w daemon \<Rightarrow> ('w sys, nonce) prog" where
  "generate_nonce dm = act (\<lambda>s. (dm_urandom dm (sy_draws s), s\<lparr>sy_draws := Suc (sy_draws s)\<rparr>))"

definition journal_event :: "system_time \<Rightarrow> event \<Rightarrow> ('w sys, unit) prog" where
  "journal_event now ev =
     try_act (\<lambda>s. case journal_record now ev (sy_journal s) of (r, j) \<Rightarrow> (Some r, s\<lparr>sy_journal := j\<rparr>))"

text \<open>Reading the store and validating it into a registry, as every read of the daemon does.\<close>

definition load_registry :: "'w daemon \<Rightarrow> ('w sys, grant_registry) prog" where
  "load_registry dm =
     and_then (lift_store (\<lambda>dk. case store_read dk of (r, dk) \<Rightarrow> (Some r, dk))) (\<lambda>doc.
     case from_parts (dm_crates dm) (dm_inventory dm) doc of
       Inl e \<Rightarrow> Fatal
     | Inr registry \<Rightarrow> Return registry)"

definition commit_op ::
    "'w daemon \<Rightarrow> (grant_registry \<Rightarrow> (registry_error + 'a) \<times> grant_registry) \<Rightarrow> state_doc
      \<Rightarrow> (snapshot_error + (registry_error + 'a) \<times> state_doc) option" where
  "commit_op dm opr doc =
     (case from_parts (dm_crates dm) (dm_inventory dm) doc of
        Inl e \<Rightarrow> Some (Err e)
      | Inr registry \<Rightarrow>
          (case opr registry of
             (Inr value, registry) \<Rightarrow> Some (Ok (Ok value, snapshot (dm_crates dm) registry))
           | (Inl refusal, _) \<Rightarrow> Some (Ok (Err refusal, doc))))"

definition with_registry ::
    "'w daemon \<Rightarrow> (grant_registry \<Rightarrow> (registry_error + 'a) \<times> grant_registry)
      \<Rightarrow> ('w sys, registry_error + 'a) prog" where
  "with_registry dm opr = lift_store (store_mutate (commit_op dm opr))"

definition with_read_registry ::
    "'w daemon \<Rightarrow> (grant_registry \<Rightarrow> registry_error + 'a) \<Rightarrow> ('w sys, registry_error + 'a) prog" where
  "with_read_registry dm opr = and_then (load_registry dm) (\<lambda>registry. Return (opr registry))"

section \<open>Hosts and policy\<close>

definition dm_host :: "'w daemon \<Rightarrow> string \<Rightarrow> host option" where
  "dm_host dm name = find (\<lambda>h. h_name h = name) (inv_hosts (dm_inventory dm))"

definition declared :: "'w daemon \<Rightarrow> string \<Rightarrow> channel list" where
  "declared dm name = (case dm_host dm name of Some h \<Rightarrow> h_channels h | None \<Rightarrow> [])"

definition unverified :: "host \<Rightarrow> channel \<Rightarrow> bool" where
  "unverified h c =
     (case c of
        Http \<Rightarrow> (case h_http h of Some cfg \<Rightarrow> (case http_verify cfg of VerifyNone _ \<Rightarrow> True | _ \<Rightarrow> False) | None \<Rightarrow> False)
      | Mqtt \<Rightarrow> (case h_mqtt h of Some cfg \<Rightarrow> (case mqtt_verify cfg of VerifyNone _ \<Rightarrow> True | _ \<Rightarrow> False) | None \<Rightarrow> False)
      | Serial \<Rightarrow>
          (case h_serial h of Some cfg \<Rightarrow> (case serial_verify cfg of VerifyNone _ \<Rightarrow> True | _ \<Rightarrow> False) | None \<Rightarrow> False)
      | _ \<Rightarrow> False)"

definition narrowings_for :: "crates \<Rightarrow> host \<Rightarrow> channel list \<Rightarrow> string list option" where
  "narrowings_for X h applied =
     (let out = map (\<lambda>c. ''channel '' @ channel_debug c @ '' on '' @ debug_str X (h_name h)
                   @ '' opened with verify = \"none\": the request's own expectation was the only oracle; ''
                   @ ''actual device state was not read back'') (filter (unverified h) applied)
      in if out = [] then None else Some out)"

definition wants_deadman :: "host \<Rightarrow> channel list \<Rightarrow> bool" where
  "wants_deadman h applied \<longleftrightarrow> h_ssh h \<noteq> None \<and> list_ex (\<lambda>c. c = Ssh \<or> c = AuthorizedKeys) applied"

definition permitted_profiles :: "authority_model \<Rightarrow> host \<Rightarrow> string list" where
  "permitted_profiles m h = (case h_access h of Some access \<Rightarrow> ha_profiles access | None \<Rightarrow> profile_ids m)"

definition resolve_authority :: "crates \<Rightarrow> authority_model \<Rightarrow> host \<Rightarrow> string \<Rightarrow> string + authority" where
  "resolve_authority X m h prof =
     (if prof \<notin> set (permitted_profiles m h)
      then Err (''host '' @ debug_str X (h_name h) @ '' does not permit approval profile '' @ debug_str X prof)
      else case (case h_access h of Some access \<Rightarrow> bt_get (ha_overrides access) prof | None \<Rightarrow> None) of
             Some body \<Rightarrow> map_err (authority_error_display X) (resolve_override X m prof body)
           | None \<Rightarrow> ok_or (''approval profile '' @ debug_str X prof @ '' is not defined'') (profile m prof))"

definition describe_missing :: "crates \<Rightarrow> missing list \<Rightarrow> string list" where
  "describe_missing X ms =
     map (\<lambda>m. case m of
        MAuthenticator i \<Rightarrow> ''a proof from '' @ debug_str X i
      | MGroup i \<Rightarrow> ''a grant from '' @ debug_str X i
      | MWait remaining \<Rightarrow> ''+'' @ show_nat (as_secs remaining) @ ''s wait'') ms"

text \<open>\<open>None\<close> is an evaluation that does not return.\<close>

definition progress ::
    "'w daemon \<Rightarrow> authority option \<Rightarrow> string fset \<Rightarrow> duration \<Rightarrow> (nat \<times> nat \<times> string list) option" where
  "progress dm au satisfied elapsed =
     (case (dm_approval dm, au) of
        (Some m, Some a) \<Rightarrow>
          map_option (\<lambda>out. (o_weight out, o_threshold out, describe_missing (dm_crates dm) (o_missing out)))
            (evaluate m a satisfied elapsed)
      | _ \<Rightarrow> Some (0, 1, [''any approval token (dry-run)'']))"

definition resolve_open_profile :: "'w daemon \<Rightarrow> string \<Rightarrow> string option \<Rightarrow> string option" where
  "resolve_open_profile dm host prof =
     Option.bind (dm_approval dm) (\<lambda>m.
     Option.bind (dm_host dm host) (\<lambda>h.
     case prof of
       Some p \<Rightarrow> Some p
     | None \<Rightarrow> (case permitted_profiles m h of [only] \<Rightarrow> Some only | _ \<Rightarrow> None)))"

definition pending_profile :: "'w daemon \<Rightarrow> string \<Rightarrow> system_time \<Rightarrow> ('w sys, string option) prog" where
  "pending_profile dm host now =
     and_then (load_registry dm) (\<lambda>registry.
     Return (case reg_pending_view host now registry of Inl _ \<Rightarrow> None | Inr v \<Rightarrow> Some (pv_profile v)))"

definition needs_policy :: string where
  "needs_policy = ''the MCP front door requires an approval policy; this daemon runs --dry-run (no policy)''"

text \<open>The front-door gate: the reason to refuse an operation that arrived on the MCP socket.\<close>

definition gate_profile :: "'w daemon \<Rightarrow> string \<Rightarrow> string option \<Rightarrow> string option" where
  "gate_profile dm host prof =
     (case (prof, dm_approval dm) of
        (Some p, Some m) \<Rightarrow>
          if mcp_allowed m p then None
          else Some (''profile '' @ debug_str (dm_crates dm) p @ '' on host '' @ debug_str (dm_crates dm) host
            @ '' is not reachable via the MCP front door (set `mcp = true` on the profile to allow it)'')
      | _ \<Rightarrow> None)"

definition mcp_gate :: "'w daemon \<Rightarrow> op \<Rightarrow> system_time \<Rightarrow> ('w sys, string option) prog" where
  "mcp_gate dm opr now =
     (case opr of
        OpOpen host _ prof \<Rightarrow>
          if dm_approval dm = None then Return (Some needs_policy)
          else Return (gate_profile dm host (resolve_open_profile dm host prof))
      | OpApprove host _ \<Rightarrow>
          if dm_approval dm = None then Return (Some needs_policy)
          else and_then (pending_profile dm host now) (\<lambda>prof. Return (gate_profile dm host prof))
      | OpDrill _ \<Rightarrow> Return (Some ''drill is an operator action, not available over the MCP front door'')
      | _ \<Rightarrow> Return None)"

definition dm_status :: "'w daemon \<Rightarrow> system_time \<Rightarrow> ('w sys, grant_line list) prog" where
  "dm_status dm now = and_then (load_registry dm) (\<lambda>registry. Return (status_lines registry now))"

section \<open>Proofs\<close>

definition starts_with :: "string \<Rightarrow> string \<Rightarrow> bool" where
  "starts_with p s \<longleftrightarrow> take (length p) s = p"

primrec try_fido2 ::
    "'w daemon \<Rightarrow> string \<Rightarrow> string \<Rightarrow> fido2_error option \<Rightarrow> (string \<times> fido2_credential) list
      \<Rightarrow> ('w sys, approval_error + string) prog" where
  "try_fido2 dm trimmed challenge matched_err [] =
     Return (Err (case matched_err of
        Some (FMalformed m) \<Rightarrow> Malformed m
      | Some _ \<Rightarrow> BadSignature
      | None \<Rightarrow> UnknownApprover ''no configured FIDO2 credential matches this assertion''))"
| "try_fido2 dm trimmed challenge matched_err (c # cs) =
     (case fido2_verify (dm_crates dm) (snd c) trimmed challenge of
        Inr _ \<Rightarrow>
          (case token_counter (dm_crates dm) trimmed of
             Inl _ \<Rightarrow> Fatal
           | Inr counter \<Rightarrow>
               and_then (try_act (\<lambda>s.
                   case fido2_observe (dm_crates dm) (f_credential_id (snd c)) (unat counter) (sy_fido2_counters s) of
                     (r, dk) \<Rightarrow> (Some r, s\<lparr>sy_fido2_counters := dk\<rparr>))) (\<lambda>verdict.
               Return (case verdict of CounterOk \<Rightarrow> Ok (fst c) | CounterRegressed \<Rightarrow> Err CloneSuspected)))
      | Inl e \<Rightarrow>
          if e = FWrongCredential then try_fido2 dm trimmed challenge matched_err cs
          else try_fido2 dm trimmed challenge (Some e) cs)"

primrec try_tpm ::
    "crates \<Rightarrow> string \<Rightarrow> string \<Rightarrow> string option \<Rightarrow> (string \<times> byte list) list
      \<Rightarrow> string option + string" where
  "try_tpm X trimmed challenge malformed [] = Inl malformed"
| "try_tpm X trimmed challenge malformed (c # cs) =
     (case tpm_verify X (snd c) trimmed challenge of
        Inr _ \<Rightarrow> Inr (fst c)
      | Inl (TpmMalformed m) \<Rightarrow> try_tpm X trimmed challenge (Some m) cs
      | Inl _ \<Rightarrow> try_tpm X trimmed challenge malformed cs)"

primrec try_hmac ::
    "crates \<Rightarrow> string \<Rightarrow> string \<Rightarrow> bool \<Rightarrow> (string \<times> byte list) list \<Rightarrow> bool + string" where
  "try_hmac X trimmed challenge malformed [] = Inl malformed"
| "try_hmac X trimmed challenge malformed (c # cs) =
     (case hmac_verify X (snd c) trimmed challenge of
        Inr _ \<Rightarrow> Inr (fst c)
      | Inl HmacMalformed \<Rightarrow> try_hmac X trimmed challenge True cs
      | Inl _ \<Rightarrow> try_hmac X trimmed challenge malformed cs)"

primrec try_totp ::
    "'w daemon \<Rightarrow> string \<Rightarrow> system_time \<Rightarrow> (string \<times> totp_secret) list
      \<Rightarrow> ('w sys, approval_error + string) prog" where
  "try_totp dm trimmed now [] =
     Return (Err (UnknownApprover ''no configured TOTP authenticator matches this code''))"
| "try_totp dm trimmed now (c # cs) =
     (case totp_matches (dm_crates dm) (snd c) trimmed now 1 of
        None \<Rightarrow> try_totp dm trimmed now cs
      | Some counter \<Rightarrow>
          and_then (try_act (\<lambda>s.
              case totp_consume (fst c) counter now (sy_totp_ledger s) of
                (r, dk) \<Rightarrow> (Some r, s\<lparr>sy_totp_ledger := dk\<rparr>))) (\<lambda>fresh.
          Return (if fresh then Ok (fst c) else Err AlreadyUsed)))"

primrec try_password ::
    "crates \<Rightarrow> string \<Rightarrow> (string \<times> string) list \<Rightarrow> ('w sys, approval_error + string) prog" where
  "try_password X trimmed [] =
     Return (Err (UnknownApprover ''proof is not a recognized SSHSIG, TOTP code, or configured password''))"
| "try_password X trimmed (c # cs) =
     (case password_verify X (snd c) trimmed of
        Inr True \<Rightarrow> Return (Ok (fst c))
      | Inr False \<Rightarrow> try_password X trimmed cs
      | Inl _ \<Rightarrow> Fatal)"

definition verify_proof ::
    "'w daemon \<Rightarrow> authority_model \<Rightarrow> approval_request \<Rightarrow> string \<Rightarrow> system_time
      \<Rightarrow> ('w sys, approval_error + string) prog" where
  "verify_proof dm m request token now =
     (let X = dm_crates dm; trimmed = trim token; challenge = challenge_string (b64url_encode X) request in
      if starts_with ''-----BEGIN SSH SIGNATURE-----'' trimmed then Return (verify_ed25519 X m request token)
      else if starts_with ''lgfido2.'' trimmed then try_fido2 dm trimmed challenge None (fido2_credentials m)
      else if starts_with ''lgtpm.'' trimmed then
        Return (case try_tpm X trimmed challenge None (tpm_credentials m) of
            Inr i \<Rightarrow> Ok i
          | Inl (Some m') \<Rightarrow> Err (Malformed m')
          | Inl None \<Rightarrow>
              Err (if tpm_credentials m \<noteq> [] then BadSignature
                   else UnknownApprover ''no TPM authenticator is configured''))
      else if starts_with ''lghmac.'' trimmed then
        Return (case try_hmac X trimmed challenge False (dm_hmac_secrets dm) of
            Inr i \<Rightarrow> Ok i
          | Inl True \<Rightarrow> Err (Malformed ''lghmac token is not lghmac. + base64url of a 32-byte MAC'')
          | Inl False \<Rightarrow>
              Err (if dm_hmac_secrets dm \<noteq> [] then BadSignature
                   else UnknownApprover ''no hmac authenticator is configured''))
      else if trimmed \<noteq> [] \<and> list_all is_ascii_digit trimmed then try_totp dm trimmed now (dm_totp_secrets dm)
      else try_password X trimmed (dm_password_hashes dm))"

end
