(* ===== verification/Daemon.thy ===== *)
theory Daemon
  imports Lifecycle
begin

text \<open>
  \<open>daemon/src/lifecycle.rs\<close>, continued: the operations of the daemon, its pass and its boot recovery,
  and the part of \<open>daemon/src/listener.rs\<close> that answers one request line.
\<close>

section \<open>Requests\<close>

definition refuse :: "string \<Rightarrow> ('s, response) prog" where
  "refuse reason = Return (response_refused reason)"

definition refuse_registry :: "'w daemon \<Rightarrow> registry_error \<Rightarrow> ('s, response) prog" where
  "refuse_registry dm e = refuse (registry_error_display (dm_crates dm) e)"

text \<open>The profile an \<open>open\<close> is recorded under and its authority; \<open>None\<close> is a wait search that does not return.\<close>

definition choose_profile ::
    "'w daemon \<Rightarrow> host \<Rightarrow> string option \<Rightarrow> (string + string \<times> authority option) option" where
  "choose_profile dm h prof =
     (let X = dm_crates dm; name = debug_str X (h_name h) in
      case dm_approval dm of
        None \<Rightarrow> Some (Ok (dry_run_profile, None))
      | Some m \<Rightarrow>
          (case (case prof of
                   Some p \<Rightarrow> Ok p
                 | None \<Rightarrow>
                     (case permitted_profiles m h of
                        [only] \<Rightarrow> Ok only
                      | [] \<Rightarrow> Err (''host '' @ name @ '' permits no approval profiles'')
                      | ps \<Rightarrow> Err (''host '' @ name @ '' permits '' @ show_nat (length ps) @ '' profiles (''
                               @ join_with '', '' ps @ ''); specify --as <profile>''))) of
             Inl reason \<Rightarrow> Some (Err reason)
           | Inr chosen \<Rightarrow>
               (case resolve_authority X m h chosen of
                  Inl reason \<Rightarrow> Some (Err reason)
                | Inr au \<Rightarrow>
                    map_option (\<lambda>wait.
                      if wait \<ge> dm_approval_window dm
                      then Err (''profile '' @ debug_str X chosen @ '' needs a wait of '' @ show_nat (as_secs wait)
                             @ ''s, but the approval window is only '' @ show_nat (as_secs (dm_approval_window dm))
                             @ ''s; raise --approval-window'')
                      else Ok (chosen, Some au)) (max_wait m au))))"

definition request_open ::
    "'w daemon \<Rightarrow> string \<Rightarrow> ttl \<Rightarrow> string \<Rightarrow> authority option \<Rightarrow> system_time \<Rightarrow> system_time
      \<Rightarrow> ('w sys, response) prog" where
  "request_open dm host t chosen au deadline now =
     and_then (generate_nonce dm) (\<lambda>nonce.
     and_then (with_registry dm (reg_begin_pending host now deadline t nonce chosen)) (\<lambda>r.
     case r of
       Inl refusal \<Rightarrow> refuse_registry dm refusal
     | Inr _ \<Rightarrow>
         and_then (journal_event now (EvRequested host (declared dm host)
           (as_secs (ttl_duration t)) (epoch_secs now) (epoch_secs deadline))) (\<lambda>_.
         and_then (expect_some (progress dm au {||} 0)) (\<lambda>(weight, threshold, miss).
         Return (response_ok\<lparr>re_pending := Some
           \<lparr>pc_host = host,
            pc_challenge = challenge_string (b64url_encode (dm_crates dm))
              (approval_request_new nonce host (as_secs (ttl_duration t)) now),
            pc_ttl_secs = as_secs (ttl_duration t), pc_requested_at = epoch_secs now,
            pc_approval_deadline = epoch_secs deadline, pc_profile = chosen,
            pc_weight = weight, pc_threshold = threshold, pc_missing = miss\<rparr>\<rparr>)))))"

definition dm_open ::
    "'w daemon \<Rightarrow> string \<Rightarrow> string \<Rightarrow> string option \<Rightarrow> system_time \<Rightarrow> ('w sys, response) prog" where
  "dm_open dm host ttl_str prof now =
     (case ttl_parse ttl_str of
        Inl e \<Rightarrow> refuse (ttl_error_display (dm_crates dm) e)
      | Inr t \<Rightarrow>
          (case dm_host dm host of
             None \<Rightarrow> refuse_registry dm (UnknownHost host)
           | Some host_cfg \<Rightarrow>
               and_then (expect_some (choose_profile dm host_cfg prof)) (\<lambda>choice.
               case choice of
                 Inl reason \<Rightarrow> refuse reason
               | Inr (chosen, au) \<Rightarrow>
                   (case checked_add_time now (dm_approval_window dm) of
                      None \<Rightarrow> refuse ''the approval window overflows the clock''
                    | Some deadline \<Rightarrow> request_open dm host t chosen au deadline now))))"

section \<open>Opening\<close>

definition already_opening_response :: "'w daemon \<Rightarrow> string \<Rightarrow> system_time \<Rightarrow> ('w sys, response) prog" where
  "already_opening_response dm host now =
     and_then (load_registry dm) (\<lambda>registry.
     case reg_status host now registry of
       Inr (StOpen remaining) \<Rightarrow> Return (response_ok\<lparr>re_expires_at := Some (epoch_secs now + as_secs remaining)\<rparr>)
     | Inr StOpening \<Rightarrow> Return (response_ok\<lparr>re_outcome := Some ''opening''\<rparr>)
     | _ \<Rightarrow> refuse ''the request is no longer awaiting approval'')"

primrec first_secret :: "'w driver_set \<Rightarrow> channel list \<Rightarrow> 'w \<Rightarrow> (channel \<times> secret) option \<times> 'w" where
  "first_secret ds [] w = (None, w)"
| "first_secret ds (c # cs) w =
     (case ds_take_secret ds c w of
        (Some s, w) \<Rightarrow> (Some (c, s), w)
      | (None, w) \<Rightarrow> first_secret ds cs w)"

definition opened_response ::
    "'w daemon \<Rightarrow> host \<Rightarrow> channel list \<Rightarrow> system_time \<Rightarrow> (channel \<times> secret) option \<Rightarrow> response" where
  "opened_response dm h applied expires produced =
     (let ok = response_ok\<lparr>re_expires_at := Some (epoch_secs expires),
                 re_narrowings := narrowings_for (dm_crates dm) h applied\<rparr>
      in case produced of
           None \<Rightarrow> ok
         | Some (c, s) \<Rightarrow>
             if c = Vnc
             then ok\<lparr>re_secret := Some s, re_secret_label := Some ''one-time VNC password'',
               re_outcome := map_option (\<lambda>v. ''vnc console at 127.0.0.1:'' @ show_nat (unat (vnc_local_port v)))
                 (h_vnc h)\<rparr>
             else ok\<lparr>re_secret := Some s, re_secret_label := Some ''break-glass BMC password''\<rparr>)"

text \<open>The commit both failure paths share: an abort when nothing stuck, else needing a revert.\<close>

definition commit_failed_open ::
    "'w daemon \<Rightarrow> string \<Rightarrow> channel list \<Rightarrow> system_time \<Rightarrow> ('w sys, unit) prog" where
  "commit_failed_open dm host stuck now =
     (if stuck = [] then and_then (with_registry dm (reg_abort_open host)) expect
      else and_then (with_registry dm (reg_fail_open host stuck now)) expect)"

definition install_deadman ::
    "'w daemon \<Rightarrow> host \<Rightarrow> channel list \<Rightarrow> system_time \<Rightarrow> ('w sys, driver_error + unit) prog" where
  "install_deadman dm h applied expires =
     (if wants_deadman h applied then with_world (dc_install (dm_deadman dm) h expires) else Return (Ok ()))"

text \<open>The backstop could not be installed: what was just applied is undone.\<close>

definition undo_open ::
    "'w daemon \<Rightarrow> string \<Rightarrow> host \<Rightarrow> channel list \<Rightarrow> driver_error \<Rightarrow> system_time \<Rightarrow> ('w sys, response) prog" where
  "undo_open dm host h applied e now =
     and_then (with_world (revert_channels (dm_drivers dm) h applied)) (\<lambda>out.
     let stuck = (case out of Reverted \<Rightarrow> [] | Stuck stuck \<Rightarrow> map fst stuck) in
     and_then (commit_failed_open dm host stuck now) (\<lambda>_.
     and_then (journal_event now (EvOpenFailed host Ssh stuck
       (''dead-man install failed: '' @ driver_error_display e))) (\<lambda>_.
     refuse (''open refused: the dead-man backstop could not be installed ('' @ driver_error_display e
       @ ''); a grant without its backstop must not exist''))))"

text \<open>Everything is in place: the grant is committed open and a one-time credential handed back.\<close>

definition land_open ::
    "'w daemon \<Rightarrow> string \<Rightarrow> host \<Rightarrow> channel list \<Rightarrow> channel list \<Rightarrow> nat \<Rightarrow> system_time \<Rightarrow> system_time
      \<Rightarrow> ('w sys, response) prog" where
  "land_open dm host h applied decl ttl_secs expires now =
     and_then (with_registry dm (reg_finish_open host)) (\<lambda>r.
     and_then (expect r) (\<lambda>_.
     and_then (journal_event now (EvOpen host applied decl ttl_secs (epoch_secs expires))) (\<lambda>_.
     and_then (with_world (first_secret (dm_drivers dm) applied)) (\<lambda>produced.
     Return (opened_response dm h applied expires produced)))))"

definition drive_open ::
    "'w daemon \<Rightarrow> string \<Rightarrow> host \<Rightarrow> channel list \<Rightarrow> channel list \<Rightarrow> nat \<Rightarrow> system_time \<Rightarrow> system_time
      \<Rightarrow> ('w sys, response) prog" where
  "drive_open dm host h to_apply decl ttl_secs expires now =
     and_then (with_world (\<lambda>w.
         case apply_channels (dm_drivers dm) h to_apply \<lparr>ctx_ttl_secs = ttl_secs, ctx_expires_at = expires\<rparr> w of
           None \<Rightarrow> (None, w)
         | Some (out, w) \<Rightarrow> (Some out, w))) (\<lambda>out.
     and_then (expect_some out) (\<lambda>out.
     case out of
       Applied applied \<Rightarrow>
         and_then (install_deadman dm h applied expires) (\<lambda>installed.
         case installed of
           Inl e \<Rightarrow> undo_open dm host h applied e now
         | Inr _ \<Rightarrow> land_open dm host h applied decl ttl_secs expires now)
     | Failed failed e _ stuck \<Rightarrow>
         and_then (commit_failed_open dm host stuck now) (\<lambda>_.
         and_then (journal_event now (EvOpenFailed host failed stuck (driver_error_display e))) (\<lambda>_.
         refuse (''open failed on '' @ channel_debug failed @ '': '' @ driver_error_display e @ ''; ''
           @ (if stuck = [] then ''all channels reverted''
              else ''channels awaiting revert: '' @ channels_debug stuck))))))"

definition open_pending_now ::
    "'w daemon \<Rightarrow> string \<Rightarrow> host \<Rightarrow> system_time \<Rightarrow> system_time \<Rightarrow> ('w sys, response) prog" where
  "open_pending_now dm host h requested_at now =
     (let decl = declared dm host; to_apply = drivable (dm_drivers dm) decl in
      and_then (with_registry dm (reg_approve_to_opening host now to_apply)) (\<lambda>r.
      case r of
        Inr expires \<Rightarrow>
          and_then (journal_event now (EvApproved host (epoch_secs requested_at))) (\<lambda>_.
          drive_open dm host h to_apply decl
            (case duration_since expires now of Some d \<Rightarrow> as_secs d | None \<Rightarrow> 0) expires now)
      | Inl (GrantErr NotPending) \<Rightarrow> already_opening_response dm host now
      | Inl refusal \<Rightarrow> refuse_registry dm refusal))"

definition pending_response ::
    "'w daemon \<Rightarrow> string \<Rightarrow> pending_view \<Rightarrow> authority \<Rightarrow> ('w sys, response) prog" where
  "pending_response dm host view au =
     and_then (expect_some (progress dm (Some au) (pv_satisfied view) (pv_elapsed view))) (\<lambda>(weight, threshold, miss).
     Return (response_ok\<lparr>re_pending := Some
       \<lparr>pc_host = host, pc_challenge = [], pc_ttl_secs = 0, pc_requested_at = epoch_secs (pv_requested_at view),
        pc_approval_deadline = 0, pc_profile = pv_profile view, pc_weight = weight, pc_threshold = threshold,
        pc_missing = miss\<rparr>\<rparr>))"

text \<open>Re-evaluating the authority of a pending request: opening it, or reporting progress.\<close>

definition weigh_proofs ::
    "'w daemon \<Rightarrow> authority_model \<Rightarrow> string \<Rightarrow> host \<Rightarrow> system_time \<Rightarrow> ('w sys, response) prog" where
  "weigh_proofs dm m host h now =
     and_then (with_read_registry dm (reg_pending_view host now)) (\<lambda>r.
     case r of
       Inl refusal \<Rightarrow> refuse_registry dm refusal
     | Inr view \<Rightarrow>
         (case resolve_authority (dm_crates dm) m h (pv_profile view) of
            Inl reason \<Rightarrow> refuse reason
          | Inr au \<Rightarrow>
              and_then (expect_some (evaluate m au (pv_satisfied view) (pv_elapsed view))) (\<lambda>out.
              if o_met out then open_pending_now dm host h (pv_requested_at view) now
              else pending_response dm host view au)))"

definition accept_proof ::
    "'w daemon \<Rightarrow> authority_model \<Rightarrow> string \<Rightarrow> host \<Rightarrow> string \<Rightarrow> system_time \<Rightarrow> ('w sys, response) prog" where
  "accept_proof dm m host h authenticator now =
     and_then (with_registry dm (reg_add_satisfied host now authenticator)) (\<lambda>r.
     case r of
       Inl refusal \<Rightarrow> refuse_registry dm refusal
     | Inr newly \<Rightarrow>
         and_then (if newly then journal_event now (EvProofAccepted host authenticator) else Return ()) (\<lambda>_.
         weigh_proofs dm m host h now))"

definition approve :: "'w daemon \<Rightarrow> string \<Rightarrow> string \<Rightarrow> system_time \<Rightarrow> ('w sys, response) prog" where
  "approve dm host token now =
     and_then (load_registry dm) (\<lambda>registry.
     case reg_pending host now registry of
       Inl refusal \<Rightarrow> refuse_registry dm refusal
     | Inr request \<Rightarrow>
         and_then (expect_some (dm_host dm host)) (\<lambda>host_cfg.
         case dm_approval dm of
           None \<Rightarrow> open_pending_now dm host host_cfg (ar_requested_at request) now
         | Some m \<Rightarrow>
             and_then (verify_proof dm m request token now) (\<lambda>verdict.
             case verdict of
               Inl e \<Rightarrow>
                 (let reason = approval_error_display (dm_crates dm) e in
                  and_then (journal_event now (EvApprovalDenied host reason)) (\<lambda>_.
                  refuse (''approval refused: '' @ reason)))
             | Inr authenticator \<Rightarrow> accept_proof dm m host host_cfg authenticator now)))"

section \<open>Renewing\<close>

definition open_channels_of :: "string \<Rightarrow> system_time \<Rightarrow> grant_registry \<Rightarrow> channel list" where
  "open_channels_of host now registry =
     (case find (\<lambda>hc. fst hc = host) (open_channels now registry) of Some hc \<Rightarrow> snd hc | None \<Rightarrow> [])"

definition reschedule_deadman :: "'w daemon \<Rightarrow> host \<Rightarrow> system_time \<Rightarrow> ('w sys, driver_error + unit) prog" where
  "reschedule_deadman dm h expires =
     (if h_ssh h \<noteq> None then with_world (dc_reschedule (dm_deadman dm) h expires) else Return (Ok ()))"

text \<open>Telling the backstop and the channels the new deadline; the refusal text when one cannot be told.\<close>

definition announce_renewal ::
    "'w daemon \<Rightarrow> string \<Rightarrow> host \<Rightarrow> ttl \<Rightarrow> system_time \<Rightarrow> system_time \<Rightarrow> ('w sys, string + unit) prog" where
  "announce_renewal dm host h t expires now =
     and_then (reschedule_deadman dm h expires) (\<lambda>r.
     case r of
       Inl e \<Rightarrow> Return (Err (''renewal refused: the dead-man backstop could not be rescheduled (''
                  @ driver_error_display e @ '')''))
     | Inr _ \<Rightarrow>
         and_then (load_registry dm) (\<lambda>registry.
         let channels = open_channels_of host now registry in
         if channels = [] then Return (Ok ())
         else
           and_then (with_world (renew_channels (dm_drivers dm) h channels
             \<lparr>ctx_ttl_secs = as_secs (ttl_duration t), ctx_expires_at = expires\<rparr>)) (\<lambda>r.
           Return (map_err (\<lambda>(c, e). ''renewal refused: channel '' @ channel_debug c
             @ '' could not be told the new deadline ('' @ driver_error_display e @ '')'') r))))"

definition commit_renewal :: "'w daemon \<Rightarrow> string \<Rightarrow> ttl \<Rightarrow> system_time \<Rightarrow> ('w sys, response) prog" where
  "commit_renewal dm host t now =
     and_then (with_registry dm (reg_renew host now t)) (\<lambda>r.
     case r of
       Inl refusal \<Rightarrow> refuse_registry dm refusal
     | Inr expires \<Rightarrow>
         and_then (journal_event now (EvRenew host (as_secs (ttl_duration t)) (epoch_secs expires))) (\<lambda>_.
         Return (response_ok\<lparr>re_expires_at := Some (epoch_secs expires)\<rparr>)))"

definition dm_renew :: "'w daemon \<Rightarrow> string \<Rightarrow> string \<Rightarrow> system_time \<Rightarrow> ('w sys, response) prog" where
  "dm_renew dm host ttl_str now =
     (case ttl_parse ttl_str of
        Inl e \<Rightarrow> refuse (ttl_error_display (dm_crates dm) e)
      | Inr t \<Rightarrow>
          and_then (load_registry dm) (\<lambda>probe.
          case fst (reg_renew host now t probe) of
            Inl refusal \<Rightarrow> refuse_registry dm refusal
          | Inr expires \<Rightarrow>
              and_then (case dm_host dm host of
                          Some h \<Rightarrow> announce_renewal dm host h t expires now
                        | None \<Rightarrow> Return (Ok ())) (\<lambda>told.
              case told of
                Inl reason \<Rightarrow> refuse reason
              | Inr _ \<Rightarrow> commit_renewal dm host t now)))"

section \<open>Closing\<close>

datatype revert_progress = RpClosed | RpStuck "channel list"

definition remove_deadman :: "'w daemon \<Rightarrow> host \<Rightarrow> ('w sys, driver_error + bool) prog" where
  "remove_deadman dm h =
     (if h_ssh h \<noteq> None then with_world (dc_remove (dm_deadman dm) h) else Return (Ok False))"

definition retry_removal ::
    "'w daemon \<Rightarrow> string \<Rightarrow> channel list \<Rightarrow> driver_error \<Rightarrow> ('w sys, revert_progress) prog" where
  "retry_removal dm host channels e =
     and_then (println (''lychgated: '' @ host @ '' channels reverted but the dead-man removal failed (''
       @ driver_error_display e @ ''); retrying next pass'')) (\<lambda>_.
     and_then (with_registry dm (reg_retain_stuck host channels)) (\<lambda>_.
     Return (RpStuck channels)))"

definition finish_reverted ::
    "'w daemon \<Rightarrow> string \<Rightarrow> bool \<Rightarrow> system_time \<Rightarrow> ('w sys, revert_progress) prog" where
  "finish_reverted dm host fired now =
     and_then (with_registry dm (reg_finish_revert host)) (\<lambda>r.
     case r of
       Inr _ \<Rightarrow> and_then (journal_event now (EvClose host fired)) (\<lambda>_. Return RpClosed)
     | Inl e \<Rightarrow> if e = GrantErr NotOpen then Return RpClosed else Fatal)"

definition keep_stuck :: "'w daemon \<Rightarrow> string \<Rightarrow> channel list \<Rightarrow> ('w sys, revert_progress) prog" where
  "keep_stuck dm host stuck =
     and_then (with_registry dm (reg_retain_stuck host stuck)) (\<lambda>r.
     case r of
       Inr changed \<Rightarrow>
         and_then (if changed
                   then println (''lychgated: '' @ host @ '' revert incomplete, still stuck: '' @ channels_debug stuck)
                   else Return ()) (\<lambda>_. Return (RpStuck stuck))
     | Inl e \<Rightarrow> if e = GrantErr NotOpen then Return RpClosed else Fatal)"

definition drive_one_revert ::
    "'w daemon \<Rightarrow> string \<Rightarrow> channel list \<Rightarrow> system_time \<Rightarrow> ('w sys, revert_progress) prog" where
  "drive_one_revert dm host channels now =
     and_then (expect_some (dm_host dm host)) (\<lambda>h.
     and_then (with_world (revert_channels (dm_drivers dm) h channels)) (\<lambda>out.
     case out of
       Reverted \<Rightarrow>
         and_then (remove_deadman dm h) (\<lambda>removed.
         case removed of
           Inl e \<Rightarrow> retry_removal dm host channels e
         | Inr fired \<Rightarrow> finish_reverted dm host fired now)
     | Stuck stuck \<Rightarrow> keep_stuck dm host (map fst stuck)))"

definition cancel_request :: "'w daemon \<Rightarrow> string \<Rightarrow> system_time \<Rightarrow> ('w sys, response) prog" where
  "cancel_request dm host now =
     and_then (with_registry dm (reg_cancel_pending host)) (\<lambda>r.
     and_then (expect r) (\<lambda>_.
     and_then (journal_event now (EvRequestCancelled host)) (\<lambda>_.
     Return (response_ok\<lparr>re_outcome := Some ''cancelled''\<rparr>))))"

definition revert_grant :: "'w daemon \<Rightarrow> string \<Rightarrow> system_time \<Rightarrow> ('w sys, response) prog" where
  "revert_grant dm host now =
     and_then (with_registry dm (reg_begin_revert host now)) (\<lambda>r.
     case r of
       Inl e \<Rightarrow>
         if e = GrantErr NotOpen then Return (response_ok\<lparr>re_outcome := Some ''already-closed''\<rparr>)
         else refuse_registry dm e
     | Inr channels \<Rightarrow>
         and_then (drive_one_revert dm host channels now) (\<lambda>prog.
         case prog of
           RpClosed \<Rightarrow> Return (response_ok\<lparr>re_outcome := Some ''closed''\<rparr>)
         | RpStuck stuck \<Rightarrow>
             refuse (''close of '' @ debug_str (dm_crates dm) host @ '' incomplete; channels awaiting revert: ''
               @ channels_debug stuck @ '' (retried on every pass)'')))"

definition dm_close :: "'w daemon \<Rightarrow> string \<Rightarrow> system_time \<Rightarrow> ('w sys, response) prog" where
  "dm_close dm host now =
     and_then (load_registry dm) (\<lambda>registry.
     if (case reg_status host now registry of
           Inr (StAwaitingApproval _) \<Rightarrow> True | Inr StApprovalExpired \<Rightarrow> True | _ \<Rightarrow> False)
     then cancel_request dm host now
     else revert_grant dm host now)"

section \<open>Drills\<close>

definition drill_failed :: "'w daemon \<Rightarrow> string \<Rightarrow> system_time \<Rightarrow> string \<Rightarrow> ('w sys, response) prog" where
  "drill_failed dm host now reason =
     and_then (journal_event now (EvDrillFailed host reason)) (\<lambda>_.
     refuse (''drill FAILED on '' @ debug_str (dm_crates dm) host @ '': '' @ reason))"

definition or_else :: "'a \<Rightarrow> 'a option \<Rightarrow> 'a" where
  "or_else d x = (case x of Some a \<Rightarrow> a | None \<Rightarrow> d)"

text \<open>The canary's transient grant, opened without a proof and closed again.\<close>

definition drill_revert :: "'w daemon \<Rightarrow> string \<Rightarrow> response \<Rightarrow> system_time \<Rightarrow> ('w sys, response) prog" where
  "drill_revert dm host opened now =
     (if re_result opened \<noteq> ResOk \<or> re_expires_at opened = None
      then
        and_then (attempt (dm_close dm host now)) (\<lambda>_.
        drill_failed dm host now
          (or_else ''the canary did not open (channel apply failed)'' (re_error opened)))
      else
        and_then (dm_close dm host now) (\<lambda>closed.
        if re_result closed \<noteq> ResOk
        then drill_failed dm host now (or_else ''the revert did not complete'' (re_error closed))
        else
          and_then (journal_event now (EvDrillPassed host)) (\<lambda>_.
          Return (response_ok\<lparr>re_outcome := Some (''drill passed: '' @ host @ '' opened and fully reverted'')\<rparr>))))"

definition drill_open :: "'w daemon \<Rightarrow> string \<Rightarrow> host \<Rightarrow> ttl \<Rightarrow> system_time \<Rightarrow> ('w sys, response) prog" where
  "drill_open dm host h t now =
     (let deadline = or_else now (checked_add_time now (dm_approval_window dm)) in
      and_then (generate_nonce dm) (\<lambda>nonce.
      and_then (with_registry dm (reg_begin_pending host now deadline t nonce drill_profile)) (\<lambda>r.
      case r of
        Inl refusal \<Rightarrow>
          drill_failed dm host now
            (''could not begin the drill: '' @ registry_error_display (dm_crates dm) refusal)
      | Inr _ \<Rightarrow>
          and_then (open_pending_now dm host h now now) (\<lambda>opened. drill_revert dm host opened now))))"

definition drill :: "'w daemon \<Rightarrow> string \<Rightarrow> system_time \<Rightarrow> ('w sys, response) prog" where
  "drill dm host now =
     (case dm_host dm host of
        None \<Rightarrow> refuse_registry dm (UnknownHost host)
      | Some h \<Rightarrow>
          if \<not> h_drill h
          then refuse (''host '' @ debug_str (dm_crates dm) host
            @ '' is not a drill canary (set `drill = true` on it to allow drills)'')
          else
            and_then (load_registry dm) (\<lambda>registry.
            if reg_status host now registry \<noteq> Ok StClosed
            then refuse (''canary '' @ debug_str (dm_crates dm) host @ '' is not idle (a drill needs it closed first)'')
            else
              (case ttl_parse ''5m'' of
                 Inl e \<Rightarrow> drill_failed dm host now (ttl_error_display (dm_crates dm) e)
               | Inr t \<Rightarrow> drill_open dm host h t now)))"

section \<open>Dispatch\<close>

definition op_host :: "op \<Rightarrow> string" where
  "op_host opr =
     (case opr of OpOpen h _ _ \<Rightarrow> h | OpApprove h _ \<Rightarrow> h | OpRenew h _ \<Rightarrow> h | OpClose h \<Rightarrow> h | OpDrill h \<Rightarrow> h
      | OpStatus \<Rightarrow> [])"

definition perform :: "'w daemon \<Rightarrow> op \<Rightarrow> system_time \<Rightarrow> ('w sys, response) prog" where
  "perform dm opr now =
     (case opr of
        OpOpen host t prof \<Rightarrow> dm_open dm host t prof now
      | OpApprove host token \<Rightarrow> approve dm host token now
      | OpRenew host t \<Rightarrow> dm_renew dm host t now
      | OpClose host \<Rightarrow> dm_close dm host now
      | OpStatus \<Rightarrow> and_then (dm_status dm now) (\<lambda>lines. Return (response_ok\<lparr>re_grants := Some lines\<rparr>))
      | OpDrill host \<Rightarrow> drill dm host now)"

definition dispatch_from :: "'w daemon \<Rightarrow> op \<Rightarrow> system_time \<Rightarrow> origin \<Rightarrow> ('w sys, response) prog" where
  "dispatch_from dm opr now orig =
     and_then (if orig = Mcp then mcp_gate dm opr now else Return None) (\<lambda>gate.
     case gate of
       Some reason \<Rightarrow> and_then (journal_event now (EvMcpRefused (op_host opr) reason)) (\<lambda>_. refuse reason)
     | None \<Rightarrow> perform dm opr now)"

definition dispatch :: "'w daemon \<Rightarrow> op \<Rightarrow> system_time \<Rightarrow> ('w sys, response) prog" where
  "dispatch dm opr now = dispatch_from dm opr now Operator"

text \<open>One connection of \<open>listener.rs\<close>: the request line that was read, and the response to encode.\<close>

definition answer_line :: "'w daemon \<Rightarrow> proto_json \<Rightarrow> origin \<Rightarrow> string \<Rightarrow> system_time \<Rightarrow> ('w sys, response) prog" where
  "answer_line dm J orig line now =
     (case decode_request J (trim_end_matches (char_of (10 :: nat)) line) of
        Inl e \<Rightarrow> refuse (proto_error_display (dm_crates dm) e)
      | Inr opr \<Rightarrow>
          (case orig of
             Operator \<Rightarrow> dispatch dm opr now
           | Mcp \<Rightarrow> dispatch_from dm opr now Mcp))"

section \<open>Passes\<close>

definition report_line :: "grant_line \<Rightarrow> string option" where
  "report_line l =
     (let host = gl_host l; secs = show_nat (or_else 0 (gl_remaining_secs l)) in
      case gl_state l of
        WClosed \<Rightarrow> None
      | WAwaitingApproval \<Rightarrow> Some (''lychgated: '' @ host @ '' awaiting approval, '' @ secs @ ''s to approve'')
      | WApprovalExpired \<Rightarrow> Some (''lychgated: '' @ host @ '' approval expired'')
      | WOpening \<Rightarrow> Some (''lychgated: '' @ host @ '' opening'')
      | WOpen \<Rightarrow> Some (''lychgated: '' @ host @ '' open, '' @ secs @ ''s remaining'')
      | WExpired \<Rightarrow> Some (''lychgated: '' @ host @ '' expired, revert pending'')
      | WNeedsRevert \<Rightarrow>
          Some (''lychgated: '' @ host @ '' needs revert: '' @ channels_debug (or_else [] (gl_stuck_channels l))))"

definition report :: "'w daemon \<Rightarrow> system_time \<Rightarrow> ('w sys, unit) prog" where
  "report dm now = and_then (dm_status dm now) (\<lambda>lines. for_each println (List.map_filter report_line lines))"

definition reap_doc ::
    "'w daemon \<Rightarrow> system_time \<Rightarrow> state_doc
      \<Rightarrow> (snapshot_error + (expired_grant list \<times> expired_pending list) \<times> state_doc) option" where
  "reap_doc dm now doc =
     (case from_parts (dm_crates dm) (dm_inventory dm) doc of
        Inl e \<Rightarrow> Some (Err e)
      | Inr registry \<Rightarrow>
          Option.bind (reap_to_revert now registry) (\<lambda>(expired, registry).
          Option.bind (reap_expired_pending now registry) (\<lambda>(lapsed, registry).
          Some (Ok ((expired, lapsed), snapshot (dm_crates dm) registry)))))"

text \<open>A pending grant that a wait has tipped over its threshold.\<close>

definition open_matured :: "'w daemon \<Rightarrow> authority_model \<Rightarrow> system_time \<Rightarrow> string \<Rightarrow> ('w sys, unit) prog" where
  "open_matured dm m now host =
     and_then (expect_some (dm_host dm host)) (\<lambda>h.
     and_then (with_read_registry dm (reg_pending_view host now)) (\<lambda>r.
     case r of
       Inl _ \<Rightarrow> Return ()
     | Inr view \<Rightarrow>
         (case resolve_authority (dm_crates dm) m h (pv_profile view) of
            Inl _ \<Rightarrow> Return ()
          | Inr au \<Rightarrow>
              and_then (expect_some (evaluate m au (pv_satisfied view) (pv_elapsed view))) (\<lambda>met_now.
              and_then (expect_some (evaluate m au (pv_satisfied view) 0)) (\<lambda>met_without_time.
              if o_met met_now \<and> \<not> o_met met_without_time
              then and_then (open_pending_now dm host h (pv_requested_at view) now) (\<lambda>_. Return ())
              else Return ())))))"

definition dm_pass :: "'w daemon \<Rightarrow> system_time \<Rightarrow> ('w sys, unit) prog" where
  "dm_pass dm now =
     and_then (lift_store (store_mutate (reap_doc dm now))) (\<lambda>(expired, lapsed).
     and_then (for_each (\<lambda>e. journal_event now (EvExpire (eg_host e) (eg_channels e) (epoch_secs (eg_opened_at e))
       (epoch_secs (eg_expires_at e)))) expired) (\<lambda>_.
     and_then (for_each (\<lambda>e. journal_event now (EvRequestExpired (ep_host e) (epoch_secs (ep_requested_at e))
       (epoch_secs (ep_approval_deadline e)))) lapsed) (\<lambda>_.
     and_then (load_registry dm) (\<lambda>registry.
     and_then (for_each (\<lambda>hc. and_then (drive_one_revert dm (fst hc) (snd hc) now) (\<lambda>_. Return ()))
       (needing_revert now registry)) (\<lambda>_.
     and_then (case dm_approval dm of
         None \<Rightarrow> Return ()
       | Some m \<Rightarrow>
           and_then (load_registry dm) (\<lambda>registry.
           for_each (open_matured dm m now) (reg_awaiting_approval now registry))) (\<lambda>_.
     report dm now))))))"

section \<open>Boot\<close>

definition demote_doc ::
    "'w daemon \<Rightarrow> system_time \<Rightarrow> state_doc \<Rightarrow> (snapshot_error + (string \<times> channel list) list \<times> state_doc) option" where
  "demote_doc dm now doc =
     (case from_parts (dm_crates dm) (dm_inventory dm) doc of
        Inl e \<Rightarrow> Some (Err e)
      | Inr registry \<Rightarrow>
          map_option (\<lambda>(demoted, registry). Ok (demoted, snapshot (dm_crates dm) registry))
            (demote_opening now registry))"

definition first_or :: "'a \<Rightarrow> 'a list \<Rightarrow> 'a" where
  "first_or d xs = (case xs of [] \<Rightarrow> d | x # _ \<Rightarrow> x)"

definition reestablish_one :: "'w daemon \<Rightarrow> system_time \<Rightarrow> string \<times> channel list \<Rightarrow> ('w sys, unit) prog" where
  "reestablish_one dm now hc =
     (let host = fst hc; channels = snd hc in
      and_then (expect_some (dm_host dm host)) (\<lambda>h.
      and_then (with_world (reestablish_channels (dm_drivers dm) h channels)) (\<lambda>out.
      case out of
        Restored \<Rightarrow> journal_event now (EvReestablish host channels)
      | Lost lost \<Rightarrow>
          and_then (with_registry dm (reg_begin_revert host now)) (\<lambda>r.
          and_then (expect r) (\<lambda>_.
          and_then (journal_event now (EvOpenFailed host (first_or Vnc (map fst lost)) (map fst lost)
            (''daemon restarted; could not re-establish ''
             @ join_with ''; '' (map (\<lambda>ce. channel_debug (fst ce) @ '': '' @ driver_error_display (snd ce)) lost)))) (\<lambda>_.
          println (''lychgated: '' @ host @ '' could not be re-established after restart; reverting'')))))))"

definition reestablish_open :: "'w daemon \<Rightarrow> system_time \<Rightarrow> ('w sys, unit) prog" where
  "reestablish_open dm now =
     and_then (load_registry dm) (\<lambda>registry. for_each (reestablish_one dm now) (open_channels now registry))"

definition boot_recover :: "'w daemon \<Rightarrow> system_time \<Rightarrow> ('w sys, unit) prog" where
  "boot_recover dm now =
     and_then (lift_store (store_mutate (demote_doc dm now))) (\<lambda>demoted.
     and_then (for_each (\<lambda>hc.
       and_then (journal_event now (EvOpenFailed (fst hc) (first_or Ssh (snd hc)) (snd hc)
         ''daemon restarted mid-open; channels demoted to needs-revert'')) (\<lambda>_.
       println (''lychgated: '' @ fst hc @ '' was mid-open at last shutdown; demoted to needs-revert''))) demoted) (\<lambda>_.
     reestablish_open dm now))"

end
