(* ===== verification/Sim.thy ===== *)
theory Sim
  imports Daemon
begin

text \<open>
  \<open>daemon/src/sim.rs\<close>: the simulated users.  A shadow model predicts what the daemon must answer and
  report for one host under three approval profiles, a harness drives the daemon action by action on
  the scripted driver, compares and stops at the first complaint, and a shrinker reduces a failing
  sequence.  Instants are whole seconds; the texts of the complaints are left out.
\<close>

section \<open>The cast and the policy\<close>

datatype actor = Alice | Bob | Charlie

datatype sim_profile = Solo | Duo | Timed

definition sim_profile_id :: "sim_profile \<Rightarrow> string" where
  "sim_profile_id p = (case p of Solo \<Rightarrow> ''solo'' | Duo \<Rightarrow> ''duo'' | Timed \<Rightarrow> ''timed'')"

definition alice_pub :: string where
  "alice_pub = ''ssh-ed25519 AAAAC3NzaC1lZDI1NTE5AAAAIPciW1darvzoxtEhnoZsqt9esypGufKozUzBfudKGxQj sim-alice''"

definition bob_pub :: string where
  "bob_pub = ''ssh-ed25519 AAAAC3NzaC1lZDI1NTE5AAAAIDMbg7z7+J40kBdyyaQ7QL45h1xEfnANcLUSDJ8YVP97 sim-bob''"

definition sim_host_name :: string where
  "sim_host_name = ''db-01''"

definition wait_secs :: nat where
  "wait_secs = 30"

definition approval_window_secs :: nat where
  "approval_window_secs = 300"

definition sim_renewal_window_secs :: nat where
  "sim_renewal_window_secs = 2 * 60 * 60"

definition ttls :: "(string \<times> nat) list" where
  "ttls = [(''90s'', 90), (''15m'', 900), (''1h'', 3600), (''4h'', 14400)]"

definition ttl_at :: "nat \<Rightarrow> (string \<times> nat) option" where
  "ttl_at ix = (if ix < length ttls then Some (ttls ! ix) else None)"

text \<open>What \<open>Inventory::parse\<close> gives for the text the harness writes, the defaults filled in.\<close>

definition sim_ssh :: ssh_config where
  "sim_ssh = \<lparr>ssh_agent_user = ''root'', ssh_port = 22, ssh_root_posture_default = PostureNo,
     ssh_root_posture_emergency = PostureYes, ssh_authorized_keys_path = ''/root/.ssh/authorized_keys'',
     ssh_emergency_keys = [], ssh_identity_file = None, ssh_become_cmd = None, ssh_reload_cmd = None,
     ssh_dropin_path = None\<rparr>"

definition sim_host :: host where
  "sim_host = \<lparr>h_name = sim_host_name, h_address = ''10.0.4.11'', h_os = Linux, h_channels = [Ssh],
     h_ssh = Some sim_ssh, h_bmc = None, h_vnc = None, h_http = None, h_mqtt = None, h_serial = None,
     h_device = None, h_access = None, h_drill = False\<rparr>"

definition signer_spec :: "string \<Rightarrow> string \<Rightarrow> authenticator_spec" where
  "signer_spec i key = \<lparr>as_id = i, as_kind = KEd25519, as_public_key = Some key, as_secret_file = None,
     as_hash_file = None, as_alg = None, as_credential_id = None\<rparr>"

definition by_signer :: "string \<Rightarrow> factor_spec" where
  "by_signer i = \<lparr>fs_weight = 1, fs_authenticator = Some i, fs_group = None, fs_wait = None\<rparr>"

definition by_wait :: factor_spec where
  "by_wait = \<lparr>fs_weight = 1, fs_authenticator = None, fs_group = None, fs_wait = Some ''30s''\<rparr>"

definition sim_policy :: approval_spec where
  "sim_policy = \<lparr>sp_authenticator = [signer_spec ''alice'' alice_pub, signer_spec ''bob'' bob_pub],
     sp_group = [],
     sp_profile =
       [\<lparr>ps_id = ''solo'', ps_threshold = 1, ps_factor = [by_signer ''alice''], ps_mcp = False\<rparr>,
        \<lparr>ps_id = ''duo'', ps_threshold = 2, ps_factor = [by_signer ''alice'', by_signer ''bob''], ps_mcp = False\<rparr>,
        \<lparr>ps_id = ''timed'', ps_threshold = 2, ps_factor = [by_signer ''alice'', by_wait], ps_mcp = False\<rparr>]\<rparr>"

definition sim_inventory :: inventory where
  "sim_inventory = \<lparr>inv_hosts = [sim_host], inv_signing = None, inv_approval = Some sim_policy\<rparr>"

section \<open>The shadow\<close>

datatype shadow =
    ShadowClosed
  | ShadowPending sim_profile "actor fset" nat nat nat
  | ShadowOpen nat

definition met :: "sim_profile \<Rightarrow> actor fset \<Rightarrow> nat \<Rightarrow> bool" where
  "met p satisfied elapsed =
     (case p of
        Solo \<Rightarrow> Alice |\<in>| satisfied
      | Duo \<Rightarrow> Alice |\<in>| satisfied \<and> Bob |\<in>| satisfied
      | Timed \<Rightarrow> Alice |\<in>| satisfied \<and> elapsed \<ge> wait_secs)"

definition observed :: "shadow \<Rightarrow> nat \<Rightarrow> wire_state \<times> nat option" where
  "observed sh now =
     (case sh of
        ShadowClosed \<Rightarrow> (WClosed, None)
      | ShadowPending _ _ _ deadline _ \<Rightarrow>
          if now \<ge> deadline then (WApprovalExpired, None) else (WAwaitingApproval, Some (deadline - now))
      | ShadowOpen expires \<Rightarrow>
          if now \<ge> expires then (WExpired, None) else (WOpen, Some (expires - now)))"

datatype proof_kind = Fresh | Stale

datatype action =
    ActOpen sim_profile nat
  | ActApprove actor proof_kind
  | ActRenew nat
  | ActClose
  | ActAdvance nat
  | ActPass

definition expected_result :: "action \<Rightarrow> shadow \<Rightarrow> nat \<Rightarrow> response_result" where
  "expected_result a sh now =
     (case a of
        ActOpen _ _ \<Rightarrow> if fst (observed sh now) = WClosed then ResOk else ResRefused
      | ActApprove actor prf \<Rightarrow>
          (case sh of
             ShadowPending _ _ _ deadline _ \<Rightarrow>
               if now < deadline \<and> actor \<noteq> Charlie \<and> prf = Fresh then ResOk else ResRefused
           | _ \<Rightarrow> ResRefused)
      | ActRenew _ \<Rightarrow>
          (case sh of
             ShadowOpen expires \<Rightarrow>
               if now < expires \<and> expires - now \<le> sim_renewal_window_secs then ResOk else ResRefused
           | _ \<Rightarrow> ResRefused)
      | _ \<Rightarrow> ResOk)"

text \<open>
  The shadow's own step; \<open>None\<close> is an index outside the table of times to live.  The clock never goes
  back here, so the subtractions do not underflow.
\<close>

definition advance_shadow :: "action \<Rightarrow> nat \<Rightarrow> shadow \<Rightarrow> shadow option" where
  "advance_shadow a now sh =
     (case a of
        ActOpen p ix \<Rightarrow>
          if fst (observed sh now) = WClosed
          then map_option (\<lambda>t. ShadowPending p {||} now (now + approval_window_secs) (snd t)) (ttl_at ix)
          else Some sh
      | ActApprove actor prf \<Rightarrow>
          Some (case sh of
            ShadowPending p satisfied req deadline ttl_secs \<Rightarrow>
              if now < deadline \<and> actor \<noteq> Charlie \<and> prf = Fresh then
                let satisfied = finsert actor satisfied in
                if met p satisfied (now - req) then ShadowOpen (now + ttl_secs)
                else ShadowPending p satisfied req deadline ttl_secs
              else sh
          | _ \<Rightarrow> sh)
      | ActRenew ix \<Rightarrow>
          (case sh of
             ShadowOpen expires \<Rightarrow>
               if now < expires \<and> expires - now \<le> sim_renewal_window_secs
               then map_option (\<lambda>t. ShadowOpen (now + snd t)) (ttl_at ix)
               else Some sh
           | _ \<Rightarrow> Some sh)
      | ActClose \<Rightarrow> Some ShadowClosed
      | ActAdvance _ \<Rightarrow> Some sh
      | ActPass \<Rightarrow>
          Some (case sh of
            ShadowPending p satisfied req deadline ttl_secs \<Rightarrow>
              if now \<ge> deadline then ShadowClosed
              else if met p satisfied (now - req) \<and> \<not> met p satisfied 0 then ShadowOpen (now + ttl_secs)
              else sh
          | ShadowOpen expires \<Rightarrow> if now \<ge> expires then ShadowClosed else sh
          | ShadowClosed \<Rightarrow> sh))"

section \<open>The checker\<close>

datatype complaint =
    MissingHost
  | StateDiffers wire_state wire_state
  | RemainingDiffers "nat option" "nat option"
  | ResultDiffers response_result response_result
  | DaemonFatal

definition check_observation :: "grant_line list \<Rightarrow> shadow \<Rightarrow> nat \<Rightarrow> complaint + unit" where
  "check_observation lines sh now =
     (case find (\<lambda>l. gl_host l = sim_host_name) lines of
        None \<Rightarrow> Err MissingHost
      | Some line \<Rightarrow>
          (let (want_state, want_remaining) = observed sh now in
           if gl_state line \<noteq> want_state then Err (StateDiffers (gl_state line) want_state)
           else if gl_remaining_secs line \<noteq> want_remaining
           then Err (RemainingDiffers (gl_remaining_secs line) want_remaining)
           else Ok ()))"

definition check_result :: "action \<Rightarrow> response \<Rightarrow> shadow \<Rightarrow> nat \<Rightarrow> complaint + unit" where
  "check_result a r before now =
     (let want = expected_result a before now in
      if re_result r \<noteq> want then Err (ResultDiffers (re_result r) want) else Ok ())"

section \<open>The harness\<close>

definition noop_deadman :: "'w deadman_control" where
  "noop_deadman = \<lparr>dc_install = (\<lambda>_ _ w. (Ok (), w)), dc_reschedule = (\<lambda>_ _ w. (Ok (), w)),
     dc_remove = (\<lambda>_ w. (Ok False, w))\<rparr>"

text \<open>\<open>sm_daemon\<close> is fixed; the rest is what an action changes.\<close>

record sim =
  sm_daemon :: "fake_world daemon"
  sm_sys :: "fake_world sys"
  sm_shadow :: shadow
  sm_now :: nat
  sm_challenge :: "string option"
  sm_stale :: "string list"

definition sim_time :: "nat \<Rightarrow> system_time" where
  "sim_time secs = int (from_secs secs)"

definition sim_daemon :: "crates \<Rightarrow> (nat \<Rightarrow> nonce) \<Rightarrow> authority_model \<Rightarrow> fake_world daemon" where
  "sim_daemon X urandom m = \<lparr>dm_crates = X, dm_inventory = sim_inventory, dm_drivers = fake_drivers [Ssh],
     dm_deadman = noop_deadman, dm_approval_window = from_secs approval_window_secs, dm_approval = Some m,
     dm_totp_secrets = [], dm_password_hashes = [], dm_hmac_secrets = [], dm_urandom = urandom\<rparr>"

definition sim_sys :: "fake_world sys" where
  "sim_sys = \<lparr>sy_store = \<lparr>dk_file = Absent, dk_faults = []\<rparr>,
     sy_journal = \<lparr>jn_pid = 1, jn_seq = 0, jn_synced = [], jn_faults = []\<rparr>,
     sy_totp_ledger = \<lparr>dk_file = Absent, dk_faults = []\<rparr>,
     sy_fido2_counters = \<lparr>dk_file = Absent, dk_faults = []\<rparr>, sy_draws = 0, sy_console = [],
     sy_world = \<lparr>fw_drivers = (\<lambda>c. fake_new c Succeed), fw_log = []\<rparr>\<rparr>"

text \<open>\<open>None\<close> is a panic at one of the two \<open>expect\<close>s.\<close>

definition sim_new :: "crates \<Rightarrow> (nat \<Rightarrow> nonce) \<Rightarrow> sim option" where
  "sim_new X urandom =
     (case approval_model X sim_inventory of
        Some (Inr (Some m)) \<Rightarrow>
          Some \<lparr>sm_daemon = sim_daemon X urandom m, sm_sys = sim_sys, sm_shadow = ShadowClosed,
            sm_now = 1000000, sm_challenge = None, sm_stale = []\<rparr>
      | _ \<Rightarrow> None)"

definition sim_run :: "(fake_world sys, 'a) prog \<Rightarrow> sim \<Rightarrow> (complaint + 'a \<times> sim) option" where
  "sim_run p sm =
     (case run p (sm_sys sm) of
        (Done a, s) \<Rightarrow> Some (Ok (a, sm\<lparr>sm_sys := s\<rparr>))
      | (FatalExit, _) \<Rightarrow> Some (Err DaemonFatal)
      | (PanicExit, _) \<Rightarrow> None)"

definition remember_challenge :: "response \<Rightarrow> sim \<Rightarrow> sim" where
  "remember_challenge r sm =
     (case (re_result r, re_pending r) of
        (ResOk, Some p) \<Rightarrow>
          sm\<lparr>sm_challenge := Some (pc_challenge p),
             sm_stale := sm_stale sm @ (case sm_challenge sm of Some old \<Rightarrow> [old] | None \<Rightarrow> [])\<rparr>
      | _ \<Rightarrow> sm)"

definition never_issued :: string where
  "never_issued = ''lg1.req.NEVER-ISSUED''"

definition proof_challenge :: "proof_kind \<Rightarrow> sim \<Rightarrow> string" where
  "proof_challenge prf sm =
     (case prf of
        Fresh \<Rightarrow> or_else never_issued (sm_challenge sm)
      | Stale \<Rightarrow> if sm_stale sm = [] then never_issued else last (sm_stale sm))"

text \<open>The action on the daemon, \<open>sign\<close> being \<open>ssh-key\<close>'s signature with the actor's key.\<close>

definition sim_act ::
    "(actor \<Rightarrow> string \<Rightarrow> string) \<Rightarrow> action \<Rightarrow> sim \<Rightarrow> (complaint + response option \<times> sim) option" where
  "sim_act sign a sm =
     (let now = sim_time (sm_now sm);
          send = (\<lambda>opr. map_option (\<lambda>r. bind_ok r (\<lambda>(r, sm). Ok (Some r, sm)))
            (sim_run (dispatch (sm_daemon sm) opr now) sm)) in
      case a of
        ActOpen p ix \<Rightarrow>
          Option.bind (ttl_at ix) (\<lambda>t.
          map_option (\<lambda>r. bind_ok r (\<lambda>(r, sm). Ok (Some r, remember_challenge r sm)))
            (sim_run (dispatch (sm_daemon sm) (OpOpen sim_host_name (fst t) (Some (sim_profile_id p))) now) sm))
      | ActApprove actor prf \<Rightarrow> send (OpApprove sim_host_name (sign actor (proof_challenge prf sm)))
      | ActRenew ix \<Rightarrow> Option.bind (ttl_at ix) (\<lambda>t. send (OpRenew sim_host_name (fst t)))
      | ActClose \<Rightarrow> send (OpClose sim_host_name)
      | ActAdvance secs \<Rightarrow> Some (Ok (None, sm\<lparr>sm_now := sm_now sm + secs\<rparr>))
      | ActPass \<Rightarrow>
          map_option (\<lambda>r. bind_ok r (\<lambda>(_, sm). Ok (None, sm))) (sim_run (dm_pass (sm_daemon sm) now) sm))"

text \<open>
  The oracle at the end of a step: the status must be what the shadow predicts.  \<open>bind_both\<close> is \<open>?\<close> on a
  result that may also be a panic.
\<close>

definition bind_both :: "('e + 'a) option \<Rightarrow> ('a \<Rightarrow> ('e + 'b) option) \<Rightarrow> ('e + 'b) option" where
  "bind_both r k = (case r of None \<Rightarrow> None | Some (Inl e) \<Rightarrow> Some (Inl e) | Some (Inr a) \<Rightarrow> k a)"

definition sim_observe :: "sim \<Rightarrow> (complaint + sim) option" where
  "sim_observe sm =
     bind_both (sim_run (dispatch (sm_daemon sm) OpStatus (sim_time (sm_now sm))) sm) (\<lambda>(status, sm).
     Some (bind_ok (check_observation (or_else [] (re_grants status)) (sm_shadow sm) (sm_now sm)) (\<lambda>_. Ok sm)))"

definition sim_step :: "(actor \<Rightarrow> string \<Rightarrow> string) \<Rightarrow> action \<Rightarrow> sim \<Rightarrow> (complaint + sim) option" where
  "sim_step sign a sm =
     (let before = sm_shadow sm in
      bind_both (sim_act sign a sm) (\<lambda>(r, sm).
      bind_both (Some (case r of None \<Rightarrow> Ok () | Some r \<Rightarrow> check_result a r before (sm_now sm))) (\<lambda>_.
      Option.bind (advance_shadow a (sm_now sm) (sm_shadow sm)) (\<lambda>sh.
      sim_observe (sm\<lparr>sm_shadow := sh\<rparr>)))))"

primrec replay_from ::
    "(actor \<Rightarrow> string \<Rightarrow> string) \<Rightarrow> nat \<Rightarrow> action list \<Rightarrow> sim \<Rightarrow> (nat \<times> complaint + sim) option" where
  "replay_from sign i [] sm = Some (Ok sm)"
| "replay_from sign i (a # as) sm =
     bind_both (map_option (map_err (Pair i)) (sim_step sign a sm)) (replay_from sign (Suc i) as)"

definition replay ::
    "crates \<Rightarrow> (nat \<Rightarrow> nonce) \<Rightarrow> (actor \<Rightarrow> string \<Rightarrow> string) \<Rightarrow> action list \<Rightarrow> (nat \<times> complaint + unit) option" where
  "replay X urandom sign actions =
     Option.bind (sim_new X urandom) (\<lambda>sm.
     map_option (\<lambda>r. bind_ok r (\<lambda>_. Ok ())) (replay_from sign 0 actions sm))"

section \<open>Seeded generation\<close>

unbundle bit_operations_syntax

definition rng_next :: "64 word \<Rightarrow> 64 word \<times> 64 word" where
  "rng_next r =
     (let r = r + 0x9E3779B97F4A7C15;
          z = (r XOR drop_bit 30 r) * 0xBF58476D1CE4E5B9;
          z = (z XOR drop_bit 27 z) * 0x94D049BB133111EB
      in (z XOR drop_bit 31 z, r))"

definition below :: "nat \<Rightarrow> 64 word \<Rightarrow> nat \<times> 64 word" where
  "below n r = (let (z, r) = rng_next r in (unat z mod n, r))"

definition advances :: "nat list" where
  "advances = [1, 5, 29, 30, 31, 89, 90, 91, 299, 300, 301, 899, 3600, 7200, 14400]"

definition gen_action :: "64 word \<Rightarrow> action \<times> 64 word" where
  "gen_action r =
     (let (k, r) = below 100 r in
      if k \<le> 17 then
        let (p, r) = below 3 r; (ix, r) = below (length ttls) r
        in (ActOpen (if p = 0 then Solo else if p = 1 then Duo else Timed) ix, r)
      else if k \<le> 52 then
        let (who, r) = below 10 r; (old, r) = below 5 r
        in (ActApprove (if who \<le> 4 then Alice else if who \<le> 7 then Bob else Charlie)
              (if old = 0 then Stale else Fresh), r)
      else if k \<le> 62 then let (ix, r) = below (length ttls) r in (ActRenew ix, r)
      else if k \<le> 72 then (ActClose, r)
      else if k \<le> 89 then let (ix, r) = below (length advances) r in (ActAdvance (advances ! ix), r)
      else (ActPass, r))"

primrec gen_actions :: "nat \<Rightarrow> 64 word \<Rightarrow> action list" where
  "gen_actions 0 r = []"
| "gen_actions (Suc n) r = (let (a, r) = gen_action r in a # gen_actions n r)"

section \<open>Shrinking\<close>

text \<open>
  \<open>shrink\<close> over any replay, given as the complaint it raises.  The inner loop drops the chunk at \<open>i\<close> when the
  rest still fails, and gives the sequence, the complaint, the attempts made and whether it shrank.
\<close>

type_synonym 'c shrunk = "action list \<times> 'c \<times> nat \<times> bool"

function shrink_round :: "(action list \<Rightarrow> 'c option) \<Rightarrow> nat \<Rightarrow> nat \<Rightarrow> 'c shrunk \<Rightarrow> 'c shrunk" where
  "shrink_round fails chunk i st =
     (let (actions, complaint, attempts, shrunk) = st in
      if chunk = 0 \<or> i \<ge> length actions then st
      else
        let candidate = take i actions @ drop (min (i + chunk) (length actions)) actions;
            attempts = attempts + 1 in
        case fails candidate of
          Some c \<Rightarrow>
            if attempts \<ge> 500 then (candidate, c, attempts, True)
            else shrink_round fails chunk i (candidate, c, attempts, True)
        | None \<Rightarrow>
            if attempts \<ge> 500 then (actions, complaint, attempts, shrunk)
            else shrink_round fails chunk (i + chunk) (actions, complaint, attempts, shrunk))"
  by pat_completeness auto
termination
  by (relation "measure (\<lambda>(fails, chunk, i, st). length (fst st) - i)") auto

lemma shrink_round_counts:
  "fst (snd (snd st)) \<le> fst (snd (snd (shrink_round fails chunk i st))) \<and>
   (snd (snd (snd (shrink_round fails chunk i st))) \<longrightarrow> snd (snd (snd st)) \<or>
      fst (snd (snd st)) < fst (snd (snd (shrink_round fails chunk i st))))"
proof (induction fails chunk i st rule: shrink_round.induct)
  case (1 fails chunk i st)
  obtain as c n b where st: "st = (as, c, n, b)" by (cases st) auto
  show ?case
  proof (cases "chunk = 0 \<or> i \<ge> length as")
    case False
    then show ?thesis
      using 1(1) [OF st [symmetric] refl refl refl _ refl refl] 1(2) [OF st [symmetric] refl refl refl _ refl refl]
      by (subst (1 2 3) shrink_round.simps)
        (auto simp: st Let_def simp del: shrink_round.simps split: option.splits)
  qed (simp add: st)
qed

lemma shrink_round_step:
  assumes "(as', c', n', b) = shrink_round fails chunk i (as, c, n, False)"
  shows "n \<le> n' \<and> (b \<longrightarrow> n < n')"
  using shrink_round_counts [of "(as, c, n, False)" fails chunk i] by (simp add: assms [symmetric] del: shrink_round.simps)

function shrink_loop ::
    "(action list \<Rightarrow> 'c option) \<Rightarrow> nat \<Rightarrow> action list \<times> 'c \<times> nat \<Rightarrow> action list \<times> 'c \<times> nat" where
  "shrink_loop fails chunk st =
     (let (actions, complaint, attempts) = st in
      if chunk \<ge> 1 \<and> attempts < 500 then
        let (actions, complaint, attempts, shrunk) = shrink_round fails chunk 0 (actions, complaint, attempts, False) in
        if shrunk then shrink_loop fails chunk (actions, complaint, attempts)
        else if chunk = 1 then (actions, complaint, attempts)
        else shrink_loop fails (max (chunk div 2) 1) (actions, complaint, attempts)
      else st)"
  by pat_completeness auto
termination
  by (relation "measures [\<lambda>(fails, chunk, as, c, n). 500 - n, \<lambda>(fails, chunk, as, c, n). chunk]")
    (auto simp del: shrink_round.simps dest: shrink_round_step)


text \<open>\<open>None\<close> is the \<open>unreachable!\<close> on a sequence that does not fail.\<close>

definition shrink :: "(action list \<Rightarrow> 'c option) \<Rightarrow> action list \<Rightarrow> (action list \<times> 'c \<times> nat) option" where
  "shrink fails actions =
     map_option (\<lambda>complaint. shrink_loop fails (max ((length actions + 1) div 2) 1) (actions, complaint, 0))
       (fails actions)"

end
