(* ===== verification/Stored_Shape.thy ===== *)
theory Stored_Shape
  imports Store Snapshot_Props
begin

text \<open>
  The grant store seen through the states it records: which state each host's grant is in and which
  channels it names.  Writing, reading and validating a document all keep this view, whatever
  the instants, the nonce and the proofs recorded with it.
\<close>

section \<open>Specification\<close>

datatype shape =
    ShClosed | ShPending | ShOpening "channel list" | ShOpen "channel list" | ShRevert "channel list"

primrec shape_channels :: "shape \<Rightarrow> channel list" where
  "shape_channels ShClosed = []"
| "shape_channels ShPending = []"
| "shape_channels (ShOpening cs) = cs"
| "shape_channels (ShOpen cs) = cs"
| "shape_channels (ShRevert cs) = cs"

definition grant_shape :: "grant \<Rightarrow> shape" where
  "grant_shape g =
     (case g_state g of
        Closed \<Rightarrow> ShClosed
      | Pending _ _ _ _ _ _ \<Rightarrow> ShPending
      | Opening _ _ cs \<Rightarrow> ShOpening cs
      | Open _ _ cs \<Rightarrow> ShOpen cs
      | NeedsRevert cs _ \<Rightarrow> ShRevert cs)"

definition record_shape :: "grant_record \<Rightarrow> shape" where
  "record_shape r =
     (if gr_state r = ''pending'' then ShPending
      else if gr_state r = ''opening'' then ShOpening (gr_channels r)
      else if gr_state r = ''open'' then ShOpen (gr_channels r)
      else ShRevert (gr_channels r))"

definition reg_shape :: "grant_registry \<Rightarrow> string \<Rightarrow> shape" where
  "reg_shape r k = (case bt_get (r_grants r) k of None \<Rightarrow> ShClosed | Some g \<Rightarrow> grant_shape g)"

definition doc_shape :: "state_doc \<Rightarrow> string \<Rightarrow> shape" where
  "doc_shape doc k = (case bt_get (doc_grants doc) k of None \<Rightarrow> ShClosed | Some r \<Rightarrow> record_shape r)"

definition record_times :: "grant_record \<Rightarrow> system_time option list" where
  "record_times r =
     [gr_opened_at r, gr_expires_at r, gr_since r, gr_requested_at r, gr_approval_deadline r]"

definition grant_timely :: "grant \<Rightarrow> bool" where
  "grant_timely g \<longleftrightarrow> (\<forall>t\<in>set (grant_times g). t < clock_end)"

definition record_timely :: "grant_record \<Rightarrow> bool" where
  "record_timely r \<longleftrightarrow> (\<forall>t. Some t \<in> set (record_times r) \<longrightarrow> t < clock_end)"

definition doc_ok :: "state_doc \<Rightarrow> bool" where
  "doc_ok doc \<longleftrightarrow> bt_ok (doc_grants doc) \<and> (\<forall>e\<in>set (doc_grants doc). record_timely (snd e))"

section \<open>Lemmas\<close>

lemma record_shape_of: "grant_parts g = Some p \<Longrightarrow> record_shape (record_of X p) = grant_shape g"
  by (cases "g_state g") (auto simp: grant_parts_def record_of_def record_shape_def grant_shape_def base_record_def)

lemma grant_parts_None_shape: "grant_parts g = None \<longleftrightarrow> grant_shape g = ShClosed"
  by (auto simp: grant_parts_def grant_shape_def split: grant_state.splits)

lemma record_timely_of: "grant_timely g \<Longrightarrow> grant_parts g = Some p \<Longrightarrow> record_timely (record_of X p)"
  by (cases "g_state g")
    (auto simp: grant_parts_def record_of_def record_timely_def record_times_def grant_timely_def grant_times_def
      base_record_def)

subsection \<open>Writing and reading back\<close>

lemma epoch_stored_timely:
  assumes "\<forall>u. t = Some u \<longrightarrow> u < clock_end"
  obtains t' where "epoch_stored t = Some t'" "\<forall>u. t' = Some u \<longrightarrow> u < clock_end"
proof (cases t)
  case None
  then show ?thesis using that by simp
next
  case (Some u)
  have "whole_seconds u < clock_end"
    using assms Some whole_seconds_le [of u] by (cases "u < 0") (auto simp: whole_seconds_def clock_end_def)
  then show ?thesis using that [of "Some (whole_seconds u)"] Some assms by (simp add: epoch_stored_Some)
qed

lemma record_stored_timely:
  assumes "record_timely r"
  obtains r' where "record_stored r = Some r'" "record_timely r'" "record_shape r' = record_shape r"
proof -
  have t: "\<forall>u. f r = Some u \<longrightarrow> u < clock_end"
    if "f \<in> {gr_opened_at, gr_expires_at, gr_since, gr_requested_at, gr_approval_deadline}" for f
    using assms that by (auto simp: record_timely_def record_times_def)
  obtain a where a: "epoch_stored (gr_opened_at r) = Some a" "\<forall>u. a = Some u \<longrightarrow> u < clock_end"
    using t [of gr_opened_at] by (auto elim: epoch_stored_timely)
  obtain b where b: "epoch_stored (gr_expires_at r) = Some b" "\<forall>u. b = Some u \<longrightarrow> u < clock_end"
    using t [of gr_expires_at] by (auto elim: epoch_stored_timely)
  obtain c where c: "epoch_stored (gr_since r) = Some c" "\<forall>u. c = Some u \<longrightarrow> u < clock_end"
    using t [of gr_since] by (auto elim: epoch_stored_timely)
  obtain d where d: "epoch_stored (gr_requested_at r) = Some d" "\<forall>u. d = Some u \<longrightarrow> u < clock_end"
    using t [of gr_requested_at] by (auto elim: epoch_stored_timely)
  obtain e where e: "epoch_stored (gr_approval_deadline r) = Some e" "\<forall>u. e = Some u \<longrightarrow> u < clock_end"
    using t [of gr_approval_deadline] by (auto elim: epoch_stored_timely)
  let ?r = "r\<lparr>gr_opened_at := a, gr_expires_at := b, gr_since := c, gr_requested_at := d, gr_approval_deadline := e\<rparr>"
  have "record_stored r = Some ?r" using a(1) b(1) c(1) d(1) e(1) by (simp add: record_stored_def)
  moreover have "record_timely ?r"
    using a(2) b(2) c(2) d(2) e(2) by (auto simp: record_timely_def record_times_def)
  ultimately show ?thesis using that [of ?r] by (simp add: record_shape_def)
qed

lemma stored_entries:
  assumes "\<forall>e\<in>set es. record_timely (snd e)"
  shows "\<exists>es'. those (map (\<lambda>e. map_option (\<lambda>r. (fst e, r)) (record_stored (snd e))) es) = Some es' \<and>
    map fst es' = map fst es \<and> (\<forall>e\<in>set es'. record_timely (snd e)) \<and>
    (\<forall>k. map_option record_shape (bt_get es' k) = map_option record_shape (bt_get es k))"
  using assms
proof (induction es)
  case (Cons e es)
  obtain r' where "record_stored (snd e) = Some r'" "record_timely r'" "record_shape r' = record_shape (snd e)"
    using Cons.prems by (auto elim: record_stored_timely)
  moreover obtain es' where "those (map (\<lambda>e. map_option (\<lambda>r. (fst e, r)) (record_stored (snd e))) es) = Some es'"
    "map fst es' = map fst es" "\<forall>e\<in>set es'. record_timely (snd e)"
    "\<forall>k. map_option record_shape (bt_get es' k) = map_option record_shape (bt_get es k)"
    using Cons by auto
  ultimately show ?case by (intro exI [of _ "(fst e, r') # es'"]) auto
qed simp

lemma stored_ok:
  assumes "doc_ok doc"
  obtains d where "stored doc = Some d" "doc_ok d" "doc_shape d = doc_shape doc" "doc_version d = doc_version doc"
proof -
  obtain es' where es: "those (map (\<lambda>e. map_option (\<lambda>r. (fst e, r)) (record_stored (snd e))) (doc_grants doc)) = Some es'"
    "map fst es' = map fst (doc_grants doc)" "\<forall>e\<in>set es'. record_timely (snd e)"
    "\<forall>k. map_option record_shape (bt_get es' k) = map_option record_shape (bt_get (doc_grants doc) k)"
    using stored_entries [of "doc_grants doc"] assms by (auto simp: doc_ok_def)
  have "doc_shape (doc\<lparr>doc_grants := es'\<rparr>) k = doc_shape doc k" for k
    using es(4) [rule_format, of k] by (auto simp: doc_shape_def split: option.splits)
  then show ?thesis
    using that [of "doc\<lparr>doc_grants := es'\<rparr>"] es assms by (auto simp: stored_def doc_ok_def bt_ok_def)
qed

subsection \<open>Validating\<close>

lemma parts_of_shape:
  assumes "parts_of X h r = Ok p"
  shows "grant_shape (grant_restore p) = record_shape r"
  using assms
  by (auto simp: parts_of_def pending_parts_def bind_ok_eq_Ok grant_restore_def grant_shape_def record_shape_def
      split: if_splits option.splits)

lemma parts_of_timely:
  assumes "parts_of X h r = Ok p" "record_timely r"
  shows "grant_timely (grant_restore p)"
proof -
  have i: "a < clock_end \<and> e < clock_end" if "record_interval h r = Ok (a, e)" for a e
    using that assms(2)
    by (auto simp: record_interval_def bind_ok_eq_Ok ok_or_def record_timely_def record_times_def
        split: if_splits option.splits)
  consider (pending) "gr_state r = ''pending''" "pending_parts X h r = Ok p"
    | (interval) a e where "record_interval h r = Ok (a, e)" "p = POpening a e (gr_channels r) \<or> p = POpen a e (gr_channels r)"
    | (revert) s where "gr_since r = Some s" "p = PNeedsRevert (gr_channels r) s"
    using assms(1) by (auto simp: parts_of_def bind_ok_eq_Ok ok_or_def split: if_splits option.splits)
  then show ?thesis
  proof cases
    case pending
    then obtain q d t n pr s where "p = PPending q d t n pr s" "gr_requested_at r = Some q" "gr_approval_deadline r = Some d"
      by (auto simp: pending_parts_def bind_ok_eq_Ok ok_or_def split: if_splits option.splits)
    then show ?thesis
      using assms(2) by (auto simp: grant_timely_def grant_times_def grant_restore_def record_timely_def record_times_def)
  next
    case (interval a e)
    then show ?thesis using i by (auto simp: grant_timely_def grant_times_def grant_restore_def)
  next
    case (revert s)
    then show ?thesis
      using assms(2) by (auto simp: grant_timely_def grant_times_def grant_restore_def record_timely_def record_times_def)
  qed
qed

lemma restore_all_shape:
  assumes "restore_all X es r = Ok r'" "distinct (map fst es)" "\<forall>e\<in>set es. record_timely (snd e)"
    "all_grants grant_timely r"
  shows "map fst (r_grants r') = map fst (r_grants r) \<and> all_grants grant_timely r' \<and>
    (\<forall>k. reg_shape r' k = (if bt_contains (r_grants r) k \<and> k \<in> fst ` set es
       then record_shape (the (bt_get es k)) else reg_shape r k))"
  using assms
proof (induction es arbitrary: r)
  case (Cons e es)
  obtain p where p: "parts_of X (fst e) (snd e) = Ok p"
    "restore_all X es (reg_restore (fst e) (grant_restore p) r) = Ok r'"
    using Cons.prems(1) by (auto simp: bind_ok_eq_Ok)
  let ?r = "reg_restore (fst e) (grant_restore p) r"
  have "grant_timely (grant_restore p)" using parts_of_timely [OF p(1)] Cons.prems(3) by simp
  then have "all_grants grant_timely ?r"
    using Cons.prems(4) by (auto simp: all_grants_def reg_restore_def bt_set_def)
  then have ih: "map fst (r_grants r') = map fst (r_grants ?r)" "all_grants grant_timely r'"
    "reg_shape r' k = (if bt_contains (r_grants ?r) k \<and> k \<in> fst ` set es
       then record_shape (the (bt_get es k)) else reg_shape ?r k)" for k
    using Cons.IH [OF p(2)] Cons.prems by auto
  have "fst e \<notin> fst ` set es" using Cons.prems(2) by simp
  then have "reg_shape r' k = (if bt_contains (r_grants r) k \<and> k \<in> fst ` set (e # es)
       then record_shape (the (bt_get (e # es) k)) else reg_shape r k)" for k
    using ih(3) [of k] parts_of_shape [OF p(1)]
    by (auto simp: reg_restore_def reg_shape_def bt_contains_def)
  then show ?case using ih(1,2) by (simp add: reg_restore_def)
qed simp

lemma reg_new_shape: "reg_shape (reg_new iv) k = ShClosed" "all_grants grant_timely (reg_new iv)" "bt_ok (r_grants (reg_new iv))"
proof -
  have g: "g = grant_new" if "bt_get (r_grants (reg_new iv)) k = Some g" for k g
    using that by (auto simp: reg_new_def bt_get_collect dest!: map_of_SomeD)
  show "bt_ok (r_grants (reg_new iv))" by (simp add: reg_new_def)
  then show "all_grants grant_timely (reg_new iv)"
    using g bt_get_in_set by (fastforce simp: all_grants_def grant_timely_def grant_times_def grant_new_def)
  show "reg_shape (reg_new iv) k = ShClosed"
    by (auto simp: reg_shape_def grant_shape_def grant_new_def dest!: g split: option.splits)
qed

lemma from_parts_shape:
  assumes "from_parts X iv doc = Ok r" "doc_ok doc"
  shows "registry_of iv r" "all_grants grant_timely r" "reg_shape r = doc_shape doc"
proof -
  have known: "\<forall>k\<in>fst ` set (doc_grants doc). bt_contains (r_grants (reg_new iv)) k"
    and r: "restore_all X (doc_grants doc) (reg_new iv) = Ok r"
    using assms(1) by (auto simp: from_parts_def Let_def reg_knows_def filter_empty_conv split: if_splits)
  have "map fst (r_grants r) = map fst (r_grants (reg_new iv)) \<and> all_grants grant_timely r \<and>
    (\<forall>k. reg_shape r k = (if bt_contains (r_grants (reg_new iv)) k \<and> k \<in> fst ` set (doc_grants doc)
       then record_shape (the (bt_get (doc_grants doc) k)) else reg_shape (reg_new iv) k))"
    using assms(2) by (intro restore_all_shape [OF r]) (auto simp: doc_ok_def bt_ok_distinct reg_new_shape(2))
  then have sh: "map fst (r_grants r) = map fst (r_grants (reg_new iv))" "all_grants grant_timely r"
    "reg_shape r k = (if bt_contains (r_grants (reg_new iv)) k \<and> k \<in> fst ` set (doc_grants doc)
       then record_shape (the (bt_get (doc_grants doc) k)) else reg_shape (reg_new iv) k)" for k
    by auto
  show "registry_of iv r" "all_grants grant_timely r" using sh(1,2) by (simp_all add: registry_of_def)
  show "reg_shape r = doc_shape doc"
  proof
    fix k
    show "reg_shape r k = doc_shape doc k"
    proof (cases "k \<in> fst ` set (doc_grants doc)")
      case True
      then obtain rc where "bt_get (doc_grants doc) k = Some rc" by (metis bt_contains_def bt_contains_iff not_None_eq)
      then show ?thesis using sh(3) [of k] True known by (simp add: doc_shape_def)
    next
      case False
      then have "bt_get (doc_grants doc) k = None" by (simp add: map_of_eq_None_iff)
      then show ?thesis using sh(3) [of k] False reg_new_shape(1) by (simp add: doc_shape_def)
    qed
  qed
qed

lemma snapshot_shape:
  assumes "bt_ok (r_grants r)" "all_grants grant_timely r"
  shows "doc_ok (snapshot X r)" "doc_shape (snapshot X r) = reg_shape r"
proof -
  note g = snapshot_grants [OF assms(1), of X]
  have "record_timely rc" if e: "(k, rc) \<in> set (doc_grants (snapshot X r))" for k rc
  proof -
    have "bt_get (doc_grants (snapshot X r)) k = Some rc" using e bt_get_in_set [OF g(1)] by simp
    then obtain gr p where gr: "bt_get (r_grants r) k = Some gr" "grant_parts gr = Some p" "rc = record_of X p"
      by (auto simp: g(2) bind_eq_Some_conv)
    moreover have "grant_timely gr" using gr(1) assms bt_get_in_set [OF assms(1)] by (force simp: all_grants_def)
    ultimately show ?thesis using record_timely_of by simp
  qed
  then show "doc_ok (snapshot X r)" using g(1) by (auto simp: doc_ok_def)
  show "doc_shape (snapshot X r) = reg_shape r"
  proof
    fix k
    show "doc_shape (snapshot X r) k = reg_shape r k"
      using record_shape_of [of _ _ X] grant_parts_None_shape
      by (cases "bt_get (r_grants r) k") (auto simp: doc_shape_def reg_shape_def g(2) split: option.splits)
  qed
qed

end
