(* ===== verification/Daemon_Rules.thy ===== *)
theory Daemon_Rules
  imports Lifecycle Stored_Shape Authority_Props
begin

text \<open>
  The rules for reasoning about the daemon's programs: what each access does to the recorded states
  (the view of \<open>Stored_Shape\<close>) and to the world.
\<close>

section \<open>The view of a state\<close>

definition file_ok :: "state_doc file_state \<Rightarrow> bool" where
  "file_ok f = (case f of Absent \<Rightarrow> True | Unparsable \<Rightarrow> False | Holds doc \<Rightarrow> doc_ok doc)"

definition file_shape :: "state_doc file_state \<Rightarrow> string \<Rightarrow> shape" where
  "file_shape f = (case f of Holds doc \<Rightarrow> doc_shape doc | _ \<Rightarrow> (\<lambda>_. ShClosed))"

definition well_stored :: "'w sys \<Rightarrow> bool" where
  "well_stored s \<longleftrightarrow> file_ok (dk_file (sy_store s))"

definition recorded :: "'w sys \<Rightarrow> string \<Rightarrow> shape" where
  "recorded s = file_shape (dk_file (sy_store s))"

text \<open>A change of the recorded state of one host, or of none, that leaves the world alone.\<close>

definition moved :: "'w sys \<Rightarrow> string \<Rightarrow> shape \<Rightarrow> 'w sys \<Rightarrow> bool" where
  "moved s host sh s' \<longleftrightarrow> well_stored s' \<and> recorded s' = (recorded s)(host := sh) \<and> sy_world s' = sy_world s"

definition kept :: "'w sys \<Rightarrow> 'w sys \<Rightarrow> bool" where
  "kept s s' \<longleftrightarrow> well_stored s' \<and> recorded s' = recorded s \<and> sy_world s' = sy_world s"

lemma moved_same: "moved s host (recorded s host) s' \<longleftrightarrow> kept s s'"
  by (simp add: moved_def kept_def)

lemma kept_refl: "well_stored s \<Longrightarrow> kept s s"
  by (simp add: kept_def)

lemma kept_trans: "kept s t \<Longrightarrow> kept t u \<Longrightarrow> kept s u"
  by (simp add: kept_def)

section \<open>The store\<close>

lemma next_fault_kept: "next_fault dk = (b, dk') \<Longrightarrow> dk_file dk' = dk_file dk"
  using next_fault_file [of dk] by (metis snd_conv)

lemma store_read_file [simp]: "dk_file (snd (store_read dk)) = dk_file dk"
  by (auto simp: store_read_def next_fault_kept split: prod.splits)

lemma store_read_ok:
  assumes "fst (store_read dk) = Ok doc" "file_ok (dk_file dk)"
  shows "doc_ok doc" "doc_shape doc = file_shape (dk_file dk)"
  using assms
  by (auto simp: store_read_def file_ok_def file_shape_def state_doc_default_def doc_ok_def doc_shape_def fun_eq_iff
      dest!: next_fault_kept split: prod.splits if_splits file_state.splits)

lemma store_mutate_cases:
  obtains (failed) e where "fst (store_mutate f dk) = Some (Inl e)" "dk_file (snd (store_mutate f dk)) = dk_file dk"
  | (ran) doc dk1 where "fst (store_read dk1) = Ok doc" "dk_file dk1 = dk_file dk"
      "f doc = None \<and> fst (store_mutate f dk) = None \<and> dk_file (snd (store_mutate f dk)) = dk_file dk \<or>
       (\<exists>out doc'. f doc = Some (Ok (out, doc')) \<and> fst (store_mutate f dk) = Some (Ok out) \<and>
          dk_file (snd (store_mutate f dk)) = (case stored doc' of Some d \<Rightarrow> Holds d | None \<Rightarrow> Unparsable))"
proof -
  obtain locked dk1 where l: "next_fault dk = (locked, dk1)" by (cases "next_fault dk")
  obtain r dk2 where r: "store_read dk1 = (r, dk2)" by (cases "store_read dk1")
  have f1: "dk_file dk1 = dk_file dk" using next_fault_file [of dk] l by simp
  have f2: "dk_file dk2 = dk_file dk" using store_read_file [of dk1] r f1 by simp
  show ?thesis
  proof (cases locked)
    case True
    then show ?thesis using l f1 by (intro failed) (auto simp: store_mutate_def)
  next
    case False
    show ?thesis
    proof (cases r)
      case (Inl e)
      then show ?thesis using l r f2 False by (intro failed) (auto simp: store_mutate_def)
    next
      case (Inr doc)
      note m = store_mutate_def [of f dk, unfolded l prod.case if_not_P [OF False] r Inr sum.case]
      show ?thesis
      proof (cases "f doc")
        case None
        then show ?thesis using r Inr f1 f2 by (intro ran [of dk1 doc]) (auto simp: m)
      next
        case (Some res)
        show ?thesis
        proof (cases res)
          case (Inl e)
          then show ?thesis using f2 Some by (intro failed) (auto simp: m)
        next
          case (Inr od)
          obtain out doc' where od: "od = (out, doc')" by (cases od)
          obtain fails dk3 where w: "next_fault dk2 = (fails, dk3)" by (cases "next_fault dk2")
          have f3: "dk_file dk3 = dk_file dk" using next_fault_file [of dk2] w f2 by simp
          show ?thesis
          proof (cases fails)
            case True
            then show ?thesis using w f3 Some Inr od by (intro failed) (auto simp: m store_write_def)
          next
            case False
            then show ?thesis
              using w f1 Some Inr od r \<open>r = Ok doc\<close> by (intro ran [of dk1 doc]) (auto simp: m store_write_def)
          qed
        qed
      qed
    qed
  qed
qed

lemma wp_lift_store:
  "wp I Q (lift_store f) s \<longleftrightarrow>
     (let r = f (sy_store s); s' = s\<lparr>sy_store := snd r\<rparr> in
      I s \<and> I s' \<and> (case fst r of None \<Rightarrow> False | Some (Inl e) \<Rightarrow> True | Some (Inr a) \<Rightarrow> Q a s'))"
  by (cases "f (sy_store s)") (auto simp: lift_store_def Let_def split: option.splits sum.splits)

lemma wp_mutate:
  assumes "I s" "well_stored s" "\<And>s'. kept s s' \<Longrightarrow> I s'"
    and f: "\<And>doc. doc_ok doc \<Longrightarrow> doc_shape doc = recorded s \<Longrightarrow>
      (case f doc of
         None \<Rightarrow> False
       | Some (Inl e) \<Rightarrow> True
       | Some (Inr (out, doc')) \<Rightarrow> doc_ok doc' \<and>
           (\<forall>s'. well_stored s' \<and> recorded s' = doc_shape doc' \<and> sy_world s' = sy_world s \<longrightarrow> I s' \<and> Q out s'))"
  shows "wp I Q (lift_store (store_mutate f)) s"
proof (cases rule: store_mutate_cases [of f "sy_store s"])
  case (failed e)
  then have "kept s (s\<lparr>sy_store := snd (store_mutate f (sy_store s))\<rparr>)"
    using assms(2) by (simp add: kept_def well_stored_def recorded_def)
  then show ?thesis using failed(1) assms(1,3) by (simp add: wp_lift_store Let_def)
next
  case (ran doc dk1)
  have d: "doc_ok doc" "doc_shape doc = recorded s"
    using store_read_ok [OF ran(1)] ran(2) assms(2) by (simp_all add: well_stored_def recorded_def)
  from f [OF d] ran(3) obtain out doc' where o: "f doc = Some (Ok (out, doc'))" "doc_ok doc'"
    "fst (store_mutate f (sy_store s)) = Some (Ok out)"
    "dk_file (snd (store_mutate f (sy_store s))) = (case stored doc' of Some d \<Rightarrow> Holds d | None \<Rightarrow> Unparsable)"
    "\<And>s'. well_stored s' \<Longrightarrow> recorded s' = doc_shape doc' \<Longrightarrow> sy_world s' = sy_world s \<Longrightarrow> I s' \<and> Q out s'"
    by auto
  obtain d' where "stored doc' = Some d'" "doc_ok d'" "doc_shape d' = doc_shape doc'"
    using stored_ok [OF o(2)] .
  then have "I (s\<lparr>sy_store := snd (store_mutate f (sy_store s))\<rparr>) \<and> Q out (s\<lparr>sy_store := snd (store_mutate f (sy_store s))\<rparr>)"
    using o(4) by (intro o(5)) (simp_all add: well_stored_def recorded_def file_ok_def file_shape_def)
  then show ?thesis using assms(1) o(3) by (simp add: wp_lift_store Let_def)
qed

subsection \<open>Registry operations\<close>

lemma registry_knows:
  assumes "registry_of (dm_inventory dm) r"
  shows "bt_contains (r_grants r) k \<longleftrightarrow> dm_host dm k \<noteq> None"
proof -
  have "bt_contains (r_grants (reg_new (dm_inventory dm))) k \<longleftrightarrow> k \<in> h_name ` set (inv_hosts (dm_inventory dm))"
    by (auto simp: reg_new_def bt_contains_def bt_get_collect map_of_eq_None_iff image_iff)
  moreover have "dm_host dm k \<noteq> None \<longleftrightarrow> k \<in> h_name ` set (inv_hosts (dm_inventory dm))"
    by (auto simp: dm_host_def find_None_iff)
  ultimately show ?thesis using registry_of_contains [OF assms] by simp
qed

lemma dm_host_in:
  assumes "dm_host dm k = Some h"
  shows "h \<in> set (inv_hosts (dm_inventory dm))" "h_name h = k"
  using assms by (auto simp: dm_host_def find_Some_iff)

lemma grant_mut_shape:
  assumes "bt_get (r_grants r) host = Some g" "bt_ok (r_grants r)" "all_grants grant_timely r"
    "grant_timely (snd (m g))"
  shows "bt_ok (r_grants (snd (grant_mut host m r)))" "all_grants grant_timely (snd (grant_mut host m r))"
    "reg_shape (snd (grant_mut host m r)) = (reg_shape r)(host := grant_shape (snd (m g)))"
proof -
  show "all_grants grant_timely (snd (grant_mut host m r))"
    using assms by (auto simp: grant_mut_def all_grants_def bt_set_def)
qed (use assms in \<open>auto simp: grant_mut_def reg_shape_def fun_eq_iff bt_contains_def\<close>)

lemma wp_with_registry:
  assumes "I s" "well_stored s" "\<And>s'. kept s s' \<Longrightarrow> I s'"
    and timely: "\<And>g. grant_timely g \<Longrightarrow> grant_timely (snd (m g))"
    and commits: "\<And>g v s'. grant_shape g = recorded s host \<Longrightarrow> fst (m g) = Inr v \<Longrightarrow> dm_host dm host \<noteq> None \<Longrightarrow>
      moved s host (grant_shape (snd (m g))) s' \<Longrightarrow> I s' \<and> Q (Inr v) s'"
    and refused: "\<And>g e s'. grant_shape g = recorded s host \<Longrightarrow> fst (m g) = Inl e \<Longrightarrow> dm_host dm host \<noteq> None \<Longrightarrow>
      kept s s' \<Longrightarrow> Q (Inl (GrantErr e)) s'"
    and unknown: "\<And>s'. dm_host dm host = None \<Longrightarrow> recorded s host = ShClosed \<Longrightarrow> kept s s' \<Longrightarrow> Q (Inl (UnknownHost host)) s'"
  shows "wp I Q (with_registry dm (grant_mut host m)) s"
  unfolding with_registry_def
proof (rule wp_mutate, rule assms(1), rule assms(2), erule assms(3))
  fix doc
  assume d: "doc_ok doc" "doc_shape doc = recorded s"
  have k: "kept s s'" if "well_stored s'" "recorded s' = doc_shape doc" "sy_world s' = sy_world s" for s'
    using that d(2) by (simp add: kept_def)
  show "case commit_op dm (grant_mut host m) doc of None \<Rightarrow> False | Some (Inl e) \<Rightarrow> True
    | Some (Inr (out, doc')) \<Rightarrow> doc_ok doc' \<and>
        (\<forall>s'. well_stored s' \<and> recorded s' = doc_shape doc' \<and> sy_world s' = sy_world s \<longrightarrow> I s' \<and> Q out s')"
  proof (cases "from_parts (dm_crates dm) (dm_inventory dm) doc")
    case (Inl e)
    then show ?thesis by (simp add: commit_op_def)
  next
    case (Inr r)
    note r = from_parts_shape [OF Inr d(1)] and ok = registry_of_bt_ok [OF from_parts_shape(1) [OF Inr d(1)]]
    show ?thesis
    proof (cases "bt_get (r_grants r) host")
      case None
      then have u: "dm_host dm host = None" "recorded s host = ShClosed"
        using registry_knows [OF r(1), of host] fun_cong [OF r(3), of host] d(2)
        by (auto simp: bt_contains_def reg_shape_def)
      have "commit_op dm (grant_mut host m) doc = Some (Ok (Err (UnknownHost host), doc))"
        using Inr None by (simp add: commit_op_def grant_mut_def)
      then show ?thesis using d(1) k unknown [OF u] assms(3) by simp
    next
      case (Some g)
      have known: "dm_host dm host \<noteq> None" using registry_knows [OF r(1), of host] Some by (simp add: bt_contains_def)
      have "reg_shape r host = recorded s host" using r(3) d(2) by simp
      then have sh: "grant_shape g = recorded s host" using Some by (simp add: reg_shape_def)
      have "grant_timely g" using Some ok r(2) bt_get_in_set [OF ok] by (force simp: all_grants_def)
      note mut = grant_mut_shape [where m = m, OF Some ok r(2) timely [OF this]]
      show ?thesis
      proof (cases "fst (m g)")
        case (Inl e)
        then have "commit_op dm (grant_mut host m) doc = Some (Ok (Err (GrantErr e), doc))"
          using \<open>from_parts (dm_crates dm) (dm_inventory dm) doc = Inr r\<close> Some by (simp add: commit_op_def grant_mut_def)
        then show ?thesis using d(1) k refused [OF sh Inl known] assms(3) by simp
      next
        case (Inr v)
        let ?r = "snd (grant_mut host m r)"
        have c: "commit_op dm (grant_mut host m) doc = Some (Ok (Ok v, snapshot (dm_crates dm) ?r))"
          using \<open>from_parts (dm_crates dm) (dm_inventory dm) doc = Inr r\<close> Some Inr
          by (simp add: commit_op_def grant_mut_def)
        have "moved s host (grant_shape (snd (m g))) s'"
          if "well_stored s'" "recorded s' = doc_shape (snapshot (dm_crates dm) ?r)" "sy_world s' = sy_world s" for s'
          using that snapshot_shape(2) [OF mut(1,2)] mut(3) r(3) d(2) by (simp add: moved_def)
        then show ?thesis
          using c snapshot_shape(1) [OF mut(1,2)] commits [OF sh Inr known] by simp
      qed
    qed
  qed
qed

lemma wp_load_registry:
  assumes "I s" "well_stored s" "\<And>s'. kept s s' \<Longrightarrow> I s'"
    and loaded: "\<And>r s'. registry_of (dm_inventory dm) r \<Longrightarrow> all_grants grant_timely r \<Longrightarrow> reg_shape r = recorded s \<Longrightarrow>
      kept s s' \<Longrightarrow> Q r s'"
  shows "wp I Q (load_registry dm) s"
proof -
  obtain r dk where r: "store_read (sy_store s) = (r, dk)" by (cases "store_read (sy_store s)")
  have k: "kept s (s\<lparr>sy_store := dk\<rparr>)"
    using assms(2) r store_read_file [of "sy_store s"] by (simp add: kept_def well_stored_def recorded_def)
  show ?thesis
  proof (cases r)
    case (Inl e)
    then show ?thesis using r k assms(1,3) by (simp add: load_registry_def wp_lift_store Let_def)
  next
    case (Inr doc)
    have "doc_ok doc" "doc_shape doc = recorded s"
      using store_read_ok [of "sy_store s" doc] r Inr assms(2) by (simp_all add: well_stored_def recorded_def)
    then show ?thesis
      using r Inr k assms(1,3) loaded [OF from_parts_shape(1,2)] from_parts_shape(3)
      by (auto simp: load_registry_def wp_lift_store Let_def split: sum.splits)
  qed
qed

section \<open>The other accesses\<close>

lemma wp_with_world:
  "wp I Q (with_world f) s \<longleftrightarrow> I s \<and> (let s' = s\<lparr>sy_world := snd (f (sy_world s))\<rparr> in I s' \<and> Q (fst (f (sy_world s))) s')"
  by (simp add: with_world_def split_beta Let_def)

text \<open>Accesses that touch neither the store nor the world.\<close>

lemma wp_quiet:
  assumes "I s" "well_stored s" "\<And>s'. kept s s' \<Longrightarrow> I s'" "\<And>s'. kept s s' \<Longrightarrow> Q () s'"
  shows "wp I Q (journal_event now ev) s" "wp I Q (println line) s"
proof -
  have k: "kept s (s\<lparr>sy_journal := j\<rparr>)" "kept s (s\<lparr>sy_console := c\<rparr>)" for j c
    using assms(2) by (simp_all add: kept_def well_stored_def recorded_def)
  show "wp I Q (journal_event now ev) s"
    using assms(1) assms(3) [OF k(1)] assms(4) [OF k(1)]
    by (auto simp: journal_event_def split: prod.splits sum.splits)
  show "wp I Q (println line) s"
    using assms(1) assms(3) [OF k(2)] assms(4) [OF k(2)] by (simp add: println_def)
qed

lemma wp_generate_nonce:
  assumes "I s" "well_stored s" "\<And>s'. kept s s' \<Longrightarrow> I s'" "\<And>n s'. kept s s' \<Longrightarrow> Q n s'"
  shows "wp I Q (generate_nonce dm) s"
proof -
  have "kept s (s\<lparr>sy_draws := n\<rparr>)" for n using assms(2) by (simp add: kept_def well_stored_def recorded_def)
  then show ?thesis using assms(1,3,4) by (simp add: generate_nonce_def)
qed

lemma wp_ledger_act:
  assumes "I s" "well_stored s" "\<And>s'. kept s s' \<Longrightarrow> I s'" "\<And>a s'. kept s s' \<Longrightarrow> Q a s'"
  shows "wp I Q (try_act (\<lambda>s. case f (sy_totp_ledger s) of (r, dk) \<Rightarrow> (Some r, s\<lparr>sy_totp_ledger := dk\<rparr>))) s"
    "wp I Q (try_act (\<lambda>s. case g (sy_fido2_counters s) of (r, dk) \<Rightarrow> (Some r, s\<lparr>sy_fido2_counters := dk\<rparr>))) s"
proof -
  have k: "kept s (s\<lparr>sy_totp_ledger := j\<rparr>)" "kept s (s\<lparr>sy_fido2_counters := c\<rparr>)" for j c
    using assms(2) by (simp_all add: kept_def well_stored_def recorded_def)
  show "wp I Q (try_act (\<lambda>s. case f (sy_totp_ledger s) of (r, dk) \<Rightarrow> (Some r, s\<lparr>sy_totp_ledger := dk\<rparr>))) s"
    using assms(1) assms(3) [OF k(1)] assms(4) [OF k(1)] by (auto split: prod.splits sum.splits)
  show "wp I Q (try_act (\<lambda>s. case g (sy_fido2_counters s) of (r, dk) \<Rightarrow> (Some r, s\<lparr>sy_fido2_counters := dk\<rparr>))) s"
    using assms(1) assms(3) [OF k(2)] assms(4) [OF k(2)] by (auto split: prod.splits sum.splits)
qed

lemma wp_verify_proof:
  assumes "I s" "well_stored s" "\<And>s'. kept s s' \<Longrightarrow> I s'" "\<And>a s'. kept s s' \<Longrightarrow> Q a s'"
  shows "wp I Q (verify_proof dm m request token now) s"
proof -
  have q: "I s" "Q a s" for a using assms(1,4) kept_refl [OF assms(2)] by blast+
  have I: "I s'" if "kept s s'" for s' using assms(3) that .
  have led: "wp I (\<lambda>a s'. I s' \<and> Q (k a) s') (try_act (\<lambda>s. case f (sy_totp_ledger s) of (r, dk) \<Rightarrow> (Some r, s\<lparr>sy_totp_ledger := dk\<rparr>))) s"
    "wp I (\<lambda>a s'. I s' \<and> Q (j a) s') (try_act (\<lambda>s. case g (sy_fido2_counters s) of (r, dk) \<Rightarrow> (Some r, s\<lparr>sy_fido2_counters := dk\<rparr>))) s"
    for f g k j
    using assms by (intro wp_ledger_act; blast)+
  have "wp I Q (try_fido2 dm t c e cs) s" for t c e cs
    by (induction cs arbitrary: e) (use q led(2) in \<open>auto simp del: wp_try_act split: sum.splits\<close>)
  moreover have "wp I Q (try_totp dm t now cs) s" for t cs
    by (induction cs) (use q led(1) in \<open>auto simp del: wp_try_act split: option.splits\<close>)
  moreover have "wp I Q (try_password X t cs) s" for X t cs
    by (induction cs) (use q in \<open>auto split: sum.splits bool.splits\<close>)
  ultimately show ?thesis using q unfolding verify_proof_def Let_def by auto
qed

end
