(* ===== verification/Daemon_Inv.thy ===== *)
theory Daemon_Inv
  imports Daemon Daemon_Rules Channel_Props
begin

text \<open>
  The daemon never hides access.  \<open>access\<close> is what is really reachable in the world: the pairs of a
  channel and a host name that are open.  The contract bounds what drivers and dead-man may open; on
  its strength, whatever the daemon does and wherever it stops, every open channel is named by the
  host's stored record.
\<close>

section \<open>Steps of one grant, by state\<close>

lemmas grant_shape_cases = grant_shape_def grant_ops
lemmas grant_shape_splits = grant_state.splits grant_status_view.splits option.splits if_splits

lemma pending_shapes:
  "fst (grant_begin_pending now d t n p g) = Inr v \<Longrightarrow> grant_shape (snd (grant_begin_pending now d t n p g)) = ShPending \<and> grant_shape g = ShClosed"
  "fst (grant_add_satisfied now i g) = Inr b \<Longrightarrow> grant_shape (snd (grant_add_satisfied now i g)) = ShPending \<and> grant_shape g = ShPending"
  "fst (grant_approve_to_opening now cs g) = Inr e \<Longrightarrow> grant_shape (snd (grant_approve_to_opening now cs g)) = ShOpening cs \<and> grant_shape g = ShPending"
  "grant_shape g = ShPending \<Longrightarrow> grant_cancel_pending g = (Ok (), g\<lparr>g_state := Closed\<rparr>)"
  by (auto simp: grant_shape_cases split: grant_shape_splits)

lemma opening_shapes:
  assumes "grant_shape g = ShOpening cs"
  shows "fst (grant_finish_open g) = Ok ()" "grant_shape (snd (grant_finish_open g)) = ShOpen cs"
    "fst (grant_abort_open g) = Ok ()" "grant_shape (snd (grant_abort_open g)) = ShClosed"
    "fst (grant_fail_open st now g) = Ok ()" "grant_shape (snd (grant_fail_open st now g)) = ShRevert st"
  using assms by (auto simp: grant_shape_cases split: grant_shape_splits)

lemma begin_revert_shapes:
  "fst (grant_begin_revert now g) = Inr cs \<longleftrightarrow> grant_shape g = ShOpen cs \<or> grant_shape g = ShRevert cs"
  "fst (grant_begin_revert now g) = Inr cs \<Longrightarrow> grant_shape (snd (grant_begin_revert now g)) = ShRevert cs"
  by (auto simp: grant_shape_cases split: grant_shape_splits)

lemma revert_shapes:
  "fst (grant_retain_stuck st g) = Inr b \<Longrightarrow> grant_shape (snd (grant_retain_stuck st g)) = ShRevert st \<and> (\<exists>cs. grant_shape g = ShRevert cs)"
  "fst (grant_finish_revert g) = Inr u \<Longrightarrow> grant_shape (snd (grant_finish_revert g)) = ShClosed \<and> (\<exists>cs. grant_shape g = ShRevert cs)"
  "fst (grant_renew now t g) = Inr e \<Longrightarrow> grant_shape (snd (grant_renew now t g)) = grant_shape g"
  by (auto simp: grant_shape_cases split: grant_shape_splits)

lemma revert_refusals:
  assumes "grant_shape g = ShRevert cs"
  shows "\<exists>b. fst (grant_retain_stuck st g) = Inr b" "fst (grant_finish_revert g) = Inr ()"
  using assms by (auto simp: grant_shape_cases split: grant_shape_splits)

lemma timely_steps:
  assumes "grant_timely g" "now < clock_end"
  shows "d < clock_end \<Longrightarrow> grant_timely (snd (grant_begin_pending now d t n p g))"
    "grant_timely (snd (grant_add_satisfied now i g))" "grant_timely (snd (grant_approve_to_opening now cs g))"
    "grant_timely (snd (grant_cancel_pending g))" "grant_timely (snd (grant_finish_open g))"
    "grant_timely (snd (grant_abort_open g))" "grant_timely (snd (grant_fail_open cs now g))"
    "grant_timely (snd (grant_begin_revert now g))" "grant_timely (snd (grant_retain_stuck cs g))"
    "grant_timely (snd (grant_finish_revert g))" "grant_timely (snd (grant_renew now u g))"
  using assms
  by (auto simp: grant_timely_def grant_times_def grant_ops checked_add_time_def split: grant_shape_splits)

section \<open>The contract\<close>

locale access_contract =
  fixes dm :: "'w daemon"
    and access :: "'w \<Rightarrow> (channel \<times> string) set"
  assumes apply_bound: "bt_get (dm_drivers dm) c = Some d \<Longrightarrow> h \<in> set (inv_hosts (dm_inventory dm)) \<Longrightarrow>
      access (snd (d_apply d h ctx w)) \<subseteq> insert (c, h_name h) (access w)"
    and renew_bound: "bt_get (dm_drivers dm) c = Some d \<Longrightarrow> h \<in> set (inv_hosts (dm_inventory dm)) \<Longrightarrow>
      access (snd (d_renew d h ctx w)) \<subseteq> insert (c, h_name h) (access w)"
    and reestablish_bound: "bt_get (dm_drivers dm) c = Some d \<Longrightarrow> h \<in> set (inv_hosts (dm_inventory dm)) \<Longrightarrow>
      access (snd (d_reestablish d h w)) \<subseteq> insert (c, h_name h) (access w)"
    and revert_bound: "bt_get (dm_drivers dm) c = Some d \<Longrightarrow> h \<in> set (inv_hosts (dm_inventory dm)) \<Longrightarrow>
      access (snd (d_revert d h w)) \<subseteq> access w"
    and revert_shuts: "bt_get (dm_drivers dm) c = Some d \<Longrightarrow> h \<in> set (inv_hosts (dm_inventory dm)) \<Longrightarrow>
      is_ok (fst (d_revert d h w)) \<Longrightarrow> (c, h_name h) \<notin> access (snd (d_revert d h w))"
    and secret_bound: "bt_get (dm_drivers dm) c = Some d \<Longrightarrow> access (snd (d_take_secret d w)) \<subseteq> access w"
    and deadman_bound: "h \<in> set (inv_hosts (dm_inventory dm)) \<Longrightarrow>
      access (snd (dc_install (dm_deadman dm) h e w)) \<subseteq> access w \<and>
      access (snd (dc_reschedule (dm_deadman dm) h e w)) \<subseteq> access w \<and>
      access (snd (dc_remove (dm_deadman dm) h w)) \<subseteq> access w"
    and policy_loaded: "dm_approval dm = Some m \<Longrightarrow> model_ok m"
begin

abbreviation known :: "host \<Rightarrow> bool" where
  "known h \<equiv> h \<in> set (inv_hosts (dm_inventory dm))"

subsection \<open>Orchestration\<close>

lemma unwind_access:
  assumes "known h"
  shows "list_all (bt_contains (dm_drivers dm)) cs \<Longrightarrow>
    \<exists>rv st w'. unwind (dm_drivers dm) h cs w = Some ((rv, st), w') \<and> access w' \<subseteq> access w \<and>
      (\<forall>c\<in>set cs. (c, h_name h) \<in> access w' \<longrightarrow> c \<in> set st)"
proof (induction cs arbitrary: w)
  case (Cons c cs)
  then obtain d where d: "bt_get (dm_drivers dm) c = Some d" by (auto simp: bt_contains_def)
  obtain r w1 where r: "d_revert d h w = (r, w1)" by (cases "d_revert d h w")
  obtain rv st w' where u: "unwind (dm_drivers dm) h cs w1 = Some ((rv, st), w')" "access w' \<subseteq> access w1"
    "\<forall>c\<in>set cs. (c, h_name h) \<in> access w' \<longrightarrow> c \<in> set st"
    using Cons by fastforce
  have "access w1 \<subseteq> access w" using revert_bound [OF d assms, of w] r by simp
  moreover have "(c, h_name h) \<notin> access w1" if "is_ok r" using revert_shuts [OF d assms, of w] r that by simp
  ultimately show ?case using d r u by (cases "is_ok r") auto
qed simp

lemma apply_loop_access:
  assumes "known h"
  shows "list_all (bt_contains (dm_drivers dm)) (applied @ cs) \<Longrightarrow>
    \<exists>out w'. apply_loop (dm_drivers dm) h ctx applied cs w = Some (out, w') \<and>
      access w' \<subseteq> access w \<union> set cs \<times> {h_name h} \<and>
      (case out of Applied a \<Rightarrow> a = applied @ cs
       | Failed f e rv st \<Rightarrow> \<forall>c. (c, h_name h) \<in> access w' \<longrightarrow> c \<in> set st \<or> c \<notin> set applied \<and> (c, h_name h) \<in> access w)"
proof (induction cs arbitrary: applied w)
  case Nil
  then show ?case by simp
next
  case (Cons c cs)
  then obtain d where d: "bt_get (dm_drivers dm) c = Some d" by (auto simp: bt_contains_def)
  obtain r w1 where r: "d_apply d h ctx w = (r, w1)" by (cases "d_apply d h ctx w")
  have b: "access w1 \<subseteq> insert (c, h_name h) (access w)" using apply_bound [OF d assms, of ctx w] r by simp
  show ?case
  proof (cases r)
    case (Inl e)
    obtain rv st w' where u: "unwind (dm_drivers dm) h (c # rev applied) w1 = Some ((rv, st), w')"
      "access w' \<subseteq> access w1" "\<forall>j\<in>set (c # rev applied). (j, h_name h) \<in> access w' \<longrightarrow> j \<in> set st"
      using unwind_access [OF assms, of "c # rev applied" w1] Cons.prems by auto
    moreover have "apply_loop (dm_drivers dm) h ctx applied (c # cs) w = Some (Failed c e rv st, w')"
      using Inl d r u(1) by (simp del: unwind.simps)
    moreover have "\<forall>j. (j, h_name h) \<in> access w' \<longrightarrow> j \<in> set st \<or> j \<notin> set applied \<and> (j, h_name h) \<in> access w"
      using u(2,3) b by auto
    ultimately show ?thesis using b by auto
  next
    case (Inr x)
    obtain out w' where ih: "apply_loop (dm_drivers dm) h ctx (applied @ [c]) cs w1 = Some (out, w')"
      "access w' \<subseteq> access w1 \<union> set cs \<times> {h_name h}"
      "case out of Applied a \<Rightarrow> a = (applied @ [c]) @ cs
       | Failed f e rv st \<Rightarrow> \<forall>j. (j, h_name h) \<in> access w' \<longrightarrow>
           j \<in> set st \<or> j \<notin> set (applied @ [c]) \<and> (j, h_name h) \<in> access w1"
      using Cons.IH [of "applied @ [c]" w1] Cons.prems by auto
    moreover have "apply_loop (dm_drivers dm) h ctx applied (c # cs) w = Some (out, w')" using Inr d r ih(1) by simp
    ultimately show ?thesis using b by (cases out) auto
  qed
qed

lemma apply_channels_access:
  assumes "known h" "list_all (bt_contains (dm_drivers dm)) cs"
  shows "\<exists>out w'. apply_channels (dm_drivers dm) h cs ctx w = Some (out, w') \<and>
    access w' \<subseteq> access w \<union> set cs \<times> {h_name h} \<and>
    (case out of Applied a \<Rightarrow> a = cs
     | Failed f e rv st \<Rightarrow> \<forall>c. (c, h_name h) \<in> access w' \<longrightarrow> c \<in> set st \<or> (c, h_name h) \<in> access w)"
proof -
  obtain out w' where "apply_loop (dm_drivers dm) h ctx [] cs w = Some (out, w')"
    "access w' \<subseteq> access w \<union> set cs \<times> {h_name h}"
    "case out of Applied a \<Rightarrow> a = [] @ cs
     | Failed f e rv st \<Rightarrow> \<forall>c. (c, h_name h) \<in> access w' \<longrightarrow> c \<in> set st \<or> c \<notin> set [] \<and> (c, h_name h) \<in> access w"
    using apply_loop_access [OF assms(1), of "[]" cs ctx w] assms(2) by auto
  then show ?thesis by (cases out) (auto simp: apply_channels_def)
qed

lemma revert_loop_access:
  assumes "known h"
  shows "revert_loop (dm_drivers dm) h cs w = (stuck, w') \<Longrightarrow>
    access w' \<subseteq> access w \<and> (\<forall>c\<in>set cs. (c, h_name h) \<in> access w' \<longrightarrow> c \<in> fst ` set stuck)"
proof (induction cs arbitrary: w stuck)
  case (Cons c cs)
  show ?case
  proof (cases "bt_get (dm_drivers dm) c")
    case None
    then obtain st where "revert_loop (dm_drivers dm) h cs w = (st, w')" "stuck = (c, no_driver c) # st"
      using Cons.prems by (auto split: prod.splits)
    then show ?thesis using Cons.IH by auto
  next
    case (Some d)
    obtain r w1 where r: "d_revert d h w = (r, w1)" by (cases "d_revert d h w")
    obtain st where st: "revert_loop (dm_drivers dm) h cs w1 = (st, w')" "stuck = (case r of Inl e \<Rightarrow> (c, e) # st | Inr _ \<Rightarrow> st)"
      using Cons.prems Some r by (cases r) (auto split: prod.splits)
    have "access w1 \<subseteq> access w" using revert_bound [OF Some assms, of w] r by simp
    moreover have "(c, h_name h) \<notin> access w1" if "is_ok r" using revert_shuts [OF Some assms, of w] r that by simp
    ultimately show ?thesis using Cons.IH [OF st(1)] st(2) by (cases r) auto
  qed
qed simp

lemma revert_channels_access:
  assumes "known h" "revert_channels (dm_drivers dm) h cs w = (out, w')"
  shows "access w' \<subseteq> access w" "\<forall>c\<in>set cs. (c, h_name h) \<in> access w' \<longrightarrow>
    (case out of Reverted \<Rightarrow> False | Stuck stuck \<Rightarrow> c \<in> fst ` set stuck)"
proof -
  obtain st where st: "revert_loop (dm_drivers dm) h (rev cs) w = (st, w')" "out = (if st = [] then Reverted else Stuck st)"
    using assms(2) by (auto simp: revert_channels_def split: prod.splits)
  from revert_loop_access [OF assms(1) st(1)] st(2)
  show "access w' \<subseteq> access w" "\<forall>c\<in>set cs. (c, h_name h) \<in> access w' \<longrightarrow>
    (case out of Reverted \<Rightarrow> False | Stuck stuck \<Rightarrow> c \<in> fst ` set stuck)" by auto
qed

lemma renew_channels_access:
  assumes "known h"
  shows "access (snd (renew_channels (dm_drivers dm) h cs ctx w)) \<subseteq> access w \<union> set cs \<times> {h_name h}"
proof (induction cs arbitrary: w)
  case (Cons c cs)
  show ?case
  proof (cases "bt_get (dm_drivers dm) c")
    case (Some d)
    obtain r w1 where r: "d_renew d h ctx w = (r, w1)" by (cases "d_renew d h ctx w")
    have "access w1 \<subseteq> insert (c, h_name h) (access w)" using renew_bound [OF Some assms, of ctx w] r by simp
    then show ?thesis using Cons [of w1] Some r by (cases r) auto
  qed auto
qed simp

lemma reestablish_loop_access:
  assumes "known h"
  shows "access (snd (reestablish_loop (dm_drivers dm) h cs w)) \<subseteq> access w \<union> set cs \<times> {h_name h}"
proof (induction cs arbitrary: w)
  case (Cons c cs)
  show ?case
  proof (cases "bt_get (dm_drivers dm) c")
    case None
    then show ?thesis using Cons [of w] by (auto split: prod.splits)
  next
    case (Some d)
    obtain r w1 where r: "d_reestablish d h w = (r, w1)" by (cases "d_reestablish d h w")
    have "access w1 \<subseteq> insert (c, h_name h) (access w)" using reestablish_bound [OF Some assms, of w] r by simp
    moreover have "snd (reestablish_loop (dm_drivers dm) h (c # cs) w) = snd (reestablish_loop (dm_drivers dm) h cs w1)"
      using Some r by (auto split: prod.splits sum.splits channel_state.splits)
    ultimately show ?thesis using Cons [of w1] by auto
  qed
qed simp

lemma first_secret_access: "access (snd (first_secret (dm_drivers dm) cs w)) \<subseteq> access w"
proof (induction cs arbitrary: w)
  case (Cons c cs)
  obtain r w1 where r: "ds_take_secret (dm_drivers dm) c w = (r, w1)" by (cases "ds_take_secret (dm_drivers dm) c w")
  have "access w1 \<subseteq> access w"
    using r secret_bound [of c _ w] by (auto simp: ds_take_secret_def split: option.splits)
  then show ?case using Cons [of w1] r by (cases r) auto
qed simp

end

end
