(* ===== verification/Daemon_Safe.thy ===== *)
theory Daemon_Safe
  imports Daemon_Inv
begin

text \<open>
  The invariant of the contract of \<open>Daemon_Inv\<close>, kept by every access of every operation, of the pass and
  of boot recovery; none of them panics.
\<close>

lemma wp_for_each_keyed:
  "distinct (map key xs) \<Longrightarrow> I s \<Longrightarrow> \<forall>x\<in>set xs. P x s \<Longrightarrow>
     (\<And>x s. x \<in> set xs \<Longrightarrow> I s \<Longrightarrow> P x s \<Longrightarrow> wp I (\<lambda>_ s'. \<forall>y. key y \<noteq> key x \<longrightarrow> P y s \<longrightarrow> P y s') (body x) s) \<Longrightarrow>
     wp I (\<lambda>_ _. True) (for_each body xs) s"
proof (induction xs arbitrary: s)
  case (Cons x xs)
  have "wp I (\<lambda>_ s'. \<forall>y. key y \<noteq> key x \<longrightarrow> P y s \<longrightarrow> P y s') (body x) s" using Cons.prems by simp
  then have "wp I (\<lambda>_. wp I (\<lambda>_ _. True) (for_each body xs)) (body x) s"
  proof (rule wp_mono)
    fix s'
    assume "I s'" "\<forall>y. key y \<noteq> key x \<longrightarrow> P y s \<longrightarrow> P y s'"
    moreover have "key y \<noteq> key x" if "y \<in> set xs" for y
    proof
      assume "key y = key x"
      then have "key x \<in> key ` set xs" using that by (metis imageI)
      then show False using Cons.prems(1) by simp
    qed
    ultimately show "wp I (\<lambda>_ _. True) (for_each body xs) s'" using Cons by auto
  qed
  then show ?case by simp
qed simp

lemma find_in: "find P xs = Some x \<Longrightarrow> x \<in> set xs \<and> P x"
  by (auto simp: find_Some_iff)

lemma distinct_map_filter:
  "distinct (map fst es) \<Longrightarrow> (\<And>e x. f e = Some x \<Longrightarrow> fst x = fst e) \<Longrightarrow> distinct (map fst (List.map_filter f es))"
proof (induction es)
  case (Cons e es)
  have "fst x \<noteq> fst e" if "x \<in> set (List.map_filter f es)" for x
  proof -
    have "x \<in> (\<lambda>e. the (f e)) ` {e \<in> set es. f e \<noteq> None}" using that by (simp add: List.map_filter_def)
    then obtain y where y: "y \<in> set es" "f y = Some x" by fastforce
    have "fst x \<in> fst ` set es" using Cons.prems(2) [OF y(2)] y(1) by simp
    moreover have "fst e \<notin> fst ` set es" using Cons.prems(1) by simp
    ultimately show ?thesis by metis
  qed
  then have "fst e \<notin> fst ` set (List.map_filter f es)" by (metis imageE)
  moreover have "distinct (map fst (List.map_filter f es))" by (rule Cons.IH) (use Cons.prems in auto)
  ultimately show ?case using Cons.prems(2) [of e] by (cases "f e") auto
qed simp

lemma listed_shapes:
  assumes "bt_ok (r_grants r)"
  shows "distinct (map fst (needing_revert now r))" "distinct (map fst (open_channels now r))"
    "(k, cs) \<in> set (needing_revert now r) \<Longrightarrow> reg_shape r k = ShRevert cs \<and> bt_contains (r_grants r) k"
    "(k, cs) \<in> set (open_channels now r) \<Longrightarrow> reg_shape r k = ShOpen cs \<and> bt_contains (r_grants r) k"
    "k \<in> set (reg_awaiting_approval now r) \<Longrightarrow> bt_contains (r_grants r) k"
proof -
  show "distinct (map fst (needing_revert now r))" "distinct (map fst (open_channels now r))"
    unfolding needing_revert_def open_channels_def
    by (intro distinct_map_filter bt_ok_distinct [OF assms]; auto split: grant_case_splits grant_parts_view.splits)+
  have in_get: "bt_get (r_grants r) k = Some g" if "(k, g) \<in> set (r_grants r)" for k g
    using that bt_get_in_set [OF assms] by simp
  show "(k, cs) \<in> set (needing_revert now r) \<Longrightarrow> reg_shape r k = ShRevert cs \<and> bt_contains (r_grants r) k"
    by (auto simp: needing_revert_def List.map_filter_def reg_shape_def bt_contains_def grant_shape_def
        dest!: in_get split: grant_status_view.splits)
  show "(k, cs) \<in> set (open_channels now r) \<Longrightarrow> reg_shape r k = ShOpen cs \<and> bt_contains (r_grants r) k"
    by (auto simp: open_channels_def List.map_filter_def reg_shape_def bt_contains_def grant_shape_def grant_parts_def
        dest!: in_get split: grant_status_view.splits)
  show "k \<in> set (reg_awaiting_approval now r) \<Longrightarrow> bt_contains (r_grants r) k"
    by (auto simp: reg_awaiting_approval_def List.map_filter_def bt_contains_def dest!: in_get
        split: grant_status_view.splits)
qed

context registry_sweep
begin

lemma swept_shapes:
  assumes keep: "\<And>g. hit g \<Longrightarrow> shape_channels (grant_shape (moved g)) = shape_channels (grant_shape g)"
    "\<And>g. hit g \<Longrightarrow> grant_timely g \<Longrightarrow> grant_timely (moved g)"
    and r: "bt_ok (r_grants r)" "all_grants grant_timely r" "r' = r\<lparr>r_grants := swept (r_grants r)\<rparr>"
  shows "bt_ok (r_grants r')" "all_grants grant_timely r'"
    "shape_channels (reg_shape r' k) = shape_channels (reg_shape r k)"
proof -
  show "bt_ok (r_grants r')" using r(1,3) hosts_swept by (simp add: bt_ok_def)
  show "all_grants grant_timely r'" using r(2,3) keep(2) by (auto simp: all_grants_def swept_def)
  show "shape_channels (reg_shape r' k) = shape_channels (reg_shape r k)"
    using r(3) keep(1) by (auto simp: reg_shape_def get_swept split: option.splits)
qed

end

context access_contract
begin

section \<open>The invariant\<close>

definition sound :: "'w sys \<Rightarrow> bool" where
  "sound s \<longleftrightarrow> well_stored s \<and> (\<forall>c k. (c, k) \<in> access (sy_world s) \<longrightarrow> c \<in> set (shape_channels (recorded s k)))"

lemma sound_stored: "sound s \<Longrightarrow> well_stored s"
  by (simp add: sound_def)

lemma sound_kept: "sound s \<Longrightarrow> kept s s' \<Longrightarrow> sound s'"
  by (simp add: sound_def kept_def)

lemma sound_moved:
  "sound s \<Longrightarrow> moved s host sh s' \<Longrightarrow> \<forall>c. (c, host) \<in> access (sy_world s) \<longrightarrow> c \<in> set (shape_channels sh) \<Longrightarrow> sound s'"
  by (auto simp: sound_def moved_def)

lemma recorded_world [simp]: "recorded (s\<lparr>sy_world := w\<rparr>) = recorded s" "well_stored (s\<lparr>sy_world := w\<rparr>) = well_stored s"
  by (simp_all add: recorded_def well_stored_def)

lemma sound_world:
  assumes "sound s" "access w \<subseteq> access (sy_world s) \<union> set (shape_channels (recorded s k)) \<times> {k}"
  shows "sound (s\<lparr>sy_world := w\<rparr>)"
  using assms by (fastforce simp: sound_def)

lemma wp_world:
  assumes "sound s" "access (snd (f (sy_world s))) \<subseteq> access (sy_world s)"
    "\<And>a s'. sound s' \<Longrightarrow> recorded s' = recorded s \<Longrightarrow> access (sy_world s') \<subseteq> access (sy_world s) \<Longrightarrow> Q a s'"
  shows "wp sound Q (with_world f) s"
  using assms sound_world [OF assms(1), of "snd (f (sy_world s))"] by (fastforce simp: wp_with_world Let_def)

lemma wp_commit:
  assumes "sound s" "\<And>g. grant_timely g \<Longrightarrow> grant_timely (snd (m g))"
    and commits: "\<And>g v. grant_shape g = recorded s host \<Longrightarrow> fst (m g) = Inr v \<Longrightarrow> dm_host dm host \<noteq> None \<Longrightarrow>
      (\<forall>c. (c, host) \<in> access (sy_world s) \<longrightarrow> c \<in> set (shape_channels (grant_shape (snd (m g))))) \<and>
      (\<forall>s'. moved s host (grant_shape (snd (m g))) s' \<longrightarrow> sound s' \<longrightarrow> Q (Inr v) s')"
    and refused: "\<And>g e s'. grant_shape g = recorded s host \<Longrightarrow> fst (m g) = Inl e \<Longrightarrow> dm_host dm host \<noteq> None \<Longrightarrow>
      sound s' \<Longrightarrow> kept s s' \<Longrightarrow> Q (Inl (GrantErr e)) s'"
    and unknown: "\<And>s'. dm_host dm host = None \<Longrightarrow> recorded s host = ShClosed \<Longrightarrow> sound s' \<Longrightarrow> kept s s' \<Longrightarrow>
      Q (Inl (UnknownHost host)) s'"
  shows "wp sound Q (with_registry dm (grant_mut host m)) s"
proof (rule wp_with_registry, rule assms(1), rule sound_stored, rule assms(1))
  show "sound s'" if "kept s s'" for s' using sound_kept [OF assms(1) that] .
  show "grant_timely (snd (m g))" if "grant_timely g" for g using assms(2) that .
  show "sound s' \<and> Q (Inr v) s'" if "grant_shape g = recorded s host" "fst (m g) = Inr v" "dm_host dm host \<noteq> None"
    "moved s host (grant_shape (snd (m g))) s'" for g v s'
    using commits [OF that(1-3)] sound_moved [OF assms(1) that(4)] that(4) by blast
qed (use refused unknown sound_kept [OF assms(1)] in blast)+

lemma wp_load:
  assumes "sound s" "\<And>r s'. registry_of (dm_inventory dm) r \<Longrightarrow> bt_ok (r_grants r) \<Longrightarrow> reg_shape r = recorded s' \<Longrightarrow>
    sound s' \<Longrightarrow> kept s s' \<Longrightarrow> Q r s'"
  shows "wp sound Q (load_registry dm) s"
  by (rule wp_load_registry, rule assms(1), rule sound_stored, rule assms(1), erule sound_kept [OF assms(1)])
    (use assms sound_kept registry_of_bt_ok in \<open>auto simp: kept_def\<close>)

lemma wp_journal:
  assumes "sound s" "\<And>s'. sound s' \<Longrightarrow> kept s s' \<Longrightarrow> Q () s'"
  shows "wp sound Q (journal_event now ev) s" "wp sound Q (println line) s"
  by (rule wp_quiet; use assms sound_kept sound_stored in blast)+

lemma wp_nonce:
  assumes "sound s" "\<And>n s'. sound s' \<Longrightarrow> kept s s' \<Longrightarrow> Q n s'"
  shows "wp sound Q (generate_nonce dm) s"
  by (rule wp_generate_nonce; use assms sound_kept sound_stored in blast)

lemma wp_proof:
  assumes "sound s" "\<And>a s'. sound s' \<Longrightarrow> kept s s' \<Longrightarrow> Q a s'"
  shows "wp sound Q (verify_proof dm m request token now) s"
  by (rule wp_verify_proof; use assms sound_kept sound_stored in blast)

section \<open>Commits\<close>

lemma unrecorded: "sound s \<Longrightarrow> shape_channels (recorded s k) = [] \<Longrightarrow> (c, k) \<notin> access (sy_world s)"
  by (metis sound_def empty_iff list.set(1))

lemma recorded_access: "sound s \<Longrightarrow> (c, k) \<in> access (sy_world s) \<Longrightarrow> c \<in> set (shape_channels (recorded s k))"
  by (simp add: sound_def)

lemma wp_begin_pending:
  assumes "sound s" "now < clock_end" "d < clock_end" "\<And>r s'. sound s' \<Longrightarrow> Q r s'"
  shows "wp sound Q (with_registry dm (reg_begin_pending host now d t n p)) s"
  unfolding reg_begin_pending_def
  by (rule wp_commit [OF assms(1)])
    (use assms timely_steps(1) pending_shapes(1) unrecorded [OF assms(1)] in fastforce)+

lemma wp_add_satisfied:
  assumes "sound s" "now < clock_end" "\<And>r s'. sound s' \<Longrightarrow> Q r s'"
  shows "wp sound Q (with_registry dm (reg_add_satisfied host now i)) s"
  unfolding reg_add_satisfied_def
  by (rule wp_commit [OF assms(1)])
    (use assms timely_steps(2) pending_shapes(2) unrecorded [OF assms(1)] in fastforce)+

lemma wp_approve_to_opening:
  assumes "sound s" "now < clock_end" "\<And>e s'. sound s' \<Longrightarrow> Q (Inl e) s'"
    "\<And>e s'. sound s' \<Longrightarrow> recorded s' host = ShOpening cs \<Longrightarrow> \<forall>c. (c, host) \<notin> access (sy_world s') \<Longrightarrow>
       dm_host dm host \<noteq> None \<Longrightarrow> Q (Inr e) s'"
  shows "wp sound Q (with_registry dm (reg_approve_to_opening host now cs)) s"
  unfolding reg_approve_to_opening_def
proof (rule wp_commit [OF assms(1)])
  fix g e
  assume g: "grant_shape g = recorded s host" "fst (grant_approve_to_opening now cs g) = Inr e" "dm_host dm host \<noteq> None"
  have sh: "grant_shape (snd (grant_approve_to_opening now cs g)) = ShOpening cs" "recorded s host = ShPending"
    using pending_shapes(3) [OF g(2)] g(1) by auto
  have "(c, host) \<notin> access (sy_world s)" for c using unrecorded [OF assms(1), of host c] sh(2) by simp
  then show "(\<forall>c. (c, host) \<in> access (sy_world s) \<longrightarrow> c \<in> set (shape_channels (grant_shape (snd (grant_approve_to_opening now cs g))))) \<and>
    (\<forall>s'. moved s host (grant_shape (snd (grant_approve_to_opening now cs g))) s' \<longrightarrow> sound s' \<longrightarrow> Q (Inr e) s')"
    using assms(4) g(3) sh(1) by (simp add: moved_def)
qed (use assms timely_steps(3) in auto)

lemma wp_finish_open:
  assumes "sound s" "recorded s host = ShOpening cs" "\<And>s'. sound s' \<Longrightarrow> Q (Inr ()) s'"
  shows "wp sound Q (with_registry dm (reg_finish_open host)) s"
  unfolding reg_finish_open_def
proof (rule wp_commit [OF assms(1)])
  show "grant_timely (snd (grant_finish_open g))" if "grant_timely g" for g
    using timely_steps(5) [OF that, of 0] by (simp add: clock_end_def)
qed (use assms opening_shapes(1,2) recorded_access [OF assms(1)] in fastforce)+

lemma wp_failed_open:
  assumes "sound s" "recorded s host = ShOpening cs" "\<forall>c. (c, host) \<in> access (sy_world s) \<longrightarrow> c \<in> set st"
    "now < clock_end" "\<And>s'. sound s' \<Longrightarrow> Q () s'"
  shows "wp sound Q (commit_failed_open dm host st now) s"
proof -
  have "wp sound (\<lambda>r s'. r = Inr () \<and> sound s') (with_registry dm (reg_fail_open host st now)) s"
    unfolding reg_fail_open_def
    by (rule wp_commit [OF assms(1)])
      (use assms timely_steps(7) opening_shapes(5,6) in fastforce)+
  moreover have "wp sound (\<lambda>r s'. r = Inr () \<and> sound s') (with_registry dm (reg_abort_open host)) s" if "st = []"
    unfolding reg_abort_open_def
    by (rule wp_commit [OF assms(1)])
      (use assms that timely_steps(6) opening_shapes(3,4) in fastforce)+
  ultimately show ?thesis
    using assms(5) by (auto simp: commit_failed_open_def expect_def elim!: wp_mono)
qed

lemma wp_begin_revert:
  assumes "sound s" "now < clock_end"
    "\<And>e s'. sound s' \<Longrightarrow> dm_host dm host = None \<or> (\<forall>cs. recorded s host \<noteq> ShOpen cs) \<Longrightarrow> Q (Inl e) s'"
    "\<And>cs s'. sound s' \<Longrightarrow> moved s host (ShRevert cs) s' \<Longrightarrow> dm_host dm host \<noteq> None \<Longrightarrow> Q (Inr cs) s'"
  shows "wp sound Q (with_registry dm (reg_begin_revert host now)) s"
  unfolding reg_begin_revert_def
proof (rule wp_commit [OF assms(1)])
  fix g cs
  assume g: "grant_shape g = recorded s host" "fst (grant_begin_revert now g) = Inr cs" "dm_host dm host \<noteq> None"
  have "recorded s host = ShOpen cs \<or> recorded s host = ShRevert cs" using begin_revert_shapes(1) g by metis
  then have "\<forall>c. (c, host) \<in> access (sy_world s) \<longrightarrow> c \<in> set cs" using recorded_access [OF assms(1)] by fastforce
  then show "(\<forall>c. (c, host) \<in> access (sy_world s) \<longrightarrow> c \<in> set (shape_channels (grant_shape (snd (grant_begin_revert now g))))) \<and>
    (\<forall>s'. moved s host (grant_shape (snd (grant_begin_revert now g))) s' \<longrightarrow> sound s' \<longrightarrow> Q (Inr cs) s')"
    using assms(4) g(3) begin_revert_shapes(2) [OF g(2)] by simp
next
  fix g e s'
  assume g: "grant_shape g = recorded s host" "fst (grant_begin_revert now g) = Inl e" "sound s'"
  have "recorded s host \<noteq> ShOpen cs" for cs using begin_revert_shapes(1) [of now g cs] g(1,2) by auto
  then show "Q (Inl (GrantErr e)) s'" using assms(3) g(3) by blast
qed (use assms timely_steps(8) in auto)

lemma wp_retain_stuck:
  assumes "sound s" "\<forall>c. (c, host) \<in> access (sy_world s) \<longrightarrow> c \<in> set st"
    "\<And>r s'. sound s' \<Longrightarrow> (\<forall>k. k \<noteq> host \<longrightarrow> recorded s' k = recorded s k) \<Longrightarrow>
       (\<And>cs. recorded s host = ShRevert cs \<Longrightarrow> dm_host dm host \<noteq> None \<Longrightarrow> \<exists>b. r = Inr b) \<Longrightarrow> Q r s'"
  shows "wp sound Q (with_registry dm (reg_retain_stuck host st)) s"
  unfolding reg_retain_stuck_def
proof (rule wp_commit [OF assms(1)])
  show "grant_timely (snd (grant_retain_stuck st g))" if "grant_timely g" for g
    using timely_steps(9) [OF that, of 0] by (simp add: clock_end_def)
next
  fix g b
  assume g: "grant_shape g = recorded s host" "fst (grant_retain_stuck st g) = Inr b" "dm_host dm host \<noteq> None"
  then show "(\<forall>c. (c, host) \<in> access (sy_world s) \<longrightarrow> c \<in> set (shape_channels (grant_shape (snd (grant_retain_stuck st g))))) \<and>
    (\<forall>s'. moved s host (grant_shape (snd (grant_retain_stuck st g))) s' \<longrightarrow> sound s' \<longrightarrow> Q (Inr b) s')"
    using assms(2,3) revert_shapes(1) [OF g(2)] by (auto simp: moved_def)
next
  fix g e s'
  assume g: "grant_shape g = recorded s host" "fst (grant_retain_stuck st g) = Inl e" "sound s'" "kept s s'"
  show "Q (Inl (GrantErr e)) s'"
    by (rule assms(3) [OF g(3)]) (use g revert_refusals(1) [of g _ st] in \<open>auto simp: kept_def\<close>)
next
  fix s'
  assume "sound s'" "kept s s'" "dm_host dm host = None"
  then show "Q (Inl (UnknownHost host)) s'" by (intro assms(3)) (auto simp: kept_def)
qed

lemma wp_finish_revert:
  assumes "sound s" "\<forall>c. (c, host) \<notin> access (sy_world s)"
    "\<And>r s'. sound s' \<Longrightarrow> (\<forall>k. k \<noteq> host \<longrightarrow> recorded s' k = recorded s k) \<Longrightarrow> Q r s'"
  shows "wp sound Q (with_registry dm (reg_finish_revert host)) s"
  unfolding reg_finish_revert_def
proof (rule wp_commit [OF assms(1)])
  show "grant_timely (snd (grant_finish_revert g))" if "grant_timely g" for g
    using timely_steps(10) [OF that, of 0] by (simp add: clock_end_def)
qed (use assms in \<open>auto simp: moved_def kept_def\<close>)

lemma wp_renew:
  assumes "sound s" "now < clock_end" "\<And>r s'. sound s' \<Longrightarrow> Q r s'"
  shows "wp sound Q (with_registry dm (reg_renew host now t)) s"
  unfolding reg_renew_def
  by (rule wp_commit [OF assms(1)])
    (use assms timely_steps(11) revert_shapes(3) recorded_access [OF assms(1)] in fastforce)+

lemma wp_cancel_pending:
  assumes "sound s" "recorded s host = ShPending" "\<And>s'. sound s' \<Longrightarrow> Q (Inr ()) s'"
  shows "wp sound Q (with_registry dm (reg_cancel_pending host)) s"
  unfolding reg_cancel_pending_def
proof (rule wp_commit [OF assms(1)])
  show "grant_timely (snd (grant_cancel_pending g))" if "grant_timely g" for g
    using timely_steps(4) [OF that, of 0] by (simp add: clock_end_def)
qed (use assms pending_shapes(4) unrecorded [OF assms(1)] in fastforce)+

section \<open>Opening and reverting\<close>

lemma deadman_opens_nothing:
  assumes "known h"
  shows "access (snd (dc_install (dm_deadman dm) h e w)) \<subseteq> access w"
    "access (snd (dc_reschedule (dm_deadman dm) h e w)) \<subseteq> access w"
    "access (snd (dc_remove (dm_deadman dm) h w)) \<subseteq> access w"
  using deadman_bound [OF assms] by blast+

lemma wp_refuse:
  "sound s \<Longrightarrow> wp sound (\<lambda>_ _. True) (refuse reason) s"
  "sound s \<Longrightarrow> wp sound (\<lambda>_ _. True) (refuse_registry dm e) s"
  by (simp_all add: refuse_registry_def refuse_def)

lemma wp_already_opening: "sound s \<Longrightarrow> wp sound (\<lambda>_ _. True) (already_opening_response dm host now) s"
  by (auto simp: already_opening_response_def refuse_def intro!: wp_load split: sum.splits grant_status_view.splits)

lemma drivable_driven: "list_all (bt_contains (dm_drivers dm)) (drivable (dm_drivers dm) cs)"
  by (simp add: drivable_def list_all_iff)

lemma wp_failed_path:
  assumes "sound s" "recorded s host = ShOpening cs" "\<forall>c. (c, host) \<in> access (sy_world s) \<longrightarrow> c \<in> set st" "now < clock_end"
  shows "wp sound (\<lambda>_ _. True) (and_then (commit_failed_open dm host st now) (\<lambda>_.
     and_then (journal_event now ev) (\<lambda>_. refuse reason))) s"
  unfolding wp_and_then refuse_def
  by (rule wp_failed_open [OF assms]) (auto intro!: wp_journal)

lemma wp_install:
  assumes "sound s" "known h" "\<And>r s'. sound s' \<Longrightarrow> recorded s' = recorded s \<Longrightarrow> Q r s'"
  shows "wp sound Q (install_deadman dm h cs e) s"
  using assms by (auto simp: install_deadman_def intro!: wp_world deadman_opens_nothing)

lemma wp_land_open:
  assumes "sound s" "recorded s host = ShOpening cs"
  shows "wp sound (\<lambda>_ _. True) (land_open dm host h cs' decl n e now) s"
  unfolding land_open_def wp_and_then
  by (rule wp_finish_open [OF assms]) (auto simp: expect_def intro!: wp_journal wp_world first_secret_access)

lemma wp_undo_open:
  assumes s: "sound s" "recorded s host = ShOpening cs" "now < clock_end" "known h" "h_name h = host"
  shows "wp sound (\<lambda>_ _. True) (undo_open dm host h cs e now) s"
proof -
  obtain out w where r: "revert_channels (dm_drivers dm) h cs (sy_world s) = (out, w)"
    by (cases "revert_channels (dm_drivers dm) h cs (sy_world s)")
  note acc = revert_channels_access [OF s(4) r, unfolded s(5)]
  let ?st = "case out of Reverted \<Rightarrow> [] | Stuck stuck \<Rightarrow> map fst stuck"
  have "sound (s\<lparr>sy_world := w\<rparr>)" using sound_world [OF s(1), of w host] acc(1) by blast
  moreover have "\<forall>c. (c, host) \<in> access w \<longrightarrow> c \<in> set ?st"
    using acc recorded_access [OF s(1)] s(2) by (cases out) fastforce+
  ultimately show ?thesis
    using wp_failed_path [of "s\<lparr>sy_world := w\<rparr>" host cs ?st now] s r
    by (simp add: undo_open_def wp_with_world Let_def)
qed

lemma wp_drive_open:
  assumes s: "sound s" "now < clock_end" "dm_host dm host = Some h"
    and rec: "recorded s host = ShOpening cs" "\<forall>c. (c, host) \<notin> access (sy_world s)"
    and drv: "list_all (bt_contains (dm_drivers dm)) cs"
  shows "wp sound (\<lambda>_ _. True) (drive_open dm host h cs decl n e now) s"
proof -
  note h = dm_host_in [OF s(3)]
  let ?ctx = "\<lparr>ctx_ttl_secs = n, ctx_expires_at = e\<rparr>"
  obtain out w where o: "apply_channels (dm_drivers dm) h cs ?ctx (sy_world s) = Some (out, w)"
    "access w \<subseteq> access (sy_world s) \<union> set cs \<times> {host}"
    "case out of Applied a \<Rightarrow> a = cs
     | Failed f e rv st \<Rightarrow> \<forall>c. (c, host) \<in> access w \<longrightarrow> c \<in> set st \<or> (c, host) \<in> access (sy_world s)"
    using apply_channels_access [OF h(1) drv, of ?ctx "sy_world s"] h(2) by auto
  let ?s = "s\<lparr>sy_world := w\<rparr>"
  have s': "sound ?s" using sound_world [OF s(1), of w host] o(2) rec(1) by simp
  have r': "recorded ?s host = ShOpening cs" using rec(1) by simp
  show ?thesis
  proof (cases out)
    case (Failed f err rv st)
    then have "\<forall>c. (c, host) \<in> access (sy_world ?s) \<longrightarrow> c \<in> set st" using o(3) rec(2) by auto
    from wp_failed_path [OF s' r' this s(2)] show ?thesis
      using o(1) Failed s(1) s' by (simp add: drive_open_def wp_with_world expect_some_def Let_def)
  next
    case (Applied a)
    then have a: "a = cs" using o(3) by simp
    have "wp sound (\<lambda>_ _. True) (and_then (install_deadman dm h cs e) (\<lambda>installed.
        case installed of Inl err \<Rightarrow> undo_open dm host h cs err now | Inr _ \<Rightarrow> land_open dm host h cs decl n e now)) ?s"
      unfolding wp_and_then
      by (rule wp_install [OF s' h(1)]) (use r' s h in \<open>auto split: sum.splits intro!: wp_undo_open wp_land_open\<close>)
    then show ?thesis using o(1) Applied a s(1) s' by (simp add: drive_open_def wp_with_world expect_some_def Let_def)
  qed
qed

lemma wp_open_pending_now:
  assumes "sound s" "now < clock_end" "dm_host dm host = Some h"
  shows "wp sound (\<lambda>_ _. True) (open_pending_now dm host h q now) s"
  unfolding open_pending_now_def Let_def wp_and_then
proof (rule wp_approve_to_opening [OF assms(1,2)])
  show "wp sound (\<lambda>_ _. True) (case Inl e of
      Inr expires \<Rightarrow>
        and_then (journal_event now (EvApproved host (epoch_secs q))) (\<lambda>_.
        drive_open dm host h (drivable (dm_drivers dm) (declared dm host)) (declared dm host)
          (case duration_since expires now of Some d \<Rightarrow> as_secs d | None \<Rightarrow> 0) expires now)
    | Inl (GrantErr NotPending) \<Rightarrow> already_opening_response dm host now
    | Inl refusal \<Rightarrow> refuse_registry dm refusal) t" if "sound t" for e t
    using that by (auto intro: wp_refuse wp_already_opening split: registry_error.splits grant_error.splits)
qed (auto simp: kept_def intro!: wp_journal wp_drive_open assms drivable_driven)

section \<open>Requests and approvals\<close>

lemma evaluates: "dm_approval dm = Some m \<Longrightarrow> \<exists>out. evaluate m au S el = Some out"
  using evaluate_spec [OF policy_loaded] by blast

lemma chooses: "\<exists>c. choose_profile dm h prof = Some c"
proof -
  have "\<exists>w. max_wait m au = Some w" for m au
    using max_wait_inner_total [of m "au_factors au" "(0, {||})"] by (auto simp: max_wait_def)
  then show ?thesis by (fastforce simp: choose_profile_def Let_def split: option.splits sum.splits)
qed

lemma progresses: "\<exists>p. progress dm au S el = Some p"
  using evaluates by (fastforce simp: progress_def split: option.splits)

lemma wp_request_open:
  assumes "sound s" "now < clock_end" "d < clock_end"
  shows "wp sound (\<lambda>_ _. True) (request_open dm host t chosen au d now) s"
proof -
  obtain p where p: "progress dm au {||} 0 = Some p" using progresses by blast
  show ?thesis
    unfolding request_open_def p
    using assms by (auto simp: expect_some_def split: sum.splits prod.splits intro!: wp_nonce wp_begin_pending wp_journal wp_refuse)
qed

lemma wp_dm_open:
  assumes "sound s" "now < clock_end"
  shows "wp sound (\<lambda>_ _. True) (dm_open dm host t prof now) s"
proof -
  define c where "c h = the (choose_profile dm h prof)" for h
  have c: "choose_profile dm h prof = Some (c h)" for h using chooses [of h prof] by (auto simp: c_def)
  show ?thesis
    unfolding dm_open_def c expect_some_def
    using assms by (auto split: sum.splits option.splits simp: checked_add_time_Some intro!: wp_refuse wp_request_open)
qed

lemma wp_weigh_proofs:
  assumes "sound s" "now < clock_end" "dm_approval dm = Some m" "dm_host dm host = Some h"
  shows "wp sound (\<lambda>_ _. True) (weigh_proofs dm m host h now) s"
proof -
  have judged: "wp sound (\<lambda>_ _. True) (and_then (expect_some (evaluate m au (pv_satisfied v) (pv_elapsed v))) (\<lambda>out.
      if o_met out then open_pending_now dm host h q now else pending_response dm host v au)) t" if "sound t" for au v q t
    using evaluates [OF assms(3), of au "pv_satisfied v" "pv_elapsed v"] that assms
      progresses [of "Some au" "pv_satisfied v" "pv_elapsed v"]
    by (auto simp: expect_some_def pending_response_def intro!: wp_open_pending_now split: prod.splits)
  show ?thesis
    unfolding weigh_proofs_def with_read_registry_def
    by (subst wp_and_then, subst wp_and_then, rule wp_load [OF assms(1)])
      (auto split: sum.splits simp del: wp_and_then intro!: wp_refuse judged)
qed

lemma wp_accept_proof:
  assumes "sound s" "now < clock_end" "dm_approval dm = Some m" "dm_host dm host = Some h"
  shows "wp sound (\<lambda>_ _. True) (accept_proof dm m host h i now) s"
  unfolding accept_proof_def wp_and_then
  by (rule wp_add_satisfied [OF assms(1,2)])
    (use assms in \<open>auto split: sum.splits intro!: wp_refuse wp_journal wp_weigh_proofs\<close>)

lemma wp_approve:
  assumes "sound s" "now < clock_end"
  shows "wp sound (\<lambda>_ _. True) (approve dm host token now) s"
proof -
  have known: "\<exists>h. dm_host dm host = Some h" if "registry_of (dm_inventory dm) r" "reg_pending host now r = Inr q" for r q
    using registry_knows [OF that(1), of host] that(2)
    by (auto simp: reg_pending_def grant_ref_def ok_or_def bind_ok_eq_Ok bt_contains_def split: option.splits)
  show ?thesis
    unfolding approve_def
  proof (subst wp_and_then, rule wp_load [OF assms(1)])
    fix r t
    assume r: "registry_of (dm_inventory dm) r" "sound t"
    show "wp sound (\<lambda>_ _. True) (case reg_pending host now r of
        Inl refusal \<Rightarrow> refuse_registry dm refusal
      | Inr request \<Rightarrow> and_then (expect_some (dm_host dm host)) (\<lambda>host_cfg.
          case dm_approval dm of None \<Rightarrow> open_pending_now dm host host_cfg (ar_requested_at request) now
          | Some m \<Rightarrow> and_then (verify_proof dm m request token now) (\<lambda>verdict. case verdict of
              Inl e \<Rightarrow> (let reason = approval_error_display (dm_crates dm) e in
                and_then (journal_event now (EvApprovalDenied host reason)) (\<lambda>_. refuse (''approval refused: '' @ reason)))
            | Inr authenticator \<Rightarrow> accept_proof dm m host host_cfg authenticator now))) t"
    proof (cases "reg_pending host now r")
      case (Inr q)
      then obtain h where "dm_host dm host = Some h" using known [OF r(1)] by blast
      then show ?thesis
        using Inr r(2) assms(2)
        by (auto split: sum.splits option.splits simp: expect_some_def Let_def
            intro!: wp_refuse wp_open_pending_now wp_proof wp_journal wp_accept_proof)
    qed (use r(2) in \<open>auto intro: wp_refuse\<close>)
  qed
qed

section \<open>Renewing and closing\<close>

lemma wp_announce_renewal:
  assumes "sound s" "dm_host dm host = Some h"
  shows "wp sound (\<lambda>_. sound) (announce_renewal dm host h t e now) s"
proof -
  note h = dm_host_in [OF assms(2)]
  have told: "wp sound (\<lambda>_. sound) (and_then (load_registry dm) (\<lambda>registry.
      let channels = open_channels_of host now registry in
      if channels = [] then Return (Ok ())
      else and_then (with_world (renew_channels (dm_drivers dm) h channels ctx)) (\<lambda>r. Return (f r)))) u"
    if "sound u" for u ctx and f :: "(channel \<times> driver_error) + unit \<Rightarrow> string + unit"
    unfolding wp_and_then
  proof (rule wp_load [OF that])
    fix r u'
    assume r: "registry_of (dm_inventory dm) r" "bt_ok (r_grants r)" "reg_shape r = recorded u'" "sound u'" "kept u u'"
    let ?cs = "open_channels_of host now r"
    have "recorded u' host = ShOpen ?cs" if "?cs \<noteq> []"
    proof -
      from that obtain cs where "(host, cs) \<in> set (open_channels now r)" "?cs = cs"
        by (cases "find (\<lambda>hc. fst hc = host) (open_channels now r)")
          (auto simp: open_channels_of_def dest!: find_in)
      then show ?thesis using listed_shapes(4) [OF r(2)] r(3) by metis
    qed
    then have "sound (u'\<lparr>sy_world := snd (renew_channels (dm_drivers dm) h ?cs ctx (sy_world u'))\<rparr>)" if "?cs \<noteq> []"
      using sound_world [OF r(4), of _ host] renew_channels_access [OF h(1), of ?cs ctx "sy_world u'"] that h(2) by simp
    then show "wp sound (\<lambda>_. sound) (let channels = ?cs in
      if channels = [] then Return (Ok ())
      else and_then (with_world (renew_channels (dm_drivers dm) h channels ctx)) (\<lambda>r. Return (f r))) u'"
      using r(4) by (simp add: wp_with_world Let_def)
  qed
  have "wp sound (\<lambda>_. sound) (reschedule_deadman dm h e) s"
    using assms(1) by (auto simp: reschedule_deadman_def intro!: wp_world deadman_opens_nothing h)
  then show ?thesis
    unfolding announce_renewal_def
    by (subst wp_and_then, elim wp_mono) (auto split: sum.splits simp del: wp_and_then intro!: told)
qed

lemma wp_commit_renewal:
  assumes "sound s" "now < clock_end"
  shows "wp sound (\<lambda>_ _. True) (commit_renewal dm host t now) s"
  unfolding commit_renewal_def wp_and_then
  by (rule wp_renew [OF assms]) (auto split: sum.splits intro!: wp_refuse wp_journal)

lemma wp_dm_renew:
  assumes "sound s" "now < clock_end"
  shows "wp sound (\<lambda>_ _. True) (dm_renew dm host t now) s"
proof -
  have "wp sound (\<lambda>_ _. True) (and_then (case dm_host dm host of Some h \<Rightarrow> announce_renewal dm host h v e now
      | None \<Rightarrow> Return (Ok ())) (\<lambda>told. case told of Inl reason \<Rightarrow> refuse reason | Inr _ \<Rightarrow> commit_renewal dm host v now)) u"
    if "sound u" for u v e
  proof -
    have "wp sound (\<lambda>_. sound) (case dm_host dm host of Some h \<Rightarrow> announce_renewal dm host h v e now | None \<Rightarrow> Return (Ok ())) u"
      using that by (auto split: option.splits intro!: wp_announce_renewal)
    then show ?thesis
      unfolding wp_and_then
      by (rule wp_mono) (auto split: sum.splits intro!: wp_refuse wp_commit_renewal assms)
  qed
  then show ?thesis
    using assms(1) unfolding dm_renew_def
    by (auto split: sum.splits simp del: wp_and_then simp: wp_and_then [of _ _ "load_registry dm"] intro!: wp_refuse wp_load)
qed

lemma wp_drive_one_revert:
  assumes s: "sound s" "recorded s host = ShRevert cs" "dm_host dm host = Some h"
  shows "wp sound (\<lambda>_ s'. \<forall>k. k \<noteq> host \<longrightarrow> recorded s' k = recorded s k) (drive_one_revert dm host cs now) s"
proof -
  note h = dm_host_in [OF s(3)]
  obtain out w where r: "revert_channels (dm_drivers dm) h cs (sy_world s) = (out, w)"
    by (cases "revert_channels (dm_drivers dm) h cs (sy_world s)")
  note acc = revert_channels_access [OF h(1) r, unfolded h(2)]
  let ?s = "s\<lparr>sy_world := w\<rparr>" and ?Q = "\<lambda>_ s'. \<forall>k. k \<noteq> host \<longrightarrow> recorded s' k = recorded s k"
  have s': "sound ?s" using sound_world [OF s(1), of w host] acc(1) by blast
  have within: "\<forall>c. (c, host) \<in> access (sy_world ?s) \<longrightarrow> c \<in> set cs"
    using recorded_access [OF s', of _ host] s(2) by simp
  show ?thesis
  proof (cases out)
    case (Stuck st)
    have "wp sound ?Q (keep_stuck dm host (map fst st)) ?s"
      unfolding keep_stuck_def wp_and_then
      by (rule wp_retain_stuck [OF s'])
        (use within acc(2) Stuck in \<open>auto split: sum.splits simp: kept_def intro!: wp_journal\<close>)
    then show ?thesis
      using r Stuck s(1,3) s' by (simp add: drive_one_revert_def expect_some_def wp_with_world Let_def)
  next
    case Reverted
    let ?P = "\<lambda>t. sound t \<and> recorded t = recorded s \<and> (\<forall>c. (c, host) \<notin> access (sy_world t))"
    have "?P ?s" using s' within acc(2) Reverted by auto
    then have removes: "wp sound (\<lambda>_. ?P) (remove_deadman dm h) ?s"
      using deadman_opens_nothing(3) [OF h(1)] by (auto simp: remove_deadman_def intro!: wp_world)
    have "wp sound ?Q (retry_removal dm host cs e) t" if "?P t" for e t
      using that by (auto simp: retry_removal_def kept_def intro!: wp_journal wp_retain_stuck)
    moreover have "wp sound ?Q (finish_reverted dm host fired now) t" if "?P t" for fired t
      unfolding finish_reverted_def wp_and_then
      by (rule wp_finish_revert) (use that in \<open>auto split: sum.splits simp: kept_def intro!: wp_journal\<close>)
    ultimately have "wp sound ?Q (and_then (remove_deadman dm h) (\<lambda>removed. case removed of
        Inl e \<Rightarrow> retry_removal dm host cs e | Inr fired \<Rightarrow> finish_reverted dm host fired now)) ?s"
      unfolding wp_and_then by (intro wp_mono [OF removes]) (auto split: sum.splits)
    then show ?thesis
      using r Reverted s(1,3) s' by (simp add: drive_one_revert_def expect_some_def wp_with_world Let_def)
  qed
qed

lemma pending_status:
  assumes "reg_status host now r = Inr (StAwaitingApproval x) \<or> reg_status host now r = Inr StApprovalExpired"
  shows "reg_shape r host = ShPending"
  using assms
  by (auto simp: reg_status_def ok_or_def reg_shape_def grant_shape_def split: option.splits grant_state.splits)

lemma wp_cancel_request:
  assumes "sound s" "recorded s host = ShPending"
  shows "wp sound (\<lambda>_ _. True) (cancel_request dm host now) s"
  unfolding cancel_request_def wp_and_then
  by (rule wp_cancel_pending [OF assms]) (auto simp: expect_def intro!: wp_journal)

lemma wp_revert_grant:
  assumes "sound s" "now < clock_end"
  shows "wp sound (\<lambda>_ _. True) (revert_grant dm host now) s"
  unfolding revert_grant_def wp_and_then
proof (rule wp_begin_revert [OF assms])
  fix channels u
  assume u: "sound u" "moved s host (ShRevert channels) u" "dm_host dm host \<noteq> None"
  then obtain h where "dm_host dm host = Some h" by auto
  with u have "wp sound (\<lambda>_ s'. \<forall>k. k \<noteq> host \<longrightarrow> recorded s' k = recorded u k) (drive_one_revert dm host channels now) u"
    by (intro wp_drive_one_revert) (auto simp: moved_def)
  then have "wp sound (\<lambda>p. wp sound (\<lambda>_ _. True) (case p of RpClosed \<Rightarrow> Return x | RpStuck st \<Rightarrow> refuse (z st)))
      (drive_one_revert dm host channels now) u" for x z
    by (rule wp_mono) (auto split: revert_progress.splits intro: wp_refuse)
  then show "wp sound (\<lambda>_ _. True) (case Inr channels of
      Inl e \<Rightarrow> if e = GrantErr NotOpen then Return (response_ok\<lparr>re_outcome := Some ''already-closed''\<rparr>)
        else refuse_registry dm e
    | Inr channels \<Rightarrow> and_then (drive_one_revert dm host channels now) (\<lambda>prog. case prog of
          RpClosed \<Rightarrow> Return (response_ok\<lparr>re_outcome := Some ''closed''\<rparr>)
        | RpStuck stuck \<Rightarrow> refuse (''close of '' @ debug_str (dm_crates dm) host
            @ '' incomplete; channels awaiting revert: '' @ channels_debug stuck @ '' (retried on every pass)''))) u"
    by simp
qed (auto intro: wp_refuse)

lemma wp_dm_close:
  assumes "sound s" "now < clock_end"
  shows "wp sound (\<lambda>_ _. True) (dm_close dm host now) s"
  unfolding dm_close_def wp_and_then
proof (rule wp_load [OF assms(1)])
  fix r t
  assume r: "reg_shape r = recorded t" "sound t"
  have "recorded t host = ShPending" if "case reg_status host now r of
      Inr (StAwaitingApproval _) \<Rightarrow> True | Inr StApprovalExpired \<Rightarrow> True | _ \<Rightarrow> False"
    using that pending_status [of host now r] r(1) by (auto split: sum.splits grant_status_view.splits)
  then show "wp sound (\<lambda>_ _. True) (if case reg_status host now r of
      Inr (StAwaitingApproval _) \<Rightarrow> True | Inr StApprovalExpired \<Rightarrow> True | _ \<Rightarrow> False
    then cancel_request dm host now else revert_grant dm host now) t"
    using r(2) assms(2) by (auto intro: wp_cancel_request wp_revert_grant)
qed

section \<open>Dispatch\<close>

lemma wp_drill_failed: "sound s \<Longrightarrow> wp sound (\<lambda>_ _. True) (drill_failed dm host now reason) s"
  by (auto simp: drill_failed_def intro!: wp_journal wp_refuse)

lemma wp_drill_revert:
  assumes "sound s" "now < clock_end"
  shows "wp sound (\<lambda>_ _. True) (drill_revert dm host opened now) s"
proof -
  have "wp sound (\<lambda>_. sound) (dm_close dm host now) s" by (rule wp_mono [OF wp_dm_close [OF assms]])
  moreover from this have "wp sound (\<lambda>_. sound) (attempt (dm_close dm host now)) s" by (rule wp_attempt)
  ultimately show ?thesis
    unfolding drill_revert_def
    by (auto elim!: wp_mono intro!: wp_drill_failed wp_journal)
qed

lemma wp_drill:
  assumes "sound s" "now < clock_end"
  shows "wp sound (\<lambda>_ _. True) (drill dm host now) s"
proof -
  have "or_else now (checked_add_time now (dm_approval_window dm)) < clock_end"
    using assms(2) by (auto simp: or_else_def checked_add_time_Some split: option.splits)
  moreover have "wp sound (\<lambda>opened. wp sound (\<lambda>_ _. True) (drill_revert dm host opened now)) (open_pending_now dm host h now now) t"
    if "sound t" "dm_host dm host = Some h" for t h
    by (rule wp_mono [OF wp_open_pending_now]) (use that assms(2) in \<open>auto intro: wp_drill_revert\<close>)
  ultimately have "wp sound (\<lambda>_ _. True) (drill_open dm host h v now) t" if "sound t" "dm_host dm host = Some h" for t h v
    using that assms(2) unfolding drill_open_def Let_def
    by (auto split: sum.splits intro!: wp_nonce wp_begin_pending wp_drill_failed)
  then show ?thesis
    using assms(1) unfolding drill_def
    by (auto split: option.splits sum.splits intro!: wp_refuse wp_load wp_drill_failed)
qed

lemma wp_status: "sound s \<Longrightarrow> wp sound (\<lambda>_. sound) (dm_status dm now) s"
  by (auto simp: dm_status_def intro!: wp_load)

lemma wp_perform:
  assumes "sound s" "now < clock_end"
  shows "wp sound (\<lambda>_ _. True) (perform dm opr now) s"
  using assms wp_status [OF assms(1), of now]
  by (cases opr) (auto simp: perform_def intro: wp_dm_open wp_approve wp_dm_renew wp_dm_close wp_drill elim!: wp_mono)

lemma wp_mcp_gate: "sound s \<Longrightarrow> wp sound (\<lambda>_. sound) (mcp_gate dm opr now) s"
  by (cases opr) (auto simp: mcp_gate_def pending_profile_def intro!: wp_load)

lemma wp_dispatch_from:
  assumes "sound s" "now < clock_end"
  shows "wp sound (\<lambda>_ _. True) (dispatch_from dm opr now orig) s"
proof -
  have "wp sound (\<lambda>_. sound) (if orig = Mcp then mcp_gate dm opr now else Return None) s"
    using assms(1) by (auto intro: wp_mcp_gate)
  then show ?thesis
    unfolding dispatch_from_def wp_and_then
    by (rule wp_mono) (auto split: option.splits intro!: wp_journal wp_refuse wp_perform assms(2))
qed

lemma wp_answer_line:
  assumes "sound s" "now < clock_end"
  shows "wp sound (\<lambda>_ _. True) (answer_line dm J orig line now) s"
  using assms wp_dispatch_from
  by (auto simp: answer_line_def dispatch_def split: sum.splits origin.splits intro: wp_refuse)

section \<open>Passes and boot\<close>

lemma wp_sweep:
  assumes "sound s"
    and f: "\<And>doc r. from_parts (dm_crates dm) (dm_inventory dm) doc = Ok r \<Longrightarrow> bt_ok (r_grants r) \<Longrightarrow> all_grants grant_timely r \<Longrightarrow>
      \<exists>out r'. f doc = Some (Ok (out, snapshot (dm_crates dm) r')) \<and> bt_ok (r_grants r') \<and> all_grants grant_timely r' \<and>
        (\<forall>k. shape_channels (reg_shape r' k) = shape_channels (reg_shape r k))"
    and bad: "\<And>doc e. from_parts (dm_crates dm) (dm_inventory dm) doc = Err e \<Longrightarrow> f doc = Some (Err e)"
    and Q: "\<And>out s'. sound s' \<Longrightarrow> Q out s'"
  shows "wp sound Q (lift_store (store_mutate f)) s"
proof (rule wp_mutate, rule assms(1), rule sound_stored, rule assms(1), erule sound_kept [OF assms(1)])
  fix doc
  assume d: "doc_ok doc" "doc_shape doc = recorded s"
  show "case f doc of None \<Rightarrow> False | Some (Inl e) \<Rightarrow> True
    | Some (Inr (out, doc')) \<Rightarrow> doc_ok doc' \<and>
        (\<forall>s'. well_stored s' \<and> recorded s' = doc_shape doc' \<and> sy_world s' = sy_world s \<longrightarrow> sound s' \<and> Q out s')"
  proof (cases "from_parts (dm_crates dm) (dm_inventory dm) doc")
    case (Inl e)
    then show ?thesis using bad [OF Inl] by simp
  next
    case (Inr r)
    note r = from_parts_shape [OF Inr d(1)]
    obtain out r' where o: "f doc = Some (Ok (out, snapshot (dm_crates dm) r'))" "bt_ok (r_grants r')"
      "all_grants grant_timely r'" "\<forall>k. shape_channels (reg_shape r' k) = shape_channels (reg_shape r k)"
      using f [OF Inr registry_of_bt_ok [OF r(1)] r(2)] by blast
    note sn = snapshot_shape [OF o(2,3), of "dm_crates dm"]
    have "sound s'" if "well_stored s'" "recorded s' = doc_shape (snapshot (dm_crates dm) r')" "sy_world s' = sy_world s" for s'
      using that sn(2) o(4) r(3) d(2) assms(1) by (simp add: sound_def)
    then show ?thesis using o(1) sn(1) Q by simp
  qed
qed

lemma to_revert_shape:
  "is_expired now g \<or> is_opening now g \<Longrightarrow> shape_channels (grant_shape (to_revert now g)) = shape_channels (grant_shape g)"
  "now < clock_end \<Longrightarrow> grant_timely (to_revert now g)"
  by (auto simp: hit_defs to_revert_def grant_shape_def grant_timely_def grant_times_def)

lemma wp_reap:
  assumes "sound s" "now < clock_end" "\<And>out s'. sound s' \<Longrightarrow> Q out s'"
  shows "wp sound Q (lift_store (store_mutate (reap_doc dm now))) s"
proof (rule wp_sweep [OF assms(1) _ _ assms(3)])
  fix doc r
  assume r: "from_parts (dm_crates dm) (dm_inventory dm) doc = Ok r" "bt_ok (r_grants r)" "all_grants grant_timely r"
  define r1 where "r1 = r\<lparr>r_grants := reap.swept now (r_grants r)\<rparr>"
  define r2 where "r2 = r1\<lparr>r_grants := reap_pending.swept now (r_grants r1)\<rparr>"
  note one = reap.swept_shapes [OF _ _ r(2,3) r1_def]
  have s1: "bt_ok (r_grants r1)" "all_grants grant_timely r1" "\<forall>k. shape_channels (reg_shape r1 k) = shape_channels (reg_shape r k)"
    using one to_revert_shape assms(2) by blast+
  have lapse: "shape_channels (grant_shape \<lparr>g_state = Closed\<rparr>) = shape_channels (grant_shape g)" if "is_lapsed now g" for g
    using that by (auto simp: hit_defs grant_shape_def)
  have closed: "grant_timely \<lparr>g_state = Closed\<rparr>" by (simp add: grant_timely_def grant_times_def)
  note two = reap_pending.swept_shapes [OF lapse closed s1(1,2) r2_def]
  have "reap_doc dm now doc = Some (Ok ((reap.reports now (r_grants r), reap_pending.reports now (r_grants r1)), snapshot (dm_crates dm) r2))"
    using r(1) by (simp add: reap_doc_def reap_to_revert_def reap_expired_pending_def reap.sweep_registry_eq
        reap_pending.sweep_registry_eq r1_def r2_def)
  then show "\<exists>out r'. reap_doc dm now doc = Some (Ok (out, snapshot (dm_crates dm) r')) \<and> bt_ok (r_grants r') \<and>
      all_grants grant_timely r' \<and> (\<forall>k. shape_channels (reg_shape r' k) = shape_channels (reg_shape r k))"
    using two s1(3) by auto
qed (simp add: reap_doc_def)

lemma wp_demote:
  assumes "sound s" "now < clock_end" "\<And>out s'. sound s' \<Longrightarrow> Q out s'"
  shows "wp sound Q (lift_store (store_mutate (demote_doc dm now))) s"
proof (rule wp_sweep [OF assms(1) _ _ assms(3)])
  fix doc r
  assume r: "from_parts (dm_crates dm) (dm_inventory dm) doc = Ok r" "bt_ok (r_grants r)" "all_grants grant_timely r"
  note sw = demote.swept_shapes [OF _ _ r(2,3) refl, of now]
  show "\<exists>out r'. demote_doc dm now doc = Some (Ok (out, snapshot (dm_crates dm) r')) \<and> bt_ok (r_grants r') \<and>
      all_grants grant_timely r' \<and> (\<forall>k. shape_channels (reg_shape r' k) = shape_channels (reg_shape r k))"
    using r(1) sw to_revert_shape assms(2)
    by (intro exI [of _ "demote.reports now (r_grants r)"] exI [of _ "r\<lparr>r_grants := demote.swept now (r_grants r)\<rparr>"])
      (simp add: demote_doc_def demote_opening_def demote.sweep_registry_eq)
qed (simp add: demote_doc_def)

lemma wp_open_matured:
  assumes "sound s" "now < clock_end" "dm_approval dm = Some m" "dm_host dm host \<noteq> None"
  shows "wp sound (\<lambda>_. sound) (open_matured dm m now host) s"
proof -
  obtain h where h: "dm_host dm host = Some h" using assms(4) by auto
  have "wp sound (\<lambda>_. sound) (open_pending_now dm host h q now) t" if "sound t" for q t
    by (rule wp_mono [OF wp_open_pending_now [OF that assms(2) h]])
  then have judged: "wp sound (\<lambda>_. sound) (and_then (expect_some (evaluate m au S el)) (\<lambda>met_now.
      and_then (expect_some (evaluate m au S 0)) (\<lambda>met_without_time.
      if o_met met_now \<and> \<not> o_met met_without_time
      then and_then (open_pending_now dm host h q now) (\<lambda>_. Return ()) else Return ()))) t" if "sound t" for au S el q t
    using evaluates [OF assms(3), of au S el] evaluates [OF assms(3), of au S 0] that
    by (auto simp: expect_some_def elim!: wp_mono)
  show ?thesis
    unfolding open_matured_def with_read_registry_def h expect_some_def [of "Some h"] option.case and_then.simps
    by (subst wp_and_then, subst wp_and_then, rule wp_load [OF assms(1)])
      (auto split: sum.splits simp del: wp_and_then intro!: judged)
qed

lemma wp_report:
  assumes "sound s"
  shows "wp sound (\<lambda>_ _. True) (report dm now) s"
  unfolding report_def wp_and_then
  by (rule wp_mono [OF wp_status [OF assms]], rule wp_mono, rule wp_for_each [where J = sound])
    (auto intro!: wp_journal)

lemma wp_journal_all: "sound s \<Longrightarrow> wp sound (\<lambda>_. sound) (for_each (\<lambda>e. journal_event now (ev e)) es) s"
  by (rule wp_for_each) (auto intro!: wp_journal)

lemma wp_revert_all:
  assumes "sound s" "bt_ok (r_grants r)" "registry_of (dm_inventory dm) r" "reg_shape r = recorded s"
  shows "wp sound (\<lambda>_. sound) (for_each (\<lambda>hc. and_then (drive_one_revert dm (fst hc) (snd hc) now) (\<lambda>_. Return ()))
    (needing_revert now r)) s"
proof (rule wp_mono, rule wp_for_each_keyed [where key = fst and P = "\<lambda>hc s. recorded s (fst hc) = ShRevert (snd hc)"])
  show "distinct (map fst (needing_revert now r))" using listed_shapes(1) [OF assms(2)] .
  show "\<forall>x\<in>set (needing_revert now r). recorded s (fst x) = ShRevert (snd x)"
    using listed_shapes(3) [OF assms(2)] assms(4) by fastforce
  fix x t
  assume x: "x \<in> set (needing_revert now r)" "sound t" "recorded t (fst x) = ShRevert (snd x)"
  have "bt_contains (r_grants r) (fst x)" using listed_shapes(3) [OF assms(2), of "fst x" "snd x" now] x(1) by simp
  then obtain h where "dm_host dm (fst x) = Some h" using registry_knows [OF assms(3)] by auto
  from wp_drive_one_revert [OF x(2,3) this, of now]
  show "wp sound (\<lambda>_ s'. \<forall>y. fst y \<noteq> fst x \<longrightarrow> recorded t (fst y) = ShRevert (snd y) \<longrightarrow> recorded s' (fst y) = ShRevert (snd y))
      (and_then (drive_one_revert dm (fst x) (snd x) now) (\<lambda>_. Return ())) t"
    unfolding wp_and_then by (rule wp_mono) auto
qed (use assms(1) in auto)

lemma wp_dm_pass:
  assumes "sound s" "now < clock_end"
  shows "wp sound (\<lambda>_ _. True) (dm_pass dm now) s"
proof -
  have matured: "wp sound (\<lambda>_. sound) (case dm_approval dm of None \<Rightarrow> Return ()
      | Some m \<Rightarrow> and_then (load_registry dm) (\<lambda>registry. for_each (open_matured dm m now) (reg_awaiting_approval now registry))) t"
    if "sound t" for t
  proof (cases "dm_approval dm")
    case (Some m)
    have "wp sound (\<lambda>_. sound) (for_each (open_matured dm m now) (reg_awaiting_approval now r)) u"
      if "sound u" "registry_of (dm_inventory dm) r" "bt_ok (r_grants r)" for u r
      by (rule wp_for_each)
        (use that Some assms(2) listed_shapes(5) [OF that(3)] registry_knows [OF that(2)] in \<open>auto intro!: wp_open_matured\<close>)
    then show ?thesis using Some that by (auto intro!: wp_load)
  qed (use that in simp)
  have tail: "wp sound (\<lambda>_ _. True) (and_then (case dm_approval dm of None \<Rightarrow> Return ()
      | Some m \<Rightarrow> and_then (load_registry dm) (\<lambda>registry. for_each (open_matured dm m now) (reg_awaiting_approval now registry)))
      (\<lambda>_. report dm now)) t" if "sound t" for t
    unfolding wp_and_then [of _ _ "case dm_approval dm of None \<Rightarrow> _ | Some m \<Rightarrow> _ m"]
    by (rule wp_mono [OF matured [OF that]]) (auto intro: wp_report)
  have reverts: "wp sound (\<lambda>_ _. True) (and_then (load_registry dm) (\<lambda>registry.
      and_then (for_each (\<lambda>hc. and_then (drive_one_revert dm (fst hc) (snd hc) now) (\<lambda>_. Return ())) (needing_revert now registry)) (\<lambda>_.
      and_then (case dm_approval dm of None \<Rightarrow> Return ()
      | Some m \<Rightarrow> and_then (load_registry dm) (\<lambda>registry. for_each (open_matured dm m now) (reg_awaiting_approval now registry)))
      (\<lambda>_. report dm now)))) t" if "sound t" for t
  proof (subst wp_and_then, rule wp_load [OF that], subst wp_and_then)
    fix r u
    assume r: "registry_of (dm_inventory dm) r" "bt_ok (r_grants r)" "reg_shape r = recorded u" "sound u"
    show "wp sound (\<lambda>_. wp sound (\<lambda>_ _. True) (and_then (case dm_approval dm of None \<Rightarrow> Return ()
      | Some m \<Rightarrow> and_then (load_registry dm) (\<lambda>registry. for_each (open_matured dm m now) (reg_awaiting_approval now registry)))
      (\<lambda>_. report dm now))) (for_each (\<lambda>hc. and_then (drive_one_revert dm (fst hc) (snd hc) now) (\<lambda>_. Return ())) (needing_revert now r)) u"
      by (rule wp_mono [OF wp_revert_all [OF r(4,2,1,3)]]) (rule tail)
  qed
  show ?thesis
    unfolding dm_pass_def
    apply (subst wp_and_then, rule wp_reap [OF assms])
    apply (clarsimp split: prod.splits simp del: wp_and_then)
    apply (subst wp_and_then, rule wp_mono [OF wp_journal_all], assumption)
    apply (subst wp_and_then, rule wp_mono [OF wp_journal_all], assumption)
    apply (rule reverts, assumption)
    done
qed

lemma wp_reestablish_one:
  assumes "sound s" "now < clock_end" "recorded s host = ShOpen cs" "dm_host dm host = Some h"
  shows "wp sound (\<lambda>_ s'. \<forall>k. k \<noteq> host \<longrightarrow> recorded s' k = recorded s k) (reestablish_one dm now (host, cs)) s"
proof -
  note h = dm_host_in [OF assms(4)]
  obtain out w where r: "reestablish_channels (dm_drivers dm) h cs (sy_world s) = (out, w)"
    by (cases "reestablish_channels (dm_drivers dm) h cs (sy_world s)")
  have "access w \<subseteq> access (sy_world s) \<union> set cs \<times> {host}"
    using reestablish_loop_access [OF h(1), of cs "sy_world s"] r h(2)
    by (auto simp: reestablish_channels_def split: prod.splits)
  then have s': "sound (s\<lparr>sy_world := w\<rparr>)" using sound_world [OF assms(1), of w host] assms(3) by simp
  let ?Q = "\<lambda>_ s'. \<forall>k. k \<noteq> host \<longrightarrow> recorded s' k = recorded s k"
  have "wp sound ?Q (and_then (with_registry dm (reg_begin_revert host now)) (\<lambda>r.
      and_then (expect r) (\<lambda>_. and_then (journal_event now ev) (\<lambda>_. println line)))) (s\<lparr>sy_world := w\<rparr>)" for ev line
    unfolding wp_and_then
    by (rule wp_begin_revert [OF s' assms(2)])
      (use assms(3,4) in \<open>auto simp: expect_def moved_def kept_def intro!: wp_journal\<close>)
  moreover have "wp sound ?Q (journal_event now ev) (s\<lparr>sy_world := w\<rparr>)" for ev
    using s' by (auto simp: kept_def intro!: wp_journal)
  ultimately show ?thesis
    using r assms(1,4) s'
    by (cases out) (simp_all add: reestablish_one_def Let_def expect_some_def wp_with_world)
qed

lemma wp_reestablish_open:
  assumes "sound s" "now < clock_end"
  shows "wp sound (\<lambda>_ _. True) (reestablish_open dm now) s"
  unfolding reestablish_open_def wp_and_then
proof (rule wp_load [OF assms(1)])
  fix r t
  assume r: "registry_of (dm_inventory dm) r" "bt_ok (r_grants r)" "reg_shape r = recorded t" "sound t"
  show "wp sound (\<lambda>_ _. True) (for_each (reestablish_one dm now) (open_channels now r)) t"
  proof (rule wp_for_each_keyed [where key = fst and P = "\<lambda>hc s. recorded s (fst hc) = ShOpen (snd hc)"])
    show "distinct (map fst (open_channels now r))" using listed_shapes(2) [OF r(2)] .
    show "\<forall>x\<in>set (open_channels now r). recorded t (fst x) = ShOpen (snd x)"
      using listed_shapes(4) [OF r(2)] r(3) by fastforce
    fix x u
    assume x: "x \<in> set (open_channels now r)" "sound u" "recorded u (fst x) = ShOpen (snd x)"
    have "bt_contains (r_grants r) (fst x)" using listed_shapes(4) [OF r(2), of "fst x" "snd x" now] x(1) by simp
    then obtain h where "dm_host dm (fst x) = Some h" using registry_knows [OF r(1)] by auto
    from wp_reestablish_one [OF x(2) assms(2) x(3) this]
    show "wp sound (\<lambda>_ s'. \<forall>y. fst y \<noteq> fst x \<longrightarrow> recorded u (fst y) = ShOpen (snd y) \<longrightarrow> recorded s' (fst y) = ShOpen (snd y))
        (reestablish_one dm now x) u"
      unfolding prod.collapse by (rule wp_mono) auto
  qed (rule r(4))
qed

lemma wp_boot_recover:
  assumes "sound s" "now < clock_end"
  shows "wp sound (\<lambda>_ _. True) (boot_recover dm now) s"
proof -
  have "wp sound (\<lambda>_. sound) (for_each (\<lambda>hc. and_then (journal_event now (ev hc)) (\<lambda>_. println (line hc))) hcs) t"
    if "sound t" for hcs t and ev :: "string \<times> channel list \<Rightarrow> event" and line
    by (rule wp_for_each) (use that in \<open>auto intro!: wp_journal\<close>)
  then have "wp sound (\<lambda>_. wp sound (\<lambda>_ _. True) (reestablish_open dm now))
      (for_each (\<lambda>hc. and_then (journal_event now (ev hc)) (\<lambda>_. println (line hc))) hcs) t"
    if "sound t" for hcs t and ev :: "string \<times> channel list \<Rightarrow> event" and line
    by (rule wp_mono) (use that assms(2) in \<open>auto intro: wp_reestablish_open\<close>)
  then show ?thesis
    unfolding boot_recover_def
    by (subst wp_and_then, intro wp_demote [OF assms], subst wp_and_then)
qed

end

end
