(* ===== verification/Daemon_Runs.thy ===== *)
theory Daemon_Runs
  imports Daemon_Safe
begin

text \<open>
  Running the daemon for an inventory of one host, with a store and a journal that do not fail: the
  rules to compute what an operation does from the stored grant, the number of nonces drawn and the
  world.
\<close>

section \<open>Runs\<close>

definition lone :: "string \<Rightarrow> grant_state \<Rightarrow> grant_registry" where
  "lone nm g = \<lparr>r_grants = [(nm, \<lparr>g_state = g\<rparr>)]\<rparr>"

definition solid :: "grant_state \<Rightarrow> bool" where
  "solid g \<longleftrightarrow> grant_timely \<lparr>g_state = g\<rparr> \<and> round_grant \<lparr>g_state = g\<rparr> = \<lparr>g_state = g\<rparr>"

definition loads :: "grant_state \<Rightarrow> bool" where
  "loads g \<longleftrightarrow> solid g \<and> grant_storable \<lparr>g_state = g\<rparr>"

text \<open>The store records grant \<open>g\<close> for the only host, and neither it nor the journal has a fault ahead.\<close>

definition stands :: "crates \<Rightarrow> string \<Rightarrow> grant_state \<times> nat \<times> 'w \<Rightarrow> 'w sys \<Rightarrow> bool" where
  "stands X nm = (\<lambda>(g, n, w) s.
     dk_faults (sy_store s) = [] \<and> jn_faults (sy_journal s) = [] \<and> sy_draws s = n \<and> sy_world s = w \<and>
     (dk_file (sy_store s) = Holds (snapshot X (lone nm g)) \<or> g = Closed \<and> dk_file (sy_store s) = Absent))"

definition goes ::
    "crates \<Rightarrow> string \<Rightarrow> ('w sys, 'a) prog \<Rightarrow> grant_state \<times> nat \<times> 'w \<Rightarrow> ('w sys, 'a) prog
      \<Rightarrow> grant_state \<times> nat \<times> 'w \<Rightarrow> bool" where
  "goes X nm p x p' y \<longleftrightarrow> (\<forall>s. stands X nm x s \<longrightarrow> (\<exists>s'. passes (p, s) (p', s') \<and> stands X nm y s'))"

lemma passes_trans:
  assumes "passes d e" "passes c d"
  shows "passes c e"
  using assms by (induction rule: passes.induct) (auto intro: passes_step)

lemma passes_and_then:
  assumes "passes c d"
  shows "passes (and_then (fst c) k, snd c) (and_then (fst d) k, snd d)"
  using assms
proof (induction rule: passes.induct)
  case (passes_step c f s s' p)
  then show ?case using passes.passes_step [of _ "\<lambda>s. map_prod id (\<lambda>p. and_then p k) (f s)" s s'] by simp
qed (rule passes_refl)

lemma passes_run:
  assumes "passes c d"
  shows "run (fst c) (snd c) = run (fst d) (snd d)"
  using assms by (induction rule: passes.induct) simp_all

lemma goes_refl: "goes X nm p x p x"
  by (auto simp: goes_def intro: passes_refl)

lemma goes_trans: "goes X nm p x q y \<Longrightarrow> goes X nm q y r z \<Longrightarrow> goes X nm p x r z"
  unfolding goes_def by (meson passes_trans)

lemma goes_inside: "goes X nm p x q y \<Longrightarrow> goes X nm (and_then p k) x (and_then q k) y"
  unfolding goes_def using passes_and_then [of "(p, _)" "(q, _)" k] by fastforce

lemma goes_bind: "goes X nm p x (Return a) y \<Longrightarrow> goes X nm (k a) y q z \<Longrightarrow> goes X nm (and_then p k) x q z"
  using goes_trans goes_inside [of X nm p x "Return a" y k] by simp

lemma goes_fatal: "goes X nm p x Fatal y \<Longrightarrow> goes X nm (and_then p k) x Fatal y"
  using goes_inside [of X nm p x Fatal y k] by simp

lemma goes_step:
  assumes "\<And>s. stands X nm x s \<Longrightarrow> stands X nm y (fst (f s)) \<and> snd (f s) = p"
  shows "goes X nm (Step f) x p y"
  unfolding goes_def
proof (intro allI impI)
  fix s :: "'a sys"
  assume "stands X nm x s"
  then show "\<exists>s'. passes (Step f, s) (p, s') \<and> stands X nm y s'"
    using assms [of s] passes_step [OF passes_refl, of f s "fst (f s)" p] by (metis prod.collapse)
qed

lemma goes_run:
  assumes "goes X nm p x q y" "stands X nm x s"
  obtains s' where "run p s = run q s'" "stands X nm y s'"
  using assms passes_run [of "(p, s)"] unfolding goes_def by fastforce

lemma goes_world: "f w = (a, w') \<Longrightarrow> goes X nm (with_world f) (g, n, w) (Return a) (g, n, w')"
  unfolding with_world_def act_def by (rule goes_step) (auto simp: stands_def)

lemma goes_journal: "goes X nm (journal_event now ev) x (Return ()) x" "goes X nm (println line) x (Return ()) x"
  unfolding journal_event_def println_def act_def try_act_def
  by (rule goes_step; auto simp: stands_def journal_record_def Let_def split: prod.splits)+

lemma goes_nonce: "goes X nm (generate_nonce dm) (g, n, w) (Return (dm_urandom dm n)) (g, Suc n, w)"
  unfolding generate_nonce_def act_def by (rule goes_step) (auto simp: stands_def)

lemma goes_lift:
  assumes "\<And>s. stands X nm x s \<Longrightarrow> \<exists>dk. f (sy_store s) = (Some (Ok a), dk) \<and> stands X nm y (s\<lparr>sy_store := dk\<rparr>)"
  shows "goes X nm (lift_store f) x (Return a) y"
  unfolding lift_store_def try_act_def
proof (rule goes_step)
  fix s
  assume "stands X nm x s"
  then obtain dk where "f (sy_store s) = (Some (Ok a), dk)" "stands X nm y (s\<lparr>sy_store := dk\<rparr>)"
    using assms by blast
  then show "stands X nm y (fst (case case f (sy_store s) of (r, dk) \<Rightarrow> (r, s\<lparr>sy_store := dk\<rparr>) of
        (r, s') \<Rightarrow> (s', case r of None \<Rightarrow> Panic | Some (Inl e) \<Rightarrow> Fatal | Some (Inr a) \<Rightarrow> Return a))) \<and>
      snd (case case f (sy_store s) of (r, dk) \<Rightarrow> (r, s\<lparr>sy_store := dk\<rparr>) of
        (r, s') \<Rightarrow> (s', case r of None \<Rightarrow> Panic | Some (Inl e) \<Rightarrow> Fatal | Some (Inr a) \<Rightarrow> Return a)) = Return a"
    by simp
qed

lemma closed_default:
  "stored state_doc_default = Some state_doc_default" "snapshot X (lone nm Closed) = state_doc_default"
  by (simp_all add: stored_def state_doc_default_def snapshot_def lone_def grant_parts_def
      List.map_filter_simps bt_collect_def)

lemma lone_mut [simp]:
  "grant_mut nm m (lone nm st) = (map_err GrantErr (fst (m \<lparr>g_state = st\<rparr>)), lone nm (g_state (snd (m \<lparr>g_state = st\<rparr>))))"
  by (simp add: grant_mut_def lone_def bt_set_def)

lemma lone_status [simp]: "reg_status nm now (lone nm g) = Ok (grant_status \<lparr>g_state = g\<rparr> now)"
  by (simp add: reg_status_def lone_def)

section \<open>A daemon of one host\<close>

definition lone_daemon :: "'w daemon \<Rightarrow> crates \<Rightarrow> string \<Rightarrow> bool" where
  "lone_daemon dm X nm \<longleftrightarrow> hex_codec X \<and> dm_crates dm = X \<and> reg_new (dm_inventory dm) = lone nm Closed"

lemma lone_registry: "lone_daemon dm X nm \<Longrightarrow> registry_of (dm_inventory dm) (lone nm g)"
  by (simp add: registry_of_def lone_daemon_def) (simp add: lone_def)

lemma lone_all: "all_grants P (lone nm g) \<longleftrightarrow> P \<lparr>g_state = g\<rparr>"
  by (simp add: all_grants_def lone_def)

lemma lone_stored: "solid g \<Longrightarrow> stored (snapshot X (lone nm g)) = Some (snapshot X (lone nm g))"
  using stored_snapshot [of "lone nm g" X]
  by (simp add: solid_def lone_all grant_timely_def round_registry_def) (simp add: lone_def)

lemma lone_loads:
  "lone_daemon dm X nm \<Longrightarrow> loads g \<Longrightarrow> from_parts X (dm_inventory dm) (snapshot X (lone nm g)) = Ok (lone nm g)"
  by (rule from_parts_snapshot) (simp_all add: lone_registry lone_all loads_def, simp add: lone_daemon_def)

lemma lone_reads:
  assumes "stands X nm (g, n, w) s"
  shows "store_read (sy_store s) = (Ok (snapshot X (lone nm g)), sy_store s)"
  using assms by (auto simp: stands_def store_read_def next_fault_def snapshot_def readable_versions_def
      closed_default(2) [of X nm, unfolded snapshot_def])

lemma goes_read:
  "goes X nm (lift_store (\<lambda>dk. case store_read dk of (r, dk) \<Rightarrow> (Some r, dk))) (g, n, w)
      (Return (snapshot X (lone nm g))) (g, n, w)"
  by (rule goes_lift, subst lone_reads) auto

lemma goes_load:
  assumes "lone_daemon dm X nm" "loads g"
  shows "goes X nm (load_registry dm) (g, n, w) (Return (lone nm g)) (g, n, w)"
  unfolding load_registry_def
  using assms(1) lone_loads [OF assms] by (intro goes_bind [OF goes_read]) (simp add: lone_daemon_def goes_refl)

lemma lone_mutates:
  assumes "stands X nm (g, n, w) s" "f (snapshot X (lone nm g)) = Some (Ok (a, snapshot X (lone nm g')))" "solid g'"
  shows "\<exists>dk. store_mutate f (sy_store s) = (Some (Ok a), dk) \<and> stands X nm (g', n, w) (s\<lparr>sy_store := dk\<rparr>)"
  using assms(1) lone_reads [OF assms(1)] lone_stored [OF assms(3)] assms(2)
  by (simp add: store_mutate_def stands_def next_fault_def store_write_def)

lemma goes_mutate:
  "f (snapshot X (lone nm g)) = Some (Ok (a, snapshot X (lone nm g'))) \<Longrightarrow> solid g' \<Longrightarrow>
    goes X nm (lift_store (store_mutate f)) (g, n, w) (Return a) (g', n, w)"
  by (rule goes_lift, rule lone_mutates)

lemma goes_commit:
  assumes "lone_daemon dm X nm" "loads g" "opr (lone nm g) = (Ok v, lone nm g')" "solid g'"
  shows "goes X nm (with_registry dm opr) (g, n, w) (Return (Ok v)) (g', n, w)"
proof -
  have "dm_crates dm = X" using assms(1) by (simp add: lone_daemon_def)
  then show ?thesis
    unfolding with_registry_def
    by (intro goes_mutate) (simp_all add: commit_op_def lone_loads [OF assms(1,2)] assms)
qed

lemma goes_refused:
  assumes "lone_daemon dm X nm" "loads g" "fst (opr (lone nm g)) = Err e"
  shows "goes X nm (with_registry dm opr) (g, n, w) (Return (Err e)) (g, n, w)"
proof -
  obtain r' where "opr (lone nm g) = (Err e, r')" using assms(3) by (cases "opr (lone nm g)") simp
  moreover have "dm_crates dm = X" using assms(1) by (simp add: lone_daemon_def)
  ultimately show ?thesis
    unfolding with_registry_def
    by (intro goes_mutate) (use assms(2) in \<open>simp_all add: commit_op_def lone_loads [OF assms(1,2)] loads_def\<close>)
qed

end
