(* ===== verification/Sim_Rules.thy ===== *)
theory Sim_Rules
  imports Sim Daemon_Runs
begin

text \<open>
  What each operation of the daemon does in the harness of \<open>sim.rs\<close>: the policy of the three profiles
  loaded and evaluated, signatures checked, and the grant each action leaves stored.
\<close>

section \<open>The policy\<close>

definition actor_id :: "actor \<Rightarrow> string" where
  "actor_id a = (case a of Alice \<Rightarrow> ''alice'' | Bob \<Rightarrow> ''bob'' | Charlie \<Rightarrow> ''charlie'')"

definition signer :: "actor \<Rightarrow> weighted_factor" where
  "signer a = \<lparr>wf_weight = 1, wf_factor = FAuthenticator (actor_id a)\<rparr>"

definition profile_authority :: "sim_profile \<Rightarrow> authority" where
  "profile_authority p =
     (case p of
        Solo \<Rightarrow> \<lparr>au_threshold = 1, au_factors = [signer Alice]\<rparr>
      | Duo \<Rightarrow> \<lparr>au_threshold = 2, au_factors = [signer Alice, signer Bob]\<rparr>
      | Timed \<Rightarrow> \<lparr>au_threshold = 2, au_factors =
          [signer Alice, \<lparr>wf_weight = 1, wf_factor = FWait (from_secs wait_secs)\<rparr>]\<rparr>)"

definition loaded_policy :: "(actor \<Rightarrow> byte list) \<Rightarrow> authority_model" where
  "loaded_policy key =
     \<lparr>m_authenticators = [(''alice'', AEd25519 (key Alice)), (''bob'', AEd25519 (key Bob))], m_groups = [],
      m_profiles = [(''duo'', profile_authority Duo), (''solo'', profile_authority Solo),
        (''timed'', profile_authority Timed)], m_mcp_profiles = {||}\<rparr>"

text \<open>
  What is taken of the crates: hexadecimal round-trips, base64 is injective and does not shorten, the
  nonces drawn in a run of \<open>n\<close> draws are distinct, the two public keys parse and differ from each other
  and from the stranger's, and a signature verifies for exactly the text it was made over.
\<close>

definition signs :: "crates \<Rightarrow> (actor \<Rightarrow> string \<Rightarrow> string) \<Rightarrow> (actor \<Rightarrow> byte list) \<Rightarrow> bool" where
  "signs X sign key \<longleftrightarrow>
     openssh_key X (trim alice_pub) = Ok (key Alice) \<and> openssh_key X (trim bob_pub) = Ok (key Bob) \<and> inj key \<and>
     (\<forall>a ch. starts_with ''-----BEGIN SSH SIGNATURE-----'' (trim (sign a ch)) \<and>
       (\<exists>sg. sshsig_parse X (trim (sign a ch)) = Ok sg \<and> sig_namespace sg = approval_namespace \<and>
          sig_public_key sg = key a \<and>
          (\<forall>msg. sshsig_verify X (key a) approval_namespace msg sg \<longleftrightarrow> msg = as_bytes ch)))"

definition sim_crypto ::
    "crates \<Rightarrow> (nat \<Rightarrow> nonce) \<Rightarrow> (actor \<Rightarrow> string \<Rightarrow> string) \<Rightarrow> (actor \<Rightarrow> byte list) \<Rightarrow> nat \<Rightarrow> bool" where
  "sim_crypto X urandom sign key n \<longleftrightarrow>
     hex_codec X \<and> inj (b64url_encode X) \<and> (\<forall>bs. length bs \<le> length (b64url_encode X bs)) \<and>
     (\<forall>i. length (urandom i) = 32) \<and> inj_on urandom {..<n} \<and> signs X sign key"

lemmas ttl_parsing = ttl_parse_def ttl_unit_def strip_suffix_char_def is_ascii_digit_def parse_digits_u64_def
  digits_val_def u64_max_def checked_mul_u64_def ttl_from_secs_def max_ttl_secs_def

lemma sim_waits: "ttl_parse ''30s'' = Ok (Ttl (from_secs 30))"
  by (simp add: ttl_parsing)

lemma ttls_parse:
  "ttl_parse ''90s'' = Ok (Ttl (from_secs 90))" "ttl_parse ''15m'' = Ok (Ttl (from_secs 900))"
  "ttl_parse ''1h'' = Ok (Ttl (from_secs 3600))" "ttl_parse ''4h'' = Ok (Ttl (from_secs 14400))"
  by (simp_all add: ttl_parsing)

lemma sim_ttls:
  assumes "ttl_at ix = Some t"
  shows "ttl_parse (fst t) = Ok (Ttl (from_secs (snd t)))" "0 < snd t" "snd t \<le> 14400"
proof -
  have t: "t \<in> set ttls" using assms by (auto simp: ttl_at_def split: if_splits)
  then show "ttl_parse (fst t) = Ok (Ttl (from_secs (snd t)))"
    using ttls_parse unfolding ttls_def by fastforce
  show "0 < snd t" "snd t \<le> 14400" using t by (auto simp: ttls_def)
qed

lemma policy_loads:
  assumes "signs X sign key"
  shows "approval_model X sim_inventory = Some (Ok (Some (loaded_policy key)))"
proof -
  have k: "parse_ssh_public_key X alice_pub = Ok (key Alice)" "parse_ssh_public_key X bob_pub = Ok (key Bob)"
    using assms by (simp_all add: signs_def parse_ssh_public_key_def)
  have "assemble_model X sim_policy = Ok (loaded_policy key)"
    by (simp add: assemble_model_def sim_policy_def loaded_policy_def signer_spec_def by_signer_def by_wait_def k
        build_authenticator_def build_authority_def build_factor_def ok_or_def bt_contains_def Let_def sim_waits
        profile_authority_def signer_def actor_id_def wait_secs_def check_refs_def check_ref_def)
  moreover have "check_group_acyclic (loaded_policy key) = Some (Ok ())"
    by (simp add: check_group_acyclic_def loaded_policy_def)
  ultimately show ?thesis by (simp add: approval_model_def sim_inventory_def from_spec_def)
qed

lemma policy_ok:
  assumes "signs X sign key"
  shows "model_ok (loaded_policy key)"
  using policy_loads [OF assms] from_spec_model_ok [of X sim_policy]
  by (cases "from_spec X sim_policy"; cases "the (from_spec X sim_policy)")
    (auto simp: approval_model_def sim_inventory_def)

lemma policy_profile: "profile (loaded_policy key) (sim_profile_id p) = Some (profile_authority p)"
  by (cases p) (simp_all add: profile_def loaded_policy_def sim_profile_id_def)

lemmas evaluate_steps = evaluate_def evaluate_factors.simps tally_def

lemma actor_id_inject: "actor_id a = actor_id b \<longleftrightarrow> a = b"
  by (cases a; cases b; simp add: actor_id_def)

lemma policy_met:
  "\<exists>out. evaluate (loaded_policy key) (profile_authority p) (actor_id |`| sat) (from_secs e) = Some out \<and>
     (o_met out \<longleftrightarrow> met p sat e)"
proof -
  have i: "actor_id a \<in> actor_id ` fset sat \<longleftrightarrow> a |\<in>| sat" for a
    by (auto simp: actor_id_inject)
  show ?thesis
    by (cases p) (simp_all add: evaluate_steps profile_authority_def signer_def i met_def from_secs_def nanos_per_sec_def)
qed

lemma policy_wait: "\<exists>d<from_secs approval_window_secs. max_wait (loaded_policy key) (profile_authority p) = Some d"
  by (cases p) (simp_all add: max_wait_def max_wait_inner.simps profile_authority_def signer_def from_secs_def
      nanos_per_sec_def wait_secs_def approval_window_secs_def)

lemma signature_verdict:
  assumes "signs X sign key"
  shows "verify_ed25519 X (loaded_policy key) request (sign a ch) =
    (if a = Charlie then Err (UnknownApprover ''signer is not a configured ed25519 authenticator'')
     else if ch = challenge_string (b64url_encode X) request then Ok (actor_id a) else Err BadSignature)"
proof -
  have k: "key b = key c \<longleftrightarrow> b = c" for b c using assms by (auto simp: signs_def inj_def)
  obtain sg where sg: "sshsig_parse X (trim (sign a ch)) = Ok sg" "sig_namespace sg = approval_namespace"
    "sig_public_key sg = key a" "\<And>msg. sshsig_verify X (key a) approval_namespace msg sg \<longleftrightarrow> msg = as_bytes ch"
    using assms unfolding signs_def by blast
  have "verify_ed25519 X (loaded_policy key) request (sign a ch) =
      (if a = Charlie then Err (UnknownApprover ''signer is not a configured ed25519 authenticator'')
       else if sshsig_verify X (key a) approval_namespace (as_bytes (challenge_string (b64url_encode X) request)) sg
       then Ok (actor_id a) else Err BadSignature)"
    by (simp add: verify_ed25519_def sg(1,2,3) loaded_policy_def k) (cases a; simp add: actor_id_def)
  then show ?thesis by (auto simp: sg(4))
qed

end
