(* ===== verification/Sim_Runs.thy ===== *)
theory Sim_Runs
  imports Sim_Rules
begin

text \<open>
  The operations of the harness's daemon, run: for each action and each state of the grant, what is
  answered and what is stored.
\<close>

section \<open>Stored grants\<close>

definition waiting :: "sim_profile \<Rightarrow> actor fset \<Rightarrow> nat \<Rightarrow> nonce \<Rightarrow> nat \<Rightarrow> grant_state" where
  "waiting p sat req n ttl_secs = Pending (sim_time req) (sim_time (req + approval_window_secs))
     (Ttl (from_secs ttl_secs)) n (sim_profile_id p) (actor_id |`| sat)"

definition opened :: "nat \<Rightarrow> nat \<Rightarrow> grant_state" where
  "opened a e = Open (sim_time a) (sim_time e) [Ssh]"

lemma sim_time_order [simp]:
  "sim_time a < sim_time b \<longleftrightarrow> a < b" "sim_time a \<le> sim_time b \<longleftrightarrow> a \<le> b" "sim_time a = sim_time b \<longleftrightarrow> a = b"
  by (simp_all add: sim_time_def from_secs_def nanos_per_sec_def)

lemma sim_time_end: "n < 2 ^ 63 \<Longrightarrow> sim_time n < clock_end"
  by (simp add: sim_time_def from_secs_def nanos_per_sec_def clock_end_def)

lemma sim_time_add: "n + d < 2 ^ 63 \<Longrightarrow> checked_add_time (sim_time n) (from_secs d) = Some (sim_time (n + d))"
  by (simp add: checked_add_time_def sim_time_def from_secs_def nanos_per_sec_def clock_end_def)

lemma sim_time_since:
  "duration_since (sim_time b) (sim_time a) = (if a \<le> b then Some (from_secs (b - a)) else None)"
  by (auto simp: duration_since_def sim_time_def from_secs_def nanos_per_sec_def)

lemma sim_time_secs [simp]: "epoch_secs (sim_time n) = n" "as_secs (from_secs n) = n" "from_secs n = 0 \<longleftrightarrow> n = 0"
  by (simp_all add: epoch_secs_def duration_since_def sim_time_def from_secs_def nanos_per_sec_def as_secs_def)

lemma sim_time_whole [simp]: "whole_seconds (sim_time n) = sim_time n"
  by (simp add: whole_seconds_def sim_time_def from_secs_def nanos_per_sec_def)

lemma from_secs_less [simp]: "from_secs a < from_secs b \<longleftrightarrow> a < b" "from_secs a \<le> from_secs b \<longleftrightarrow> a \<le> b"
  by (simp_all add: from_secs_def nanos_per_sec_def)

lemma sim_time_diff: "as_secs (nat (sim_time b - sim_time a)) = b - a"
proof -
  have "nat (sim_time b - sim_time a) = from_secs (b - a)"
    by (simp add: sim_time_def from_secs_def nanos_per_sec_def)
  then show ?thesis by simp
qed

lemmas solid_defs = solid_def grant_timely_def grant_times_def round_grant_def sim_time_end

lemma solid_grants:
  "solid Closed" "req < 2 ^ 62 \<Longrightarrow> solid (waiting p sat req n ttl_secs)"
  "a < 2 ^ 63 \<Longrightarrow> e < 2 ^ 63 \<Longrightarrow> solid (opened a e)"
  "a < 2 ^ 63 \<Longrightarrow> e < 2 ^ 63 \<Longrightarrow> solid (Opening (sim_time a) (sim_time e) [Ssh])"
  "a < 2 ^ 63 \<Longrightarrow> solid (NeedsRevert [Ssh] (sim_time a))"
  by (simp_all add: solid_defs waiting_def opened_def approval_window_secs_def)

lemma loads_grants:
  "loads Closed"
  "req < 2 ^ 62 \<Longrightarrow> length n = 32 \<Longrightarrow> 0 < ttl_secs \<Longrightarrow> ttl_secs \<le> 14400 \<Longrightarrow> loads (waiting p sat req n ttl_secs)"
  "a < e \<Longrightarrow> e \<le> a + 86400 \<Longrightarrow> e < 2 ^ 63 \<Longrightarrow> loads (opened a e)"
  "a < e \<Longrightarrow> e \<le> a + 86400 \<Longrightarrow> e < 2 ^ 63 \<Longrightarrow> loads (Opening (sim_time a) (sim_time e) [Ssh])"
  "a < 2 ^ 63 \<Longrightarrow> loads (NeedsRevert [Ssh] (sim_time a))"
  using solid_grants
  by (auto simp: loads_def grant_storable_def waiting_def opened_def sim_time_diff approval_window_secs_def
      max_approval_window_secs_def max_ttl_secs_def ttl_ok_def)

lemma waiting_status:
  "grant_status \<lparr>g_state = waiting p sat req n ttl_secs\<rparr> (sim_time now) =
     (if now < req + approval_window_secs then StAwaitingApproval (from_secs (req + approval_window_secs - now))
      else StApprovalExpired)"
  by (simp add: grant_status_def waiting_def sim_time_since)

lemma opened_status:
  "grant_status \<lparr>g_state = opened a e\<rparr> (sim_time now) = (if now < e then StOpen (from_secs (e - now)) else StExpired)"
  by (simp add: grant_status_def opened_def sim_time_since)

text \<open>The grant's methods on these states.\<close>

lemma waiting_ops:
  assumes "now < req + approval_window_secs" "req < 2 ^ 61" "ttl_secs \<le> 14400"
  shows "grant_approve_to_opening (sim_time now) cs \<lparr>g_state = waiting p sat req n ttl_secs\<rparr> =
      (Ok (sim_time (now + ttl_secs)), \<lparr>g_state = Opening (sim_time now) (sim_time (now + ttl_secs)) cs\<rparr>)"
    "grant_add_satisfied (sim_time now) (actor_id a) \<lparr>g_state = waiting p sat req n ttl_secs\<rparr> =
      (Ok (a |\<notin>| sat), \<lparr>g_state = waiting p (finsert a sat) req n ttl_secs\<rparr>)"
    "grant_pending_request h (sim_time now) \<lparr>g_state = waiting p sat req n ttl_secs\<rparr> =
      Ok (approval_request_new n h ttl_secs (sim_time req))"
    "req \<le> now \<Longrightarrow> grant_pending_view (sim_time now) \<lparr>g_state = waiting p sat req n ttl_secs\<rparr> =
      Ok \<lparr>pv_profile = sim_profile_id p, pv_satisfied = actor_id |`| sat, pv_requested_at = sim_time req,
        pv_elapsed = from_secs (now - req)\<rparr>"
proof -
  have add: "checked_add_time (sim_time now) (from_secs ttl_secs) = Some (sim_time (now + ttl_secs))"
    using assms by (intro sim_time_add) (simp add: approval_window_secs_def)
  have i: "actor_id a |\<in>| actor_id |`| sat \<longleftrightarrow> a |\<in>| sat" by (auto simp: actor_id_inject)
  note st = waiting_status [of p sat req n ttl_secs now]
  show "grant_approve_to_opening (sim_time now) cs \<lparr>g_state = waiting p sat req n ttl_secs\<rparr> =
      (Ok (sim_time (now + ttl_secs)), \<lparr>g_state = Opening (sim_time now) (sim_time (now + ttl_secs)) cs\<rparr>)"
    unfolding grant_approve_to_opening_def st using assms add by (simp add: waiting_def)
  show "grant_add_satisfied (sim_time now) (actor_id a) \<lparr>g_state = waiting p sat req n ttl_secs\<rparr> =
      (Ok (a |\<notin>| sat), \<lparr>g_state = waiting p (finsert a sat) req n ttl_secs\<rparr>)"
    unfolding grant_add_satisfied_def st using assms i by (simp add: waiting_def)
  show "grant_pending_request h (sim_time now) \<lparr>g_state = waiting p sat req n ttl_secs\<rparr> =
      Ok (approval_request_new n h ttl_secs (sim_time req))"
    unfolding grant_pending_request_def st using assms by (simp add: waiting_def)
  show "req \<le> now \<Longrightarrow> grant_pending_view (sim_time now) \<lparr>g_state = waiting p sat req n ttl_secs\<rparr> =
      Ok \<lparr>pv_profile = sim_profile_id p, pv_satisfied = actor_id |`| sat, pv_requested_at = sim_time req,
        pv_elapsed = from_secs (now - req)\<rparr>"
    unfolding grant_pending_view_def st using assms by (simp add: waiting_def sim_time_since)
qed

lemma opened_renew:
  "now < e \<Longrightarrow> e - now \<le> sim_renewal_window_secs \<Longrightarrow> now + ttl_secs < 2 ^ 63 \<Longrightarrow>
    grant_renew (sim_time now) (Ttl (from_secs ttl_secs)) \<lparr>g_state = opened a e\<rparr> =
      (Ok (sim_time (now + ttl_secs)), \<lparr>g_state = opened a (now + ttl_secs)\<rparr>)"
  "\<not> (now < e \<and> e - now \<le> sim_renewal_window_secs) \<Longrightarrow>
    \<exists>x. fst (grant_renew (sim_time now) t \<lparr>g_state = opened a e\<rparr>) = Err x"
  "\<exists>x. fst (grant_renew now' t \<lparr>g_state = waiting p sat req n s\<rparr>) = Err x"
  "\<exists>x. fst (grant_renew now' t \<lparr>g_state = Closed\<rparr>) = Err x"
proof -
  note st = opened_status [of a e now]
  show "now < e \<Longrightarrow> e - now \<le> sim_renewal_window_secs \<Longrightarrow> now + ttl_secs < 2 ^ 63 \<Longrightarrow>
    grant_renew (sim_time now) (Ttl (from_secs ttl_secs)) \<lparr>g_state = opened a e\<rparr> =
      (Ok (sim_time (now + ttl_secs)), \<lparr>g_state = opened a (now + ttl_secs)\<rparr>)"
    unfolding grant_renew_def st
    by (simp add: sim_time_add renewal_window_secs_def sim_renewal_window_secs_def) (simp add: opened_def)
  show "\<not> (now < e \<and> e - now \<le> sim_renewal_window_secs) \<Longrightarrow>
    \<exists>x. fst (grant_renew (sim_time now) t \<lparr>g_state = opened a e\<rparr>) = Err x"
    unfolding grant_renew_def st
    by (cases "now < e") (simp_all add: renewal_window_secs_def sim_renewal_window_secs_def not_le)
  show "\<exists>x. fst (grant_renew now' t \<lparr>g_state = waiting p sat req n s\<rparr>) = Err x"
    "\<exists>x. fst (grant_renew now' t \<lparr>g_state = Closed\<rparr>) = Err x"
    by (auto simp: grant_renew_def waiting_def grant_status_def split: option.splits)
qed

section \<open>The daemon\<close>

abbreviation the_daemon :: "crates \<Rightarrow> (nat \<Rightarrow> nonce) \<Rightarrow> (actor \<Rightarrow> byte list) \<Rightarrow> fake_world daemon" where
  "the_daemon X u key \<equiv> sim_daemon X u (loaded_policy key)"

abbreviation does ::
    "crates \<Rightarrow> (fake_world sys, 'a) prog \<Rightarrow> grant_state \<times> nat \<times> fake_world \<Rightarrow> (fake_world sys, 'a) prog
      \<Rightarrow> grant_state \<times> nat \<times> fake_world \<Rightarrow> bool" where
  "does X \<equiv> goes X sim_host_name"

definition switch :: "fake_world \<Rightarrow> bool \<Rightarrow> bool" where
  "switch w b \<longleftrightarrow> fk_script (fw_drivers w Ssh) = Succeed \<and> fk_secret (fw_drivers w Ssh) = None \<and>
     fk_open (fw_drivers w Ssh) = b"

lemma sim_lone: "hex_codec X \<Longrightarrow> lone_daemon (sim_daemon X u m) X sim_host_name"
  by (simp add: lone_daemon_def sim_daemon_def sim_inventory_def reg_new_def lone_def sim_host_def bt_collect_def
      grant_new_def)

lemma sim_hosts:
  "dm_host (sim_daemon X u m) sim_host_name = Some sim_host" "declared (sim_daemon X u m) sim_host_name = [Ssh]"
  by (simp_all add: dm_host_def declared_def sim_daemon_def sim_inventory_def sim_host_def)

lemma sim_parts:
  "dm_crates (sim_daemon X u m) = X" "dm_approval (sim_daemon X u m) = Some m"
  "dm_drivers (sim_daemon X u m) = fake_drivers [Ssh]" "dm_deadman (sim_daemon X u m) = noop_deadman"
  "dm_approval_window (sim_daemon X u m) = from_secs approval_window_secs" "dm_urandom (sim_daemon X u m) = u"
  by (simp_all add: sim_daemon_def)

lemma sim_authority: "resolve_authority X (loaded_policy key) sim_host (sim_profile_id p) = Ok (profile_authority p)"
proof -
  have "sim_profile_id p \<in> set (permitted_profiles (loaded_policy key) sim_host)"
    by (cases p) (simp_all add: permitted_profiles_def sim_host_def profile_ids_def loaded_policy_def sim_profile_id_def)
  then show ?thesis
    by (simp add: resolve_authority_def policy_profile ok_or_def sim_host_def)
qed

lemma sim_choice: "choose_profile (the_daemon X u key) sim_host (Some (sim_profile_id p)) =
    Some (Ok (sim_profile_id p, Some (profile_authority p)))"
proof -
  obtain d where "d < from_secs approval_window_secs" "max_wait (loaded_policy key) (profile_authority p) = Some d"
    using policy_wait by blast
  then show ?thesis by (simp add: choose_profile_def sim_parts sim_authority Let_def)
qed

lemma sim_progress: "\<exists>prog. progress (the_daemon X u key) (Some (profile_authority p)) (actor_id |`| sat) (from_secs e) = Some prog"
  using policy_met [of key p sat e] by (auto simp: progress_def sim_parts)

lemma switch_calls:
  assumes "switch w b"
  shows "\<exists>w'. apply_channels (fake_drivers [Ssh]) h [Ssh] ctx w = Some (Applied [Ssh], w') \<and> switch w' True"
    "\<exists>w'. revert_channels (fake_drivers [Ssh]) h [Ssh] w = (Reverted, w') \<and> switch w' False"
    "renew_channels (fake_drivers [Ssh]) h [Ssh] ctx w = (Ok (), w)"
    "\<exists>w'. first_secret (fake_drivers [Ssh]) [Ssh] w = (None, w') \<and> switch w' b"
  using assms
  by (auto simp: switch_def apply_channels_def revert_channels_def fake_drivers_get fake_calls default_renew_def
      ds_take_secret_def fake_take_secret_def)

section \<open>Open\<close>

lemmas dispatching = dispatch_def dispatch_from_def perform_def

lemma run_open:
  assumes "hex_codec X" "ttl_at ix = Some t" "now < 2 ^ 62" "\<And>i. length (u i) = 32"
  shows "\<exists>r pc. does X (dispatch (the_daemon X u key) (OpOpen sim_host_name (fst t) (Some (sim_profile_id p))) (sim_time now))
      (Closed, n, w) (Return r) (waiting p {||} now (u n) (snd t), Suc n, w) \<and>
    re_result r = ResOk \<and> re_pending r = Some pc \<and>
    pc_challenge pc = challenge_string (b64url_encode X) (approval_request_new (u n) sim_host_name (snd t) (sim_time now))"
proof -
  note lone = sim_lone [OF assms(1), of u "loaded_policy key"]
  obtain a b c where prog: "progress (the_daemon X u key) (Some (profile_authority p)) {||} 0 = Some (a, b, c)"
    using sim_progress [of X u key p "{||}" 0] by (auto simp: from_secs_def)
  have commit: "does X (with_registry (the_daemon X u key) (reg_begin_pending sim_host_name (sim_time now)
       (sim_time (now + approval_window_secs)) (Ttl (from_secs (snd t))) (u n) (sim_profile_id p)))
     (Closed, Suc n, w) (Return (Ok ())) (waiting p {||} now (u n) (snd t), Suc n, w)"
    using solid_grants(2) [of now p "{||}" "u n" "snd t"] assms(3)
    by (intro goes_commit [OF lone loads_grants(1)])
      (simp_all add: reg_begin_pending_def grant_begin_pending_def grant_status_def waiting_def)
  have w: "checked_add_time (sim_time now) (from_secs approval_window_secs) = Some (sim_time (now + approval_window_secs))"
    using assms(3) by (intro sim_time_add) (simp add: approval_window_secs_def)
  show ?thesis
    using prog
    by (auto simp: dispatching dm_open_def sim_ttls(1) [OF assms(2)] sim_hosts sim_choice expect_some_def sim_parts w
        request_open_def response_ok_def
        intro!: exI goes_bind [OF goes_nonce] goes_bind [OF commit] goes_bind [OF goes_journal(1)] goes_refl)
qed

lemma pending_needs_closed:
  assumes "g_state g \<noteq> Closed"
  shows "\<exists>e. fst (grant_begin_pending now d t n p g) = Err e"
proof -
  have "grant_status g now \<noteq> StClosed"
    using assms by (auto simp: grant_status_def split: grant_state.splits option.splits)
  then show ?thesis by (auto simp: grant_begin_pending_def split: grant_status_view.splits)
qed

lemma run_open_refused:
  assumes "hex_codec X" "ttl_at ix = Some t" "now < 2 ^ 62" "loads g" "g \<noteq> Closed"
  shows "\<exists>r. does X (dispatch (the_daemon X u key) (OpOpen sim_host_name (fst t) (Some (sim_profile_id p))) (sim_time now))
      (g, n, w) (Return r) (g, Suc n, w) \<and> re_result r = ResRefused"
proof -
  note lone = sim_lone [OF assms(1), of u "loaded_policy key"]
  have w: "checked_add_time (sim_time now) (from_secs approval_window_secs) = Some (sim_time (now + approval_window_secs))"
    using assms(3) by (intro sim_time_add) (simp add: approval_window_secs_def)
  obtain e where e: "fst (reg_begin_pending sim_host_name (sim_time now) (sim_time (now + approval_window_secs))
      (Ttl (from_secs (snd t))) (u n) (sim_profile_id p) (lone sim_host_name g)) = Err e"
    using pending_needs_closed [of "\<lparr>g_state = g\<rparr>" "sim_time now" "sim_time (now + approval_window_secs)"
        "Ttl (from_secs (snd t))" "u n" "sim_profile_id p"] assms(5) by (auto simp: reg_begin_pending_def)
  have refusal: "does X (with_registry (the_daemon X u key) (reg_begin_pending sim_host_name (sim_time now)
       (sim_time (now + approval_window_secs)) (Ttl (from_secs (snd t))) (u n) (sim_profile_id p)))
     (g, Suc n, w) (Return (Err e)) (g, Suc n, w)"
    by (rule goes_refused [OF lone assms(4)]) (rule e)
  show ?thesis
    by (auto simp: dispatching dm_open_def sim_ttls(1) [OF assms(2)] sim_hosts sim_choice expect_some_def sim_parts w
        request_open_def refuse_registry_def refuse_def response_refused_def
        intro!: exI goes_bind [OF goes_nonce] goes_bind [OF refusal] goes_refl)
qed

section \<open>Opening\<close>

lemma run_land:
  assumes "hex_codec X" "now < e" "e \<le> now + 86400" "e < 2 ^ 63" "switch w b"
  shows "\<exists>r w'. does X (drive_open (the_daemon X u key) sim_host_name sim_host [Ssh] [Ssh] secs (sim_time e) (sim_time now))
      (Opening (sim_time now) (sim_time e) [Ssh], n, w) (Return r) (opened now e, n, w') \<and>
    re_result r = ResOk \<and> switch w' True"
proof -
  note lone = sim_lone [OF assms(1), of u "loaded_policy key"]
  obtain w1 where w1: "apply_channels (fake_drivers [Ssh]) sim_host [Ssh]
      \<lparr>ctx_ttl_secs = secs, ctx_expires_at = sim_time e\<rparr> w = Some (Applied [Ssh], w1)" "switch w1 True"
    using switch_calls(1) [OF assms(5)] by blast
  obtain w2 where w2: "first_secret (fake_drivers [Ssh]) [Ssh] w1 = (None, w2)" "switch w2 True"
    using switch_calls(4) [OF w1(2)] by blast
  have apply1: "does X (with_world (\<lambda>w. case apply_channels (fake_drivers [Ssh]) sim_host [Ssh]
        \<lparr>ctx_ttl_secs = secs, ctx_expires_at = sim_time e\<rparr> w of None \<Rightarrow> (None, w) | Some (out, w) \<Rightarrow> (Some out, w)))
      (g, n, w) (Return (Some (Applied [Ssh]))) (g, n, w1)" for g
    by (rule goes_world) (simp add: w1)
  have backstop: "does X (install_deadman (the_daemon X u key) sim_host [Ssh] (sim_time e)) (g, n, w1) (Return (Ok ())) (g, n, w1)" for g
    unfolding install_deadman_def
    by (auto simp: sim_parts noop_deadman_def intro!: goes_world goes_refl)
  have commit: "does X (with_registry (the_daemon X u key) (reg_finish_open sim_host_name))
      (Opening (sim_time now) (sim_time e) [Ssh], n, w1) (Return (Ok ())) (opened now e, n, w1)"
    using solid_grants(3) [of now e] assms(2,4)
    by (intro goes_commit [OF lone loads_grants(4) [OF assms(2,3,4)]])
      (simp_all add: reg_finish_open_def grant_finish_open_def opened_def)
  have secret: "does X (with_world (first_secret (fake_drivers [Ssh]) [Ssh])) (g, n, w1) (Return None) (g, n, w2)" for g
    by (rule goes_world) (rule w2(1))
  have "re_result (opened_response (the_daemon X u key) sim_host [Ssh] (sim_time e) None) = ResOk"
    by (simp add: opened_response_def response_ok_def Let_def)
  then show ?thesis
    using w2(2)
    by (auto simp: drive_open_def sim_parts expect_some_def expect_def land_open_def
        intro!: exI goes_bind [OF apply1] goes_bind [OF backstop] goes_bind [OF commit] goes_bind [OF goes_journal(1)]
          goes_bind [OF secret] goes_refl)
qed

lemma run_open_pending:
  assumes "hex_codec X" "now < req + approval_window_secs" "req < 2 ^ 61" "0 < ttl_secs" "ttl_secs \<le> 14400"
    "length nonce = 32" "switch w b"
  shows "\<exists>r w'. does X (open_pending_now (the_daemon X u key) sim_host_name sim_host (sim_time req) (sim_time now))
      (waiting p sat req nonce ttl_secs, n, w) (Return r) (opened now (now + ttl_secs), n, w') \<and>
    re_result r = ResOk \<and> switch w' True"
proof -
  note lone = sim_lone [OF assms(1), of u "loaded_policy key"]
  have b: "now + ttl_secs < 2 ^ 63" "req < 2 ^ 62" using assms(2,3,5) by (simp_all add: approval_window_secs_def)
  have commit: "does X (with_registry (the_daemon X u key) (reg_approve_to_opening sim_host_name (sim_time now) [Ssh]))
      (waiting p sat req nonce ttl_secs, n, w) (Return (Ok (sim_time (now + ttl_secs))))
      (Opening (sim_time now) (sim_time (now + ttl_secs)) [Ssh], n, w)"
    using solid_grants(4) [of now "now + ttl_secs"] b
    by (intro goes_commit [OF lone loads_grants(2) [OF b(2) assms(6,4,5)]]) (simp_all add: reg_approve_to_opening_def waiting_ops(1) [OF assms(2,3,5)])
  have d: "drivable (fake_drivers [Ssh]) [Ssh] = [Ssh]" by (simp add: drivable_def bt_contains_def fake_drivers_get)
  obtain r w' where r: "does X (drive_open (the_daemon X u key) sim_host_name sim_host [Ssh] [Ssh] ttl_secs
      (sim_time (now + ttl_secs)) (sim_time now))
      (Opening (sim_time now) (sim_time (now + ttl_secs)) [Ssh], n, w) (Return r) (opened now (now + ttl_secs), n, w')"
    "re_result r = ResOk" "switch w' True"
    using run_land [OF assms(1) _ _ b(1) assms(7), of now u key ttl_secs n] assms(4,5) by auto
  show ?thesis
    using r
    by (auto simp: open_pending_now_def Let_def sim_parts sim_hosts d sim_time_since
        intro!: exI goes_bind [OF commit] goes_bind [OF goes_journal(1)])
qed

end
