(* ===== verification/Front_Door.thy ===== *)
theory Front_Door
  imports Sim_Runs
begin

text \<open>
  Two promises at the daemon's doors: the MCP socket reaches only the profiles opened to it, and a
  one-time code is accepted once.
\<close>

section \<open>Specification\<close>

text \<open>The profile of the pending request the state file records for a host, if it can be loaded.\<close>

definition stored_profile :: "'w daemon \<Rightarrow> string \<Rightarrow> system_time \<Rightarrow> state_doc file_state \<Rightarrow> string option" where
  "stored_profile dm host now f =
     (case f of
        Holds doc \<Rightarrow>
          (case from_parts (dm_crates dm) (dm_inventory dm) doc of
             Inl _ \<Rightarrow> None
           | Inr registry \<Rightarrow>
               (case reg_pending_view host now registry of Inl _ \<Rightarrow> None | Inr v \<Rightarrow> Some (pv_profile v)))
      | _ \<Rightarrow> None)"

text \<open>The profiles under which the state file records pending requests, host by host.\<close>

definition pending_under :: "state_doc file_state \<Rightarrow> string \<Rightarrow> string \<Rightarrow> bool" where
  "pending_under f h p =
     (case f of
        Holds doc \<Rightarrow> list_ex (\<lambda>e. fst e = h \<and> gr_state (snd e) = ''pending'' \<and>
          (case gr_profile (snd e) of Some q \<Rightarrow> q | None \<Rightarrow> []) = p) (doc_grants doc)
      | _ \<Rightarrow> False)"

definition refused_untouched :: "'w sys \<Rightarrow> response exit \<times> 'w sys \<Rightarrow> bool" where
  "refused_untouched s = (\<lambda>(e, s'). sy_world s' = sy_world s \<and> dk_file (sy_store s') = dk_file (sy_store s) \<and>
     (\<forall>r. e = Done r \<longrightarrow> re_result r = ResRefused))"

definition is_drill :: "op \<Rightarrow> bool" where
  "is_drill opr = (case opr of OpDrill _ \<Rightarrow> True | _ \<Rightarrow> False)"

text \<open>A call of the replay ledger: authenticator, counter and instant.\<close>

definition consume_all :: "(string \<times> nat \<times> system_time) list \<Rightarrow> totp_doc disk \<Rightarrow> totp_doc disk" where
  "consume_all calls dk = fold (\<lambda>(a, c, t) dk. snd (totp_consume a c t dk)) calls dk"

section \<open>The gate\<close>

lemma run_journal:
  "run (journal_event now ev) s = (e, s') \<Longrightarrow> sy_world s' = sy_world s \<and> sy_store s' = sy_store s \<and> e \<noteq> PanicExit"
  by (auto simp: journal_event_def try_act_def split: prod.splits sum.splits)

lemma run_refusal:
  assumes "run (and_then (journal_event now ev) (\<lambda>_. refuse reason)) s = (e, s')"
  shows "sy_world s' = sy_world s \<and> sy_store s' = sy_store s \<and> (\<forall>r. e = Done r \<longrightarrow> re_result r = ResRefused)"
  using assms run_journal [of now ev s] by (auto simp: run_and_then refuse_def response_refused_def split: prod.splits exit.splits)

lemma run_load:
  assumes "run (load_registry dm) s = (e, s')"
  shows "sy_world s' = sy_world s" "dk_file (sy_store s') = dk_file (sy_store s)"
    "e = Done registry \<Longrightarrow> dk_file (sy_store s) = Holds doc \<Longrightarrow> from_parts (dm_crates dm) (dm_inventory dm) doc = Ok registry"
proof -
  obtain r dk where rd: "store_read (sy_store s) = (r, dk)" by (cases "store_read (sy_store s)")
  have "dk_file dk = dk_file (sy_store s)" using store_read_file [of "sy_store s"] rd by simp
  moreover have "r = Inr doc' \<Longrightarrow> dk_file (sy_store s) = Holds doc \<Longrightarrow> doc' = doc" for doc'
    using rd by (auto simp: store_read_def dest!: next_fault_kept split: prod.splits if_splits)
  ultimately show "sy_world s' = sy_world s" "dk_file (sy_store s') = dk_file (sy_store s)"
    "e = Done registry \<Longrightarrow> dk_file (sy_store s) = Holds doc \<Longrightarrow> from_parts (dm_crates dm) (dm_inventory dm) doc = Ok registry"
    using assms rd
    by (auto simp: load_registry_def lift_store_def try_act_def split: sum.splits)
qed

lemma gate_refuses_approval:
  assumes "dm_approval dm = Some m" "stored_profile dm host now (dk_file (sy_store s)) = Some p" "\<not> mcp_allowed m p"
    "run (mcp_gate dm (OpApprove host tok) now) s = (e, s')"
  shows "sy_world s' = sy_world s \<and> dk_file (sy_store s') = dk_file (sy_store s) \<and> e \<noteq> Done None"
proof -
  obtain doc registry v where d: "dk_file (sy_store s) = Holds doc" "from_parts (dm_crates dm) (dm_inventory dm) doc = Ok registry"
    "reg_pending_view host now registry = Inr v" "pv_profile v = p"
    using assms(2) by (auto simp: stored_profile_def split: file_state.splits sum.splits)
  obtain e1 s1 where l: "run (load_registry dm) s = (e1, s1)" by (cases "run (load_registry dm) s")
  have "e1 = Done r \<Longrightarrow> r = registry" for r using run_load(3) [OF l _ d(1)] d(2) by simp
  then show ?thesis
    using assms(1,3,4) l run_load(1,2) [OF l] d(3,4)
    by (cases e1) (auto simp: mcp_gate_def pending_profile_def run_and_then gate_profile_def)
qed

lemma gated_refusal:
  assumes "\<And>e s'. run (mcp_gate dm opr now) s = (e, s') \<Longrightarrow>
    sy_world s' = sy_world s \<and> dk_file (sy_store s') = dk_file (sy_store s) \<and> e \<noteq> Done None"
  shows "refused_untouched s (run (dispatch_from dm opr now Mcp) s)"
proof -
  obtain e1 s1 where g: "run (mcp_gate dm opr now) s = (e1, s1)" by (cases "run (mcp_gate dm opr now) s")
  obtain e s' where r: "run (dispatch_from dm opr now Mcp) s = (e, s')" by (cases "run (dispatch_from dm opr now Mcp) s")
  note ref = assms [OF g]
  have "refused_untouched s (e, s')"
  proof (cases e1)
    case (Done gate)
    then obtain reason where "gate = Some reason" using ref by (cases gate) auto
    then have "run (and_then (journal_event now (EvMcpRefused (op_host opr) reason)) (\<lambda>_. refuse reason)) s1 = (e, s')"
      using r g Done by (simp add: dispatch_from_def run_and_then)
    then show ?thesis using run_refusal ref by (fastforce simp: refused_untouched_def)
  qed (use r g ref in \<open>auto simp: dispatch_from_def run_and_then refused_untouched_def\<close>)
  then show ?thesis by (simp add: r)
qed

section \<open>What an open records\<close>

lemma pending_under_Holds:
  "pending_under (Holds doc) h p \<longleftrightarrow> (\<exists>rec. (h, rec) \<in> set (doc_grants doc) \<and> gr_state rec = ''pending'' \<and>
     (case gr_profile rec of Some q \<Rightarrow> q | None \<Rightarrow> []) = p)"
  by (force simp: pending_under_def list_ex_iff)

lemma stored_profiles:
  assumes "stored doc = Some d" "pending_under (Holds d) h p"
  shows "pending_under (Holds doc) h p"
proof -
  obtain rs where rs: "those (map (\<lambda>e. map_option (\<lambda>r. (fst e, r)) (record_stored (snd e))) (doc_grants doc)) = Some rs"
    "d = doc\<lparr>doc_grants := rs\<rparr>" using assms(1) by (auto simp: stored_def)
  obtain rec where rec: "(h, rec) \<in> set rs" "gr_state rec = ''pending''" "(case gr_profile rec of Some q \<Rightarrow> q | None \<Rightarrow> []) = p"
    using assms(2) rs(2) by (auto simp: pending_under_Holds)
  have "\<exists>old. (h, old) \<in> set es \<and> record_stored old = Some rec"
    if "those (map (\<lambda>e. map_option (\<lambda>r. (fst e, r)) (record_stored (snd e))) es) = Some rs" "(h, rec) \<in> set rs" for es rs
    using that by (induction es arbitrary: rs) (fastforce split: option.splits)+
  then obtain old where "(h, old) \<in> set (doc_grants doc)" "record_stored old = Some rec" using rs(1) rec(1) by blast
  moreover from this(2) have "gr_state rec = gr_state old" "gr_profile rec = gr_profile old"
    by (auto simp: record_stored_def bind_eq_Some_conv)
  ultimately show ?thesis using rec(2,3) by (auto simp: pending_under_Holds)
qed

lemma snapshot_profiles:
  assumes "pending_under (Holds (snapshot X r)) h p"
  shows "\<exists>q d t n sat. (h, \<lparr>g_state = Pending q d t n p sat\<rparr>) \<in> set (r_grants r)"
proof -
  have sub: "x \<in> set (bt_collect xs) \<Longrightarrow> x \<in> set xs" for x :: "string \<times> grant_record" and xs
    using bt_get_in_set [OF bt_ok_collect, of "fst x" "snd x" xs] bt_get_collect [of xs "fst x"]
    by (metis map_of_SomeD prod.collapse set_rev)
  have some: "y \<in> set (List.map_filter f xs) \<Longrightarrow> \<exists>x\<in>set xs. f x = Some y"
    for f :: "string \<times> grant \<Rightarrow> (string \<times> grant_record) option" and xs y
    by (induction xs) (auto simp: List.map_filter_simps split: option.splits)
  obtain rec where rec: "(h, rec) \<in> set (doc_grants (snapshot X r))" "gr_state rec = ''pending''"
    "(case gr_profile rec of Some q \<Rightarrow> q | None \<Rightarrow> []) = p" using assms by (auto simp: pending_under_Holds)
  then obtain g parts where g: "(h, g) \<in> set (r_grants r)" "grant_parts g = Some parts" "rec = record_of X parts"
    by (fastforce simp: snapshot_def dest!: sub some)
  then show ?thesis
    using rec(2,3) by (cases g; cases "g_state g"; auto simp: grant_parts_def record_of_def base_record_def; blast)
qed

lemma restored_profiles:
  assumes "restore_all X es r = Ok r'" "(h, \<lparr>g_state = Pending q d t n p sat\<rparr>) \<in> set (r_grants r')"
  shows "(h, \<lparr>g_state = Pending q d t n p sat\<rparr>) \<in> set (r_grants r) \<or>
    (\<exists>rec. (h, rec) \<in> set es \<and> gr_state rec = ''pending'' \<and> (case gr_profile rec of Some q \<Rightarrow> q | None \<Rightarrow> []) = p)"
  using assms
proof (induction es arbitrary: r)
  case (Cons e es)
  obtain parts where p: "parts_of X (fst e) (snd e) = Ok parts"
    "restore_all X es (reg_restore (fst e) (grant_restore parts) r) = Ok r'"
    using Cons.prems(1) by (auto simp: bind_ok_eq_Ok)
  have entry: "(k, g) \<in> set (bt_set k' g' m) \<Longrightarrow> (k, g) \<in> set m \<or> k = k' \<and> g = g'" for k k' :: string and g g' :: grant and m
    by (auto simp: bt_set_def split: if_splits)
  from Cons.IH [OF p(2) Cons.prems(2)] show ?case
  proof
    assume "(h, \<lparr>g_state = Pending q d t n p sat\<rparr>) \<in> set (r_grants (reg_restore (fst e) (grant_restore parts) r))"
    then consider "(h, \<lparr>g_state = Pending q d t n p sat\<rparr>) \<in> set (r_grants r)"
      | "h = fst e" "grant_restore parts = \<lparr>g_state = Pending q d t n p sat\<rparr>"
      by (auto simp: reg_restore_def dest!: entry)
    then show ?thesis
    proof cases
      case 2
      then have "parts = PPending q d t n p sat" by (cases parts) (auto simp: grant_restore_def)
      then have "gr_state (snd e) = ''pending''" "(case gr_profile (snd e) of Some q \<Rightarrow> q | None \<Rightarrow> []) = p"
        using p(1) by (auto simp: parts_of_def pending_parts_def bind_ok_eq_Ok split: if_splits option.splits)
      then show ?thesis using 2(1) by (cases e) auto
    qed simp
  qed auto
qed simp

lemma loaded_profiles:
  assumes "from_parts X iv doc = Ok r" "(h, \<lparr>g_state = Pending q d t n p sat\<rparr>) \<in> set (r_grants r)"
  shows "pending_under (Holds doc) h p"
proof -
  have "(h, \<lparr>g_state = Pending q d t n p sat\<rparr>) \<notin> set (r_grants (reg_new iv))"
    using reg_new_grant [of iv h] bt_get_in_set [of "r_grants (reg_new iv)" h] by (auto simp: reg_new_def grant_new_def)
  then show ?thesis
    using assms restored_profiles [of X "doc_grants doc" "reg_new iv" r h q d t n p sat]
    by (auto simp: from_parts_def Let_def pending_under_Holds split: if_splits)
qed

lemma read_profiles:
  assumes "fst (store_read dk) = Ok doc" "pending_under (Holds doc) h p"
  shows "pending_under (dk_file dk) h p"
  using assms
  by (auto simp: store_read_def pending_under_def state_doc_default_def dest!: next_fault_kept
      split: prod.splits if_splits file_state.splits)

text \<open>A request adds the chosen profile to the recorded ones, and nothing else.\<close>

lemma grant_update_eq: "\<lparr>g_state = a\<rparr> = g\<lparr>g_state := b\<rparr> \<longleftrightarrow> a = b"
  by (cases g) simp

lemma begun_profiles:
  assumes "commit_op dm (reg_begin_pending host now deadline t n chosen) doc = Some (Ok (out, doc'))"
    "pending_under (Holds doc') h p"
  shows "pending_under (Holds doc) h p \<or> p = chosen"
proof -
  obtain r where r: "from_parts (dm_crates dm) (dm_inventory dm) doc = Ok r"
    using assms(1) by (auto simp: commit_op_def split: sum.splits)
  obtain a r' where b: "reg_begin_pending host now deadline t n chosen r = (a, r')"
    by (cases "reg_begin_pending host now deadline t n chosen r")
  show ?thesis
  proof (cases a)
    case (Inr v)
    then obtain q d u c sat where g: "(h, \<lparr>g_state = Pending q d u c p sat\<rparr>) \<in> set (r_grants r')"
      using assms r b snapshot_profiles [of "dm_crates dm" r' h p] by (auto simp: commit_op_def)
    have "(h, \<lparr>g_state = Pending q d u c p sat\<rparr>) \<in> set (r_grants r) \<or> p = chosen"
      using g b Inr by (auto simp: reg_begin_pending_def grant_mut_def grant_begin_pending_def bt_set_def grant_update_eq
          split: option.splits grant_status_view.splits if_splits)
    then show ?thesis using loaded_profiles [OF r] by blast
  qed (use assms r b in \<open>auto simp: commit_op_def\<close>)
qed

lemma run_begun:
  assumes "run (with_registry dm (reg_begin_pending host now deadline t n chosen)) s = (e, s')"
    "pending_under (dk_file (sy_store s')) h p"
  shows "pending_under (dk_file (sy_store s)) h p \<or> p = chosen"
proof -
  let ?f = "commit_op dm (reg_begin_pending host now deadline t n chosen)"
  have s': "sy_store s' = snd (store_mutate ?f (sy_store s))"
    using assms(1) by (auto simp: with_registry_def lift_store_def try_act_def split: prod.splits option.splits sum.splits)
  show ?thesis
  proof (cases rule: store_mutate_cases [of ?f "sy_store s"])
    case (failed e)
    then show ?thesis using assms(2) s' by simp
  next
    case (ran doc dk1)
    from ran(3) consider "dk_file (sy_store s') = dk_file (sy_store s)"
      | out doc' d where "?f doc = Some (Ok (out, doc'))" "stored doc' = Some d" "dk_file (sy_store s') = Holds d"
      | "dk_file (sy_store s') = Unparsable"
      using s' by (auto split: option.splits)
    then show ?thesis
    proof cases
      case 2
      have "pending_under (Holds doc') h p" using stored_profiles [OF 2(2)] assms(2) 2(3) by simp
      then show ?thesis using begun_profiles [OF 2(1)] read_profiles [OF ran(1)] ran(2) by fastforce
    qed (use assms(2) in \<open>auto simp: pending_under_def\<close>)
  qed
qed

lemma run_world_kept:
  "run (with_registry dm opr) s = (e, s') \<Longrightarrow> sy_world s' = sy_world s"
  "run (generate_nonce dm) s = (e2, s2) \<Longrightarrow> sy_world s2 = sy_world s \<and> sy_store s2 = sy_store s"
  by (auto simp: with_registry_def lift_store_def try_act_def generate_nonce_def split: prod.splits option.splits sum.splits)

lemma run_request_open:
  assumes "run (request_open dm host t chosen au deadline now) s = (e, s')"
  shows "sy_world s' = sy_world s"
    "pending_under (dk_file (sy_store s')) h p \<Longrightarrow> pending_under (dk_file (sy_store s)) h p \<or> p = chosen"
proof -
  obtain s1 where n: "run (generate_nonce dm) s = (Done (dm_urandom dm (sy_draws s)), s1)" "sy_world s1 = sy_world s" "sy_store s1 = sy_store s"
    by (simp add: generate_nonce_def)
  obtain e2 s2 where w: "run (with_registry dm (reg_begin_pending host now deadline t (dm_urandom dm (sy_draws s)) chosen)) s1 = (e2, s2)"
    by (cases "run (with_registry dm (reg_begin_pending host now deadline t (dm_urandom dm (sy_draws s)) chosen)) s1")
  have rest: "sy_world s' = sy_world s2 \<and> sy_store s' = sy_store s2"
    using assms n(1) w
    by (auto dest: run_journal simp: request_open_def run_and_then refuse_registry_def refuse_def expect_some_def
        split: prod.splits exit.splits sum.splits option.splits)
  show "sy_world s' = sy_world s" using rest run_world_kept(1) [OF w] n(2) by simp
  show "pending_under (dk_file (sy_store s')) h p \<Longrightarrow> pending_under (dk_file (sy_store s)) h p \<or> p = chosen"
    using run_begun [OF w] rest n(3) by simp
qed

lemma run_refuse [simp]: "run (refuse reason) s = (Done (response_refused reason), s)"
  by (simp add: refuse_def)

lemma refused_here: "refused_untouched s (Done (response_refused reason), s)"
  by (simp add: refused_untouched_def response_refused_def)

text \<open>An \<open>open\<close> that passes the gate is refused or records the profile it was checked for.\<close>

lemma open_outcome:
  assumes "dm_approval dm = Some m"
  shows "refused_untouched s (run (dm_open dm host ttl_str prof now) s) \<or>
      (\<exists>t chosen au deadline. resolve_open_profile dm host prof = Some chosen \<and>
         dm_open dm host ttl_str prof now = request_open dm host t chosen au deadline now)"
proof (cases "ttl_parse ttl_str")
  case (Inl e)
  then show ?thesis by (simp add: dm_open_def refused_here)
next
  case (Inr t)
  note t = this
  show ?thesis
  proof (cases "dm_host dm host")
    case None
    then show ?thesis using t by (simp add: dm_open_def refuse_registry_def refused_here)
  next
    case (Some h)
    note h = this
    show ?thesis
    proof (cases "choose_profile dm h prof")
      case None
      then show ?thesis using t h by (simp add: dm_open_def expect_some_def refused_untouched_def)
    next
      case (Some choice)
      note choice = this
      show ?thesis
      proof (cases choice)
        case (Inl reason)
        then show ?thesis using t h choice by (simp add: dm_open_def expect_some_def refused_here)
      next
        case (Inr ca)
        obtain chosen au where ca: "ca = (chosen, au)" by (cases ca)
        have "resolve_open_profile dm host prof = Some chosen"
          using choice Inr ca assms h
          by (auto simp: choose_profile_def resolve_open_profile_def Let_def
              split: option.splits list.splits sum.splits if_splits)
        then show ?thesis
          using t h choice Inr ca
          by (cases "checked_add_time now (dm_approval_window dm)") (auto simp: dm_open_def expect_some_def refused_here)
      qed
    qed
  qed
qed

text \<open>An \<open>open\<close> over MCP: its gate, and what it leaves behind.\<close>

lemma mcp_open:
  assumes "dm_approval dm = Some m" "run (dispatch_from dm (OpOpen host ttl_str prof) now Mcp) s = (e, s')"
  shows "refused_untouched s (e, s') \<or> (\<exists>chosen. mcp_allowed m chosen \<and> (\<forall>p. prof = Some p \<longrightarrow> p = chosen) \<and>
    sy_world s' = sy_world s \<and>
    (\<forall>h p. pending_under (dk_file (sy_store s')) h p \<longrightarrow> pending_under (dk_file (sy_store s)) h p \<or> p = chosen))"
proof (cases "gate_profile dm host (resolve_open_profile dm host prof)")
  case (Some reason)
  then have "refused_untouched s (run (dispatch_from dm (OpOpen host ttl_str prof) now Mcp) s)"
    using assms(1) by (intro gated_refusal) (auto simp: mcp_gate_def)
  then show ?thesis using assms(2) by simp
next
  case None
  then have r: "run (dm_open dm host ttl_str prof now) s = (e, s')"
    using assms by (simp add: dispatch_from_def mcp_gate_def perform_def)
  from open_outcome [OF assms(1), of s host ttl_str prof now] show ?thesis
  proof
    assume "\<exists>t chosen au deadline. resolve_open_profile dm host prof = Some chosen \<and>
        dm_open dm host ttl_str prof now = request_open dm host t chosen au deadline now"
    then obtain t chosen au deadline where o: "resolve_open_profile dm host prof = Some chosen"
      "run (request_open dm host t chosen au deadline now) s = (e, s')" using r by auto
    have "mcp_allowed m chosen" using None o(1) assms(1) by (simp add: gate_profile_def split: if_splits)
    moreover have "\<forall>p. prof = Some p \<longrightarrow> p = chosen" using o(1) by (auto simp: resolve_open_profile_def bind_eq_Some_conv)
    ultimately show ?thesis using run_request_open [OF o(2)] by blast
  qed (simp add: r)
qed

section \<open>The replay ledger\<close>

definition remembers :: "string \<Rightarrow> nat \<Rightarrow> nat \<Rightarrow> totp_doc disk \<Rightarrow> bool" where
  "remembers i c at dk \<longleftrightarrow> (\<exists>doc. dk_file dk = Holds doc \<and> \<lparr>te_authenticator = i, te_counter = c, te_at = at\<rparr> \<in> set (td_consumed doc))"

lemma ledger_steps:
  "ledger_lock dk = (r, dk') \<Longrightarrow> dk_file dk' = dk_file dk"
  "ledger_read ver fresh dk = (Inr doc, dk') \<Longrightarrow> dk_file dk' = dk_file dk \<and> (\<forall>d. dk_file dk = Holds d \<longrightarrow> doc = d)"
  "ledger_read ver fresh dk = (Inl e, dk') \<Longrightarrow> dk_file dk' = dk_file dk"
  "ledger_write d dk = (Inr u, dk') \<Longrightarrow> dk_file dk' = Holds d"
  "ledger_write d dk = (Inl e, dk') \<Longrightarrow> dk_file dk' = dk_file dk"
  by (auto simp: ledger_lock_def ledger_read_def ledger_write_def dest!: next_fault_kept split: prod.splits if_splits)

lemma consume_remembers:
  assumes "totp_consume i c now dk = (Ok True, dk')"
  shows "remembers i c (epoch_secs now) dk'"
  using assms
  by (auto simp: totp_consume_def Let_def remembers_def dest!: ledger_steps(4) split: prod.splits sum.splits if_splits)

lemma consume_keeps:
  assumes "remembers i c at dk" "epoch_secs now - at \<le> retain_secs"
  shows "remembers i c at (snd (totp_consume a n now dk))"
  using assms
  by (auto simp: totp_consume_def totp_read_def Let_def remembers_def
      dest!: ledger_steps split: prod.splits sum.splits if_splits)

lemma consume_refuses:
  assumes "remembers i c at dk" "epoch_secs now - at \<le> retain_secs"
  shows "fst (totp_consume i c now dk) \<noteq> Ok True"
proof -
  let ?old = "\<lambda>doc. filter (\<lambda>e. epoch_secs now - te_at e \<le> retain_secs) (td_consumed doc)"
  obtain doc where doc: "dk_file dk = Holds doc" "\<lparr>te_authenticator = i, te_counter = c, te_at = at\<rparr> \<in> set (?old doc)"
    using assms by (auto simp: remembers_def)
  then have "list_ex (\<lambda>e. te_authenticator e = i \<and> te_counter e = c) (?old doc)" by (force simp: list_ex_iff)
  then show ?thesis
    using doc(1)
    by (auto simp: totp_consume_def totp_read_def Let_def simp del: filter_filter set_filter
        dest!: ledger_steps split: prod.splits sum.splits if_splits)
qed

lemma consume_all_keeps:
  assumes "remembers i c at dk" "\<forall>x\<in>set calls. epoch_secs (snd (snd x)) - at \<le> retain_secs"
  shows "remembers i c at (consume_all calls dk)"
  using assms
proof (induction calls arbitrary: dk)
  case (Cons x calls)
  then show ?case by (cases x) (auto simp: consume_all_def intro: consume_keeps)
qed (simp add: consume_all_def)

lemma matches_window:
  assumes "totp_matches X secret code now 1 = Some c"
  shows "c \<le> epoch_secs now div 30 + 1" "epoch_secs now div 30 \<le> c + 1"
  using assms
  by (auto simp: totp_matches_def Let_def counter_at_def epoch_secs_def step_secs_def scan_last_hit
      simp del: upt_Suc split: if_splits option.splits)

lemma epoch_secs_mono: "t \<le> t' \<Longrightarrow> epoch_secs t \<le> epoch_secs t'"
  by (auto simp: epoch_secs_def duration_since_def as_secs_def div_le_mono nat_mono)

section \<open>Properties\<close>

text \<open>
  C6. The MCP front door reaches only what the policy opens to it.  Take any operation that arrives on
  the MCP socket.  A drill is refused; so are opens and approvals when there is no policy, an open that
  names a profile not marked for MCP, and an approval of a recorded pending request whose profile is
  not marked: refused means that state file and world are exactly as before.  An open that names no
  profile, and so lets the daemon pick one, leaves the world as it was, and every pending request in the
  state file afterwards was there before under the same profile or is under a profile marked for MCP.
\<close>

theorem mcp_reaches_allowed_only:
  "(case opr of
      OpDrill _ \<Rightarrow> refused_untouched s (run (dispatch_from dm opr now Mcp) s)
    | OpOpen host _ prof \<Rightarrow>
        (case dm_approval dm of
           None \<Rightarrow> refused_untouched s (run (dispatch_from dm opr now Mcp) s)
         | Some m \<Rightarrow>
             (\<forall>p. prof = Some p \<and> \<not> mcp_allowed m p \<longrightarrow> refused_untouched s (run (dispatch_from dm opr now Mcp) s)) \<and>
             (\<forall>e s' h p. run (dispatch_from dm opr now Mcp) s = (e, s') \<longrightarrow> sy_world s' = sy_world s \<and>
                (pending_under (dk_file (sy_store s')) h p \<longrightarrow> pending_under (dk_file (sy_store s)) h p \<or> mcp_allowed m p)))
    | OpApprove host _ \<Rightarrow>
        (case dm_approval dm of
           None \<Rightarrow> refused_untouched s (run (dispatch_from dm opr now Mcp) s)
         | Some m \<Rightarrow>
             (\<forall>p. stored_profile dm host now (dk_file (sy_store s)) = Some p \<and> \<not> mcp_allowed m p \<longrightarrow>
                refused_untouched s (run (dispatch_from dm opr now Mcp) s)))
    | _ \<Rightarrow> True)"
proof (cases opr)
  case (OpDrill host)
  then show ?thesis by (auto intro!: gated_refusal simp: mcp_gate_def)
next
  case (OpApprove host tok)
  show ?thesis
  proof (cases "dm_approval dm")
    case None
    then show ?thesis using OpApprove by (auto intro!: gated_refusal simp: mcp_gate_def)
  next
    case (Some m)
    then show ?thesis using OpApprove gate_refuses_approval [OF Some] by (fastforce intro!: gated_refusal)
  qed
next
  case (OpOpen host ttl_str prof)
  show ?thesis
  proof (cases "dm_approval dm")
    case None
    then show ?thesis using OpOpen by (auto intro!: gated_refusal simp: mcp_gate_def)
  next
    case (Some m)
    obtain e s' where r: "run (dispatch_from dm (OpOpen host ttl_str prof) now Mcp) s = (e, s')"
      by (cases "run (dispatch_from dm (OpOpen host ttl_str prof) now Mcp) s")
    show ?thesis using mcp_open [OF Some r] Some OpOpen r by (auto simp: refused_untouched_def)
  qed
qed simp_all

theorem mcp_reaches_allowed_only_witness:
  "let dm = the_daemon small_crates (\<lambda>_. []) (\<lambda>_. []) in
     \<not> mcp_allowed (loaded_policy (\<lambda>_. [])) ''solo'' \<and>
     refused_untouched sim_sys (run (dispatch_from dm (OpOpen sim_host_name ''1h'' (Some ''solo'')) 0 Mcp) sim_sys)"
proof -
  let ?dm = "the_daemon small_crates (\<lambda>_. []) (\<lambda>_. [])" and ?op = "OpOpen sim_host_name ''1h'' (Some ''solo'')"
  have n: "\<not> mcp_allowed (loaded_policy (\<lambda>_. [])) ''solo''" by (simp add: mcp_allowed_def loaded_policy_def)
  then show ?thesis
    using mcp_reaches_allowed_only [where opr = ?op and dm = ?dm and s = sim_sys and now = 0] by (simp add: sim_parts)
qed

text \<open>
  C7. A one-time code is accepted at most once.  Once the replay ledger has granted a counter to an
  authenticator, no later submission of any code of the same secret that lands on that counter is
  granted again, whatever calls the ledger served in between and whichever of its accesses failed: the
  ledger keeps an entry for ten minutes, a code's window closes within ninety seconds.
\<close>

theorem totp_code_single_use:
  assumes "totp_matches X secret code now 1 = Some c" "totp_consume i c now dk = (Ok True, dk')"
    and "\<forall>x\<in>set calls. snd (snd x) \<le> later"
    and "totp_matches X secret code' later 1 = Some c"
  shows "fst (totp_consume i c later (consume_all calls dk')) \<noteq> Ok True"
proof -
  have close: "epoch_secs later - epoch_secs now \<le> retain_secs"
    using matches_window(1) [OF assms(1)] matches_window(2) [OF assms(4)] by (simp add: retain_secs_def)
  have "epoch_secs (snd (snd x)) - epoch_secs now \<le> retain_secs" if "x \<in> set calls" for x
    using assms(3) that epoch_secs_mono [of "snd (snd x)" later] close by fastforce
  then show ?thesis
    using consume_refuses [OF consume_all_keeps [OF consume_remembers [OF assms(2)]] close] by blast
qed

theorem totp_code_single_use_witness:
  "let X = undefined\<lparr>hmac_sha1 := (\<lambda>_ _. replicate 20 0)\<rparr>; dk = \<lparr>dk_file = Absent, dk_faults = []\<rparr> in
   \<exists>dk'. totp_matches X (TotpSecret [1]) ''000000'' 210000000000 1 = Some 8 \<and>
     totp_consume ''a'' 8 210000000000 dk = (Ok True, dk') \<and>
     totp_matches X (TotpSecret [1]) ''000000'' 235000000000 1 = Some 8 \<and>
     fst (totp_consume ''a'' 8 235000000000 (consume_all [(''b'', 7, 220000000000)] dk')) \<noteq> Ok True"
proof -
  define X where "X = (undefined :: crates)\<lparr>hmac_sha1 := (\<lambda>_ _. replicate 20 0)\<rparr>"
  have t: "trim ''000000'' = ''000000''"
    by (simp add: is_ascii_digit_def)
  have c: "code_at X (TotpSecret [1]) n = ''000000''" for n
  proof -
    have "truncate_hs (replicate 20 0) = 0" by (simp add: truncate_hs_def)
    moreover have "show_nat 0 = ''0''" by code_simp
    moreover have "replicate 5 (CHR ''0'') = ''00000''" by (simp add: numeral_eq_Suc)
    ultimately show ?thesis by (simp add: X_def zero_pad_def totp_digits_def)
  qed
  have w: "counter_at 210000000000 = 7" "counter_at 235000000000 = 7"
    by (simp_all add: counter_at_def time_defs step_secs_def)
  have m: "totp_matches X (TotpSecret [1]) ''000000'' now 1 = Some 8" if "counter_at now = 7" for now
    using that by (simp add: totp_matches_def t c Let_def u64_max_def totp_digits_def is_ascii_digit_def scan_last_hit
        del: code_at.simps upt_Suc)
  define dk' where "dk' = snd (totp_consume ''a'' 8 210000000000 \<lparr>dk_file = Absent, dk_faults = []\<rparr>)"
  have u: "totp_consume ''a'' 8 210000000000 \<lparr>dk_file = Absent, dk_faults = []\<rparr> = (Ok True, dk')"
    by (simp add: dk'_def totp_consume_def totp_read_def ledger_lock_def ledger_read_def ledger_write_def next_fault_def
        totp_doc_default_def Let_def)
  have "fst (totp_consume ''a'' 8 235000000000 (consume_all [(''b'', 7, 220000000000)] dk')) \<noteq> Ok True"
    by (rule totp_code_single_use [OF m [OF w(1)] u _ m [OF w(2)]]) simp
  then show ?thesis using m w u by (simp add: X_def Let_def del: code_at.simps)
qed

end
