(* ===== verification/Sim_Ops.thy ===== *)
theory Sim_Ops
  imports Sim_Runs
begin

text \<open>The operations of the harness's daemon, continued: approvals, renewals, closing, status and passes.\<close>

lemma dispatch_ops:
  "dispatch dm (OpOpen h t p) now = dm_open dm h t p now" "dispatch dm (OpApprove h tok) now = approve dm h tok now"
  "dispatch dm (OpRenew h t) now = dm_renew dm h t now" "dispatch dm (OpClose h) now = dm_close dm h now"
  "dispatch dm OpStatus now = and_then (dm_status dm now) (\<lambda>lines. Return (response_ok\<lparr>re_grants := Some lines\<rparr>))"
  by (simp_all add: dispatching)

section \<open>Approve\<close>

lemma run_approve_refused:
  assumes "hex_codec X" "loads g" "grant_pending_request sim_host_name (sim_time now) \<lparr>g_state = g\<rparr> = Err e"
  shows "\<exists>r. does X (dispatch (the_daemon X u key) (OpApprove sim_host_name token) (sim_time now))
      (g, n, w) (Return r) (g, n, w) \<and> re_result r = ResRefused"
proof -
  have "reg_pending sim_host_name (sim_time now) (lone sim_host_name g) = Err (GrantErr e)"
    using assms(3) by (simp add: reg_pending_def grant_ref_def lone_def ok_or_def)
  then show ?thesis
    by (auto simp: dispatching approve_def refuse_registry_def refuse_def response_refused_def
        intro!: exI goes_bind [OF goes_load [OF sim_lone [OF assms(1)] assms(2)]] goes_refl)
qed

lemma sim_verifies:
  assumes "signs X sign key"
  shows "verify_proof (the_daemon X u key) (loaded_policy key) request (sign a ch) now =
    Return (verify_ed25519 X (loaded_policy key) request (sign a ch))"
  using assms by (simp add: verify_proof_def Let_def sim_parts signs_def)

lemma run_approve_denied:
  assumes "hex_codec X" "signs X sign key" "now < req + approval_window_secs" "req < 2 ^ 61" "0 < ttl_secs"
    "ttl_secs \<le> 14400" "length nonce = 32"
    and bad: "a = Charlie \<or> ch \<noteq> challenge_string (b64url_encode X) (approval_request_new nonce sim_host_name ttl_secs (sim_time req))"
  shows "\<exists>r. does X (dispatch (the_daemon X u key) (OpApprove sim_host_name (sign a ch)) (sim_time now))
      (waiting p sat req nonce ttl_secs, n, w) (Return r) (waiting p sat req nonce ttl_secs, n, w) \<and> re_result r = ResRefused"
proof -
  have l: "loads (waiting p sat req nonce ttl_secs)" using loads_grants(2) assms(4-7) by simp
  have "reg_pending sim_host_name (sim_time now) (lone sim_host_name (waiting p sat req nonce ttl_secs)) =
      Ok (approval_request_new nonce sim_host_name ttl_secs (sim_time req))"
    by (simp add: reg_pending_def grant_ref_def lone_def ok_or_def waiting_ops(3) [OF assms(3,4,6)])
  moreover obtain e where "verify_ed25519 X (loaded_policy key)
      (approval_request_new nonce sim_host_name ttl_secs (sim_time req)) (sign a ch) = Err e"
    using bad by (cases "a = Charlie") (simp_all add: signature_verdict [OF assms(2)])
  ultimately show ?thesis
    by (auto simp: dispatching approve_def refuse_def response_refused_def sim_hosts expect_some_def sim_parts
        sim_verifies [OF assms(2)] Let_def
        intro!: exI goes_bind [OF goes_load [OF sim_lone [OF assms(1)] l]] goes_bind [OF goes_journal(1)] goes_refl)
qed

lemma run_weigh:
  assumes "hex_codec X" "now < req + approval_window_secs" "req \<le> now" "req < 2 ^ 61" "0 < ttl_secs"
    "ttl_secs \<le> 14400" "length nonce = 32" "switch w b"
  shows "\<exists>r w'. does X (weigh_proofs (the_daemon X u key) (loaded_policy key) sim_host_name sim_host (sim_time now))
      (waiting p sat req nonce ttl_secs, n, w) (Return r)
      (if met p sat (now - req) then opened now (now + ttl_secs) else waiting p sat req nonce ttl_secs, n, w') \<and>
    re_result r = ResOk \<and> switch w' (if met p sat (now - req) then True else b)"
proof -
  have l: "loads (waiting p sat req nonce ttl_secs)" using loads_grants(2) assms(4-7) by simp
  let ?view = "\<lparr>pv_profile = sim_profile_id p, pv_satisfied = actor_id |`| sat, pv_requested_at = sim_time req,
        pv_elapsed = from_secs (now - req)\<rparr>"
  have view: "reg_pending_view sim_host_name (sim_time now) (lone sim_host_name (waiting p sat req nonce ttl_secs)) = Ok ?view"
    using waiting_ops(4) [OF assms(2,4,6,3)] by (simp add: reg_pending_view_def grant_ref_def lone_def ok_or_def)
  have load: "does X (with_read_registry (the_daemon X u key) (reg_pending_view sim_host_name (sim_time now)))
      (waiting p sat req nonce ttl_secs, n, w) (Return (Ok ?view)) (waiting p sat req nonce ttl_secs, n, w)"
    unfolding with_read_registry_def
    by (rule goes_bind [OF goes_load [OF sim_lone [OF assms(1)] l]]) (simp add: view goes_refl)
  obtain out where out: "evaluate (loaded_policy key) (profile_authority p) (actor_id |`| sat) (from_secs (now - req)) = Some out"
    "o_met out \<longleftrightarrow> met p sat (now - req)"
    using policy_met by blast
  show ?thesis
  proof (cases "met p sat (now - req)")
    case True
    obtain r w' where r: "does X (open_pending_now (the_daemon X u key) sim_host_name sim_host (sim_time req) (sim_time now))
        (waiting p sat req nonce ttl_secs, n, w) (Return r) (opened now (now + ttl_secs), n, w')"
      "re_result r = ResOk" "switch w' True"
      using run_open_pending [OF assms(1,2,4-8)] by blast
    have "does X (weigh_proofs (the_daemon X u key) (loaded_policy key) sim_host_name sim_host (sim_time now))
      (waiting p sat req nonce ttl_secs, n, w) (Return r) (opened now (now + ttl_secs), n, w')"
      unfolding weigh_proofs_def
      by (rule goes_bind [OF load]) (use out True r(1) in \<open>simp add: sim_authority sim_parts expect_some_def\<close>)
    then show ?thesis using True r by auto
  next
    case False
    obtain x y z where prog: "progress (the_daemon X u key) (Some (profile_authority p)) (actor_id |`| sat) (from_secs (now - req)) = Some (x, y, z)"
      using sim_progress [of X u key p sat "now - req"] by auto
    have "\<exists>r. does X (weigh_proofs (the_daemon X u key) (loaded_policy key) sim_host_name sim_host (sim_time now))
      (waiting p sat req nonce ttl_secs, n, w) (Return r) (waiting p sat req nonce ttl_secs, n, w) \<and> re_result r = ResOk"
      unfolding weigh_proofs_def
      by (intro exI conjI, rule goes_bind [OF load])
        (use out False prog in \<open>auto simp: sim_authority sim_parts expect_some_def pending_response_def response_ok_def intro: goes_refl\<close>)
    then show ?thesis using False assms(8) by auto
  qed
qed

lemma run_approve:
  assumes "hex_codec X" "signs X sign key" "now < req + approval_window_secs" "req \<le> now" "req < 2 ^ 61"
    "0 < ttl_secs" "ttl_secs \<le> 14400" "length nonce = 32" "switch w b" "a \<noteq> Charlie"
    and ch: "ch = challenge_string (b64url_encode X) (approval_request_new nonce sim_host_name ttl_secs (sim_time req))"
  shows "\<exists>r w'. does X (dispatch (the_daemon X u key) (OpApprove sim_host_name (sign a ch)) (sim_time now))
      (waiting p sat req nonce ttl_secs, n, w) (Return r)
      (if met p (finsert a sat) (now - req) then opened now (now + ttl_secs)
       else waiting p (finsert a sat) req nonce ttl_secs, n, w') \<and>
    re_result r = ResOk \<and> switch w' (if met p (finsert a sat) (now - req) then True else b)"
proof -
  note lone = sim_lone [OF assms(1), of u "loaded_policy key"]
  have l: "loads (waiting p sat req nonce ttl_secs)" for sat using loads_grants(2) assms(5-8) by simp
  obtain r w' where r: "does X (weigh_proofs (the_daemon X u key) (loaded_policy key) sim_host_name sim_host (sim_time now))
      (waiting p (finsert a sat) req nonce ttl_secs, n, w) (Return r)
      (if met p (finsert a sat) (now - req) then opened now (now + ttl_secs)
       else waiting p (finsert a sat) req nonce ttl_secs, n, w')"
    "re_result r = ResOk" "switch w' (if met p (finsert a sat) (now - req) then True else b)"
    using run_weigh [OF assms(1,3-9)] by blast
  have pending: "reg_pending sim_host_name (sim_time now) (lone sim_host_name (waiting p sat req nonce ttl_secs)) =
      Ok (approval_request_new nonce sim_host_name ttl_secs (sim_time req))"
    by (simp add: reg_pending_def grant_ref_def lone_def ok_or_def waiting_ops(3) [OF assms(3,5,7)])
  have verdict: "verify_ed25519 X (loaded_policy key)
      (approval_request_new nonce sim_host_name ttl_secs (sim_time req)) (sign a ch) = Ok (actor_id a)"
    using assms(10) ch by (simp add: signature_verdict [OF assms(2)])
  have add: "does X (with_registry (the_daemon X u key) (reg_add_satisfied sim_host_name (sim_time now) (actor_id a)))
      (waiting p sat req nonce ttl_secs, n, w) (Return (Ok (a |\<notin>| sat))) (waiting p (finsert a sat) req nonce ttl_secs, n, w)"
    using l [of "finsert a sat"]
    by (intro goes_commit [OF lone l]) (simp_all add: reg_add_satisfied_def waiting_ops(2) [OF assms(3,5,7)] loads_def)
  have note_proof: "does X (if newly then journal_event t ev else Return ()) x (Return ()) x" for newly t ev x
    by (simp add: goes_journal goes_refl)
  have accepted: "does X (accept_proof (the_daemon X u key) (loaded_policy key) sim_host_name sim_host (actor_id a) (sim_time now))
      (waiting p sat req nonce ttl_secs, n, w) (Return r)
      (if met p (finsert a sat) (now - req) then opened now (now + ttl_secs)
       else waiting p (finsert a sat) req nonce ttl_secs, n, w')"
    unfolding accept_proof_def
    by (rule goes_bind [OF add], simp only: sum.case, rule goes_bind [OF note_proof], rule r(1))
  have "does X (dispatch (the_daemon X u key) (OpApprove sim_host_name (sign a ch)) (sim_time now))
      (waiting p sat req nonce ttl_secs, n, w) (Return r)
      (if met p (finsert a sat) (now - req) then opened now (now + ttl_secs)
       else waiting p (finsert a sat) req nonce ttl_secs, n, w')"
    unfolding dispatch_ops approve_def
    by (rule goes_bind [OF goes_load [OF lone l]])
      (simp only: pending verdict sim_hosts expect_some_def sim_parts sim_verifies [OF assms(2)] sum.case option.case
        and_then.simps accepted)
  then show ?thesis using r by blast
qed

section \<open>Renew\<close>

lemma run_renew_refused:
  assumes "hex_codec X" "ttl_at ix = Some t" "loads g"
    "fst (grant_renew (sim_time now) (Ttl (from_secs (snd t))) \<lparr>g_state = g\<rparr>) = Err e"
  shows "\<exists>r. does X (dispatch (the_daemon X u key) (OpRenew sim_host_name (fst t)) (sim_time now))
      (g, n, w) (Return r) (g, n, w) \<and> re_result r = ResRefused"
proof -
  have "fst (reg_renew sim_host_name (sim_time now) (Ttl (from_secs (snd t))) (lone sim_host_name g)) = Err (GrantErr e)"
    using assms(4) by (simp add: reg_renew_def)
  then show ?thesis
    by (auto simp: dispatching dm_renew_def sim_ttls(1) [OF assms(2)] refuse_registry_def refuse_def response_refused_def
        intro!: exI goes_bind [OF goes_load [OF sim_lone [OF assms(1)] assms(3)]] goes_refl)
qed

lemma run_renew:
  assumes "hex_codec X" "ttl_at ix = Some t" "loads (opened a e)" "now < e" "e - now \<le> sim_renewal_window_secs"
    "now < 2 ^ 61" "a < 2 ^ 61" "switch w b"
  shows "\<exists>r. does X (dispatch (the_daemon X u key) (OpRenew sim_host_name (fst t)) (sim_time now))
      (opened a e, n, w) (Return r) (opened a (now + snd t), n, w) \<and> re_result r = ResOk"
proof -
  note lone = sim_lone [OF assms(1), of u "loaded_policy key"]
  have b: "now + snd t < 2 ^ 63" using assms(6) sim_ttls(3) [OF assms(2)] by simp
  note ren = opened_renew(1) [OF assms(4,5) b, of a]
  have probe: "reg_renew sim_host_name (sim_time now) (Ttl (from_secs (snd t))) (lone sim_host_name (opened a e)) =
      (Ok (sim_time (now + snd t)), lone sim_host_name (opened a (now + snd t)))"
    by (simp add: reg_renew_def ren)
  have backstop: "does X (reschedule_deadman (the_daemon X u key) sim_host x) (g, n, w) (Return (Ok ())) (g, n, w)" for x g
    unfolding reschedule_deadman_def by (auto simp: sim_parts noop_deadman_def intro!: goes_world goes_refl)
  have chans: "open_channels_of sim_host_name (sim_time now) (lone sim_host_name (opened a e)) = [Ssh]"
  proof -
    have st: "grant_status \<lparr>g_state = opened a e\<rparr> (sim_time now) = StOpen (from_secs (e - now))"
      using assms(4) by (subst opened_status) simp
    have "grant_parts \<lparr>g_state = opened a e\<rparr> = Some (POpen (sim_time a) (sim_time e) [Ssh])"
      by (simp add: grant_parts_def opened_def)
    then show ?thesis by (simp add: open_channels_of_def open_channels_def lone_def List.map_filter_simps st)
  qed
  have told: "does X (with_world (renew_channels (fake_drivers [Ssh]) sim_host [Ssh] ctx)) (g, n, w) (Return (Ok ())) (g, n, w)" for g ctx
    by (rule goes_world) (rule switch_calls(3) [OF assms(8)])
  have announce: "does X (announce_renewal (the_daemon X u key) sim_host_name sim_host (Ttl (from_secs (snd t)))
      (sim_time (now + snd t)) (sim_time now)) (opened a e, n, w) (Return (Ok ())) (opened a e, n, w)"
    unfolding announce_renewal_def
    by (rule goes_bind [OF backstop], simp, rule goes_bind [OF goes_load [OF lone assms(3)]])
      (simp add: chans Let_def sim_parts, rule goes_bind [OF told], simp add: goes_refl)
  have commit: "does X (with_registry (the_daemon X u key) (reg_renew sim_host_name (sim_time now) (Ttl (from_secs (snd t)))))
      (opened a e, n, w) (Return (Ok (sim_time (now + snd t)))) (opened a (now + snd t), n, w)"
    using solid_grants(3) [of a "now + snd t"] assms(7) b by (intro goes_commit [OF lone assms(3)] probe) simp
  show ?thesis
    by (rule exI [of _ "response_ok\<lparr>re_expires_at := Some (now + snd t)\<rparr>"])
      (auto simp: dispatching dm_renew_def sim_ttls(1) [OF assms(2)] probe sim_hosts commit_renewal_def response_ok_def
        intro!: goes_bind [OF goes_load [OF lone assms(3)]] goes_bind [OF announce] goes_bind [OF commit]
          goes_bind [OF goes_journal(1)] goes_refl)
qed

section \<open>Close\<close>

lemma run_revert:
  assumes "hex_codec X" "now < 2 ^ 63" "switch w b"
  shows "\<exists>w'. does X (drive_one_revert (the_daemon X u key) sim_host_name [Ssh] t)
      (NeedsRevert [Ssh] (sim_time now), n, w) (Return RpClosed) (Closed, n, w') \<and> switch w' False"
proof -
  note lone = sim_lone [OF assms(1), of u "loaded_policy key"]
  obtain w' where w': "revert_channels (fake_drivers [Ssh]) sim_host [Ssh] w = (Reverted, w')" "switch w' False"
    using switch_calls(2) [OF assms(3)] by blast
  have revert: "does X (with_world (revert_channels (fake_drivers [Ssh]) sim_host [Ssh])) (g, n, w) (Return Reverted) (g, n, w')" for g
    by (rule goes_world) (rule w'(1))
  have backstop: "does X (remove_deadman (the_daemon X u key) sim_host) (g, n, w') (Return (Ok False)) (g, n, w')" for g
    unfolding remove_deadman_def by (auto simp: sim_parts noop_deadman_def intro!: goes_world goes_refl)
  have commit: "does X (with_registry (the_daemon X u key) (reg_finish_revert sim_host_name))
      (NeedsRevert [Ssh] (sim_time now), n, w') (Return (Ok ())) (Closed, n, w')"
    using solid_grants(1)
    by (intro goes_commit [OF lone loads_grants(5) [OF assms(2)]]) (simp_all add: reg_finish_revert_def grant_finish_revert_def)
  have "does X (drive_one_revert (the_daemon X u key) sim_host_name [Ssh] t)
      (NeedsRevert [Ssh] (sim_time now), n, w) (Return RpClosed) (Closed, n, w')"
    unfolding drive_one_revert_def finish_reverted_def
    by (auto simp: sim_hosts expect_some_def sim_parts
        intro!: goes_bind [OF revert] goes_bind [OF backstop] goes_bind [OF commit] goes_bind [OF goes_journal(1)] goes_refl)
  then show ?thesis using w'(2) by blast
qed

lemma run_close_idle:
  assumes "hex_codec X"
  shows "\<exists>r. does X (dispatch (the_daemon X u key) (OpClose sim_host_name) (sim_time now)) (Closed, n, w) (Return r) (Closed, n, w) \<and>
    re_result r = ResOk"
proof -
  note lone = sim_lone [OF assms(1), of u "loaded_policy key"]
  have refusal: "does X (with_registry (the_daemon X u key) (reg_begin_revert sim_host_name (sim_time now)))
      (Closed, n, w) (Return (Err (GrantErr NotOpen))) (Closed, n, w)"
    by (rule goes_refused [OF lone loads_grants(1)]) (simp add: reg_begin_revert_def grant_begin_revert_def)
  show ?thesis
    by (rule exI [of _ "response_ok\<lparr>re_outcome := Some ''already-closed''\<rparr>"])
      (auto simp: dispatch_ops dm_close_def grant_status_def revert_grant_def response_ok_def
        intro!: goes_bind [OF goes_load [OF lone loads_grants(1)]] goes_bind [OF refusal] goes_refl)
qed

lemma run_close_waiting:
  assumes "hex_codec X" "loads (waiting p sat req nonce ttl_secs)"
  shows "\<exists>r. does X (dispatch (the_daemon X u key) (OpClose sim_host_name) (sim_time now))
      (waiting p sat req nonce ttl_secs, n, w) (Return r) (Closed, n, w) \<and> re_result r = ResOk"
proof -
  note lone = sim_lone [OF assms(1), of u "loaded_policy key"]
  have commit: "does X (with_registry (the_daemon X u key) (reg_cancel_pending sim_host_name))
      (waiting p sat req nonce ttl_secs, n, w) (Return (Ok ())) (Closed, n, w)"
    using solid_grants(1)
    by (intro goes_commit [OF lone assms(2)]) (simp_all add: reg_cancel_pending_def grant_cancel_pending_def waiting_def)
  show ?thesis
    by (rule exI [of _ "response_ok\<lparr>re_outcome := Some ''cancelled''\<rparr>"])
      (auto simp: dispatch_ops dm_close_def waiting_status cancel_request_def expect_def response_ok_def
        intro!: goes_bind [OF goes_load [OF lone assms(2)]] goes_bind [OF commit] goes_bind [OF goes_journal(1)] goes_refl)
qed

lemma run_close_opened:
  assumes "hex_codec X" "loads (opened a e)" "now < 2 ^ 63" "switch w b"
  shows "\<exists>r w'. does X (dispatch (the_daemon X u key) (OpClose sim_host_name) (sim_time now))
      (opened a e, n, w) (Return r) (Closed, n, w') \<and> re_result r = ResOk \<and> switch w' False"
proof -
  note lone = sim_lone [OF assms(1), of u "loaded_policy key"]
  have commit: "does X (with_registry (the_daemon X u key) (reg_begin_revert sim_host_name (sim_time now)))
      (opened a e, n, w) (Return (Ok [Ssh])) (NeedsRevert [Ssh] (sim_time now), n, w)"
    using solid_grants(5) [OF assms(3)]
    by (intro goes_commit [OF lone assms(2)]) (simp_all add: reg_begin_revert_def grant_begin_revert_def opened_def)
  obtain w' where w': "does X (drive_one_revert (the_daemon X u key) sim_host_name [Ssh] (sim_time now))
      (NeedsRevert [Ssh] (sim_time now), n, w) (Return RpClosed) (Closed, n, w')" "switch w' False"
    using run_revert [OF assms(1,3,4)] by blast
  have "does X (revert_grant (the_daemon X u key) sim_host_name (sim_time now)) (opened a e, n, w)
      (Return (response_ok\<lparr>re_outcome := Some ''closed''\<rparr>)) (Closed, n, w')"
    unfolding revert_grant_def
    by (rule goes_bind [OF commit], simp, rule goes_bind [OF w'(1)], simp add: goes_refl)
  then have "does X (dispatch (the_daemon X u key) (OpClose sim_host_name) (sim_time now)) (opened a e, n, w)
      (Return (response_ok\<lparr>re_outcome := Some ''closed''\<rparr>)) (Closed, n, w')"
    unfolding dispatch_ops dm_close_def
    by (intro goes_bind [OF goes_load [OF lone assms(2)]]) (simp add: opened_status)
  then show ?thesis using w'(2) by (fastforce simp: response_ok_def)
qed

section \<open>Status\<close>

lemma run_status:
  assumes "hex_codec X" "loads g"
  shows "does X (dispatch (the_daemon X u key) OpStatus (sim_time now)) (g, n, w)
    (Return (response_ok\<lparr>re_grants := Some [status_line (sim_host_name, grant_status \<lparr>g_state = g\<rparr> (sim_time now))]\<rparr>)) (g, n, w)"
  unfolding dispatch_ops dm_status_def
  by (rule goes_bind, rule goes_bind [OF goes_load [OF sim_lone [OF assms(1)] assms(2)]], rule goes_refl)
    (simp add: status_lines_def reg_statuses_def lone_def goes_refl)

section \<open>Passes\<close>

lemma goes_for_each:
  assumes "\<And>a. goes X nm (f a) x (Return ()) x"
  shows "goes X nm (for_each f as) x (Return ()) x"
  by (induction as) (auto intro: goes_refl goes_bind [OF assms])

lemma run_report:
  assumes "hex_codec X" "loads g"
  shows "does X (report (the_daemon X u key) now) (g, n, w) (Return ()) (g, n, w)"
  unfolding report_def dm_status_def
  by (rule goes_bind, rule goes_bind [OF goes_load [OF sim_lone [OF assms(1)] assms(2)]], rule goes_refl)
    (rule goes_for_each, rule goes_journal(2))

lemma run_pass_parts:
  assumes "hex_codec X"
    and reap: "reap_doc (the_daemon X u key) now (snapshot X (lone sim_host_name g)) =
      Some (Ok (found, snapshot X (lone sim_host_name g1)))"
    and loads: "loads g1" "loads g2" "loads g3"
    and revert: "does X (for_each (\<lambda>hc. and_then (drive_one_revert (the_daemon X u key) (fst hc) (snd hc) now) (\<lambda>_. Return ()))
      (needing_revert now (lone sim_host_name g1))) (g1, n, w) (Return ()) (g2, n, v)"
    and mature: "does X (for_each (open_matured (the_daemon X u key) (loaded_policy key) now)
      (reg_awaiting_approval now (lone sim_host_name g2))) (g2, n, v) (Return ()) (g3, n, v')"
  shows "does X (dm_pass (the_daemon X u key) now) (g, n, w) (Return ()) (g3, n, v')"
proof -
  note lone = sim_lone [OF assms(1), of u "loaded_policy key"]
  have journalled: "does X (for_each (\<lambda>e. journal_event now (f e)) es) x (Return ()) x" for f es x
    by (rule goes_for_each) (rule goes_journal(1))
  obtain es ls where found: "found = (es, ls)" by (cases found)
  have "does X (lift_store (store_mutate (reap_doc (the_daemon X u key) now))) (g, n, w) (Return (es, ls)) (g1, n, w)"
    using reap loads(1) found by (intro goes_mutate) (simp_all add: loads_def)
  note reaped = this
  have matured: "does X (case dm_approval (the_daemon X u key) of None \<Rightarrow> Return ()
       | Some m \<Rightarrow> and_then (load_registry (the_daemon X u key)) (\<lambda>registry.
           for_each (open_matured (the_daemon X u key) m now) (reg_awaiting_approval now registry)))
      (g2, n, v) (Return ()) (g3, n, v')"
    unfolding sim_parts option.case by (rule goes_bind [OF goes_load [OF lone loads(2)]]) (rule mature)
  show ?thesis
    unfolding dm_pass_def
    by (rule goes_bind [OF reaped], unfold prod.case, rule goes_bind [OF journalled], rule goes_bind [OF journalled],
        rule goes_bind [OF goes_load [OF lone loads(1)]], rule goes_bind [OF revert], rule goes_bind [OF matured],
        rule run_report [OF assms(1) loads(3)])
qed

lemma grant_eta: "\<lparr>g_state = g_state g\<rparr> = (g :: grant)"
  by (cases g) simp

lemma reap_parts:
  assumes "hex_codec X" "loads g"
  shows "reap_doc (sim_daemon X u m) now (snapshot X (lone sim_host_name g)) =
    Option.bind (reap_one now sim_host_name \<lparr>g_state = g\<rparr>) (\<lambda>(e, g1).
    Option.bind (reap_pending_one now sim_host_name g1) (\<lambda>(l, g2).
    Some (Ok ((case e of Some a \<Rightarrow> [a] | None \<Rightarrow> [], case l of Some a \<Rightarrow> [a] | None \<Rightarrow> []),
      snapshot X (lone sim_host_name (g_state g2))))))"
  using lone_loads [OF sim_lone [OF assms(1)] assms(2)]
  by (simp add: reap_doc_def sim_parts reap_to_revert_def reap_expired_pending_def sweep_registry_def)
    (auto simp: lone_def grant_eta split: option.splits Option.bind_splits)

lemma reap_still:
  assumes "hex_codec X" "loads g" "grant_status \<lparr>g_state = g\<rparr> now \<notin> {StExpired, StApprovalExpired}"
  shows "reap_doc (sim_daemon X u m) now (snapshot X (lone sim_host_name g)) =
    Some (Ok (([], []), snapshot X (lone sim_host_name g)))"
  using assms(3) by (simp add: reap_parts [OF assms(1,2)] reap_one_def reap_pending_one_def)

lemma lone_sweeps:
  "needing_revert now (lone nm g) = (case grant_status \<lparr>g_state = g\<rparr> now of StNeedsRevert cs \<Rightarrow> [(nm, cs)] | _ \<Rightarrow> [])"
  "reg_awaiting_approval now (lone nm g) = (case grant_status \<lparr>g_state = g\<rparr> now of StAwaitingApproval _ \<Rightarrow> [nm] | _ \<Rightarrow> [])"
  by (auto simp: needing_revert_def reg_awaiting_approval_def lone_def List.map_filter_simps split: grant_status_view.splits)

lemma run_pass_quiet:
  assumes "hex_codec X" "loads g" "grant_status \<lparr>g_state = g\<rparr> now = st" "st = StClosed \<or> (\<exists>r. st = StOpen r)"
  shows "does X (dm_pass (the_daemon X u key) now) (g, n, w) (Return ()) (g, n, w)"
proof (rule run_pass_parts [OF assms(1) reap_still [OF assms(1,2)] assms(2) assms(2) assms(2), where v = w])
  have "needing_revert now (lone sim_host_name g) = []" "reg_awaiting_approval now (lone sim_host_name g) = []"
    unfolding lone_sweeps assms(3) using assms(4) by auto
  then show "does X (for_each (\<lambda>hc. and_then (drive_one_revert (the_daemon X u key) (fst hc) (snd hc) now) (\<lambda>_. Return ()))
      (needing_revert now (lone sim_host_name g))) (g, n, w) (Return ()) (g, n, w)"
    "does X (for_each (open_matured (the_daemon X u key) (loaded_policy key) now)
      (reg_awaiting_approval now (lone sim_host_name g))) (g, n, w) (Return ()) (g, n, w)"
    by (simp_all add: goes_refl)
qed (unfold assms(3), use assms(4) in auto)

lemma run_pass_lapsed:
  assumes "hex_codec X" "loads (waiting p sat req nonce ttl_secs)" "req + approval_window_secs \<le> now"
  shows "does X (dm_pass (the_daemon X u key) (sim_time now)) (waiting p sat req nonce ttl_secs, n, w) (Return ()) (Closed, n, w)"
proof -
  have st: "grant_status \<lparr>g_state = waiting p sat req nonce ttl_secs\<rparr> (sim_time now) = StApprovalExpired"
    "grant_status \<lparr>g_state = Closed\<rparr> (sim_time now) = StClosed"
    using assms(3) waiting_status by (simp_all add: grant_status_def)
  have "\<exists>l. reap_pending_one (sim_time now) sim_host_name \<lparr>g_state = waiting p sat req nonce ttl_secs\<rparr> =
      Some (Some l, \<lparr>g_state = Closed\<rparr>)"
    unfolding reap_pending_one_def st by (simp add: waiting_def grant_parts_def grant_cancel_pending_def)
  then obtain l where l: "reap_pending_one (sim_time now) sim_host_name \<lparr>g_state = waiting p sat req nonce ttl_secs\<rparr> =
      Some (Some l, \<lparr>g_state = Closed\<rparr>)" by blast
  show ?thesis
    by (rule run_pass_parts [OF assms(1) _ loads_grants(1) loads_grants(1) loads_grants(1), where found = "([], [l])" and v = w])
      (simp_all add: reap_parts [OF assms(1,2)] reap_one_def st l lone_sweeps goes_refl)
qed

lemma run_pass_expired:
  assumes "hex_codec X" "loads (opened a e)" "e \<le> now" "now < 2 ^ 63" "switch w b"
  shows "\<exists>w'. does X (dm_pass (the_daemon X u key) (sim_time now)) (opened a e, n, w) (Return ()) (Closed, n, w') \<and> switch w' False"
proof -
  have st: "grant_status \<lparr>g_state = opened a e\<rparr> (sim_time now) = StExpired"
    "grant_status \<lparr>g_state = NeedsRevert [Ssh] (sim_time now)\<rparr> (sim_time now) = StNeedsRevert [Ssh]"
    "grant_status \<lparr>g_state = Closed\<rparr> (sim_time now) = StClosed"
    using assms(3) opened_status by (simp_all add: grant_status_def)
  have "\<exists>x. reap_one (sim_time now) sim_host_name \<lparr>g_state = opened a e\<rparr> = Some (Some x, \<lparr>g_state = NeedsRevert [Ssh] (sim_time now)\<rparr>)"
    unfolding reap_one_def st by (simp add: opened_def grant_parts_def grant_begin_revert_def)
  then obtain x where x: "reap_one (sim_time now) sim_host_name \<lparr>g_state = opened a e\<rparr> =
      Some (Some x, \<lparr>g_state = NeedsRevert [Ssh] (sim_time now)\<rparr>)" by blast
  obtain w' where w': "does X (drive_one_revert (the_daemon X u key) sim_host_name [Ssh] (sim_time now))
      (NeedsRevert [Ssh] (sim_time now), n, w) (Return RpClosed) (Closed, n, w')" "switch w' False"
    using run_revert [OF assms(1,4,5)] by blast
  have "does X (dm_pass (the_daemon X u key) (sim_time now)) (opened a e, n, w) (Return ()) (Closed, n, w')"
  proof (rule run_pass_parts [OF assms(1) _ loads_grants(5) [OF assms(4)] loads_grants(1) loads_grants(1), where found = "([x], [])" and v = w'])
    show "does X (for_each (\<lambda>hc. and_then (drive_one_revert (the_daemon X u key) (fst hc) (snd hc) (sim_time now)) (\<lambda>_. Return ()))
        (needing_revert (sim_time now) (lone sim_host_name (NeedsRevert [Ssh] (sim_time now))))) (NeedsRevert [Ssh] (sim_time now), n, w) (Return ()) (Closed, n, w')"
      by (simp add: lone_sweeps st, rule goes_bind, rule goes_bind [OF w'(1)], rule goes_refl, rule goes_refl)
  qed (simp_all add: reap_parts [OF assms(1,2)] reap_pending_one_def st x lone_sweeps goes_refl)
  then show ?thesis using w'(2) by blast
qed

lemma run_matured:
  assumes "hex_codec X" "now < req + approval_window_secs" "req \<le> now" "req < 2 ^ 61" "0 < ttl_secs"
    "ttl_secs \<le> 14400" "length nonce = 32" "switch w b"
  shows "\<exists>w'. does X (open_matured (the_daemon X u key) (loaded_policy key) (sim_time now) sim_host_name)
      (waiting p sat req nonce ttl_secs, n, w) (Return ())
      (if met p sat (now - req) \<and> \<not> met p sat 0 then opened now (now + ttl_secs) else waiting p sat req nonce ttl_secs, n, w') \<and>
    switch w' (if met p sat (now - req) \<and> \<not> met p sat 0 then True else b)"
proof -
  have l: "loads (waiting p sat req nonce ttl_secs)" using loads_grants(2) assms(4-7) by simp
  let ?view = "\<lparr>pv_profile = sim_profile_id p, pv_satisfied = actor_id |`| sat, pv_requested_at = sim_time req,
        pv_elapsed = from_secs (now - req)\<rparr>"
  have view: "reg_pending_view sim_host_name (sim_time now) (lone sim_host_name (waiting p sat req nonce ttl_secs)) = Ok ?view"
    using waiting_ops(4) [OF assms(2,4,6,3)] by (simp add: reg_pending_view_def grant_ref_def lone_def ok_or_def)
  have load: "does X (with_read_registry (the_daemon X u key) (reg_pending_view sim_host_name (sim_time now)))
      (waiting p sat req nonce ttl_secs, n, w) (Return (Ok ?view)) (waiting p sat req nonce ttl_secs, n, w)"
    unfolding with_read_registry_def
    by (rule goes_bind [OF goes_load [OF sim_lone [OF assms(1)] l]]) (simp add: view goes_refl)
  obtain out where out: "evaluate (loaded_policy key) (profile_authority p) (actor_id |`| sat) (from_secs (now - req)) = Some out"
    "o_met out \<longleftrightarrow> met p sat (now - req)"
    using policy_met by blast
  obtain out0 where out0: "evaluate (loaded_policy key) (profile_authority p) (actor_id |`| sat) 0 = Some out0"
    "o_met out0 \<longleftrightarrow> met p sat 0"
    using policy_met [of key p sat 0] by (auto simp: from_secs_def)
  obtain r w' where r: "does X (open_pending_now (the_daemon X u key) sim_host_name sim_host (sim_time req) (sim_time now))
      (waiting p sat req nonce ttl_secs, n, w) (Return r) (opened now (now + ttl_secs), n, w')" "switch w' True"
    using run_open_pending [OF assms(1,2,4-8)] by blast
  show ?thesis
  proof (cases "met p sat (now - req) \<and> \<not> met p sat 0")
    case True
    then have yes: "o_met out" "\<not> o_met out0" using out out0 by simp_all
    have "does X (open_matured (the_daemon X u key) (loaded_policy key) (sim_time now) sim_host_name)
      (waiting p sat req nonce ttl_secs, n, w) (Return ()) (opened now (now + ttl_secs), n, w')"
      unfolding open_matured_def
      by (simp add: sim_hosts expect_some_def, rule goes_bind [OF load])
        (simp add: yes out(1) out0(1) sim_authority sim_parts expect_some_def, rule goes_bind [OF r(1)], rule goes_refl)
    then show ?thesis using True r(2) by auto
  next
    case False
    then have no: "\<not> (o_met out \<and> \<not> o_met out0)" using out out0 by simp
    have "does X (open_matured (the_daemon X u key) (loaded_policy key) (sim_time now) sim_host_name)
      (waiting p sat req nonce ttl_secs, n, w) (Return ()) (waiting p sat req nonce ttl_secs, n, w)"
      unfolding open_matured_def
      by (simp add: sim_hosts expect_some_def, rule goes_bind [OF load])
        (use no out(1) out0(1) in \<open>auto simp: sim_authority sim_parts expect_some_def intro: goes_refl\<close>)
    then show ?thesis using False assms(8) by auto
  qed
qed

lemma run_pass_waiting:
  assumes "hex_codec X" "now < req + approval_window_secs" "req \<le> now" "req < 2 ^ 61" "0 < ttl_secs"
    "ttl_secs \<le> 14400" "length nonce = 32" "switch w b"
  shows "\<exists>w'. does X (dm_pass (the_daemon X u key) (sim_time now)) (waiting p sat req nonce ttl_secs, n, w) (Return ())
      (if met p sat (now - req) \<and> \<not> met p sat 0 then opened now (now + ttl_secs) else waiting p sat req nonce ttl_secs, n, w') \<and>
    switch w' (if met p sat (now - req) \<and> \<not> met p sat 0 then True else b)"
proof -
  let ?g = "waiting p sat req nonce ttl_secs"
  let ?g' = "if met p sat (now - req) \<and> \<not> met p sat 0 then opened now (now + ttl_secs) else ?g"
  have l: "loads ?g" using loads_grants(2) assms(4-7) by simp
  moreover have "loads (opened now (now + ttl_secs))"
    using loads_grants(3) [of now "now + ttl_secs"] assms(2,4,5,6) by (simp add: approval_window_secs_def)
  ultimately have l': "loads ?g'" by simp
  have st: "grant_status \<lparr>g_state = ?g\<rparr> (sim_time now) = StAwaitingApproval (from_secs (req + approval_window_secs - now))"
    using assms(2) by (subst waiting_status) simp
  obtain w' where w': "does X (open_matured (the_daemon X u key) (loaded_policy key) (sim_time now) sim_host_name)
      (?g, n, w) (Return ()) (?g', n, w')" "switch w' (if met p sat (now - req) \<and> \<not> met p sat 0 then True else b)"
    using run_matured [OF assms] by blast
  have "does X (dm_pass (the_daemon X u key) (sim_time now)) (?g, n, w) (Return ()) (?g', n, w')"
  proof (rule run_pass_parts [OF assms(1) reap_still [OF assms(1) l] l l l', where v = w])
    show "does X (for_each (open_matured (the_daemon X u key) (loaded_policy key) (sim_time now))
        (reg_awaiting_approval (sim_time now) (lone sim_host_name ?g))) (?g, n, w) (Return ()) (?g', n, w')"
      unfolding lone_sweeps st grant_status_view.case for_each.simps by (rule goes_bind [OF w'(1)], rule goes_refl)
  qed (simp_all add: lone_sweeps st goes_refl)
  then show ?thesis using w'(2) by blast
qed

end
