(* ===== verification/Sim_Props.thy ===== *)
theory Sim_Props
  imports Sim_Ops
begin

text \<open>
  The shadow of \<open>sim.rs\<close> is an abstract specification of the daemon for one host; the relation below ties
  it to what the daemon has stored, and every action keeps it.
\<close>

section \<open>The simulation relation\<close>

definition sim_start :: nat where
  "sim_start = 1000000"

definition request_challenge :: "crates \<Rightarrow> nonce \<Rightarrow> nat \<Rightarrow> nat \<Rightarrow> string" where
  "request_challenge X nonce ttl_secs req =
     challenge_string (b64url_encode X) (approval_request_new nonce sim_host_name ttl_secs (sim_time req))"

text \<open>A challenge of the \<open>i\<close>-th nonce drawn.\<close>

definition issued :: "crates \<Rightarrow> (nat \<Rightarrow> nonce) \<Rightarrow> nat \<Rightarrow> string \<Rightarrow> bool" where
  "issued X u i c \<longleftrightarrow> (\<exists>t q. c = request_challenge X (u i) t q)"

definition stores :: "crates \<Rightarrow> (nat \<Rightarrow> nonce) \<Rightarrow> nat \<Rightarrow> sim \<Rightarrow> grant_state \<Rightarrow> bool" where
  "stores X u n sm g =
     (case sm_shadow sm of
        ShadowClosed \<Rightarrow> g = Closed
      | ShadowPending p sat req deadline ttl_secs \<Rightarrow>
          (\<exists>m<n. g = waiting p sat req (u m) ttl_secs \<and> deadline = req + approval_window_secs \<and>
             req \<le> sm_now sm \<and> 0 < ttl_secs \<and> ttl_secs \<le> 14400 \<and>
             sm_challenge sm = Some (request_challenge X (u m) ttl_secs req) \<and>
             (\<forall>c\<in>set (sm_stale sm). \<exists>i<n. i \<noteq> m \<and> issued X u i c))
      | ShadowOpen e \<Rightarrow>
          (\<exists>a. g = opened a e \<and> sim_start \<le> a \<and> a \<le> sm_now sm \<and> a < e \<and> e \<le> sm_now sm + 14400))"

definition tracks :: "crates \<Rightarrow> (nat \<Rightarrow> nonce) \<Rightarrow> (actor \<Rightarrow> byte list) \<Rightarrow> nat \<Rightarrow> sim \<Rightarrow> bool" where
  "tracks X u key n sm \<longleftrightarrow>
     sm_daemon sm = the_daemon X u key \<and> sim_start \<le> sm_now sm \<and>
     (\<forall>c\<in>set (sm_stale sm) \<union> set_option (sm_challenge sm). \<exists>i<n. issued X u i c) \<and>
     (\<exists>g w b. stands X sim_host_name (g, n, w) (sm_sys sm) \<and> switch w b \<and> stores X u n sm g)"

text \<open>The time the grants may stay open before the loader's cap on them is in reach.\<close>

definition horizon :: nat where
  "horizon = 72000"

primrec action_ok :: "action \<Rightarrow> bool" where
  "action_ok (ActOpen p ix) = (ix < length ttls)"
| "action_ok (ActApprove a k) = True"
| "action_ok (ActRenew ix) = (ix < length ttls)"
| "action_ok ActClose = True"
| "action_ok (ActAdvance s) = True"
| "action_ok ActPass = True"

primrec action_secs :: "action \<Rightarrow> nat" where
  "action_secs (ActOpen p ix) = 0"
| "action_secs (ActApprove a k) = 0"
| "action_secs (ActRenew ix) = 0"
| "action_secs ActClose = 0"
| "action_secs (ActAdvance s) = s"
| "action_secs ActPass = 0"

section \<open>Challenges\<close>

lemma challenge_nonce:
  assumes "inj (b64url_encode X)" "length n1 = 32" "length n2 = 32" "request_challenge X n1 t1 q1 = request_challenge X n2 t2 q2"
  shows "n1 = n2"
proof -
  have "canonical_bytes (approval_request_new n1 sim_host_name t1 (sim_time q1)) =
      canonical_bytes (approval_request_new n2 sim_host_name t2 (sim_time q2))"
    using assms(1,4) by (simp add: request_challenge_def challenge_string_def inj_eq)
  then have "drop (length (canonical_bytes (approval_request_new n1 sim_host_name t1 (sim_time q1))) - 32)
      (canonical_bytes (approval_request_new n1 sim_host_name t1 (sim_time q1))) =
    drop (length (canonical_bytes (approval_request_new n2 sim_host_name t2 (sim_time q2))) - 32)
      (canonical_bytes (approval_request_new n2 sim_host_name t2 (sim_time q2)))"
    by simp
  then show ?thesis using assms(2,3) by (simp add: canonical_bytes_def approval_request_new_def)
qed

lemma challenge_issued:
  assumes "\<forall>bs. length bs \<le> length (b64url_encode X bs)" "length n = 32"
  shows "request_challenge X n t q \<noteq> never_issued"
proof
  assume "request_challenge X n t q = never_issued"
  then have "b64url_encode X (canonical_bytes (approval_request_new n sim_host_name t (sim_time q))) = ''NEVER-ISSUED''"
    by (simp add: request_challenge_def challenge_string_def never_issued_def)
  then have "length (canonical_bytes (approval_request_new n sim_host_name t (sim_time q))) \<le> 12"
    using assms(1) [rule_format, of "canonical_bytes (approval_request_new n sim_host_name t (sim_time q))"] by simp
  then show False using assms(2) by (simp add: canonical_bytes_def approval_request_new_def)
qed

lemma issued_distinct:
  assumes "sim_crypto X u sign key N" "n \<le> N" "i < n" "m < n" "i \<noteq> m" "issued X u i c"
  shows "c \<noteq> request_challenge X (u m) t q"
proof
  assume "c = request_challenge X (u m) t q"
  then have "u i = u m"
    using assms(1,6) challenge_nonce [of X "u i" "u m"] unfolding sim_crypto_def issued_def by metis
  moreover have "inj_on u {..<N}" using assms(1) by (simp add: sim_crypto_def)
  ultimately show False using assms(2-5) by (auto dest: inj_onD)
qed

section \<open>Runs of the harness\<close>

lemma sim_run_does:
  assumes "does X p (g, n, w) (Return r) (g', n', w')" "stands X sim_host_name (g, n, w) (sm_sys sm)"
  obtains s' where "sim_run p sm = Some (Ok (r, sm\<lparr>sm_sys := s'\<rparr>))" "stands X sim_host_name (g', n', w') s'"
  using goes_run [OF assms] by (metis (no_types, lifting) sim_run_def run.simps(1) case_prod_conv exit.simps(8))

lemma stores_loads:
  assumes "sim_crypto X u sign key N" "tracks X u key n sm" "stores X u n sm g" "sm_now sm \<le> sim_start + horizon"
  shows "loads g"
proof -
  have len: "length (u m) = 32" for m using assms(1) by (simp add: sim_crypto_def)
  show ?thesis
  proof (cases "sm_shadow sm")
    case ShadowClosed
    then show ?thesis using assms(3) by (simp add: stores_def loads_grants)
  next
    case (ShadowPending p sat req deadline ttl_secs)
    then show ?thesis using assms(3,4) len by (auto simp: stores_def sim_start_def horizon_def intro!: loads_grants(2))
  next
    case (ShadowOpen e)
    then show ?thesis using assms(3,4) by (auto simp: stores_def sim_start_def horizon_def intro!: loads_grants(3))
  qed
qed

section \<open>Actions\<close>

text \<open>The action runs, answers what the shadow expects, and leaves shadow and store related.\<close>

definition follows :: "(actor \<Rightarrow> string \<Rightarrow> string) \<Rightarrow> crates \<Rightarrow> (nat \<Rightarrow> nonce) \<Rightarrow> (actor \<Rightarrow> byte list) \<Rightarrow> nat \<Rightarrow> action \<Rightarrow> sim \<Rightarrow> bool" where
  "follows sign X u key n a sm \<longleftrightarrow>
     (\<exists>r sm' n' sh. sim_act sign a sm = Some (Ok (r, sm')) \<and> n' \<le> Suc n \<and>
        (\<forall>x. r = Some x \<longrightarrow> re_result x = expected_result a (sm_shadow sm) (sm_now sm')) \<and>
        sm_now sm' = sm_now sm + action_secs a \<and> sm_shadow sm' = sm_shadow sm \<and>
        advance_shadow a (sm_now sm') (sm_shadow sm) = Some sh \<and> tracks X u key n' (sm'\<lparr>sm_shadow := sh\<rparr>))"

lemma stores_sys [simp]: "stores X u n (sm\<lparr>sm_sys := s, sm_shadow := sh\<rparr>) g = stores X u n (sm\<lparr>sm_shadow := sh\<rparr>) g"
  by (cases sh) (simp_all add: stores_def)

lemma tracks_with:
  assumes "tracks X u key n sm" "stands X sim_host_name (g', n, w') s'" "switch w' b'" "stores X u n (sm\<lparr>sm_shadow := sh\<rparr>) g'"
  shows "tracks X u key n (sm\<lparr>sm_sys := s', sm_shadow := sh\<rparr>)"
  unfolding tracks_def
proof (intro conjI exI)
  show "stores X u n (sm\<lparr>sm_sys := s', sm_shadow := sh\<rparr>) g'" using assms(4) by simp
qed (use assms in \<open>simp_all add: tracks_def\<close>)

lemma stores_opened:
  assumes "tracks X u key n sm" "0 < t" "t \<le> 14400"
  shows "stores X u n (sm\<lparr>sm_shadow := ShadowOpen (sm_now sm + t)\<rparr>) (opened (sm_now sm) (sm_now sm + t))"
  using assms by (auto simp: stores_def tracks_def)

lemma follows_dispatch:
  assumes "tracks X u key n sm" "stands X sim_host_name (g, n, w) (sm_sys sm)"
    and act: "sim_act sign a sm = map_option (\<lambda>r. bind_ok r (\<lambda>(r, sm). Ok (Some r, sm)))
      (sim_run (dispatch (sm_daemon sm) opr (sim_time (sm_now sm))) sm)"
    and does: "does X (dispatch (the_daemon X u key) opr (sim_time (sm_now sm))) (g, n, w) (Return r) (g', n, w')"
    and "re_result r = expected_result a (sm_shadow sm) (sm_now sm)" "action_secs a = 0"
    "advance_shadow a (sm_now sm) (sm_shadow sm) = Some sh" "switch w' b'" "stores X u n (sm\<lparr>sm_shadow := sh\<rparr>) g'"
  shows "follows sign X u key n a sm"
proof -
  obtain s' where s': "sim_run (dispatch (the_daemon X u key) opr (sim_time (sm_now sm))) sm = Some (Ok (r, sm\<lparr>sm_sys := s'\<rparr>))"
    "stands X sim_host_name (g', n, w') s'"
    using sim_run_does [OF does assms(2)] by blast
  have "sm_daemon sm = the_daemon X u key" using assms(1) by (simp add: tracks_def)
  then have "sim_act sign a sm = Some (Ok (Some r, sm\<lparr>sm_sys := s'\<rparr>))" using act s'(1) by simp
  moreover have "tracks X u key n (sm\<lparr>sm_sys := s', sm_shadow := sh\<rparr>)"
    by (rule tracks_with [OF assms(1) s'(2) assms(8,9)])
  ultimately show ?thesis using assms(5-7) unfolding follows_def
    by (intro exI [of _ "Some r"] exI [of _ "sm\<lparr>sm_sys := s'\<rparr>"] exI [of _ n] exI [of _ sh]) simp
qed

lemma tracks_parts:
  assumes "sim_crypto X u sign key N" "tracks X u key n sm" "sm_now sm \<le> sim_start + horizon"
  obtains g w b where "stands X sim_host_name (g, n, w) (sm_sys sm)" "switch w b" "stores X u n sm g" "loads g"
    "hex_codec X" "signs X sign key" "sm_now sm < 2 ^ 60"
proof -
  obtain g w b where "stands X sim_host_name (g, n, w) (sm_sys sm)" "switch w b" "stores X u n sm g"
    using assms(2) by (auto simp: tracks_def)
  moreover have "sm_now sm < 2 ^ 60" using assms(3) by (simp add: sim_start_def horizon_def)
  ultimately show ?thesis
    using that stores_loads [OF assms(1,2) _ assms(3)] assms(1) by (simp add: sim_crypto_def)
qed

lemma close_follows:
  assumes "sim_crypto X u sign key N" "tracks X u key n sm" "sm_now sm \<le> sim_start + horizon"
  shows "follows sign X u key n ActClose sm"
proof (rule tracks_parts [OF assms])
  fix g w b
  assume s: "stands X sim_host_name (g, n, w) (sm_sys sm)" "switch w b" "stores X u n sm g" "loads g" "hex_codec X"
    "signs X sign key" "sm_now sm < 2 ^ 60"
  have "\<exists>r w' b'. does X (dispatch (the_daemon X u key) (OpClose sim_host_name) (sim_time (sm_now sm))) (g, n, w) (Return r) (Closed, n, w') \<and>
      re_result r = ResOk \<and> switch w' b'"
  proof (cases "sm_shadow sm")
    case ShadowClosed
    then have "g = Closed" using s(3) by (simp add: stores_def)
    then show ?thesis using run_close_idle [OF s(5)] s(2) by blast
  next
    case (ShadowPending p sat req d t)
    then obtain m where "g = waiting p sat req (u m) t" using s(3) by (auto simp: stores_def)
    then show ?thesis using run_close_waiting [OF s(5)] s(2,4) by blast
  next
    case (ShadowOpen e)
    then obtain a where "g = opened a e" using s(3) by (auto simp: stores_def)
    moreover have "sm_now sm < 2 ^ 63" using s(7) by simp
    ultimately show ?thesis using run_close_opened [OF s(5) _ _ s(2)] s(4) by blast
  qed
  then obtain r w' b' where "does X (dispatch (the_daemon X u key) (OpClose sim_host_name) (sim_time (sm_now sm))) (g, n, w) (Return r) (Closed, n, w')"
    "re_result r = ResOk" "switch w' b'" by blast
  then show ?thesis
    using follows_dispatch [OF assms(2) s(1), of sign ActClose]
    by (simp add: sim_act_def Let_def expected_result_def advance_shadow_def stores_def)
qed

lemma advance_follows:
  assumes "tracks X u key n sm"
  shows "follows sign X u key n (ActAdvance secs) sm"
proof -
  have "tracks X u key n (sm\<lparr>sm_now := sm_now sm + secs\<rparr>)"
  proof -
    have "stores X u n (sm\<lparr>sm_now := sm_now sm + secs\<rparr>) g" if "stores X u n sm g" for g
      using that by (cases "sm_shadow sm") (auto simp: stores_def)
    then show ?thesis using assms unfolding tracks_def by auto
  qed
  then show ?thesis
    unfolding follows_def
    by (intro exI [of _ None] exI [of _ "sm\<lparr>sm_now := sm_now sm + secs\<rparr>"] exI [of _ n] exI [of _ "sm_shadow sm"])
      (simp add: sim_act_def Let_def advance_shadow_def)
qed

lemma pass_follows:
  assumes "sim_crypto X u sign key N" "tracks X u key n sm" "sm_now sm \<le> sim_start + horizon"
  shows "follows sign X u key n ActPass sm"
proof (rule tracks_parts [OF assms])
  fix g w b
  assume s: "stands X sim_host_name (g, n, w) (sm_sys sm)" "switch w b" "stores X u n sm g" "loads g" "hex_codec X"
    "signs X sign key" "sm_now sm < 2 ^ 60"
  let ?pass = "dm_pass (the_daemon X u key) (sim_time (sm_now sm))"
  have len: "length (u m) = 32" for m using assms(1) by (simp add: sim_crypto_def)
  have now: "sm_now sm < 2 ^ 63" using s(7) by simp
  have "\<exists>sh g' w' b'. advance_shadow ActPass (sm_now sm) (sm_shadow sm) = Some sh \<and>
      does X ?pass (g, n, w) (Return ()) (g', n, w') \<and> switch w' b' \<and> stores X u n (sm\<lparr>sm_shadow := sh\<rparr>) g'"
  proof (cases "sm_shadow sm")
    case ShadowClosed
    then have "g = Closed" using s(3) by (simp add: stores_def)
    moreover have "grant_status \<lparr>g_state = Closed\<rparr> (sim_time (sm_now sm)) = StClosed" by (simp add: grant_status_def)
    ultimately have "does X ?pass (g, n, w) (Return ()) (Closed, n, w)"
      using run_pass_quiet [OF s(5) loads_grants(1)] by blast
    then show ?thesis using ShadowClosed s(2) by (auto simp: advance_shadow_def stores_def)
  next
    case (ShadowPending p sat req d t)
    then obtain m where m: "m < n" "g = waiting p sat req (u m) t" "d = req + approval_window_secs" "req \<le> sm_now sm" "0 < t"
      "t \<le> 14400" "sm_challenge sm = Some (request_challenge X (u m) t req)" "\<forall>c\<in>set (sm_stale sm). \<exists>i<n. i \<noteq> m \<and> issued X u i c"
      using s(3) by (auto simp: stores_def)
    show ?thesis
    proof (cases "sm_now sm < req + approval_window_secs")
      case True
      have "req < 2 ^ 61" using m(4) s(7) by simp
      then obtain w' where w': "does X ?pass (g, n, w) (Return ())
          (if met p sat (sm_now sm - req) \<and> \<not> met p sat 0 then opened (sm_now sm) (sm_now sm + t) else g, n, w')"
        "switch w' (if met p sat (sm_now sm - req) \<and> \<not> met p sat 0 then True else b)"
        using run_pass_waiting [OF s(5) True m(4) _ m(5,6) len s(2)] m(2) by blast
      show ?thesis
      proof (cases "met p sat (sm_now sm - req) \<and> \<not> met p sat 0")
        case yes: True
        then have "advance_shadow ActPass (sm_now sm) (sm_shadow sm) = Some (ShadowOpen (sm_now sm + t))"
          using ShadowPending m(3) True by (simp add: advance_shadow_def)
        then show ?thesis using w' yes stores_opened [OF assms(2) m(5,6)] by auto
      next
        case no: False
        then have "advance_shadow ActPass (sm_now sm) (sm_shadow sm) = Some (sm_shadow sm)"
          using ShadowPending m(3) True by (auto simp: advance_shadow_def)
        then show ?thesis using w' no s(3) by auto
      qed
    next
      case False
      then have "does X ?pass (g, n, w) (Return ()) (Closed, n, w)"
        using run_pass_lapsed [OF s(5)] s(4) m(2) by simp
      then show ?thesis using ShadowPending m(3) False s(2) by (auto simp: advance_shadow_def stores_def)
    qed
  next
    case (ShadowOpen e)
    then obtain a where a: "g = opened a e" "sim_start \<le> a" "a \<le> sm_now sm" "a < e" "e \<le> sm_now sm + 14400"
      using s(3) by (auto simp: stores_def)
    show ?thesis
    proof (cases "sm_now sm < e")
      case True
      then have "grant_status \<lparr>g_state = opened a e\<rparr> (sim_time (sm_now sm)) = StOpen (from_secs (e - sm_now sm))"
        by (subst opened_status) simp
      then have "does X ?pass (g, n, w) (Return ()) (g, n, w)"
        using run_pass_quiet [OF s(5)] s(4) a(1) by blast
      moreover have "advance_shadow ActPass (sm_now sm) (sm_shadow sm) = Some (sm_shadow sm)"
        using ShadowOpen True by (simp add: advance_shadow_def)
      ultimately show ?thesis using s(2,3) by auto
    next
      case False
      then obtain w' where "does X ?pass (g, n, w) (Return ()) (Closed, n, w')" "switch w' False"
        using run_pass_expired [OF s(5) _ _ now s(2), of a e] s(4) a(1) by fastforce
      then show ?thesis using ShadowOpen False by (auto simp: advance_shadow_def stores_def)
    qed
  qed
  then obtain sh g' w' b' where sh: "advance_shadow ActPass (sm_now sm) (sm_shadow sm) = Some sh"
    and run: "does X ?pass (g, n, w) (Return ()) (g', n, w')" and w': "switch w' b'" "stores X u n (sm\<lparr>sm_shadow := sh\<rparr>) g'"
    by blast
  obtain s' where s': "sim_run ?pass sm = Some (Ok ((), sm\<lparr>sm_sys := s'\<rparr>))" "stands X sim_host_name (g', n, w') s'"
    using sim_run_does [OF run s(1)] by blast
  have "sm_daemon sm = the_daemon X u key" using assms(2) by (simp add: tracks_def)
  then have "sim_act sign ActPass sm = Some (Ok (None, sm\<lparr>sm_sys := s'\<rparr>))" using s'(1) by (simp add: sim_act_def Let_def)
  then show ?thesis
    unfolding follows_def
    by (intro exI [of _ None] exI [of _ "sm\<lparr>sm_sys := s'\<rparr>"] exI [of _ n] exI [of _ sh])
      (use sh assms(2) s'(2) w' in \<open>simp add: tracks_with\<close>)
qed

lemma renew_follows:
  assumes "sim_crypto X u sign key N" "tracks X u key n sm" "sm_now sm \<le> sim_start + horizon" "ttl_at ix = Some t"
  shows "follows sign X u key n (ActRenew ix) sm"
proof (rule tracks_parts [OF assms(1-3)])
  fix g w b
  assume s: "stands X sim_host_name (g, n, w) (sm_sys sm)" "switch w b" "stores X u n sm g" "loads g" "hex_codec X"
    "signs X sign key" "sm_now sm < 2 ^ 60"
  have "\<exists>sh r g'. advance_shadow (ActRenew ix) (sm_now sm) (sm_shadow sm) = Some sh \<and>
      does X (dispatch (the_daemon X u key) (OpRenew sim_host_name (fst t)) (sim_time (sm_now sm))) (g, n, w) (Return r) (g', n, w) \<and>
      re_result r = expected_result (ActRenew ix) (sm_shadow sm) (sm_now sm) \<and> stores X u n (sm\<lparr>sm_shadow := sh\<rparr>) g'"
  proof (cases "\<exists>e. sm_shadow sm = ShadowOpen e \<and> sm_now sm < e \<and> e - sm_now sm \<le> sim_renewal_window_secs")
    case True
    then obtain e where e: "sm_shadow sm = ShadowOpen e" "sm_now sm < e" "e - sm_now sm \<le> sim_renewal_window_secs" by blast
    then obtain a where a: "g = opened a e" "sim_start \<le> a" "a \<le> sm_now sm" using s(3) by (auto simp: stores_def)
    have "sm_now sm < 2 ^ 61" "a < 2 ^ 61" using s(7) a(3) by simp_all
    then obtain r where "does X (dispatch (the_daemon X u key) (OpRenew sim_host_name (fst t)) (sim_time (sm_now sm)))
        (g, n, w) (Return r) (opened a (sm_now sm + snd t), n, w)" "re_result r = ResOk"
      using run_renew [OF s(5) assms(4) _ e(2,3) _ _ s(2)] s(4) a(1) by blast
    moreover have "stores X u n (sm\<lparr>sm_shadow := ShadowOpen (sm_now sm + snd t)\<rparr>) (opened a (sm_now sm + snd t))"
      using a sim_ttls(2,3) [OF assms(4)] by (auto simp: stores_def)
    ultimately show ?thesis using e assms(4) by (auto simp: advance_shadow_def expected_result_def)
  next
    case False
    have "\<exists>x. fst (grant_renew (sim_time (sm_now sm)) (Ttl (from_secs (snd t))) \<lparr>g_state = g\<rparr>) = Err x"
    proof (cases "sm_shadow sm")
      case (ShadowOpen e)
      then obtain a where "g = opened a e" using s(3) by (auto simp: stores_def)
      then show ?thesis using opened_renew(2) False ShadowOpen by blast
    qed (use s(3) opened_renew(3,4) in \<open>auto simp: stores_def\<close>)
    then obtain r where r: "does X (dispatch (the_daemon X u key) (OpRenew sim_host_name (fst t)) (sim_time (sm_now sm)))
        (g, n, w) (Return r) (g, n, w)" "re_result r = ResRefused"
      using run_renew_refused [OF s(5) assms(4) s(4)] by blast
    have "advance_shadow (ActRenew ix) (sm_now sm) (sm_shadow sm) = Some (sm_shadow sm)"
      "expected_result (ActRenew ix) (sm_shadow sm) (sm_now sm) = ResRefused"
      using False by (auto simp: advance_shadow_def expected_result_def split: shadow.split)
    then show ?thesis using r s(3) by auto
  qed
  then obtain sh r g' where "advance_shadow (ActRenew ix) (sm_now sm) (sm_shadow sm) = Some sh"
    "does X (dispatch (the_daemon X u key) (OpRenew sim_host_name (fst t)) (sim_time (sm_now sm))) (g, n, w) (Return r) (g', n, w)"
    "re_result r = expected_result (ActRenew ix) (sm_shadow sm) (sm_now sm)" "stores X u n (sm\<lparr>sm_shadow := sh\<rparr>) g'"
    by blast
  then show ?thesis
    by (intro follows_dispatch [OF assms(2) s(1), where opr = "OpRenew sim_host_name (fst t)" and r = r and w' = w and b' = b])
      (simp_all add: sim_act_def Let_def assms(4) s(2))
qed

lemma issued_later:
  "n \<le> n' \<Longrightarrow> (\<forall>c\<in>S. \<exists>i<n. issued X u i c) \<Longrightarrow> (\<forall>c\<in>S. \<exists>i<n'. issued X u i c)"
  by (meson less_le_trans)

lemma stores_later: "stores X u n sm g \<Longrightarrow> stores X u (Suc n) sm g"
proof (cases "sm_shadow sm")
  case (ShadowPending p sat req d t)
  assume "stores X u n sm g"
  then obtain m where m: "m < n" "g = waiting p sat req (u m) t" "d = req + approval_window_secs" "req \<le> sm_now sm" "0 < t"
    "t \<le> 14400" "sm_challenge sm = Some (request_challenge X (u m) t req)" "\<forall>c\<in>set (sm_stale sm). \<exists>i<n. i \<noteq> m \<and> issued X u i c"
    using ShadowPending by (auto simp: stores_def)
  moreover have "\<forall>c\<in>set (sm_stale sm). \<exists>i<Suc n. i \<noteq> m \<and> issued X u i c" using m(8) by (meson less_SucI)
  ultimately show ?thesis using ShadowPending unfolding stores_def shadow.case by (auto intro!: exI [of _ m])
qed (simp_all add: stores_def)

lemma open_follows:
  assumes "sim_crypto X u sign key N" "tracks X u key n sm" "sm_now sm \<le> sim_start + horizon" "ttl_at ix = Some t"
  shows "follows sign X u key n (ActOpen p ix) sm"
proof (rule tracks_parts [OF assms(1-3)])
  fix g w b
  assume s: "stands X sim_host_name (g, n, w) (sm_sys sm)" "switch w b" "stores X u n sm g" "loads g" "hex_codec X"
    "signs X sign key" "sm_now sm < 2 ^ 60"
  let ?open = "dispatch (the_daemon X u key) (OpOpen sim_host_name (fst t) (Some (sim_profile_id p))) (sim_time (sm_now sm))"
  have len: "length (u m) = 32" for m using assms(1) by (simp add: sim_crypto_def)
  have now: "sm_now sm < 2 ^ 62" using s(7) by simp
  have dm: "sm_daemon sm = the_daemon X u key" "sim_start \<le> sm_now sm"
    "\<forall>c\<in>set (sm_stale sm) \<union> set_option (sm_challenge sm). \<exists>i<n. issued X u i c" using assms(2) by (simp_all add: tracks_def)
  show ?thesis
  proof (cases "sm_shadow sm = ShadowClosed")
    case True
    then have g: "g = Closed" using s(3) by (simp add: stores_def)
    obtain r pc where r: "does X ?open (g, n, w) (Return r) (waiting p {||} (sm_now sm) (u n) (snd t), Suc n, w)" "re_result r = ResOk"
      "re_pending r = Some pc" "pc_challenge pc = request_challenge X (u n) (snd t) (sm_now sm)"
      using run_open [where u = u, OF s(5) assms(4) now len, of key p n w] g unfolding request_challenge_def by blast
    obtain s' where s': "sim_run ?open sm = Some (Ok (r, sm\<lparr>sm_sys := s'\<rparr>))"
      "stands X sim_host_name (waiting p {||} (sm_now sm) (u n) (snd t), Suc n, w) s'"
      using sim_run_does [OF r(1) s(1)] by blast
    define stale where "stale = sm_stale sm @ (case sm_challenge sm of Some old \<Rightarrow> [old] | None \<Rightarrow> [])"
    define sm' where "sm' = sm\<lparr>sm_sys := s', sm_challenge := Some (request_challenge X (u n) (snd t) (sm_now sm)), sm_stale := stale\<rparr>"
    have old: "\<forall>c\<in>set stale. \<exists>i<n. issued X u i c" using dm(3) by (auto simp: stale_def split: option.splits)
    have older: "\<forall>c\<in>set stale. \<exists>i<Suc n. i \<noteq> n \<and> issued X u i c" using old by (metis less_SucI less_not_refl)
    have act: "sim_act sign (ActOpen p ix) sm = Some (Ok (Some r, sm'))"
      using s'(1) r(2-4) by (simp add: sim_act_def Let_def assms(4) dm remember_challenge_def sm'_def stale_def)
    let ?sh = "ShadowPending p {||} (sm_now sm) (sm_now sm + approval_window_secs) (snd t)"
    have sh: "advance_shadow (ActOpen p ix) (sm_now sm) (sm_shadow sm) = Some ?sh"
      "expected_result (ActOpen p ix) (sm_shadow sm) (sm_now sm) = ResOk"
      using True assms(4) by (simp_all add: advance_shadow_def observed_def expected_result_def)
    have st: "stores X u (Suc n) (sm'\<lparr>sm_shadow := ?sh\<rparr>) (waiting p {||} (sm_now sm) (u n) (snd t))"
      using sim_ttls(2,3) [OF assms(4)] older unfolding stores_def by (auto simp: sm'_def intro!: exI [of _ n])
    have new: "issued X u n (request_challenge X (u n) (snd t) (sm_now sm))" by (auto simp: issued_def)
    have "tracks X u key (Suc n) (sm'\<lparr>sm_shadow := ?sh\<rparr>)"
      unfolding tracks_def
    proof (intro conjI exI)
      show "stands X sim_host_name (waiting p {||} (sm_now sm) (u n) (snd t), Suc n, w) (sm_sys (sm'\<lparr>sm_shadow := ?sh\<rparr>))"
        using s'(2) by (simp add: sm'_def)
      show "\<forall>c\<in>set (sm_stale (sm'\<lparr>sm_shadow := ?sh\<rparr>)) \<union> set_option (sm_challenge (sm'\<lparr>sm_shadow := ?sh\<rparr>)). \<exists>i<Suc n. issued X u i c"
        using old new by (auto simp: sm'_def intro: less_SucI)
    qed (use dm st s(2) in \<open>simp_all add: sm'_def\<close>)
    then show ?thesis
      unfolding follows_def
      by (intro exI [of _ "Some r"] exI [of _ sm'] exI [of _ "Suc n"] exI [of _ ?sh])
        (use act sh r(2) in \<open>simp add: sm'_def\<close>)
  next
    case False
    then have g: "g \<noteq> Closed" using s(3) by (cases "sm_shadow sm") (auto simp: stores_def waiting_def opened_def)
    obtain r where r: "does X ?open (g, n, w) (Return r) (g, Suc n, w)" "re_result r = ResRefused"
      using run_open_refused [OF s(5) assms(4) now s(4) g] by blast
    obtain s' where s': "sim_run ?open sm = Some (Ok (r, sm\<lparr>sm_sys := s'\<rparr>))" "stands X sim_host_name (g, Suc n, w) s'"
      using sim_run_does [OF r(1) s(1)] by blast
    have act: "sim_act sign (ActOpen p ix) sm = Some (Ok (Some r, sm\<lparr>sm_sys := s'\<rparr>))"
      using s'(1) r(2) by (simp add: sim_act_def Let_def assms(4) dm remember_challenge_def)
    have sh: "advance_shadow (ActOpen p ix) (sm_now sm) (sm_shadow sm) = Some (sm_shadow sm)"
      "expected_result (ActOpen p ix) (sm_shadow sm) (sm_now sm) = ResRefused"
      using False by (auto simp: advance_shadow_def observed_def expected_result_def split: shadow.splits)
    have "tracks X u key (Suc n) (sm\<lparr>sm_sys := s', sm_shadow := sm_shadow sm\<rparr>)"
      unfolding tracks_def
    proof (intro conjI exI)
      show "stores X u (Suc n) (sm\<lparr>sm_sys := s', sm_shadow := sm_shadow sm\<rparr>) g"
        unfolding stores_sys using stores_later [OF s(3)] by simp
    qed (use dm s'(2) s(2) in \<open>simp_all, meson less_SucI\<close>)
    then show ?thesis
      unfolding follows_def
      by (intro exI [of _ "Some r"] exI [of _ "sm\<lparr>sm_sys := s'\<rparr>"] exI [of _ "Suc n"] exI [of _ "sm_shadow sm"])
        (use act sh r(2) in simp)
  qed
qed

lemma approve_follows:
  assumes "sim_crypto X u sign key N" "tracks X u key n sm" "n \<le> N" "sm_now sm \<le> sim_start + horizon"
  shows "follows sign X u key n (ActApprove a k) sm"
proof (rule tracks_parts [OF assms(1,2,4)])
  fix g w b
  assume s: "stands X sim_host_name (g, n, w) (sm_sys sm)" "switch w b" "stores X u n sm g" "loads g" "hex_codec X"
    "signs X sign key" "sm_now sm < 2 ^ 60"
  let ?ch = "proof_challenge k sm"
  let ?run = "dispatch (the_daemon X u key) (OpApprove sim_host_name (sign a ?ch)) (sim_time (sm_now sm))"
  let ?shadow = "advance_shadow (ActApprove a k) (sm_now sm) (sm_shadow sm)"
  have len: "length (u m) = 32" "\<forall>bs. length bs \<le> length (b64url_encode X bs)" for m
    using assms(1) by (simp_all add: sim_crypto_def)
  have "\<exists>sh r g' w' b'. ?shadow = Some sh \<and> does X ?run (g, n, w) (Return r) (g', n, w') \<and>
      re_result r = expected_result (ActApprove a k) (sm_shadow sm) (sm_now sm) \<and> switch w' b' \<and>
      stores X u n (sm\<lparr>sm_shadow := sh\<rparr>) g'"
  proof (cases "\<exists>p sat req d t. sm_shadow sm = ShadowPending p sat req d t \<and> sm_now sm < d")
    case True
    then obtain p sat req d t where sh: "sm_shadow sm = ShadowPending p sat req d t" "sm_now sm < d" by blast
    then obtain m where m: "m < n" "g = waiting p sat req (u m) t" "d = req + approval_window_secs" "req \<le> sm_now sm" "0 < t"
      "t \<le> 14400" "sm_challenge sm = Some (request_challenge X (u m) t req)" "\<forall>c\<in>set (sm_stale sm). \<exists>i<n. i \<noteq> m \<and> issued X u i c"
      using s(3) by (auto simp: stores_def)
    have live: "sm_now sm < req + approval_window_secs" "req < 2 ^ 61" using sh(2) m(3,4) s(7) by simp_all
    show ?thesis
    proof (cases "a \<noteq> Charlie \<and> k = Fresh")
      case good: True
      then have ch: "?ch = challenge_string (b64url_encode X) (approval_request_new (u m) sim_host_name t (sim_time req))"
        using m(7) by (simp add: proof_challenge_def or_else_def request_challenge_def)
      let ?met = "met p (finsert a sat) (sm_now sm - req)"
      obtain r w' where r: "does X ?run (g, n, w) (Return r) (if ?met then opened (sm_now sm) (sm_now sm + t)
           else waiting p (finsert a sat) req (u m) t, n, w')" "re_result r = ResOk" "switch w' (if ?met then True else b)"
        using run_approve [OF s(5,6) live(1) m(4) live(2) m(5,6) len(1) s(2) _ ch] good m(2) by blast
      have e: "expected_result (ActApprove a k) (sm_shadow sm) (sm_now sm) = ResOk"
        using sh good by (simp add: expected_result_def)
      show ?thesis
      proof (cases ?met)
        case yes: True
        then have "?shadow = Some (ShadowOpen (sm_now sm + t))" using sh good by (simp add: advance_shadow_def Let_def)
        then show ?thesis using r e yes stores_opened [OF assms(2) m(5,6)] by auto
      next
        case no: False
        then have "?shadow = Some (ShadowPending p (finsert a sat) req d t)" using sh good by (simp add: advance_shadow_def Let_def)
        moreover have "stores X u n (sm\<lparr>sm_shadow := ShadowPending p (finsert a sat) req d t\<rparr>) (waiting p (finsert a sat) req (u m) t)"
          using m by (auto simp: stores_def intro!: exI [of _ m])
        ultimately show ?thesis using r e no by auto
      qed
    next
      case bad: False
      have "a = Charlie \<or> ?ch \<noteq> request_challenge X (u m) t req"
      proof (cases k)
        case Stale
        show ?thesis
        proof (cases "sm_stale sm = []")
          case True
          then show ?thesis using Stale challenge_issued [OF len(2,1)] by (simp add: proof_challenge_def) metis
        next
          case False
          then obtain i where "i < n" "i \<noteq> m" "issued X u i (last (sm_stale sm))" using m(8) by fastforce
          then show ?thesis using Stale False issued_distinct [OF assms(1,3) _ m(1)] by (auto simp: proof_challenge_def)
        qed
      next
        case Fresh
        then show ?thesis using bad by simp
      qed
      then obtain r where "does X ?run (g, n, w) (Return r) (g, n, w)" "re_result r = ResRefused"
        using run_approve_denied [OF s(5,6) live m(5,6) len(1)] m(2) unfolding request_challenge_def by blast
      moreover have "?shadow = Some (sm_shadow sm)" "expected_result (ActApprove a k) (sm_shadow sm) (sm_now sm) = ResRefused"
        using bad sh by (auto simp: advance_shadow_def expected_result_def)
      ultimately show ?thesis using s(2,3) by auto
    qed
  next
    case False
    have "\<exists>e. grant_pending_request sim_host_name (sim_time (sm_now sm)) \<lparr>g_state = g\<rparr> = Err e"
    proof (cases "sm_shadow sm")
      case ShadowClosed
      then show ?thesis using s(3) by (simp add: stores_def grant_pending_request_def grant_status_def)
    next
      case (ShadowPending p sat req d t)
      then obtain m where "g = waiting p sat req (u m) t" "d = req + approval_window_secs" using s(3) by (auto simp: stores_def)
      moreover have "\<not> sm_now sm < req + approval_window_secs" using False ShadowPending calculation(2) by auto
      ultimately show ?thesis by (simp add: grant_pending_request_def waiting_status)
    next
      case (ShadowOpen e)
      then obtain x where "g = opened x e" using s(3) by (auto simp: stores_def)
      then show ?thesis by (simp add: grant_pending_request_def opened_status)
    qed
    then obtain r where "does X ?run (g, n, w) (Return r) (g, n, w)" "re_result r = ResRefused"
      using run_approve_refused [OF s(5,4)] by blast
    moreover have "?shadow = Some (sm_shadow sm)" "expected_result (ActApprove a k) (sm_shadow sm) (sm_now sm) = ResRefused"
      using False by (auto simp: advance_shadow_def expected_result_def split: shadow.splits)
    ultimately show ?thesis using s(2,3) by auto
  qed
  then obtain sh r g' w' b' where "?shadow = Some sh" "does X ?run (g, n, w) (Return r) (g', n, w')"
    "re_result r = expected_result (ActApprove a k) (sm_shadow sm) (sm_now sm)" "switch w' b'"
    "stores X u n (sm\<lparr>sm_shadow := sh\<rparr>) g'" by blast
  then show ?thesis
    by (intro follows_dispatch [OF assms(2) s(1), where opr = "OpApprove sim_host_name (sign a ?ch)" and r = r and w' = w' and b' = b'])
      (simp_all add: sim_act_def Let_def)
qed

end
