(* ===== verification/Sim_Shadow.thy ===== *)
theory Sim_Shadow
  imports Sim_Props
begin

text \<open>
  The daemon refines the shadow: no sequence of actions makes the checker of \<open>sim.rs\<close> complain, as long as
  the clock stays within the horizon.  Beyond it, renewals alone stop the daemon.
\<close>

section \<open>Steps and replays\<close>

lemma observe_tracks:
  assumes "sim_crypto X u sign key N" "tracks X u key n sm" "sm_now sm \<le> sim_start + horizon"
  shows "\<exists>s'. sim_observe sm = Some (Ok (sm\<lparr>sm_sys := s'\<rparr>)) \<and> tracks X u key n (sm\<lparr>sm_sys := s'\<rparr>)"
proof (rule tracks_parts [OF assms])
  fix g w b
  assume s: "stands X sim_host_name (g, n, w) (sm_sys sm)" "switch w b" "stores X u n sm g" "loads g" "hex_codec X"
    "signs X sign key" "sm_now sm < 2 ^ 60"
  let ?line = "status_line (sim_host_name, grant_status \<lparr>g_state = g\<rparr> (sim_time (sm_now sm)))"
  obtain s' where s': "sim_run (dispatch (the_daemon X u key) OpStatus (sim_time (sm_now sm))) sm =
      Some (Ok (response_ok\<lparr>re_grants := Some [?line]\<rparr>, sm\<lparr>sm_sys := s'\<rparr>))" "stands X sim_host_name (g, n, w) s'"
    using sim_run_does [OF run_status [OF s(5,4)] s(1)] by blast
  have "gl_host ?line = sim_host_name \<and> (gl_state ?line, gl_remaining_secs ?line) = observed (sm_shadow sm) (sm_now sm)"
  proof (cases "sm_shadow sm")
    case ShadowClosed
    then show ?thesis using s(3) by (simp add: stores_def observed_def status_line_def grant_status_def Let_def)
  next
    case (ShadowPending p sat req d t)
    then obtain m where "g = waiting p sat req (u m) t" "d = req + approval_window_secs" using s(3) by (auto simp: stores_def)
    then show ?thesis using ShadowPending by (simp add: observed_def status_line_def waiting_status Let_def)
  next
    case (ShadowOpen e)
    then obtain a where "g = opened a e" using s(3) by (auto simp: stores_def)
    then show ?thesis using ShadowOpen by (simp add: observed_def status_line_def opened_status Let_def)
  qed
  then have "check_observation [?line] (sm_shadow sm) (sm_now sm) = Ok ()"
    by (auto simp: check_observation_def split: prod.splits)
  moreover have "sm_daemon sm = the_daemon X u key" using assms(2) by (simp add: tracks_def)
  ultimately have "sim_observe sm = Some (Ok (sm\<lparr>sm_sys := s'\<rparr>))"
    using s'(1) by (simp add: sim_observe_def bind_both_def or_else_def)
  moreover have "tracks X u key n (sm\<lparr>sm_sys := s'\<rparr>)"
    using tracks_with [OF assms(2) s'(2) s(2), of "sm_shadow sm"] s(3) by simp
  ultimately show ?thesis by blast
qed

lemma acts_follow:
  assumes "sim_crypto X u sign key N" "tracks X u key n sm" "n \<le> N" "sm_now sm \<le> sim_start + horizon" "action_ok a"
  shows "follows sign X u key n a sm"
proof (cases a)
  case (ActOpen p ix)
  then show ?thesis using open_follows [OF assms(1,2,4)] assms(5) by (simp add: ttl_at_def)
next
  case (ActRenew ix)
  then show ?thesis using renew_follows [OF assms(1,2,4)] assms(5) by (simp add: ttl_at_def)
qed (simp_all add: approve_follows [OF assms(1-4)] close_follows [OF assms(1,2,4)] advance_follows [OF assms(2)]
    pass_follows [OF assms(1,2,4)])

lemma step_tracks:
  assumes "sim_crypto X u sign key N" "tracks X u key n sm" "n \<le> N" "sm_now sm + action_secs a \<le> sim_start + horizon"
    "action_ok a"
  obtains sm' n' where "sim_step sign a sm = Some (Ok sm')" "tracks X u key n' sm'" "n' \<le> Suc n"
    "sm_now sm' = sm_now sm + action_secs a" "advance_shadow a (sm_now sm') (sm_shadow sm) = Some (sm_shadow sm')"
proof -
  have "sm_now sm \<le> sim_start + horizon" using assms(4) by simp
  then obtain r sm1 n' sh where f: "sim_act sign a sm = Some (Ok (r, sm1))" "n' \<le> Suc n"
    "\<And>x. r = Some x \<Longrightarrow> re_result x = expected_result a (sm_shadow sm) (sm_now sm1)" "sm_now sm1 = sm_now sm + action_secs a"
    "sm_shadow sm1 = sm_shadow sm" "advance_shadow a (sm_now sm1) (sm_shadow sm) = Some sh"
    "tracks X u key n' (sm1\<lparr>sm_shadow := sh\<rparr>)"
    using acts_follow [OF assms(1-3) _ assms(5)] unfolding follows_def by blast
  obtain s' where s': "sim_observe (sm1\<lparr>sm_shadow := sh\<rparr>) = Some (Ok (sm1\<lparr>sm_shadow := sh, sm_sys := s'\<rparr>))"
    "tracks X u key n' (sm1\<lparr>sm_shadow := sh, sm_sys := s'\<rparr>)"
    using observe_tracks [OF assms(1) f(7)] f(4) assms(4) by auto
  have "(case r of None \<Rightarrow> Ok () | Some r \<Rightarrow> check_result a r (sm_shadow sm) (sm_now sm1)) = Ok ()"
    using f(3) by (cases r) (simp_all add: check_result_def)
  then have "sim_step sign a sm = Some (Ok (sm1\<lparr>sm_shadow := sh, sm_sys := s'\<rparr>))"
    using f(1,5,6) s'(1) by (simp add: sim_step_def Let_def bind_both_def)
  then show ?thesis by (rule that [OF _ s'(2) f(2)]) (use f(4,6) in simp_all)
qed

lemma replay_tracks:
  assumes "sim_crypto X u sign key N"
  shows "tracks X u key n sm \<Longrightarrow> n + length as \<le> N \<Longrightarrow> sm_now sm + sum_list (map action_secs as) \<le> sim_start + horizon \<Longrightarrow>
    list_all action_ok as \<Longrightarrow> \<exists>sm'. replay_from sign i as sm = Some (Ok sm')"
proof (induction as arbitrary: i n sm)
  case (Cons a as)
  have "n \<le> N" "sm_now sm + action_secs a \<le> sim_start + horizon" "action_ok a" using Cons.prems by auto
  then obtain sm' n' where s: "sim_step sign a sm = Some (Ok sm')" "tracks X u key n' sm'" "n' \<le> Suc n"
    "sm_now sm' = sm_now sm + action_secs a"
    using step_tracks [OF assms Cons.prems(1)] by blast
  then have "\<exists>sm''. replay_from sign (Suc i) as sm' = Some (Ok sm'')" using Cons.prems by (intro Cons.IH) auto
  then show ?case using s(1) by (simp add: bind_both_def)
qed simp

lemma sim_new_tracks:
  assumes "sim_crypto X u sign key N"
  obtains sm where "sim_new X u = Some sm" "tracks X u key 0 sm" "sm_now sm = sim_start" "sm_shadow sm = ShadowClosed"
    "stands X sim_host_name (Closed, 0, sy_world sim_sys) (sm_sys sm)" "switch (sy_world sim_sys) False"
    "sm_daemon sm = the_daemon X u key"
proof -
  let ?sm = "\<lparr>sm_daemon = the_daemon X u key, sm_sys = sim_sys, sm_shadow = ShadowClosed, sm_now = 1000000,
    sm_challenge = None, sm_stale = []\<rparr>"
  have "signs X sign key" using assms by (simp add: sim_crypto_def)
  then have "sim_new X u = Some ?sm" by (simp add: sim_new_def policy_loads)
  moreover have st: "stands X sim_host_name (Closed, 0, sy_world sim_sys) sim_sys" by (simp add: stands_def sim_sys_def)
  moreover have sw: "switch (sy_world sim_sys) False" by (simp add: switch_def sim_sys_def fake_new_def)
  moreover have "tracks X u key 0 ?sm"
    unfolding tracks_def using st sw by (auto simp: stores_def sim_start_def)
  ultimately show ?thesis using that [of ?sm] by (simp add: sim_start_def)
qed

section \<open>Renewing past the cap\<close>

text \<open>A four-hour grant renewed for four hours every two hours, eleven times.\<close>

definition renewals :: "action list" where
  "renewals = [ActOpen Solo 3, ActApprove Alice Fresh] @ concat (replicate 11 [ActAdvance 7200, ActRenew 3])"

text \<open>The grant opened at the start, kept until four hours from now.\<close>

definition holds_open :: "crates \<Rightarrow> (nat \<Rightarrow> nonce) \<Rightarrow> (actor \<Rightarrow> byte list) \<Rightarrow> nat \<Rightarrow> sim \<Rightarrow> bool" where
  "holds_open X u key k sm \<longleftrightarrow> sm_daemon sm = the_daemon X u key \<and> sm_now sm = sim_start + 7200 * k \<and>
     sm_shadow sm = ShadowOpen (sm_now sm + 14400) \<and>
     (\<exists>n w. stands X sim_host_name (opened sim_start (sm_now sm + 14400), n, w) (sm_sys sm) \<and> switch w True)"

lemma four_hours: "ttl_at 3 = Some (''4h'', 14400)"
  by (simp add: ttl_at_def ttls_def numeral_3_eq_3)

lemma observe_open:
  assumes "hex_codec X" "sm_daemon sm = the_daemon X u key" "sm_shadow sm = ShadowOpen e"
    "stands X sim_host_name (opened a e, n, w) (sm_sys sm)" "loads (opened a e)"
  shows "\<exists>s'. sim_observe sm = Some (Ok (sm\<lparr>sm_sys := s'\<rparr>)) \<and> stands X sim_host_name (opened a e, n, w) s'"
proof -
  let ?line = "status_line (sim_host_name, grant_status \<lparr>g_state = opened a e\<rparr> (sim_time (sm_now sm)))"
  obtain s' where s': "sim_run (dispatch (the_daemon X u key) OpStatus (sim_time (sm_now sm))) sm =
      Some (Ok (response_ok\<lparr>re_grants := Some [?line]\<rparr>, sm\<lparr>sm_sys := s'\<rparr>))" "stands X sim_host_name (opened a e, n, w) s'"
    using sim_run_does [OF run_status [OF assms(1,5)] assms(4)] by blast
  have "check_observation [?line] (sm_shadow sm) (sm_now sm) = Ok ()"
    using assms(3) by (simp add: check_observation_def observed_def status_line_def opened_status Let_def)
  then have "sim_observe sm = Some (Ok (sm\<lparr>sm_sys := s'\<rparr>))"
    using s'(1) assms(2) by (simp add: sim_observe_def bind_both_def or_else_def)
  then show ?thesis using s'(2) by blast
qed

lemma advance_open:
  assumes "hex_codec X" "holds_open X u key k sm" "k \<le> 10"
  obtains s' n w where "sim_step sign (ActAdvance 7200) sm = Some (Ok (sm\<lparr>sm_now := sm_now sm + 7200, sm_sys := s'\<rparr>))"
    "stands X sim_host_name (opened sim_start (sm_now sm + 14400), n, w) s'" "switch w True" "loads (opened sim_start (sm_now sm + 14400))"
proof -
  obtain n w where s: "stands X sim_host_name (opened sim_start (sm_now sm + 14400), n, w) (sm_sys sm)" "switch w True"
    using assms(2) by (auto simp: holds_open_def)
  have l: "loads (opened sim_start (sm_now sm + 14400))"
    using assms(2,3) by (intro loads_grants(3)) (simp_all add: holds_open_def sim_start_def)
  have sh: "sm_shadow sm = ShadowOpen (sm_now sm + 14400)" "sm_daemon sm = the_daemon X u key" using assms(2) by (simp_all add: holds_open_def)
  then obtain s' where s': "sim_observe (sm\<lparr>sm_now := sm_now sm + 7200\<rparr>) = Some (Ok (sm\<lparr>sm_now := sm_now sm + 7200, sm_sys := s'\<rparr>))"
    "stands X sim_host_name (opened sim_start (sm_now sm + 14400), n, w) s'"
    using observe_open [OF assms(1), of "sm\<lparr>sm_now := sm_now sm + 7200\<rparr>" u key "sm_now sm + 14400" sim_start n w] s(1) l by auto
  have "sim_step sign (ActAdvance 7200) sm = sim_observe (sm\<lparr>sm_now := sm_now sm + 7200\<rparr>)"
    by (simp add: sim_step_def sim_act_def Let_def bind_both_def advance_shadow_def)
  then show ?thesis using that s' s(2) l by simp
qed

lemma renew_open:
  assumes "hex_codec X" "holds_open X u key k sm" "k \<le> 10" "sim_step sign (ActAdvance 7200) sm = Some (Ok sm1)"
  obtains r s' n w where
    "sim_act sign (ActRenew 3) sm1 = Some (Ok (Some r, sm1\<lparr>sm_sys := s'\<rparr>))" "re_result r = ResOk"
    "expected_result (ActRenew 3) (sm_shadow sm1) (sm_now sm1) = ResOk" "sm_daemon sm1 = the_daemon X u key"
    "advance_shadow (ActRenew 3) (sm_now sm1) (sm_shadow sm1) = Some (ShadowOpen (sm_now sm1 + 14400))"
    "sm_now sm1 = sim_start + 7200 * Suc k" "stands X sim_host_name (opened sim_start (sm_now sm1 + 14400), n, w) s'" "switch w True"
proof -
  obtain s1 n w where a: "sm1 = sm\<lparr>sm_now := sm_now sm + 7200, sm_sys := s1\<rparr>"
    "stands X sim_host_name (opened sim_start (sm_now sm + 14400), n, w) s1" "switch w True" "loads (opened sim_start (sm_now sm + 14400))"
    using advance_open [OF assms(1-3), of sign] assms(4) by auto
  have h: "sm_shadow sm1 = ShadowOpen (sm_now sm + 14400)" "sm_daemon sm1 = the_daemon X u key" "sm_now sm1 = sim_start + 7200 * Suc k"
    "sm_now sm1 = sm_now sm + 7200" "sm_sys sm1 = s1"
    using assms(2) a(1) by (simp_all add: holds_open_def)
  have "sm_now sm1 < sm_now sm + 14400" "sm_now sm + 14400 - sm_now sm1 \<le> sim_renewal_window_secs" "sm_now sm1 < 2 ^ 61" "sim_start < 2 ^ 61"
    using h(3,4) assms(3) by (simp_all add: sim_renewal_window_secs_def sim_start_def)
  then obtain r where r: "does X (dispatch (the_daemon X u key) (OpRenew sim_host_name ''4h'') (sim_time (sm_now sm1)))
      (opened sim_start (sm_now sm + 14400), n, w) (Return r) (opened sim_start (sm_now sm1 + 14400), n, w)" "re_result r = ResOk"
    using run_renew [OF assms(1) four_hours a(4) _ _ _ _ a(3), of "sm_now sm1" u key n] by auto
  obtain s' where s': "sim_run (dispatch (the_daemon X u key) (OpRenew sim_host_name ''4h'') (sim_time (sm_now sm1))) sm1 =
      Some (Ok (r, sm1\<lparr>sm_sys := s'\<rparr>))" "stands X sim_host_name (opened sim_start (sm_now sm1 + 14400), n, w) s'"
    using sim_run_does [OF r(1), of sm1] a(2) h(5) by auto
  have "sim_act sign (ActRenew 3) sm1 = Some (Ok (Some r, sm1\<lparr>sm_sys := s'\<rparr>))"
    using s'(1) by (simp add: sim_act_def Let_def four_hours h(2))
  moreover have "expected_result (ActRenew 3) (sm_shadow sm1) (sm_now sm1) = ResOk"
    "advance_shadow (ActRenew 3) (sm_now sm1) (sm_shadow sm1) = Some (ShadowOpen (sm_now sm1 + 14400))"
    using h(1,4) by (simp_all add: expected_result_def advance_shadow_def sim_renewal_window_secs_def four_hours)
  ultimately show ?thesis using that r(2) h(2,3) s'(2) a(3) by blast
qed

lemma renewed_open:
  assumes "hex_codec X" "holds_open X u key k sm" "k \<le> 9"
  shows "\<exists>sm'. replay_from sign i [ActAdvance 7200, ActRenew 3] sm = Some (Ok sm') \<and> holds_open X u key (Suc k) sm'"
proof -
  have k: "k \<le> 10" using assms(3) by simp
  obtain sm1 where sm1: "sim_step sign (ActAdvance 7200) sm = Some (Ok sm1)"
    using advance_open [OF assms(1,2) k, of sign] by auto
  show ?thesis
  proof (rule renew_open [OF assms(1,2) k sm1])
    fix r s' n w
    assume r: "sim_act sign (ActRenew 3) sm1 = Some (Ok (Some r, sm1\<lparr>sm_sys := s'\<rparr>))" "re_result r = ResOk"
      "expected_result (ActRenew 3) (sm_shadow sm1) (sm_now sm1) = ResOk" "sm_daemon sm1 = the_daemon X u key"
      "advance_shadow (ActRenew 3) (sm_now sm1) (sm_shadow sm1) = Some (ShadowOpen (sm_now sm1 + 14400))"
      "sm_now sm1 = sim_start + 7200 * Suc k" "stands X sim_host_name (opened sim_start (sm_now sm1 + 14400), n, w) s'" "switch w True"
    let ?sm = "sm1\<lparr>sm_sys := s', sm_shadow := ShadowOpen (sm_now sm1 + 14400)\<rparr>"
    have "loads (opened sim_start (sm_now sm1 + 14400))"
      using r(6) assms(3) by (intro loads_grants(3)) (simp_all add: sim_start_def)
    then obtain s2 where s2: "sim_observe ?sm = Some (Ok (?sm\<lparr>sm_sys := s2\<rparr>))"
      "stands X sim_host_name (opened sim_start (sm_now sm1 + 14400), n, w) s2"
      using observe_open [OF assms(1), of ?sm u key "sm_now sm1 + 14400" sim_start n w] r(4,7) by auto
    have "sim_step sign (ActRenew 3) sm1 = Some (Ok (?sm\<lparr>sm_sys := s2\<rparr>))"
      using r s2(1) by (simp add: sim_step_def Let_def bind_both_def check_result_def)
    moreover have "holds_open X u key (Suc k) (?sm\<lparr>sm_sys := s2\<rparr>)"
      unfolding holds_open_def using r s2(2) by auto
    ultimately show ?thesis using sm1 by (auto simp: bind_both_def)
  qed
qed

lemma replay_from_append:
  "replay_from sign i (as @ bs) sm = bind_both (replay_from sign i as sm) (replay_from sign (i + length as) bs)"
  by (induction as arbitrary: i sm) (auto simp: bind_both_def split: option.splits sum.splits)

lemma concat_replicate_snoc: "concat (replicate (Suc k) xs) = concat (replicate k xs) @ xs"
  by (induction k) auto

lemma renewed_times:
  assumes "hex_codec X" "holds_open X u key 0 sm" "k \<le> 10"
  shows "\<exists>sm'. replay_from sign i (concat (replicate k [ActAdvance 7200, ActRenew 3])) sm = Some (Ok sm') \<and> holds_open X u key k sm'"
  using assms(3)
proof (induction k)
  case (Suc k)
  then obtain sm' where "replay_from sign i (concat (replicate k [ActAdvance 7200, ActRenew 3])) sm = Some (Ok sm')" "holds_open X u key k sm'"
    by auto
  moreover have "concat (replicate (Suc k) [ActAdvance 7200, ActRenew 3]) =
      concat (replicate k [ActAdvance 7200, ActRenew 3]) @ [ActAdvance 7200, ActRenew 3]"
    by (rule concat_replicate_snoc)
  ultimately show ?case
    using renewed_open [OF assms(1), of u key k sm'] Suc.prems by (simp add: replay_from_append bind_both_def)
qed (use assms(2) in simp)

lemma opened_four_hours:
  assumes "sim_crypto X u sign key N" "1 \<le> N"
  obtains sm0 sm where "sim_new X u = Some sm0" "replay_from sign 0 [ActOpen Solo 3, ActApprove Alice Fresh] sm0 = Some (Ok sm)"
    "holds_open X u key 0 sm"
proof (rule sim_new_tracks [OF assms(1)])
  fix sm0
  assume new: "sim_new X u = Some sm0" "tracks X u key 0 sm0" "sm_now sm0 = sim_start" "sm_shadow sm0 = ShadowClosed"
  have n: "sim_start \<le> sim_start + horizon" "(0 :: nat) \<le> N" by simp_all
  have "sm_now sm0 + action_secs (ActOpen Solo 3) \<le> sim_start + horizon" "action_ok (ActOpen Solo 3)"
    using new(3) by (simp_all add: ttls_def)
  then obtain sm1 n1 where s0: "sim_step sign (ActOpen Solo 3) sm0 = Some (Ok sm1)" "tracks X u key n1 sm1"
    "sm_now sm1 = sm_now sm0 + action_secs (ActOpen Solo 3)"
    "advance_shadow (ActOpen Solo 3) (sm_now sm1) (sm_shadow sm0) = Some (sm_shadow sm1)"
    using step_tracks [OF assms(1) new(2) n(2)] by blast
  have s1: "sim_step sign (ActOpen Solo 3) sm0 = Some (Ok sm1)" "tracks X u key n1 sm1" "sm_now sm1 = sim_start"
    "advance_shadow (ActOpen Solo 3) (sm_now sm1) (sm_shadow sm0) = Some (sm_shadow sm1)"
    using s0 new(3) by simp_all
  have sh1: "sm_shadow sm1 = ShadowPending Solo {||} sim_start (sim_start + approval_window_secs) 14400"
    using s1(3,4) new(4) by (simp add: advance_shadow_def observed_def four_hours)
  show ?thesis
  proof (rule tracks_parts [OF assms(1) s1(2)])
    fix g w b
    assume s: "stands X sim_host_name (g, n1, w) (sm_sys sm1)" "switch w b" "stores X u n1 sm1 g" "hex_codec X" "signs X sign key"
    obtain m where m: "g = waiting Solo {||} sim_start (u m) 14400" "sm_challenge sm1 = Some (request_challenge X (u m) 14400 sim_start)"
      using s(3) sh1 by (auto simp: stores_def)
    let ?run = "dispatch (the_daemon X u key) (OpApprove sim_host_name (sign Alice (proof_challenge Fresh sm1))) (sim_time sim_start)"
    have ch: "proof_challenge Fresh sm1 = challenge_string (b64url_encode X) (approval_request_new (u m) sim_host_name 14400 (sim_time sim_start))"
      using m(2) by (simp add: proof_challenge_def or_else_def request_challenge_def)
    have bounds: "sim_start < sim_start + approval_window_secs" "sim_start \<le> sim_start" "sim_start < 2 ^ 61" "(0 :: nat) < 14400"
      "(14400 :: nat) \<le> 14400" "length (u m) = 32"
      using assms(1) by (simp_all add: approval_window_secs_def sim_start_def sim_crypto_def)
    obtain r w' where r: "does X ?run (g, n1, w) (Return r) (opened sim_start (sim_start + 14400), n1, w')" "re_result r = ResOk" "switch w' True"
      using run_approve [OF s(4,5) bounds s(2) _ ch, of Alice u Solo "{||}" n1] m(1) by (auto simp: met_def)
    obtain s2 where s2: "sim_run ?run sm1 = Some (Ok (r, sm1\<lparr>sm_sys := s2\<rparr>))"
      "stands X sim_host_name (opened sim_start (sim_start + 14400), n1, w') s2"
      using sim_run_does [OF r(1) s(1)] by blast
    have dm: "sm_daemon sm1 = the_daemon X u key" using s1(2) by (simp add: tracks_def)
    let ?sm = "sm1\<lparr>sm_sys := s2, sm_shadow := ShadowOpen (sim_start + 14400)\<rparr>"
    have "loads (opened sim_start (sim_start + 14400))" by (intro loads_grants(3)) (simp_all add: sim_start_def)
    then obtain s3 where s3: "sim_observe ?sm = Some (Ok (?sm\<lparr>sm_sys := s3\<rparr>))"
      "stands X sim_host_name (opened sim_start (sim_start + 14400), n1, w') s3"
      using observe_open [OF s(4), of ?sm u key "sim_start + 14400" sim_start n1 w'] dm s2(2) by auto
    have "sim_act sign (ActApprove Alice Fresh) sm1 = Some (Ok (Some r, sm1\<lparr>sm_sys := s2\<rparr>))"
      using s2(1) by (simp add: sim_act_def Let_def dm s1(3))
    moreover have "expected_result (ActApprove Alice Fresh) (sm_shadow sm1) (sm_now sm1) = ResOk"
      "advance_shadow (ActApprove Alice Fresh) (sm_now sm1) (sm_shadow sm1) = Some (ShadowOpen (sim_start + 14400))"
      using sh1 s1(3) bounds(1) by (simp_all add: expected_result_def advance_shadow_def met_def)
    ultimately have "sim_step sign (ActApprove Alice Fresh) sm1 = Some (Ok (?sm\<lparr>sm_sys := s3\<rparr>))"
      using s3(1) r(2) by (simp add: sim_step_def Let_def bind_both_def check_result_def)
    then have "replay_from sign 0 [ActOpen Solo 3, ActApprove Alice Fresh] sm0 = Some (Ok (?sm\<lparr>sm_sys := s3\<rparr>))"
      using s1(1) by (simp add: bind_both_def)
    moreover have "holds_open X u key 0 (?sm\<lparr>sm_sys := s3\<rparr>)"
      unfolding holds_open_def using dm s1(3) s3(2) r(3) by auto
    ultimately show ?thesis using that new(1) by blast
  qed (simp add: s1(3))
qed

lemma overlong_refused:
  assumes "hex_codec X" "a + 86400 < e"
  shows "\<exists>x. from_parts X (dm_inventory (sim_daemon X u m)) (snapshot X (lone sim_host_name (opened a e))) = Err x"
proof -
  have "reg_new (dm_inventory (sim_daemon X u m)) = lone sim_host_name Closed"
    using sim_lone [OF assms(1)] by (simp add: lone_daemon_def)
  moreover have "\<not> e - a \<le> 86400" "a < e" using assms(2) by simp_all
  ultimately show ?thesis
    by (simp add: from_parts_def reg_knows_def snapshot_def lone_def bt_contains_def grant_parts_def
        List.map_filter_simps bt_collect_def parts_of_def record_of_def base_record_def record_interval_def
        no_pending_fields_def opened_def sim_time_since max_ttl_secs_def Let_def)
qed

lemma overlong_wedges:
  assumes "hex_codec X" "a + 86400 < e" "stands X sim_host_name (opened a e, n, w) s"
  shows "run (dispatch (the_daemon X u key) OpStatus now) s = (FatalExit, s)"
    "run (dispatch (the_daemon X u key) (OpClose sim_host_name) now) s = (FatalExit, s)"
    "run (dm_pass (the_daemon X u key) now) s = (FatalExit, s)"
    "run (boot_recover (the_daemon X u key) now) s = (FatalExit, s)"
proof -
  let ?doc = "snapshot X (lone sim_host_name (opened a e))"
  obtain x where x: "from_parts X (dm_inventory (the_daemon X u key)) ?doc = Err x"
    using overlong_refused [OF assms(1,2)] by blast
  have r: "store_read (sy_store s) = (Ok ?doc, sy_store s)" by (rule lone_reads [OF assms(3)])
  have f: "next_fault (sy_store s) = (False, sy_store s)" using assms(3) by (simp add: stands_def next_fault_def)
  have load: "run (load_registry (the_daemon X u key)) s = (FatalExit, s)"
    by (simp add: load_registry_def lift_store_def try_act_def r x sim_parts)
  have mutate: "run (lift_store (store_mutate g)) s = (FatalExit, s)" if "g ?doc = Some (Err x)" for g :: "state_doc \<Rightarrow> (snapshot_error + 'c \<times> state_doc) option"
    by (simp add: lift_store_def try_act_def store_mutate_def f r that)
  show "run (dispatch (the_daemon X u key) OpStatus now) s = (FatalExit, s)"
    by (simp add: dispatch_ops dm_status_def run_and_then load)
  show "run (dispatch (the_daemon X u key) (OpClose sim_host_name) now) s = (FatalExit, s)"
    by (simp add: dispatch_ops dm_close_def run_and_then load)
  show "run (dm_pass (the_daemon X u key) now) s = (FatalExit, s)"
    by (simp add: dm_pass_def run_and_then mutate reap_doc_def x sim_parts)
  show "run (boot_recover (the_daemon X u key) now) s = (FatalExit, s)"
    by (simp add: boot_recover_def run_and_then mutate demote_doc_def x sim_parts)
qed

section \<open>Crates to run it with\<close>

text \<open>Codecs that keep the bytes, a counter for the nonces, and signatures that spell out signer and text.\<close>

definition plain_sign :: "actor \<Rightarrow> string \<Rightarrow> string" where
  "plain_sign a ch = ''-----BEGIN SSH SIGNATURE-----'' @ (if a = Alice then ''a'' else if a = Bob then ''b'' else ''c'') @ ch @ ''!''"

definition plain_key :: "actor \<Rightarrow> byte list" where
  "plain_key a = (case a of Alice \<Rightarrow> [0] | Bob \<Rightarrow> [1] | Charlie \<Rightarrow> [2])"

definition plain_parse :: "string \<Rightarrow> string + sshsig" where
  "plain_parse t =
     (let body = drop 29 t in
      Ok \<lparr>sig_namespace = approval_namespace,
          sig_public_key = plain_key (if hd body = CHR ''a'' then Alice else if hd body = CHR ''b'' then Bob else Charlie),
          sig_blob = as_bytes (butlast (tl body))\<rparr>)"

definition plain_crates :: crates where
  "plain_crates = undefined\<lparr>debug_str := (\<lambda>s. s), b64url_encode := map char_of_byte,
     hexlower_encode := map char_of_byte, hexlower_decode := Some,
     openssh_key := (\<lambda>t. if t = alice_pub then Ok (plain_key Alice) else Ok (plain_key Bob)),
     sshsig_parse := plain_parse, sshsig_verify := (\<lambda>k ns msg sg. msg = sig_blob sg)\<rparr>"

definition plain_nonce :: "nat \<Rightarrow> nonce" where
  "plain_nonce i = replicate 32 (word_of_nat i)"

lemma plain_trims:
  "trim alice_pub = alice_pub" "trim bob_pub = bob_pub" "trim (plain_sign a ch) = plain_sign a ch"
proof -
  have starts: "trim_start s = s" if "strip_any ws_encodings s = None" for s
    using that by (simp add: trim_start_def trim_start_by.simps)
  have ends: "trim_end s = s" if "strip_any (map rev ws_encodings) (rev s) = None" for s
    using that by (simp add: trim_end_def trim_start_by.simps)
  show "trim alice_pub = alice_pub" "trim bob_pub = bob_pub"
    by (simp_all add: trim_def starts ends alice_pub_def bob_pub_def ws_encodings_def strip_prefix_def char_of_def)
  show "trim (plain_sign a ch) = plain_sign a ch"
    by (simp add: trim_def starts ends plain_sign_def ws_encodings_def strip_prefix_def char_of_def)
qed

lemma plain_signs: "signs plain_crates plain_sign plain_key"
proof -
  have "starts_with ''-----BEGIN SSH SIGNATURE-----'' (plain_sign a ch)" for a ch
    by (simp add: starts_with_def plain_sign_def)
  moreover have "plain_parse (plain_sign a ch) = Ok \<lparr>sig_namespace = approval_namespace, sig_public_key = plain_key a, sig_blob = as_bytes ch\<rparr>" for a ch
    by (cases a) (simp_all add: plain_parse_def plain_sign_def Let_def)
  moreover have "inj plain_key" by (auto simp: inj_def plain_key_def split: actor.splits)
  moreover have "bob_pub \<noteq> alice_pub" by (simp add: alice_pub_def bob_pub_def)
  ultimately show ?thesis by (simp add: signs_def plain_crates_def plain_trims)
qed

lemma plain_crypto: "n \<le> 256 \<Longrightarrow> sim_crypto plain_crates plain_nonce plain_sign plain_key n"
proof -
  assume n: "n \<le> 256"
  have "inj char_of_byte" by (rule inj_on_inverseI [of _ byte_of_char]) simp
  moreover have "inj_on plain_nonce {..<n}"
  proof (rule inj_onI)
    fix i j
    assume ij: "i \<in> {..<n}" "j \<in> {..<n}" "plain_nonce i = plain_nonce j"
    then have "(word_of_nat i :: byte) = word_of_nat j" by (simp add: plain_nonce_def replicate_eq_replicate)
    then show "i = j" using ij n by (auto dest: word_of_nat_eqD)
  qed
  ultimately show ?thesis
    using plain_signs by (simp add: sim_crypto_def hex_codec_def plain_crates_def plain_nonce_def as_bytes_def o_def)
qed

section \<open>Properties\<close>

text \<open>
  C2. The daemon never surprises the simulated users.  Whatever the actors do (opening under any of the
  three profiles, fresh or replayed signatures of both approvers and of a stranger, renewals, closings,
  waits and reap passes, in any order), every answer and every status line of the daemon is what the
  shadow model predicts, as long as the clock has not moved more than twenty hours since the start and
  the times to live are those of the table.  The nonces drawn are assumed distinct, base64 injective,
  and a signature valid for exactly the text it was made over.
\<close>

theorem shadow_predicts_daemon:
  assumes "sim_crypto X u sign key (length actions)"
    and "list_all action_ok actions" "sum_list (map action_secs actions) \<le> horizon"
  shows "replay X u sign actions = Some (Ok ())"
proof (rule sim_new_tracks [OF assms(1)])
  fix sm
  assume sm: "sim_new X u = Some sm" "tracks X u key 0 sm" "sm_now sm = sim_start"
  then obtain sm' where "replay_from sign 0 actions sm = Some (Ok sm')"
    using replay_tracks [OF assms(1) sm(2), of actions 0] assms(2,3) by auto
  then show ?thesis using sm(1) by (simp add: replay_def)
qed

theorem shadow_predicts_daemon_witness:
  "let actions = [ActOpen Duo 0, ActApprove Alice Fresh, ActApprove Charlie Fresh, ActApprove Bob Fresh, ActAdvance 91, ActPass] in
     sim_crypto plain_crates plain_nonce plain_sign plain_key (length actions) \<and>
     replay plain_crates plain_nonce plain_sign actions = Some (Ok ())"
  using plain_crypto [of "Suc (Suc (Suc (Suc (Suc (Suc 0)))))"]
    shadow_predicts_daemon [of plain_crates plain_nonce plain_sign plain_key
      "[ActOpen Duo 0, ActApprove Alice Fresh, ActApprove Charlie Fresh, ActApprove Bob Fresh, ActAdvance 91, ActPass]"]
  by (simp add: ttls_def horizon_def)

text \<open>
  C4. Renewals alone stop the daemon.  A four-hour grant renewed for four hours every two hours is
  renewed eleven times, each time with the daemon's blessing; after the last one the daemon can no
  longer load its own state file: status, close, the reap pass and the recovery at boot all fail, now
  and at any later time, and the channel stays open.
\<close>

theorem renewals_wedge_daemon:
  assumes "sim_crypto X u sign key (length renewals)"
  shows "\<exists>sm0 sm r sm'. sim_new X u = Some sm0 \<and> replay_from sign 0 (butlast renewals) sm0 = Some (Ok sm) \<and>
    sim_act sign (last renewals) sm = Some (Ok (Some r, sm')) \<and> re_result r = ResOk \<and>
    fk_open (fw_drivers (sy_world (sm_sys sm')) Ssh) \<and>
    (\<forall>now. run (dispatch (sm_daemon sm') OpStatus now) (sm_sys sm') = (FatalExit, sm_sys sm') \<and>
       run (dispatch (sm_daemon sm') (OpClose sim_host_name) now) (sm_sys sm') = (FatalExit, sm_sys sm') \<and>
       run (dm_pass (sm_daemon sm') now) (sm_sys sm') = (FatalExit, sm_sys sm') \<and>
       run (boot_recover (sm_daemon sm') now) (sm_sys sm') = (FatalExit, sm_sys sm'))"
proof (rule opened_four_hours [OF assms])
  fix sm0 sm1
  assume new: "sim_new X u = Some sm0" "replay_from sign 0 [ActOpen Solo 3, ActApprove Alice Fresh] sm0 = Some (Ok sm1)"
    "holds_open X u key 0 sm1"
  have hex: "hex_codec X" using assms by (simp add: sim_crypto_def)
  have cut: "butlast renewals = [ActOpen Solo 3, ActApprove Alice Fresh] @
      (concat (replicate 10 [ActAdvance 7200, ActRenew 3]) @ [ActAdvance 7200])" "last renewals = ActRenew 3"
    using concat_replicate_snoc [of 10 "[ActAdvance 7200, ActRenew 3]"] by (simp_all add: renewals_def butlast_append)
  obtain sm2 where sm2: "replay_from sign (Suc (Suc 0)) (concat (replicate 10 [ActAdvance 7200, ActRenew 3])) sm1 = Some (Ok sm2)"
    "holds_open X u key 10 sm2"
    using renewed_times [OF hex new(3), of 10 sign "Suc (Suc 0)"] by auto
  obtain sm where sm: "sim_step sign (ActAdvance 7200) sm2 = Some (Ok sm)"
    using advance_open [OF hex sm2(2), of sign] by auto
  have "replay_from sign 0 (butlast renewals) sm0 = Some (Ok sm)"
    unfolding cut(1) replay_from_append new(2) using sm2(1) sm by (simp add: bind_both_def)
  moreover have "\<exists>r sm'. sim_act sign (last renewals) sm = Some (Ok (Some r, sm')) \<and> re_result r = ResOk \<and>
    fk_open (fw_drivers (sy_world (sm_sys sm')) Ssh) \<and>
    (\<forall>now. run (dispatch (sm_daemon sm') OpStatus now) (sm_sys sm') = (FatalExit, sm_sys sm') \<and>
       run (dispatch (sm_daemon sm') (OpClose sim_host_name) now) (sm_sys sm') = (FatalExit, sm_sys sm') \<and>
       run (dm_pass (sm_daemon sm') now) (sm_sys sm') = (FatalExit, sm_sys sm') \<and>
       run (boot_recover (sm_daemon sm') now) (sm_sys sm') = (FatalExit, sm_sys sm'))"
  proof (rule renew_open [OF hex sm2(2) _ sm])
    fix r s' n w
    assume r: "sim_act sign (ActRenew 3) sm = Some (Ok (Some r, sm\<lparr>sm_sys := s'\<rparr>))" "re_result r = ResOk"
      "sm_daemon sm = the_daemon X u key" "sm_now sm = sim_start + 7200 * Suc 10"
      "stands X sim_host_name (opened sim_start (sm_now sm + 14400), n, w) s'" "switch w True"
    have "sim_start + 86400 < sm_now sm + 14400" using r(4) by simp
    note wedged = overlong_wedges [OF hex this r(5), of u key]
    have "fk_open (fw_drivers (sy_world s') Ssh)" using r(5,6) by (auto simp: stands_def switch_def)
    then show ?thesis
      unfolding cut(2) using r(1,2,3) wedged by (intro exI [of _ r] exI [of _ "sm\<lparr>sm_sys := s'\<rparr>"]) simp
  qed simp
  ultimately show ?thesis using new(1) by blast
qed (simp add: renewals_def)

theorem renewals_wedge_daemon_witness:
  "\<exists>sm0 sm r sm'. sim_new plain_crates plain_nonce = Some sm0 \<and>
     replay_from plain_sign 0 (butlast renewals) sm0 = Some (Ok sm) \<and>
     sim_act plain_sign (last renewals) sm = Some (Ok (Some r, sm')) \<and> re_result r = ResOk \<and>
     run (dispatch (sm_daemon sm') OpStatus 0) (sm_sys sm') = (FatalExit, sm_sys sm')"
proof -
  have "sim_crypto plain_crates plain_nonce plain_sign plain_key (length renewals)"
    by (rule plain_crypto) (simp add: renewals_def sum_list_replicate length_concat)
  from renewals_wedge_daemon [OF this] show ?thesis by blast
qed

end
