(* ===== verification/Daemon_Props.thy ===== *)
theory Daemon_Props
  imports Sim_Shadow
begin

text \<open>
  What the daemon promises over any life of the process: requests, passes and boots in any order, each
  complete or cut short by a crash at any access.
\<close>

section \<open>Lives of the daemon\<close>

text \<open>
  \<open>runs_request\<close> and the two rules after it let the program stop at any configuration it passes through,
  which covers both a completed operation and a crash in it.  \<open>runs_fade\<close> is the world losing access on
  its own (a dead-man firing, a host rebooting).
\<close>

inductive daemon_runs ::
    "'w daemon \<Rightarrow> proto_json \<Rightarrow> ('w \<Rightarrow> 'w \<Rightarrow> bool) \<Rightarrow> 'w sys \<Rightarrow> 'w sys \<Rightarrow> bool"
  for dm :: "'w daemon" and J :: proto_json and fades :: "'w \<Rightarrow> 'w \<Rightarrow> bool" and s0 :: "'w sys" where
  runs_start: "daemon_runs dm J fades s0 s0"
| runs_request: "daemon_runs dm J fades s0 s \<Longrightarrow> now < clock_end \<Longrightarrow>
    passes (answer_line dm J orig line now, s) (p, s') \<Longrightarrow> daemon_runs dm J fades s0 s'"
| runs_pass: "daemon_runs dm J fades s0 s \<Longrightarrow> now < clock_end \<Longrightarrow>
    passes (dm_pass dm now, s) (p', s') \<Longrightarrow> daemon_runs dm J fades s0 s'"
| runs_boot: "daemon_runs dm J fades s0 s \<Longrightarrow> now < clock_end \<Longrightarrow>
    passes (boot_recover dm now, s) (p', s') \<Longrightarrow> daemon_runs dm J fades s0 s'"
| runs_fade: "daemon_runs dm J fades s0 s \<Longrightarrow> fades (sy_world s) w \<Longrightarrow> daemon_runs dm J fades s0 (s\<lparr>sy_world := w\<rparr>)"

definition fresh_start :: "('w \<Rightarrow> (channel \<times> string) set) \<Rightarrow> 'w sys \<Rightarrow> bool" where
  "fresh_start access s \<longleftrightarrow> dk_file (sy_store s) = Absent \<and> access (sy_world s) = {}"

definition only_fades :: "('w \<Rightarrow> (channel \<times> string) set) \<Rightarrow> ('w \<Rightarrow> 'w \<Rightarrow> bool) \<Rightarrow> bool" where
  "only_fades access fades \<longleftrightarrow> (\<forall>w w'. fades w w' \<longrightarrow> access w' \<subseteq> access w)"

context access_contract
begin

lemma sound_passes: "wp sound Q p s \<Longrightarrow> passes (p, s) (p', s') \<Longrightarrow> sound s'"
  using wp_passes [of "(p, s)" "(p', s')" sound Q] wp_inv [of sound Q p' s'] by simp

lemma sound_fresh: "fresh_start access s \<Longrightarrow> sound s"
  by (simp add: fresh_start_def sound_def well_stored_def file_ok_def)

lemma sound_runs:
  assumes "daemon_runs dm J fades s0 s" "only_fades access fades" "fresh_start access s0"
  shows "sound s"
  using assms(1)
proof (induction rule: daemon_runs.induct)
  case runs_start
  show ?case by (rule sound_fresh [OF assms(3)])
next
  case (runs_request s now orig line p s')
  then show ?case using sound_passes [OF wp_answer_line] by blast
next
  case (runs_pass s now p' s')
  then show ?case using sound_passes [OF wp_dm_pass] by blast
next
  case (runs_boot s now p' s')
  then show ?case using sound_passes [OF wp_boot_recover] by blast
next
  case (runs_fade s w)
  then have "access w \<subseteq> access (sy_world s)" using assms(2) by (simp add: only_fades_def)
  then show ?case using runs_fade.IH by (auto simp: sound_def well_stored_def recorded_def)
qed

lemma sound_records:
  assumes "sound s" "(c, k) \<in> access (sy_world s)"
  obtains doc r where "dk_file (sy_store s) = Holds doc" "bt_get (doc_grants doc) k = Some r"
    "gr_state r \<noteq> ''pending''" "c \<in> set (gr_channels r)"
proof -
  have "c \<in> set (shape_channels (recorded s k))" using assms by (simp add: sound_def)
  then show ?thesis
    using that by (auto simp: recorded_def file_shape_def doc_shape_def record_shape_def
        split: file_state.splits option.splits if_splits)
qed

end

section \<open>The harness's daemon keeps the contract\<close>

definition sim_access :: "fake_world \<Rightarrow> (channel \<times> string) set" where
  "sim_access w = {(c, k). k = sim_host_name \<and> c = Ssh \<and> fk_open (fw_drivers w c)}"

lemma loaded_policy_ok: "model_ok (loaded_policy key)"
proof -
  have "authority_built (profile_authority p) \<and> authority_resolved (loaded_policy key) (profile_authority p)" for p
    by (cases p) (auto simp: profile_authority_def signer_def authority_built_def authority_resolved_def loaded_policy_def
        bt_contains_def actor_id_def wait_secs_def from_secs_def nanos_per_sec_def)
  moreover have "group_edge (loaded_policy key) = {}" by (auto simp: group_edge_def group_children_def loaded_policy_def)
  ultimately show ?thesis
    by (auto simp: model_ok_def loaded_policy_def split: if_splits)
qed

lemmas sim_calls = fake_drivers_get fake_calls default_renew_def fake_take_secret_def noop_deadman_def sim_access_def

interpretation sim_contract: access_contract "sim_daemon X u (loaded_policy key)" sim_access for X u key
  by unfold_locales
    (auto simp: sim_daemon_def sim_inventory_def sim_host_def sim_calls loaded_policy_ok split: if_splits)

section \<open>A life that opens a channel\<close>

definition demo_json :: "op \<Rightarrow> op \<Rightarrow> proto_json" where
  "demo_json a b = \<lparr>pj_probe = (\<lambda>_. Ok (Some proto_version)),
     pj_request = (\<lambda>line. Ok (wire_of_op (if line = ''o'' then a else b))), pj_print = (\<lambda>_. [])\<rparr>"

definition demo_open :: op where
  "demo_open = OpOpen sim_host_name ''4h'' (Some (sim_profile_id Solo))"

definition demo_approve :: op where
  "demo_approve = OpApprove sim_host_name
     (plain_sign Alice (request_challenge plain_crates (plain_nonce 0) 14400 sim_start))"

abbreviation demo_daemon :: "fake_world daemon" where
  "demo_daemon \<equiv> the_daemon plain_crates plain_nonce plain_key"

lemma demo_lines:
  "answer_line demo_daemon (demo_json demo_open demo_approve) Operator ''o'' now = dispatch demo_daemon demo_open now"
  "answer_line demo_daemon (demo_json demo_open demo_approve) Operator ''a'' now = dispatch demo_daemon demo_approve now"
  by (simp_all add: answer_line_def decode_request_def demo_json_def op_of_wire_of_op max_line_bytes_def trim_end_matches_def char_of_def)

lemma demo_life:
  obtains s where "daemon_runs demo_daemon (demo_json demo_open demo_approve) (\<lambda>_ _. False) sim_sys s"
    "(Ssh, sim_host_name) \<in> sim_access (sy_world s)"
proof -
  have X: "hex_codec plain_crates" "signs plain_crates plain_sign plain_key" "\<And>i. length (plain_nonce i) = 32"
    using plain_crypto [of 1] by (simp_all add: sim_crypto_def)
  have b: "sim_start < 2 ^ 62" "sim_start < sim_start + approval_window_secs" "sim_start \<le> sim_start" "sim_start < 2 ^ 61"
    "(0 :: nat) < 14400" "(14400 :: nat) \<le> 14400" "sim_time sim_start < clock_end"
    using sim_time_end [of sim_start] by (simp_all add: sim_start_def approval_window_secs_def)
  let ?w = "sy_world sim_sys" and ?t = "sim_time sim_start"
  have s0: "stands plain_crates sim_host_name (Closed, 0, ?w) sim_sys" by (simp add: stands_def sim_sys_def)
  have sw: "switch ?w False" by (simp add: switch_def sim_sys_def fake_new_def)
  obtain r where "does plain_crates (dispatch demo_daemon demo_open ?t) (Closed, 0, ?w) (Return r)
      (waiting Solo {||} sim_start (plain_nonce 0) 14400, Suc 0, ?w)"
    using run_open [where u = plain_nonce and key = plain_key and p = Solo and n = 0 and w = ?w, OF X(1) four_hours b(1) X(3)]
    by (auto simp: demo_open_def)
  then obtain s1 where s1: "passes (dispatch demo_daemon demo_open ?t, sim_sys) (Return r, s1)"
    "stands plain_crates sim_host_name (waiting Solo {||} sim_start (plain_nonce 0) 14400, Suc 0, ?w) s1"
    using s0 unfolding goes_def by blast
  obtain r' w' where "does plain_crates (dispatch demo_daemon demo_approve ?t)
      (waiting Solo {||} sim_start (plain_nonce 0) 14400, Suc 0, ?w) (Return r') (opened sim_start (sim_start + 14400), Suc 0, w')"
    "switch w' True"
    using run_approve [where a = Alice and u = plain_nonce and p = Solo and sat = "{||}" and n = "Suc 0" and nonce = "plain_nonce 0",
        OF X(1,2) b(2-6) X(3) sw _ refl]
    by (auto simp: demo_approve_def request_challenge_def met_def)
  then obtain s2 where s2: "passes (dispatch demo_daemon demo_approve ?t, s1) (Return r', s2)" "sy_world s2 = w'" "switch w' True"
    using s1(2) unfolding goes_def stands_def by fastforce
  have "daemon_runs demo_daemon (demo_json demo_open demo_approve) (\<lambda>_ _. False) sim_sys s1"
    by (rule runs_request [where orig = Operator and line = "''o''", OF runs_start b(7)]) (unfold demo_lines, rule s1(1))
  then have "daemon_runs demo_daemon (demo_json demo_open demo_approve) (\<lambda>_ _. False) sim_sys s2"
    by (rule runs_request [where orig = Operator and line = "''a''", OF _ b(7)]) (unfold demo_lines, rule s2(1))
  then show ?thesis using that s2(2,3) by (auto simp: sim_access_def switch_def)
qed

lemma demo_fresh: "only_fades sim_access (\<lambda>_ _. False)" "fresh_start sim_access sim_sys"
  by (simp_all add: only_fades_def fresh_start_def sim_sys_def sim_access_def fake_new_def)

section \<open>Properties\<close>

text \<open>
  C1. The daemon never hides access.  Start with no state file and nothing open; let requests (from
  either socket, with any bytes), reap passes and boots happen one after another in any order, each of them
  stopping at any of its accesses to the store, the journal, the drivers (a whole drive of a host's channels being
  one access) or the backstop, with any of these failing.
  Whenever a channel to a host is really open, the state file holds a record for that host that is past
  approval and names the channel, so the next pass, close or boot knows what to undo.  The drivers are
  assumed to open at most the channel they are asked for and to have shut it when a revert succeeds.
\<close>

theorem daemon_never_hides_access:
  assumes "access_contract dm access" "only_fades access fades" "fresh_start access s0"
    and "daemon_runs dm J fades s0 s" "(c, k) \<in> access (sy_world s)"
  shows "\<exists>doc r. dk_file (sy_store s) = Holds doc \<and> bt_get (doc_grants doc) k = Some r \<and>
    gr_state r \<noteq> ''pending'' \<and> c \<in> set (gr_channels r)"
  using access_contract.sound_records [OF assms(1) access_contract.sound_runs [OF assms(1,4,2,3)] assms(5)] by blast

theorem daemon_never_hides_access_witness:
  "\<exists>s. daemon_runs demo_daemon (demo_json demo_open demo_approve) (\<lambda>_ _. False) sim_sys s \<and>
     (Ssh, sim_host_name) \<in> sim_access (sy_world s) \<and>
     (\<exists>doc r. dk_file (sy_store s) = Holds doc \<and> bt_get (doc_grants doc) sim_host_name = Some r \<and>
        gr_state r \<noteq> ''pending'' \<and> Ssh \<in> set (gr_channels r))"
proof -
  obtain s where s: "daemon_runs demo_daemon (demo_json demo_open demo_approve) (\<lambda>_ _. False) sim_sys s"
    "(Ssh, sim_host_name) \<in> sim_access (sy_world s)"
    by (rule demo_life)
  from daemon_never_hides_access [OF sim_contract.access_contract_axioms demo_fresh s] s show ?thesis by blast
qed



end
