(* ===== verification/Daemon_Race.thy ===== *)
theory Daemon_Race
  imports Sim_Shadow
begin

text \<open>
  Two threads of the daemon.  The listeners and the pass loop run beside each other and share the
  store, whose lock covers one access at a time; a schedule says whose access is next.  \<open>close\<close> reads
  the grant's status in one access and cancels the request in another, and expects the request to be
  there still.
\<close>

section \<open>Threads\<close>

definition thread :: "('s, 'a) prog \<Rightarrow> ('s, unit) prog" where
  "thread p = and_then p (\<lambda>_. Return ())"

lemma and_then_assoc: "and_then (and_then p k) l = and_then p (\<lambda>a. and_then (k a) l)"
proof (induction p)
  case (Step f)
  have "and_then (and_then (snd (f s)) k) l = and_then (snd (f s)) (\<lambda>a. and_then (k a) l)" for s
    by (rule Step [of "f s"]) (auto intro: snds.intros simp: prod_set_defs)
  then show ?case by (simp add: fun_eq_iff prod_eq_iff)
qed simp_all

lemma thread_store:
  "thread (and_then (lift_store f) k) = and_then (lift_store f) (\<lambda>a. thread (k a))"
  by (simp add: thread_def and_then_assoc)

lemma turn_store:
  assumes "f (sy_store s) = (Some (Ok a), dk)" "i < length ps" "ps ! i = and_then (lift_store f) k"
  shows "schedule (i # js) (ps, s) = schedule js (ps[i := k a], s\<lparr>sy_store := dk\<rparr>)"
  using assms by (simp add: schedule.simps lift_store_def try_act_def)

declare schedule.simps(2) [simp del]

lemma turn_read:
  assumes "lone_daemon dm X nm" "loads g" "stands X nm (g, n, w) s" "i < length ps"
    "ps ! i = thread (and_then (load_registry dm) k)"
  shows "schedule (i # js) (ps, s) = schedule js (ps[i := thread (k (lone nm g))], s)"
proof -
  have "dm_crates dm = X" using assms(1) by (simp add: lone_daemon_def)
  then show ?thesis
    using turn_store [where ps = ps and i = i and s = s and js = js and dk = "sy_store s"
        and f = "\<lambda>dk. case store_read dk of (r, dk) \<Rightarrow> (Some r, dk)" and a = "snapshot X (lone nm g)"
        and k = "\<lambda>doc. thread (and_then (case from_parts X (dm_inventory dm) doc of Inl e \<Rightarrow> Fatal | Inr registry \<Rightarrow> Return registry) k)"]
      lone_reads [OF assms(3)] assms(4,5) lone_loads [OF assms(1,2)]
    by (simp add: load_registry_def thread_def and_then_assoc)
qed

lemma turn_mutate:
  assumes "stands X nm (g, n, w) s" "f (snapshot X (lone nm g)) = Some (Ok (a, snapshot X (lone nm g')))" "solid g'"
    "i < length ps" "ps ! i = thread (and_then (lift_store (store_mutate f)) k)"
  shows "\<exists>s'. stands X nm (g', n, w) s' \<and>
    (\<forall>js. schedule (i # js) (ps, s) = schedule js (ps[i := thread (k a)], s'))"
proof -
  obtain dk where "store_mutate f (sy_store s) = (Some (Ok a), dk)" "stands X nm (g', n, w) (s\<lparr>sy_store := dk\<rparr>)"
    using lone_mutates [where f = f and a = a and g' = g', OF assms(1-3)] by blast
  then show ?thesis
    using turn_store [where f = "store_mutate f" and ps = ps and i = i and k = "\<lambda>a. thread (k a)"] assms(4,5)
    unfolding thread_store by blast
qed

section \<open>A request that is closed twice\<close>

lemma closed_loads: "solid Closed" "loads Closed"
  by (rule solid_grants(1), rule loads_grants(1))

lemma cancel_doc:
  assumes "lone_daemon dm X nm" "loads g"
  shows "commit_op dm (reg_cancel_pending nm) (snapshot X (lone nm g)) =
    (if is_Pending g then Some (Ok (Ok (), snapshot X (lone nm Closed)))
     else Some (Ok (Err (GrantErr NotPending), snapshot X (lone nm g))))"
proof -
  have "dm_crates dm = X" using assms(1) by (simp add: lone_daemon_def)
  then show ?thesis
    using lone_loads [OF assms] by (cases g) (simp_all add: commit_op_def reg_cancel_pending_def grant_cancel_pending_def)
qed

lemma reap_lapsed_doc:
  assumes "lone_daemon dm X nm" "loads g" "grant_status \<lparr>g_state = g\<rparr> now = StApprovalExpired"
  shows "\<exists>found. reap_doc dm now (snapshot X (lone nm g)) = Some (Ok (found, snapshot X (lone nm Closed)))"
proof -
  have "dm_crates dm = X" using assms(1) by (simp add: lone_daemon_def)
  moreover obtain q d t c p sat where "g = Pending q d t c p sat"
    using assms(3) by (cases g) (auto simp: grant_status_def split: option.splits if_splits)
  moreover have "reap_one now nm \<lparr>g_state = g\<rparr> = Some (None, \<lparr>g_state = g\<rparr>)" by (simp add: reap_one_def assms(3))
  moreover have "reap_pending_one now nm \<lparr>g_state = Pending q d t c p sat\<rparr> =
      Some (Some \<lparr>ep_host = nm, ep_requested_at = q, ep_approval_deadline = d\<rparr>, \<lparr>g_state = Closed\<rparr>)"
    using assms(3) \<open>g = Pending q d t c p sat\<close>
    by (simp add: reap_pending_one_def grant_parts_def grant_cancel_pending_def)
  ultimately show ?thesis
    using lone_loads [OF assms(1,2)]
    by (simp add: reap_doc_def reap_to_revert_def reap_expired_pending_def sweep_registry_def) (simp add: lone_def)
qed

text \<open>The closing thread after its first access, and after its second when the request is gone.\<close>

lemma close_after_read:
  assumes "lone_daemon dm X nm" "loads (Pending q d t c p sat)" "stands X nm (Pending q d t c p sat, n, w) s"
    "i < length ps" "ps ! i = thread (dm_close dm nm now)"
  shows "schedule (i # js) (ps, s) = schedule js (ps[i := thread (cancel_request dm nm now)], s)"
  using turn_read [OF assms(1-4) assms(5) [unfolded dm_close_def], of js]
  by (simp add: grant_status_def split: option.splits)

text \<open>What \<open>cancel_request\<close> does with the answer of the registry.\<close>

definition cancelled :: "string \<Rightarrow> system_time \<Rightarrow> registry_error + unit \<Rightarrow> ('w sys, response) prog" where
  "cancelled nm now r = and_then (expect r) (\<lambda>_. and_then (journal_event now (EvRequestCancelled nm)) (\<lambda>_.
     Return (response_ok\<lparr>re_outcome := Some ''cancelled''\<rparr>)))"

lemma cancel_turn:
  assumes "lone_daemon dm X nm" "loads g" "stands X nm (g, n, w) s" "i < length ps" "ps ! i = thread (cancel_request dm nm now)"
  shows "\<exists>s'. stands X nm (if is_Pending g then Closed else g, n, w) s' \<and>
    (\<forall>js. schedule (i # js) (ps, s) =
       schedule js (ps[i := thread (cancelled nm now (if is_Pending g then Ok () else Err (GrantErr NotPending)))], s'))"
proof -
  let ?f = "commit_op dm (reg_cancel_pending nm)" and ?g = "if is_Pending g then Closed else g"
  let ?r = "if is_Pending g then Ok () else Err (GrantErr NotPending)"
  have p: "ps ! i = thread (and_then (lift_store (store_mutate ?f)) (cancelled nm now))"
    using assms(5) by (simp add: cancel_request_def cancelled_def [abs_def] with_registry_def)
  have g: "solid ?g" using assms(2) closed_loads by (simp add: loads_def)
  have "?f (snapshot X (lone nm g)) = Some (Ok (?r, snapshot X (lone nm ?g)))"
    by (simp add: cancel_doc [OF assms(1,2)])
  from turn_mutate [where f = ?f and a = ?r and g' = ?g, OF assms(3) this g assms(4) p] show ?thesis .
qed

lemma gone_panics: "thread (cancelled nm now (Err e)) = Panic"
  by (simp add: cancelled_def thread_def expect_def)

lemma cancel_after_gone:
  assumes "lone_daemon dm X nm" "stands X nm (Closed, n, w) s" "i < length ps" "ps ! i = thread (cancel_request dm nm now)"
  shows "\<exists>s'. schedule [i] (ps, s) = (ps[i := Panic], s')"
  using cancel_turn [OF assms(1) closed_loads(2) assms(2-4)] by (auto simp: gone_panics)

lemma close_alone:
  assumes "lone_daemon dm X nm" "loads (Pending q d t c p sat)" "stands X nm (Pending q d t c p sat, n, w) s"
  shows "fst (run (dm_close dm nm now) s) = Done (response_ok\<lparr>re_outcome := Some ''cancelled''\<rparr>)"
proof -
  have "goes X nm (with_registry dm (reg_cancel_pending nm)) (Pending q d t c p sat, n, w) (Return (Ok ())) (Closed, n, w)"
    by (rule goes_commit [OF assms(1,2) _ closed_loads(1)]) (simp add: reg_cancel_pending_def grant_cancel_pending_def)
  then have "goes X nm (dm_close dm nm now) (Pending q d t c p sat, n, w)
      (Return (response_ok\<lparr>re_outcome := Some ''cancelled''\<rparr>)) (Closed, n, w)"
    unfolding dm_close_def
    by (intro goes_bind [OF goes_load [OF assms(1,2)]])
      (auto simp: grant_status_def cancel_request_def expect_def split: option.splits
        intro!: goes_bind goes_refl goes_journal(1))
  then show ?thesis using goes_run [OF _ assms(3)] by (metis fst_conv run.simps(1))
qed

section \<open>Property\<close>

text \<open>
  C5. Closing a pending request can panic when another thread gets in between.  On a daemon of one host
  with a recorded pending request, \<open>close\<close> run alone cancels it.  Of two closes that both read the
  request before either cancels it, the second panics; and so does a close that reads a request whose
  approval window has lapsed, when the pass reaps it before the close cancels it.
\<close>

theorem close_races:
  assumes "lone_daemon dm X nm" "loads (Pending q d t c p sat)" "stands X nm (Pending q d t c p sat, n, w) s"
  shows "fst (run (dm_close dm nm now) s) = Done (response_ok\<lparr>re_outcome := Some ''cancelled''\<rparr>) \<and>
    (\<exists>ps s'. schedule [0, 1, 0, 1] ([thread (dm_close dm nm now), thread (dm_close dm nm now)], s) = (ps, s') \<and> ps ! 1 = Panic) \<and>
    (d \<le> now \<longrightarrow> (\<exists>ps s'. schedule [0, 1, 0] ([thread (dm_close dm nm now), thread (dm_pass dm now)], s) = (ps, s') \<and> ps ! 0 = Panic))"
proof (intro conjI impI)
  let ?g = "Pending q d t c p sat" and ?close = "thread (dm_close dm nm now)" and ?cancel = "thread (cancel_request dm nm now)"
  show "fst (run (dm_close dm nm now) s) = Done (response_ok\<lparr>re_outcome := Some ''cancelled''\<rparr>)"
    by (rule close_alone [OF assms])
  obtain s1 r where s1: "stands X nm (Closed, n, w) s1"
    "\<forall>js. schedule (0 # js) ([?cancel, ?cancel], s) = schedule js ([r, ?cancel], s1)"
    using cancel_turn [OF assms, of 0 "[?cancel, ?cancel]" now] by auto
  have "schedule [0, 1, 0, 1] ([?close, ?close], s) = schedule [1] ([r, ?cancel], s1)"
    using close_after_read [OF assms, of 0 "[?close, ?close]"] close_after_read [OF assms, of 1 "[?cancel, ?close]"] s1(2)
    by simp
  then show "\<exists>ps s'. schedule [0, 1, 0, 1] ([?close, ?close], s) = (ps, s') \<and> ps ! 1 = Panic"
    using cancel_after_gone [OF assms(1) s1(1), of 1 "[r, ?cancel]" now] by (auto intro!: exI [of _ "[r, Panic]"])
  assume "d \<le> now"
  then have st: "grant_status \<lparr>g_state = ?g\<rparr> now = StApprovalExpired"
    by (simp add: grant_status_def duration_since_def)
  obtain found where found: "reap_doc dm now (snapshot X (lone nm ?g)) = Some (Ok (found, snapshot X (lone nm Closed)))"
    using reap_lapsed_doc [OF assms(1,2) st] by blast
  obtain k where pass: "dm_pass dm now = and_then (lift_store (store_mutate (reap_doc dm now))) k"
    unfolding dm_pass_def by blast
  obtain s2 r2 where s2: "stands X nm (Closed, n, w) s2"
    "\<forall>js. schedule (1 # js) ([?cancel, thread (dm_pass dm now)], s) = schedule js ([?cancel, r2], s2)"
    using turn_mutate [where f = "reap_doc dm now" and ps = "[?cancel, thread (dm_pass dm now)]" and i = 1 and k = k,
        OF assms(3) found closed_loads(1)] pass by auto
  have "schedule [0, 1, 0] ([?close, thread (dm_pass dm now)], s) = schedule [0] ([?cancel, r2], s2)"
    using close_after_read [OF assms, of 0 "[?close, thread (dm_pass dm now)]"] s2(2) by simp
  then show "\<exists>ps s'. schedule [0, 1, 0] ([?close, thread (dm_pass dm now)], s) = (ps, s') \<and> ps ! 0 = Panic"
    using cancel_after_gone [OF assms(1) s2(1), of 0 "[?cancel, r2]" now] by (auto intro!: exI [of _ "[Panic, r2]"])
qed

theorem close_races_witness:
  "\<exists>s. stands plain_crates sim_host_name (waiting Solo {||} 0 (plain_nonce 0) 900, 0, sy_world sim_sys) s \<and>
     (let dm = the_daemon plain_crates plain_nonce plain_key; now = sim_time (2 * approval_window_secs);
          close = thread (dm_close dm sim_host_name now) in
      (\<exists>ps s'. schedule [0, 1, 0, 1] ([close, close], s) = (ps, s') \<and> ps ! 1 = Panic) \<and>
      (\<exists>ps s'. schedule [0, 1, 0] ([close, thread (dm_pass dm now)], s) = (ps, s') \<and> ps ! 0 = Panic))"
proof -
  let ?g = "waiting Solo {||} 0 (plain_nonce 0) 900"
  let ?s = "sim_sys\<lparr>sy_store := \<lparr>dk_file = Holds (snapshot plain_crates (lone sim_host_name ?g)), dk_faults = []\<rparr>\<rparr>"
  have hex: "hex_codec plain_crates" by (simp add: hex_codec_def plain_crates_def as_bytes_def o_def)
  have g: "loads ?g" by (rule loads_grants(2)) (simp_all add: plain_nonce_def)
  have st: "stands plain_crates sim_host_name (?g, 0, sy_world sim_sys) ?s" by (simp add: stands_def sim_sys_def)
  show ?thesis
    using close_races [OF sim_lone [OF hex, of plain_nonce "loaded_policy plain_key"] g [unfolded waiting_def]
        st [unfolded waiting_def], of "sim_time (2 * approval_window_secs)"] st
    by (intro exI [of _ ?s]) (simp add: Let_def waiting_def)
qed

end
