(* ===== verification/Device_Driver.thy ===== *)
theory Device_Driver
  imports Firmware Store Channel
begin

text \<open>
  The device channel on the daemon's side: \<open>daemon/src/device_state.rs\<close>, the ledger of sequence numbers
  and open nonces, and \<open>daemon/src/drivers/device.rs\<close>, the driver that delivers signed tokens over the line
  protocol.  A driver operation threads the ledger's file, the nonces drawn and the state of the link; a
  panic is \<open>None\<close>.  The texts of the driver's errors are left out: \<open>device_failure\<close> names their causes.
\<close>

section \<open>The ledger\<close>

record device_record =
  dr_next_seq :: "64 word"
  dr_open_nonce :: "string option"

definition device_record_default :: device_record where
  "device_record_default = \<lparr>dr_next_seq = 0, dr_open_nonce = None\<rparr>"

record device_doc =
  dv_version :: nat
  dv_devices :: "(string, device_record) btree_map"

definition device_doc_default :: device_doc where
  "device_doc_default = \<lparr>dv_version = ledger_version, dv_devices = []\<rparr>"

definition hex16 :: "byte list \<Rightarrow> string" where
  "hex16 i = concat (map (\<lambda>b. [hex_char (unat b div 16), hex_char (unat b mod 16)]) i)"

definition device_read :: "device_doc disk \<Rightarrow> (ledger_error + device_doc) \<times> device_doc disk" where
  "device_read = ledger_read dv_version device_doc_default"

text \<open>\<open>entry(..).or_default()\<close>.\<close>

definition device_entry :: "byte list \<Rightarrow> device_doc \<Rightarrow> device_record" where
  "device_entry i doc =
     (case bt_get (dv_devices doc) (hex16 i) of Some r \<Rightarrow> r | None \<Rightarrow> device_record_default)"

definition put_record :: "byte list \<Rightarrow> device_record \<Rightarrow> device_doc \<Rightarrow> device_doc" where
  "put_record i r doc = doc\<lparr>dv_devices := bt_insert (hex16 i) r (dv_devices doc)\<rparr>"

text \<open>The lock, then the read, then what is done with the document.\<close>

definition device_locked ::
    "(device_doc \<Rightarrow> device_doc disk \<Rightarrow> (ledger_error + 'a) \<times> device_doc disk)
      \<Rightarrow> device_doc disk \<Rightarrow> (ledger_error + 'a) \<times> device_doc disk" where
  "device_locked f dk =
     (case ledger_lock dk of
        (Inl e, dk) \<Rightarrow> (Err e, dk)
      | (Inr _, dk) \<Rightarrow>
          (case device_read dk of
             (Inl e, dk) \<Rightarrow> (Err e, dk)
           | (Inr doc, dk) \<Rightarrow> f doc dk))"

definition reserve_seq :: "byte list \<Rightarrow> device_doc disk \<Rightarrow> (ledger_error + 64 word) \<times> device_doc disk" where
  "reserve_seq i =
     device_locked (\<lambda>doc dk.
       let r = device_entry i doc; seq = dr_next_seq r + 1 in
       case ledger_write (put_record i (r\<lparr>dr_next_seq := seq\<rparr>) doc) dk of
         (Inl e, dk) \<Rightarrow> (Err e, dk)
       | (Inr _, dk) \<Rightarrow> (Ok seq, dk))"

definition set_open_nonce ::
    "byte list \<Rightarrow> byte list \<Rightarrow> device_doc disk \<Rightarrow> (ledger_error + unit) \<times> device_doc disk" where
  "set_open_nonce i nonce =
     device_locked (\<lambda>doc. ledger_write
       (put_record i ((device_entry i doc)\<lparr>dr_open_nonce := Some (hex16 nonce)\<rparr>) doc))"

definition clear_open_nonce :: "byte list \<Rightarrow> device_doc disk \<Rightarrow> (ledger_error + unit) \<times> device_doc disk" where
  "clear_open_nonce i =
     device_locked (\<lambda>doc dk.
       case bt_get (dv_devices doc) (hex16 i) of
         Some r \<Rightarrow> ledger_write (put_record i (r\<lparr>dr_open_nonce := None\<rparr>) doc) dk
       | None \<Rightarrow> (Ok (), dk))"

text \<open>The stored hexadecimal text, pair by pair; \<open>None\<close> is a slice off a character boundary.\<close>

primrec nonce_bytes :: "string \<Rightarrow> nat \<Rightarrow> nat \<Rightarrow> (ledger_error + byte list) option" where
  "nonce_bytes hex i 0 = Some (Ok [])"
| "nonce_bytes hex i (Suc n) =
     (if \<not> is_char_boundary (2 * i) hex \<or> \<not> is_char_boundary (2 * i + 2) hex then None
      else case u8_from_hex2 (hex ! (2 * i)) (hex ! (2 * i + 1)) of
             None \<Rightarrow> Some (Err LedgerInvalid)
           | Some b \<Rightarrow> map_option (\<lambda>r. bind_ok r (\<lambda>bs. Ok (b # bs))) (nonce_bytes hex (Suc i) n))"

definition read_nonce :: "string option \<Rightarrow> (ledger_error + byte list option) option" where
  "read_nonce held =
     (case held of
        None \<Rightarrow> Some (Ok None)
      | Some hex \<Rightarrow>
          if length hex \<noteq> 32 then Some (Err LedgerInvalid)
          else map_option (\<lambda>r. bind_ok r (\<lambda>bs. Ok (Some bs))) (nonce_bytes hex 0 16))"

definition open_nonce ::
    "byte list \<Rightarrow> device_doc disk \<Rightarrow> ((ledger_error + byte list option) \<times> device_doc disk) option" where
  "open_nonce i dk =
     (case device_locked (\<lambda>doc dk. (Ok (Option.bind (bt_get (dv_devices doc) (hex16 i)) dr_open_nonce), dk)) dk of
        (Inl e, dk) \<Rightarrow> Some (Err e, dk)
      | (Inr held, dk) \<Rightarrow> map_option (\<lambda>r. (r, dk)) (read_nonce held))"

section \<open>The driver's steps\<close>

datatype device_failure =
    NoDeviceConfig
  | TtlExceedsWire
  | LedgerFailed ledger_error
  | NoSigningKey
  | SigningFailed wire_error
  | RenderFailed wire_error
  | LinkFailed string
  | Refused string
  | Unexpected line_reply
  | Unparseable wire_error
  | ForeignAck
  | ImplausibleTime
  | FailStateDrift
  | FailStateMissing
  | LoadMissing
  | LoadOff
  | LoadOn
  | ForeignOpen
  | NotReadOpen
  | NothingDelivered
  | StillOpen

text \<open>
  What the driver is built from: the signing keys, the source of nonces by draw, and one transaction of the
  line protocol over the link, whose state is \<open>'d\<close>.
\<close>

record 'd device_deps =
  dd_wire :: wire_crates
  dd_ed25519_seed :: "byte list option"
  dd_p256_scalar :: "byte list option"
  dd_nonce :: "nat \<Rightarrow> byte list"
  dd_transact :: "host \<Rightarrow> device_config \<Rightarrow> string \<Rightarrow> 'd \<Rightarrow> (string + string) \<times> 'd"

record 'd device_world =
  dw_state :: "device_doc disk"
  dw_draws :: nat
  dw_link :: 'd

type_synonym ('d, 'a) drive = "'d device_world \<Rightarrow> ((device_failure + 'a) \<times> 'd device_world) option"

definition give :: "'a \<Rightarrow> ('d, 'a) drive" where
  "give a w = Some (Ok a, w)"

definition fail_with :: "device_failure \<Rightarrow> ('d, 'a) drive" where
  "fail_with e w = Some (Err e, w)"

definition drive_then :: "('d, 'a) drive \<Rightarrow> ('a \<Rightarrow> ('d, 'b) drive) \<Rightarrow> ('d, 'b) drive" where
  "drive_then p f w =
     (case p w of
        None \<Rightarrow> None
      | Some (r, w) \<Rightarrow> (case r of Inl e \<Rightarrow> Some (Inl e, w) | Inr a \<Rightarrow> f a w))"

definition from_result :: "device_failure + 'a \<Rightarrow> ('d, 'a) drive" where
  "from_result r w = Some (r, w)"

definition expect_device :: "'a option \<Rightarrow> ('d, 'a) drive" where
  "expect_device x w = map_option (\<lambda>a. (Ok a, w)) x"

definition on_ledger ::
    "(device_doc disk \<Rightarrow> (ledger_error + 'a) \<times> device_doc disk) \<Rightarrow> ('d, 'a) drive" where
  "on_ledger f w =
     (case f (dw_state w) of (r, dk) \<Rightarrow> Some (map_err LedgerFailed r, w\<lparr>dw_state := dk\<rparr>))"

definition read_open_nonce :: "byte list \<Rightarrow> ('d, byte list option) drive" where
  "read_open_nonce i w =
     map_option (\<lambda>(r, dk). (map_err LedgerFailed r, w\<lparr>dw_state := dk\<rparr>)) (open_nonce i (dw_state w))"

definition draw_nonce :: "'d device_deps \<Rightarrow> ('d, byte list) drive" where
  "draw_nonce D w = Some (Ok (dd_nonce D (dw_draws w)), w\<lparr>dw_draws := Suc (dw_draws w)\<rparr>)"

definition device_of :: "host \<Rightarrow> ('d, device_config) drive" where
  "device_of h = from_result (ok_or NoDeviceConfig (h_device h))"

definition wire_ttl :: "apply_ctx \<Rightarrow> ('d, 32 word) drive" where
  "wire_ttl ctx =
     (if ctx_ttl_secs ctx < 2 ^ 32 then give (word_of_nat (ctx_ttl_secs ctx)) else fail_with TtlExceedsWire)"

section \<open>The signer\<close>

definition signer_key :: "'d device_deps \<Rightarrow> device_alg \<Rightarrow> device_failure + signing_key" where
  "signer_key D alg =
     ok_or NoSigningKey
       (case alg of
          DevEd25519 \<Rightarrow> map_option Ed25519Seed (dd_ed25519_seed D)
        | DevP256 \<Rightarrow> map_option P256Scalar (dd_p256_scalar D))"

definition signer_version :: "device_alg \<Rightarrow> byte" where
  "signer_version alg = (case alg of DevEd25519 \<Rightarrow> ver_ed25519 | DevP256 \<Rightarrow> ver_p256)"

definition next_cap :: "'d device_deps \<Rightarrow> device_config \<Rightarrow> byte list \<Rightarrow> 32 word \<Rightarrow> ('d, string) drive" where
  "next_cap D c nonce ttl =
     drive_then (expect_device (device_id_bytes c)) (\<lambda>i.
     drive_then (on_ledger (reserve_seq i)) (\<lambda>seq.
     drive_then (from_result (signer_key D (dev_alg c))) (\<lambda>key.
     from_result (map_err SigningFailed (sign_capability_token (dd_wire D) key
       \<lparr>cap_ver = signer_version (dev_alg c), cap_device_id = i, cap_grant_nonce = nonce,
        cap_capability = dev_capability c, cap_ttl_secs = ttl, cap_issued_seq = seq\<rparr>)))))"

definition next_rvk :: "'d device_deps \<Rightarrow> device_config \<Rightarrow> byte list \<Rightarrow> ('d, string) drive" where
  "next_rvk D c nonce =
     drive_then (expect_device (device_id_bytes c)) (\<lambda>i.
     drive_then (on_ledger (reserve_seq i)) (\<lambda>seq.
     drive_then (from_result (signer_key D (dev_alg c))) (\<lambda>key.
     from_result (map_err SigningFailed (sign_revocation_token (dd_wire D) key
       \<lparr>rvk_ver = signer_version (dev_alg c), rvk_device_id = i, rvk_grant_nonce = nonce,
        rvk_issued_seq = seq\<rparr>)))))"

section \<open>Commands\<close>

definition device_send :: "'d device_deps \<Rightarrow> host \<Rightarrow> device_config \<Rightarrow> line_command \<Rightarrow> ('d, string) drive" where
  "device_send D h c cmd =
     drive_then (from_result (map_err RenderFailed (render_command cmd))) (\<lambda>line.
     \<lambda>w. case dd_transact D h c line (dw_link w) of
           (r, d) \<Rightarrow> Some (map_err LinkFailed r, w\<lparr>dw_link := d\<rparr>))"

definition device_report :: "'d device_deps \<Rightarrow> host \<Rightarrow> device_config \<Rightarrow> ('d, line_report) drive" where
  "device_report D h c =
     drive_then (device_send D h c CmdStatus) (\<lambda>reply.
     case parse_reply reply of
       Inr (State report) \<Rightarrow> give report
     | Inr (Nak reason) \<Rightarrow> fail_with (Refused reason)
     | Inr other \<Rightarrow> fail_with (Unexpected other)
     | Inl e \<Rightarrow> fail_with (Unparseable e))"

definition deliver_cap ::
    "'d device_deps \<Rightarrow> host \<Rightarrow> device_config \<Rightarrow> byte list \<Rightarrow> 32 word \<Rightarrow> ('d, unit) drive" where
  "deliver_cap D h c nonce ttl =
     drive_then (next_cap D c nonce ttl) (\<lambda>token.
     drive_then (device_send D h c (CmdToken token)) (\<lambda>reply.
     case parse_reply reply of
       Inr (AckOpen echoed remaining) \<Rightarrow>
         if echoed \<noteq> nonce then fail_with ForeignAck
         else if remaining = 0 \<or> unat ttl < unat remaining then fail_with ImplausibleTime
         else give ()
     | Inr (Nak reason) \<Rightarrow> fail_with (Refused reason)
     | Inr other \<Rightarrow> fail_with (Unexpected other)
     | Inl e \<Rightarrow> fail_with (Unparseable e)))"

text \<open>The second oracle of a host that declares an actuator.\<close>

definition check_actuator :: "actuator_spec \<Rightarrow> line_report \<Rightarrow> bool \<Rightarrow> device_failure + unit" where
  "check_actuator a report expect_open =
     (let declared = (case act_fail_state a of
            Inventory.Energized \<Rightarrow> Wire_Line.Energized | Inventory.DeEnergized \<Rightarrow> Wire_Line.DeEnergized);
          boot_energized = (rp_reason report = Some CloseBoot \<and> act_fail_state a = Inventory.Energized) in
      case rp_fail report of
        None \<Rightarrow> Err FailStateMissing
      | Some reported \<Rightarrow>
          if reported \<noteq> declared then Err FailStateDrift
          else if act_current_sense a \<and> rp_load report = None then Err LoadMissing
          else case rp_load report of
                 None \<Rightarrow> Ok ()
               | Some load \<Rightarrow>
                   if load = expect_open \<or> load \<and> boot_energized then Ok ()
                   else if expect_open then Err LoadOff else Err LoadOn)"

definition check_declared :: "device_config \<Rightarrow> line_report \<Rightarrow> bool \<Rightarrow> ('d, unit) drive" where
  "check_declared c report expect_open =
     (case dev_actuator c of
        None \<Rightarrow> give ()
      | Some a \<Rightarrow> from_result (check_actuator a report expect_open))"

section \<open>The driver\<close>

definition device_apply :: "'d device_deps \<Rightarrow> host \<Rightarrow> apply_ctx \<Rightarrow> ('d, unit) drive" where
  "device_apply D h ctx =
     drive_then (device_of h) (\<lambda>c.
     drive_then (expect_device (device_id_bytes c)) (\<lambda>i.
     drive_then (wire_ttl ctx) (\<lambda>ttl.
     drive_then (draw_nonce D) (\<lambda>nonce.
     drive_then (on_ledger (set_open_nonce i nonce)) (\<lambda>_.
     drive_then (deliver_cap D h c nonce ttl) (\<lambda>_.
     drive_then (device_report D h c) (\<lambda>report.
     drive_then (check_declared c report True) (\<lambda>_.
     case rp_open report of
       Some (n, remaining) \<Rightarrow>
         if n = nonce \<and> 0 < remaining then give ()
         else if n \<noteq> nonce then fail_with ForeignOpen
         else fail_with NotReadOpen
     | None \<Rightarrow> fail_with NotReadOpen))))))))"

definition device_renew :: "'d device_deps \<Rightarrow> host \<Rightarrow> apply_ctx \<Rightarrow> ('d, unit) drive" where
  "device_renew D h ctx =
     drive_then (device_of h) (\<lambda>c.
     drive_then (expect_device (device_id_bytes c)) (\<lambda>i.
     drive_then (wire_ttl ctx) (\<lambda>ttl.
     drive_then (read_open_nonce i) (\<lambda>ours.
     case ours of
       None \<Rightarrow> fail_with NothingDelivered
     | Some nonce \<Rightarrow> deliver_cap D h c nonce ttl))))"

text \<open>The grant a revocation names: the recorded one, else whatever the device reports open.\<close>

definition nonce_to_revoke :: "'d device_deps \<Rightarrow> host \<Rightarrow> device_config \<Rightarrow> byte list \<Rightarrow> ('d, byte list option) drive" where
  "nonce_to_revoke D h c i =
     drive_then (read_open_nonce i) (\<lambda>ours.
     case ours of
       Some n \<Rightarrow> give (Some n)
     | None \<Rightarrow> drive_then (device_report D h c) (\<lambda>report. give (map_option fst (rp_open report))))"

definition revoke_named ::
    "'d device_deps \<Rightarrow> host \<Rightarrow> device_config \<Rightarrow> byte list \<Rightarrow> byte list \<Rightarrow> ('d, unit) drive" where
  "revoke_named D h c i nonce =
     drive_then (next_rvk D c nonce) (\<lambda>token.
     drive_then (device_send D h c (CmdRevoke token)) (\<lambda>reply.
     drive_then (case parse_reply reply of
         Inr AckClosed \<Rightarrow> give ()
       | Inr (Nak reason) \<Rightarrow> fail_with (Refused reason)
       | Inr other \<Rightarrow> fail_with (Unexpected other)
       | Inl e \<Rightarrow> fail_with (Unparseable e)) (\<lambda>_.
     drive_then (device_report D h c) (\<lambda>report.
     drive_then (check_declared c report False) (\<lambda>_.
     if rp_open report \<noteq> None then fail_with StillOpen
     else on_ledger (clear_open_nonce i))))))"

definition device_revert :: "'d device_deps \<Rightarrow> host \<Rightarrow> ('d, unit) drive" where
  "device_revert D h =
     drive_then (device_of h) (\<lambda>c.
     drive_then (expect_device (device_id_bytes c)) (\<lambda>i.
     drive_then (nonce_to_revoke D h c i) (\<lambda>target.
     case target of
       None \<Rightarrow> give ()
     | Some nonce \<Rightarrow> revoke_named D h c i nonce)))"

definition device_verify :: "'d device_deps \<Rightarrow> host \<Rightarrow> ('d, channel_state) drive" where
  "device_verify D h =
     drive_then (device_of h) (\<lambda>c.
     drive_then (expect_device (device_id_bytes c)) (\<lambda>i.
     drive_then (read_open_nonce i) (\<lambda>ours.
     drive_then (device_report D h c) (\<lambda>report.
     drive_then (check_declared c report (rp_open report \<noteq> None)) (\<lambda>_.
     case rp_open report of
       None \<Rightarrow> give ChClosed
     | Some (n, _) \<Rightarrow> if ours = Some n then give ChOpen else fail_with ForeignOpen)))))"

definition device_reestablish :: "'d device_deps \<Rightarrow> host \<Rightarrow> ('d, channel_state) drive" where
  "device_reestablish D h =
     drive_then (device_of h) (\<lambda>c.
     drive_then (expect_device (device_id_bytes c)) (\<lambda>i.
     drive_then (read_open_nonce i) (\<lambda>ours.
     drive_then (device_report D h c) (\<lambda>report.
     give (case rp_open report of
         Some (n, remaining) \<Rightarrow> if ours = Some n \<and> 0 < remaining then ChOpen else ChClosed
       | None \<Rightarrow> ChClosed)))))"

section \<open>The transport\<close>

text \<open>
  The production transport dispatches to one exchange on a serial line or one http request, both of which
  are arguments; a serial reply is its first line, an http body loses its trailing white space.
\<close>

definition exec_transact ::
    "crates \<Rightarrow> (device_serial \<Rightarrow> string \<Rightarrow> 'd \<Rightarrow> (string + string) \<times> 'd)
      \<Rightarrow> (device_http \<Rightarrow> string \<Rightarrow> 'd \<Rightarrow> (string + nat \<times> string) \<times> 'd)
      \<Rightarrow> host \<Rightarrow> device_config \<Rightarrow> string \<Rightarrow> 'd \<Rightarrow> (string + string) \<times> 'd" where
  "exec_transact X fd_transact curl_request h c cmd d =
     (case dev_serial c of
        Some serial \<Rightarrow>
          (case fd_transact serial (cmd @ [nl]) d of
             (r, d) \<Rightarrow> (bind_ok r (\<lambda>reply. Ok (case str_lines reply of [] \<Rightarrow> [] | l # _ \<Rightarrow> l)), d))
      | None \<Rightarrow>
          (case dev_http c of
             Some http \<Rightarrow>
               (case curl_request http cmd d of
                  (r, d) \<Rightarrow>
                    (bind_ok r (\<lambda>(status, body).
                       if status \<noteq> 200
                       then Err (''device '' @ debug_str X (h_name h) @ '' command endpoint returned HTTP '' @ show_nat status)
                       else Ok (trim_end body)), d))
           | None \<Rightarrow> (Err (''device '' @ debug_str X (h_name h) @ '' has no usable transport (validated at load; this is a bug)''), d)))"

end
