(* ===== verification/Device_Link.thy ===== *)
theory Device_Link
  imports Device_Driver Device_Props
begin

text \<open>
  The two ends of the device channel together: the daemon's driver of \<open>Device_Driver\<close> talking to the engine
  of \<open>Embed\<close>, over a link that may lose either direction while anyone else may talk to the device, time
  passes and the device restarts.
\<close>

section \<open>The ledger's content\<close>

definition ledger_doc :: "device_doc disk \<Rightarrow> device_doc" where
  "ledger_doc dk = (case dk_file dk of Holds doc \<Rightarrow> doc | _ \<Rightarrow> device_doc_default)"

definition recorded_nonce :: "byte list \<Rightarrow> device_doc disk \<Rightarrow> string option" where
  "recorded_nonce i dk = Option.bind (bt_get (dv_devices (ledger_doc dk)) (hex16 i)) dr_open_nonce"

definition last_seq :: "byte list \<Rightarrow> device_doc disk \<Rightarrow> 64 word" where
  "last_seq i dk = dr_next_seq (device_entry i (ledger_doc dk))"

lemma device_locked_cases:
  obtains (failed) e dk1 where "device_locked f dk = (Err e, dk1)" "dk_file dk1 = dk_file dk"
  | (read) dk1 where "device_locked f dk = f (ledger_doc dk) dk1" "dk_file dk1 = dk_file dk"
proof -
  obtain l dk0 where l: "next_fault dk = (l, dk0)" by fastforce
  obtain r dk1 where r: "next_fault dk0 = (r, dk1)" by fastforce
  have files: "dk_file dk0 = dk_file dk" "dk_file dk1 = dk_file dk"
    using next_fault_file [of dk] next_fault_file [of dk0] l r by simp_all
  show thesis
  proof (cases l)
    case True
    then have "device_locked f dk = (Err LedgerLocked, dk0)" using l by (simp add: device_locked_def ledger_lock_def)
    then show thesis using failed files by blast
  next
    case False
    then have eq: "device_locked f dk =
        (case device_read dk0 of (Inl e, dk) \<Rightarrow> (Err e, dk) | (Inr doc, dk) \<Rightarrow> f doc dk)"
      using l by (simp add: device_locked_def ledger_lock_def)
    have rd: "device_read dk0 =
        (if r then Err LedgerIo
         else case dk_file dk of
                Absent \<Rightarrow> Ok device_doc_default
              | Unparsable \<Rightarrow> Err LedgerInvalid
              | Holds doc \<Rightarrow> if dv_version doc \<noteq> ledger_version then Err LedgerInvalid else Ok doc, dk1)"
      using r files by (simp add: device_read_def ledger_read_def)
    have "(\<exists>e. device_locked f dk = (Err e, dk1)) \<or> device_locked f dk = f (ledger_doc dk) dk1"
      unfolding eq rd by (auto simp: ledger_doc_def split: file_state.splits)
    then show thesis using failed read files by blast
  qed
qed

lemma device_locked_rule:
  assumes "device_locked f dk = (r, dk')"
    and "\<And>e. r = Err e \<Longrightarrow> dk_file dk' = dk_file dk \<Longrightarrow> P"
    and "\<And>dk1. f (ledger_doc dk) dk1 = (r, dk') \<Longrightarrow> dk_file dk1 = dk_file dk \<Longrightarrow> P"
  shows P
  using device_locked_cases [of f dk] assms by (metis prod.inject)

lemma ledger_write_rule:
  assumes "ledger_write doc dk = (r, dk')"
    and "\<And>e. r = Err e \<Longrightarrow> dk_file dk' = dk_file dk \<Longrightarrow> P"
    and "r = Ok () \<Longrightarrow> dk_file dk' = Holds doc \<Longrightarrow> P"
  shows P
proof -
  obtain l dk0 where l: "next_fault dk = (l, dk0)" by fastforce
  have "dk_file dk0 = dk_file dk" using next_fault_file [of dk] l by simp
  then show P using assms l by (cases l) (auto simp: ledger_write_def)
qed

lemma ledger_doc_eq: "dk_file dk' = dk_file dk \<Longrightarrow> ledger_doc dk' = ledger_doc dk"
  by (simp add: ledger_doc_def)

lemma device_entry_put [simp]: "device_entry i (put_record i r doc) = r"
  by (simp add: device_entry_def put_record_def)

lemma recorded_entry: "recorded_nonce i dk = dr_open_nonce (device_entry i (ledger_doc dk))"
  by (simp add: recorded_nonce_def device_entry_def device_record_default_def split: option.splits)

text \<open>A write of one device's record, seen through the other's: the two coincide or it is untouched.\<close>

lemma device_entry_other: "hex16 j \<noteq> hex16 i \<Longrightarrow> device_entry j (put_record i r doc) = device_entry j doc"
  by (simp add: device_entry_def put_record_def)

lemma device_entry_same: "hex16 j = hex16 i \<Longrightarrow> device_entry j doc = device_entry i doc"
  by (simp add: device_entry_def)

lemma reserve_seq_effect:
  assumes "reserve_seq i dk = (r, dk')"
  shows "(\<forall>n. r = Ok n \<longrightarrow> n = last_seq i dk + 1 \<and> last_seq i dk' = n) \<and>
    (is_ok r \<or> dk_file dk' = dk_file dk) \<and> recorded_nonce i dk' = recorded_nonce i dk \<and>
    (\<forall>j. last_seq j dk' = last_seq j dk \<or> hex16 j = hex16 i \<and> is_ok r \<and> last_seq j dk' = last_seq j dk + 1)"
  using assms unfolding reserve_seq_def
proof (rule device_locked_rule)
  fix e
  assume "r = Err e" "dk_file dk' = dk_file dk"
  then show ?thesis by (simp add: recorded_nonce_def last_seq_def ledger_doc_def)
next
  fix dk1
  let ?e = "device_entry i (ledger_doc dk)"
  let ?doc = "put_record i (?e\<lparr>dr_next_seq := dr_next_seq ?e + 1\<rparr>) (ledger_doc dk)"
  assume f: "(let r = ?e; seq = dr_next_seq r + 1
        in case ledger_write (put_record i (r\<lparr>dr_next_seq := seq\<rparr>) (ledger_doc dk)) dk1 of
           (Inl e, dk) \<Rightarrow> (Err e, dk) | (Inr _, dk) \<Rightarrow> (Ok seq, dk)) = (r, dk')"
    and fl: "dk_file dk1 = dk_file dk"
  obtain q dk2 where q: "ledger_write ?doc dk1 = (q, dk2)" by fastforce
  show ?thesis
    using q
  proof (rule ledger_write_rule)
    fix e
    assume "q = Err e" "dk_file dk2 = dk_file dk1"
    then show ?thesis using f q fl by (auto simp: Let_def recorded_nonce_def last_seq_def ledger_doc_def)
  next
    assume w: "q = Ok ()" "dk_file dk2 = Holds ?doc"
    then have r: "r = Ok (dr_next_seq ?e + 1)" "dk' = dk2" using f q by (simp_all add: Let_def)
    have doc: "ledger_doc dk2 = ?doc" using w by (simp add: ledger_doc_def)
    have "last_seq j dk2 = (if hex16 j = hex16 i then last_seq j dk + 1 else last_seq j dk)" for j
      using device_entry_other [of j i] device_entry_same [of j i]
      by (cases "hex16 j = hex16 i") (simp_all add: last_seq_def doc)
    then show ?thesis using r by (simp add: recorded_entry doc last_seq_def)
  qed
qed

lemma set_open_nonce_effect:
  assumes "set_open_nonce i nonce dk = (r, dk')"
  shows "(is_ok r \<longrightarrow> recorded_nonce i dk' = Some (hex16 nonce)) \<and> (is_ok r \<or> dk_file dk' = dk_file dk) \<and>
    (\<forall>j. last_seq j dk' = last_seq j dk)"
  using assms unfolding set_open_nonce_def
proof (rule device_locked_rule)
  fix e
  assume "r = Err e" "dk_file dk' = dk_file dk"
  then show ?thesis by (simp add: last_seq_def ledger_doc_def)
next
  fix dk1
  let ?e = "device_entry i (ledger_doc dk)"
  let ?doc = "put_record i (?e\<lparr>dr_open_nonce := Some (hex16 nonce)\<rparr>) (ledger_doc dk)"
  assume w: "ledger_write ?doc dk1 = (r, dk')" and fl: "dk_file dk1 = dk_file dk"
  show ?thesis
    using w
  proof (rule ledger_write_rule)
    assume r: "r = Ok ()" "dk_file dk' = Holds ?doc"
    have "last_seq j dk' = last_seq j dk" for j
      using r device_entry_other [of j i] device_entry_same [of j i]
      by (cases "hex16 j = hex16 i") (auto simp: last_seq_def ledger_doc_def)
    then show ?thesis using r by (simp add: recorded_entry ledger_doc_def)
  qed (auto simp: fl last_seq_def ledger_doc_def)
qed

lemma clear_open_nonce_effect:
  assumes "clear_open_nonce i dk = (r, dk')"
  shows "(is_ok r \<longrightarrow> recorded_nonce i dk' = None) \<and> (is_ok r \<or> dk_file dk' = dk_file dk) \<and>
    (\<forall>j. last_seq j dk' = last_seq j dk)"
  using assms unfolding clear_open_nonce_def
proof (rule device_locked_rule)
  fix e
  assume "r = Err e" "dk_file dk' = dk_file dk"
  then show ?thesis by (simp add: last_seq_def ledger_doc_def)
next
  fix dk1
  let ?e = "device_entry i (ledger_doc dk)"
  let ?doc = "put_record i (?e\<lparr>dr_open_nonce := None\<rparr>) (ledger_doc dk)"
  assume f: "(case bt_get (dv_devices (ledger_doc dk)) (hex16 i) of
        None \<Rightarrow> (Ok (), dk1)
      | Some r \<Rightarrow> ledger_write (put_record i (r\<lparr>dr_open_nonce := None\<rparr>) (ledger_doc dk)) dk1) = (r, dk')"
    and fl: "dk_file dk1 = dk_file dk"
  show ?thesis
  proof (cases "bt_get (dv_devices (ledger_doc dk)) (hex16 i)")
    case None
    then show ?thesis using f fl by (auto simp: recorded_nonce_def last_seq_def ledger_doc_def)
  next
    case (Some e)
    then have "ledger_write ?doc dk1 = (r, dk')" using f by (simp add: device_entry_def)
    then show ?thesis
    proof (rule ledger_write_rule)
      assume r: "r = Ok ()" "dk_file dk' = Holds ?doc"
      have "last_seq j dk' = last_seq j dk" for j
        using r device_entry_other [of j i] device_entry_same [of j i]
        by (cases "hex16 j = hex16 i") (auto simp: last_seq_def ledger_doc_def)
      then show ?thesis using r by (simp add: recorded_entry ledger_doc_def)
    qed (auto simp: fl last_seq_def ledger_doc_def)
  qed
qed

section \<open>Steps that succeed\<close>

lemma drive_then_Ok:
  "drive_then p f w = Some (Ok b, w') \<longleftrightarrow> (\<exists>a w1. p w = Some (Ok a, w1) \<and> f a w1 = Some (Ok b, w'))"
  by (auto simp: drive_then_def split: option.splits sum.splits)

lemma step_Ok [simp]:
  "give a w = Some (Ok b, w') \<longleftrightarrow> b = a \<and> w' = w"
  "fail_with e w \<noteq> Some (Ok b, w')"
  "from_result r w = Some (Ok b, w') \<longleftrightarrow> r = Ok b \<and> w' = w"
  "expect_device x w = Some (Ok b, w') \<longleftrightarrow> x = Some b \<and> w' = w"
  "draw_nonce D w = Some (Ok n, w') \<longleftrightarrow> n = dd_nonce D (dw_draws w) \<and> w' = w\<lparr>dw_draws := Suc (dw_draws w)\<rparr>"
  "device_of h w = Some (Ok c, w') \<longleftrightarrow> h_device h = Some c \<and> w' = w"
  by (auto simp: give_def fail_with_def from_result_def expect_device_def draw_nonce_def device_of_def ok_or_def
      split: option.splits)

lemma wire_ttl_Ok: "wire_ttl ctx w = Some (Ok t, w') \<Longrightarrow> w' = w"
  by (simp add: wire_ttl_def split: if_splits)

lemma check_declared_Ok: "check_declared c report b w = Some (Ok u, w') \<Longrightarrow> w' = w"
  by (simp add: check_declared_def split: option.splits)

lemma on_ledger_Ok:
  "on_ledger f w = Some (Ok a, w') \<longleftrightarrow> (\<exists>dk. f (dw_state w) = (Ok a, dk) \<and> w' = w\<lparr>dw_state := dk\<rparr>)"
  by (auto simp: on_ledger_def map_err_def split: prod.splits sum.splits)

lemma hex16_nth:
  "i < length n \<Longrightarrow> hex16 n ! (2 * i) = hex_char (unat (n ! i) div 16) \<and> hex16 n ! (2 * i + 1) = hex_char (unat (n ! i) mod 16)"
proof (induction n arbitrary: i)
  case (Cons b n)
  then show ?case by (cases i) (auto simp: hex16_def)
qed simp

lemma hex16_length [simp]: "length (hex16 n) = 2 * length n"
  by (induction n) (simp_all add: hex16_def)

lemma hex_char_ascii: "k < 16 \<Longrightarrow> (of_char (hex_char k) :: nat) < 128 \<and> hex_char k \<noteq> CHR ''+''"
  by (auto simp: hex_char_def nth_Cons' split: if_splits)

lemma byte_nibble: "unat (b :: byte) div 16 < 16"
proof -
  have "unat b < 2 ^ LENGTH(8)" by (rule unsigned_less)
  then have "unat b < 16 * 16" unfolding len_bit0 by simp
  then show ?thesis by (rule less_mult_imp_div_less)
qed

lemma nonce_bytes_hex16: "i + k \<le> length n \<Longrightarrow> nonce_bytes (hex16 n) i k = Some (Ok (take k (drop i n)))"
proof (induction k arbitrary: i)
  case (Suc k)
  then have i: "i < length n" by simp
  have bd: "is_char_boundary (2 * j) (hex16 n)" if "j \<le> length n" for j
    using that hex16_nth [of j n] hex_char_ascii [OF byte_nibble, of "n ! j"]
    by (cases "j = length n") (auto simp: is_char_boundary_def)
  have eq: "16 * (unat (n ! i) div 16) + unat (n ! i) mod 16 = unat (n ! i)" by simp
  have "u8_from_hex2 (hex16 n ! (2 * i)) (hex16 n ! (2 * i + 1)) = Some (n ! i)"
    using hex16_nth [OF i] hex_char_ascii [OF byte_nibble, of "n ! i"] hex_digit_char [OF byte_nibble, of "n ! i"] hex_digit_char [of "unat (n ! i) mod 16"]
    by (simp add: u8_from_hex2_def eq del: of_nat_add of_nat_mult)
  moreover have "nonce_bytes (hex16 n) (Suc i) k = Some (Ok (take k (drop (Suc i) n)))" using Suc by simp
  moreover have "take (Suc k) (drop i n) = n ! i # take k (drop (Suc i) n)"
    using i by (simp add: Cons_nth_drop_Suc [symmetric])
  ultimately show ?case using bd [of i] bd [of "Suc i"] Suc.prems by simp
qed simp

lemma read_nonce_hex16: "length n = 16 \<Longrightarrow> read_nonce (Some (hex16 n)) = Some (Ok (Some n))"
  using nonce_bytes_hex16 [of 0 16 n] by (simp add: read_nonce_def)

lemma read_open_nonce_Ok:
  assumes "read_open_nonce i w = Some (Ok ours, w')"
  shows "dw_link w' = dw_link w \<and> dw_draws w' = dw_draws w \<and> dk_file (dw_state w') = dk_file (dw_state w) \<and>
    read_nonce (recorded_nonce i (dw_state w)) = Some (Ok ours)"
proof -
  let ?f = "\<lambda>doc dk. (Ok (Option.bind (bt_get (dv_devices doc) (hex16 i)) dr_open_nonce), dk)"
  obtain r dk' where r: "device_locked ?f (dw_state w) = (r, dk')" by fastforce
  from r show ?thesis
  proof (rule device_locked_rule)
    fix e
    assume "r = Err e"
    then show ?thesis using assms r by (simp add: read_open_nonce_def open_nonce_def map_err_def)
  next
    fix dk1
    assume "(Ok (Option.bind (bt_get (dv_devices (ledger_doc (dw_state w))) (hex16 i)) dr_open_nonce), dk1) = (r, dk')"
      and "dk_file dk1 = dk_file (dw_state w)"
    then show ?thesis
      using assms r
      by (auto simp: read_open_nonce_def open_nonce_def map_err_eq_Ok recorded_nonce_def)
  qed
qed

lemma read_nonce_None: "read_nonce x = Some (Ok None) \<Longrightarrow> x = None"
  by (auto simp: read_nonce_def bind_ok_eq_Ok split: option.splits if_splits)

section \<open>The link\<close>

text \<open>
  What the driver relies on of its transport: a reply it returns is the device's answer to the command sent,
  given in some state the device got into meanwhile; a failed exchange leaves the device wherever its life
  went, the command delivered or not.
\<close>

locale device_link = hal_contract H mark pin now boot spares
  for H :: "'h hal" and mark pin now boot spares +
  fixes D :: "'d device_deps"
    and dev :: "'d \<Rightarrow> device_engine \<times> 'h"
  assumes answered: "dd_transact D h c cmd d = (Ok reply, d') \<Longrightarrow>
      \<exists>e hw line. device_reach (dd_wire D) H boot (dev d) (e, hw) \<and>
        handle_line (dd_wire D) H cmd e hw = Some (line, dev d') \<and> parse_reply reply = parse_reply line"
    and lost: "dd_transact D h c cmd d = (Err m, d') \<Longrightarrow> device_reach (dd_wire D) H boot (dev d) (dev d')"
begin

abbreviation engine :: "'d device_world \<Rightarrow> device_engine" where
  "engine w \<equiv> fst (dev (dw_link w))"

abbreviation hardware :: "'d device_world \<Rightarrow> 'h" where
  "hardware w \<equiv> snd (dev (dw_link w))"

definition sane :: "'d device_world \<Rightarrow> bool" where
  "sane w \<longleftrightarrow> device_inv (engine w) (hardware w)"

lemma device_send_sane:
  assumes "device_send D h c cmd w = Some (r, w')" "sane w"
  shows "sane w' \<and> dw_state w' = dw_state w \<and> dw_draws w' = dw_draws w"
proof (cases "render_command cmd")
  case (Inl e)
  then show ?thesis using assms by (simp add: device_send_def drive_then_def from_result_def map_err_def)
next
  case (Inr line)
  obtain q d where q: "dd_transact D h c line (dw_link w) = (q, d)" by fastforce
  have w': "w' = w\<lparr>dw_link := d\<rparr>" using assms(1) Inr q by (simp add: device_send_def drive_then_def from_result_def)
  have "device_inv (fst (dev d)) (snd (dev d))"
  proof (cases q)
    case (Inl m)
    then show ?thesis using lost [of h c line "dw_link w" m d] q reach_inv assms(2) by (auto simp: sane_def)
  next
    case (Inr reply)
    then obtain e hw out where "device_reach (dd_wire D) H boot (dev (dw_link w)) (e, hw)"
        "handle_line (dd_wire D) H line e hw = Some (out, dev d)"
      using answered [of h c line "dw_link w" reply d] q by blast
    then have "device_reach (dd_wire D) H boot (dev (dw_link w)) (fst (dev d), snd (dev d))"
      by (intro device_line [of "dd_wire D" H boot "dev (dw_link w)" e hw line out "fst (dev d)" "snd (dev d)"]) simp_all
    then show ?thesis using reach_inv assms(2) by (auto simp: sane_def)
  qed
  then show ?thesis using w' by (simp add: sane_def)
qed

lemma device_send_Ok:
  assumes "device_send D h c cmd w = Some (Ok reply, w')" "sane w"
  obtains line e hw e1 hw1 out e' hw' where "render_command cmd = Ok line" "engine_tick H e hw = (e1, hw1)"
    "device_inv e1 hw1" "dispatch_line (dd_wire D) H line e1 hw1 = (out, e', hw')" "dev (dw_link w') = (e', hw')"
    "parse_reply reply = Ok out"
proof -
  obtain line d where t: "render_command cmd = Ok line" "dd_transact D h c line (dw_link w) = (Ok reply, d)"
      "w' = w\<lparr>dw_link := d\<rparr>"
    using assms(1)
    by (cases "render_command cmd"; cases "dd_transact D h c (case render_command cmd of Inr l \<Rightarrow> l) (dw_link w)")
      (auto simp: device_send_def drive_then_def from_result_def map_err_def split: sum.splits)
  obtain e hw ans where a: "device_reach (dd_wire D) H boot (dev (dw_link w)) (e, hw)"
      "handle_line (dd_wire D) H line e hw = Some (ans, dev d)" "parse_reply reply = parse_reply ans"
    using answered [OF t(2)] by blast
  obtain e' hw' where d: "dev d = (e', hw')" by fastforce
  have inv: "device_inv e hw" using reach_inv [OF a(1)] assms(2) by (simp add: sane_def)
  obtain e1 hw1 where tick: "engine_tick H e hw = (e1, hw1)" by fastforce
  have inv1: "device_inv e1 hw1" using effect_inv [OF _ inv] tick_effect [OF tick] by blast
  obtain out e2 hw2 where disp: "dispatch_line (dd_wire D) H line e1 hw1 = (out, e2, hw2)"
    by (cases "dispatch_line (dd_wire D) H line e1 hw1") auto
  note eff = dispatch_effect [OF disp inv1]
  have r: "render_reply out = Ok (reply_text out)" using eff render_reply_short by blast
  then have eq: "ans = reply_text out" "e2 = e'" "hw2 = hw'" using a(2) tick disp d by (simp_all add: handle_line_def)
  have "parse_reply reply = Ok out" using a(3) eff parse_reply_text eq(1) by simp
  with that [OF t(1) tick inv1 disp [unfolded eq(2,3)]] show thesis using d t(3) by simp
qed

lemma device_report_Ok:
  assumes "device_report D h c w = Some (Ok report, w')" "sane w"
  shows "sane w' \<and> dw_state w' = dw_state w \<and> dw_draws w' = dw_draws w \<and>
    map_option fst (rp_open report) = map_option dg_nonce (de_grant (engine w')) \<and>
    (\<forall>n r g. rp_open report = Some (n, r) \<longrightarrow> 0 < r \<longrightarrow> de_grant (engine w') = Some g \<longrightarrow>
       now (hardware w') < dg_expires_at_ms g)"
proof -
  obtain reply w1 where "device_send D h c CmdStatus w = Some (Ok reply, w1)"
      "(case parse_reply reply of Inr (State report) \<Rightarrow> give report | Inr (Nak reason) \<Rightarrow> fail_with (Refused reason)
        | Inr other \<Rightarrow> fail_with (Unexpected other) | Inl e \<Rightarrow> fail_with (Unparseable e)) w1 = Some (Ok report, w')"
    using assms(1) by (auto simp: device_report_def drive_then_Ok)
  then have s: "device_send D h c CmdStatus w = Some (Ok reply, w')" "parse_reply reply = Ok (State report)"
    by (cases "parse_reply reply"; auto split: line_reply.splits)+
  obtain line e1 hw1 out e' hw' where o: "render_command CmdStatus = Ok line" "device_inv e1 hw1"
      "dispatch_line (dd_wire D) H line e1 hw1 = (out, e', hw')" "dev (dw_link w') = (e', hw')" "parse_reply reply = Ok out"
    by (rule device_send_Ok [OF s(1) assms(2)])
  have cmd: "parse_command line = Ok CmdStatus"
    using parse_command_text [of CmdStatus] o(1) by (simp add: render_command_eq ln_push_empty)
  obtain rep hw2 where rep: "engine_report H e1 hw1 = (rep, hw2)" by fastforce
  then have out: "out = State rep" "e' = e1" "hw' = hw2" using o(3) by (simp_all add: dispatch_line_def cmd)
  then have report: "report = rep" using s(2) o(5) by simp
  obtain q hw3 where ld: "hal_seq_load H hw1 = (q, hw3)" by fastforce
  show ?thesis
  proof (cases "de_grant e1")
    case None
    then show ?thesis using device_send_sane [OF s(1) assms(2)] rep ld
      by (auto simp: engine_report_def o(4) out report Let_def)
  next
    case (Some g)
    obtain t hw4 where up: "hal_uptime_ms H hw3 = (t, hw4)" by fastforce
    have shown: "rp_open rep = Some (dg_nonce g, word_of_nat (div_ceil (dg_expires_at_ms g - t) 1000))" "hw2 = hw4"
      using rep ld Some up by (auto simp: engine_report_def remaining_secs_def Let_def)
    have "t < dg_expires_at_ms g" if "(0 :: 64 word) < word_of_nat (div_ceil (dg_expires_at_ms g - t) 1000)"
    proof (rule ccontr)
      assume "\<not> t < dg_expires_at_ms g"
      then have "div_ceil (dg_expires_at_ms g - t) 1000 = 0" by (simp add: div_ceil_def)
      with that show False by simp
    qed
    then show ?thesis
      using device_send_sane [OF s(1) assms(2)] shown Some uptime_law [OF up] by (auto simp: o(4) out report)
  qed
qed

lemma next_token_Ok:
  assumes "next_cap D c nonce t w = Some (Ok token, w') \<or> next_rvk D c nonce w = Some (Ok token, w')"
    and "device_id_bytes c = Some i"
  shows "dw_link w' = dw_link w \<and> recorded_nonce i (dw_state w') = recorded_nonce i (dw_state w)"
proof -
  obtain n dk where "reserve_seq i (dw_state w) = (Ok n, dk)" "w' = w\<lparr>dw_state := dk\<rparr>"
    using assms by (auto simp: next_cap_def next_rvk_def drive_then_Ok on_ledger_Ok)
  then show ?thesis using reserve_seq_effect [of i "dw_state w" "Ok n" dk] by simp
qed

lemma deliver_cap_Ok:
  assumes "deliver_cap D h c nonce t w = Some (Ok u, w')" "device_id_bytes c = Some i" "sane w"
  shows "sane w' \<and> recorded_nonce i (dw_state w') = recorded_nonce i (dw_state w)"
proof -
  obtain token w1 reply w2 where t: "next_cap D c nonce t w = Some (Ok token, w1)"
      and s: "device_send D h c (CmdToken token) w1 = Some (Ok reply, w2)"
      and r: "(case parse_reply reply of
       Inr (AckOpen echoed remaining) \<Rightarrow>
         if echoed \<noteq> nonce then fail_with ForeignAck
         else if remaining = 0 \<or> unat t < unat remaining then fail_with ImplausibleTime
         else give ()
     | Inr (Nak reason) \<Rightarrow> fail_with (Refused reason)
     | Inr other \<Rightarrow> fail_with (Unexpected other)
     | Inl e \<Rightarrow> fail_with (Unparseable e)) w2 = Some (Ok u, w')"
    using assms(1) unfolding deliver_cap_def drive_then_Ok by blast
  have "w' = w2" using r by (cases "parse_reply reply") (auto split: line_reply.splits if_splits)
  moreover have "sane w1" using next_token_Ok [of c nonce t w token w1 i] t assms(2,3) by (simp add: sane_def)
  ultimately show ?thesis
    using next_token_Ok [of c nonce t w token w1 i] device_send_sane [OF s] t assms(2) by simp
qed

lemma sane_pin: "sane w \<Longrightarrow> pin (hardware w) = (de_grant (engine w) \<noteq> None)"
  by (simp add: sane_def device_inv_def)

lemma read_open_step:
  "(case rp_open report of
      Some (n, remaining) \<Rightarrow>
        if n = nonce \<and> 0 < remaining then give () else if n \<noteq> nonce then fail_with ForeignOpen else fail_with NotReadOpen
    | None \<Rightarrow> fail_with NotReadOpen) w = Some (Ok u, w') \<longleftrightarrow>
   w' = w \<and> (\<exists>r. rp_open report = Some (nonce, r) \<and> 0 < r)"
  by (auto split: option.splits)

lemma apply_Ok:
  assumes "device_apply D h ctx w = Some (Ok u, w')" "sane w"
  shows "\<exists>c i g. h_device h = Some c \<and> device_id_bytes c = Some i \<and> de_grant (engine w') = Some g \<and>
    dg_nonce g = dd_nonce D (dw_draws w) \<and> pin (hardware w') \<and> now (hardware w') < dg_expires_at_ms g \<and>
    recorded_nonce i (dw_state w') = Some (hex16 (dg_nonce g))"
proof -
  let ?n = "dd_nonce D (dw_draws w)"
  obtain c i t dk w2 report w3 where c: "h_device h = Some c" "device_id_bytes c = Some i"
      and set: "set_open_nonce i ?n (dw_state w) = (Ok (), dk)"
      and del: "deliver_cap D h c ?n t (w\<lparr>dw_draws := Suc (dw_draws w), dw_state := dk\<rparr>) = Some (Ok (), w2)"
      and rep: "device_report D h c w2 = Some (Ok report, w3)"
      and fin: "check_declared c report True w3 = Some (Ok (), w')" "\<exists>r. rp_open report = Some (?n, r) \<and> 0 < r"
    using assms(1) unfolding device_apply_def drive_then_Ok on_ledger_Ok read_open_step
    by (auto dest!: wire_ttl_Ok)
  have "sane (w\<lparr>dw_draws := Suc (dw_draws w), dw_state := dk\<rparr>)" using assms(2) by (simp add: sane_def)
  note d = deliver_cap_Ok [OF del c(2) this]
  note r = device_report_Ok [OF rep conjunct1 [OF d]]
  have "recorded_nonce i (dw_state w3) = Some (hex16 ?n)"
    using r d set_open_nonce_effect [OF set] by simp
  moreover obtain g where "de_grant (engine w3) = Some g" "dg_nonce g = ?n" using r fin(2) by (cases "de_grant (engine w3)") auto
  moreover have "w' = w3" by (rule check_declared_Ok [OF fin(1)])
  ultimately show ?thesis using c r fin(2) sane_pin [of w3] by auto
qed

lemma clear_step:
  "(if rp_open report \<noteq> None then fail_with StillOpen else on_ledger f) w = Some (Ok u, w') \<longleftrightarrow>
   rp_open report = None \<and> (\<exists>dk. f (dw_state w) = (Ok u, dk) \<and> w' = w\<lparr>dw_state := dk\<rparr>)"
  by (cases "rp_open report") (simp_all add: on_ledger_Ok)

lemma revert_Ok:
  assumes "device_revert D h w = Some (Ok u, w')" "sane w"
  shows "\<exists>c i. h_device h = Some c \<and> device_id_bytes c = Some i \<and> de_grant (engine w') = None \<and>
    \<not> pin (hardware w') \<and> recorded_nonce i (dw_state w') = None"
proof -
  obtain c i target w1 where c: "h_device h = Some c" "device_id_bytes c = Some i"
      and n: "nonce_to_revoke D h c i w = Some (Ok target, w1)"
      and rest: "(case target of None \<Rightarrow> give () | Some nonce \<Rightarrow> revoke_named D h c i nonce) w1 = Some (Ok u, w')"
    using assms(1) by (auto simp: device_revert_def drive_then_Ok)
  obtain ours w0 where o: "read_open_nonce i w = Some (Ok ours, w0)"
      and t: "(case ours of Some n \<Rightarrow> give (Some n)
         | None \<Rightarrow> drive_then (device_report D h c) (\<lambda>report. give (map_option fst (rp_open report)))) w0 = Some (Ok target, w1)"
    using n by (auto simp: nonce_to_revoke_def drive_then_Ok)
  have w0: "sane w0" using read_open_nonce_Ok [OF o] assms(2) by (simp add: sane_def)
  have w1: "sane w1"
    using t w0 device_report_Ok [of h c w0] by (cases ours) (auto simp: drive_then_Ok)
  have "de_grant (engine w') = None \<and> \<not> pin (hardware w') \<and> recorded_nonce i (dw_state w') = None"
  proof (cases target)
    case None
    then have w': "w' = w1" using rest by simp
    have "ours = None" using t None by (cases ours) auto
    then obtain report where "device_report D h c w0 = Some (Ok report, w1)" "rp_open report = None"
      using t None by (auto simp: drive_then_Ok)
    moreover have "recorded_nonce i (dw_state w0) = None"
      using read_open_nonce_Ok [OF o] read_nonce_None \<open>ours = None\<close> by (auto simp: recorded_nonce_def ledger_doc_def)
    ultimately show ?thesis using w' device_report_Ok [of h c w0 report w1] w0 sane_pin [OF w1] by simp
  next
    case (Some nonce)
    then have "revoke_named D h c i nonce w1 = Some (Ok (), w')" using rest by simp
    then obtain token w2 reply w3 w4 report w5 w6 dk u1 u2 where r: "next_rvk D c nonce w1 = Some (Ok token, w2)"
        "device_send D h c (CmdRevoke token) w2 = Some (Ok reply, w3)" "device_report D h c w4 = Some (Ok report, w5)"
        "(case parse_reply reply of Inr AckClosed \<Rightarrow> give () | Inr (Nak reason) \<Rightarrow> fail_with (Refused reason)
           | Inr other \<Rightarrow> fail_with (Unexpected other) | Inl e \<Rightarrow> fail_with (Unparseable e)) w3 = Some (Ok u1, w4)"
        "check_declared c report False w5 = Some (Ok u2, w6)" "rp_open report = None"
        "clear_open_nonce i (dw_state w6) = (Ok (), dk)" "w' = w6\<lparr>dw_state := dk\<rparr>"
      unfolding revoke_named_def drive_then_Ok clear_step by blast
    have "w4 = w3" using r(4) by (cases "parse_reply reply") (auto split: line_reply.splits)
    moreover have "sane w2" using next_token_Ok [of c nonce _ w1 token w2 i] r(1) c(2) w1 by (simp add: sane_def)
    ultimately have "sane w4" using device_send_sane [OF r(2)] by simp
    from device_report_Ok [OF r(3) this] have "de_grant (engine w5) = None" "sane w5" using r(6) by simp_all
    then show ?thesis using sane_pin [of w5] clear_open_nonce_effect [OF r(7)] r(8) check_declared_Ok [OF r(5)] by simp
  qed
  then show ?thesis using c by blast
qed

lemma verify_Ok:
  assumes "device_verify D h w = Some (Ok st, w')" "sane w"
  shows "\<exists>c i. h_device h = Some c \<and> device_id_bytes c = Some i \<and> pin (hardware w') = (st = ChOpen) \<and>
    (st = ChOpen \<longrightarrow> (\<exists>g. de_grant (engine w') = Some g \<and>
       read_nonce (recorded_nonce i (dw_state w')) = Some (Ok (Some (dg_nonce g)))))"
proof -
  obtain c i ours w1 report w2 w3 where c: "h_device h = Some c" "device_id_bytes c = Some i"
      and o: "read_open_nonce i w = Some (Ok ours, w1)" and r: "device_report D h c w1 = Some (Ok report, w2)"
      and k: "check_declared c report (rp_open report \<noteq> None) w2 = Some (Ok (), w3)"
      and v: "(case rp_open report of None \<Rightarrow> give ChClosed
         | Some (n, _) \<Rightarrow> if ours = Some n then give ChOpen else fail_with ForeignOpen) w3 = Some (Ok st, w')"
    using assms(1) by (auto simp: device_verify_def drive_then_Ok)
  have w1: "sane w1" using read_open_nonce_Ok [OF o] assms(2) by (simp add: sane_def)
  note rep = device_report_Ok [OF r w1]
  have w': "w' = w2" and st: "(st = ChOpen) = (rp_open report \<noteq> None)"
      and ours: "st = ChOpen \<Longrightarrow> ours = map_option fst (rp_open report)"
    using v check_declared_Ok [OF k] by (auto split: option.splits if_splits prod.splits)
  have "recorded_nonce i (dw_state w2) = recorded_nonce i (dw_state w)"
    using rep read_open_nonce_Ok [OF o] by (simp add: recorded_nonce_def ledger_doc_def)
  then show ?thesis
    using c st ours rep sane_pin [of w2] read_open_nonce_Ok [OF o] unfolding w'
    by (cases "de_grant (engine w2)") auto
qed

end

section \<open>A wire to one board\<close>

text \<open>
  The firmware at the other end of a wire that may drop the command or the reply of each exchange; an
  exhausted script drops nothing.
\<close>

datatype wire_fault = CommandLost | ReplyLost | Intact

record wired =
  wi_engine :: device_engine
  wi_board :: board
  wi_faults :: "wire_fault list"

definition wired_transact ::
    "wire_crates \<Rightarrow> host \<Rightarrow> device_config \<Rightarrow> string \<Rightarrow> wired \<Rightarrow> (string + string) \<times> wired" where
  "wired_transact X h c cmd d =
     (let fault = (case wi_faults d of [] \<Rightarrow> Intact | f # _ \<Rightarrow> f);
          d = d\<lparr>wi_faults := tl (wi_faults d)\<rparr> in
      if fault = CommandLost then (Err ''no answer'', d)
      else case handle_line X esp32_hal cmd (wi_engine d) (wi_board d) of
             None \<Rightarrow> (Err ''no answer'', d)
           | Some (line, e, b) \<Rightarrow>
               (if fault = ReplyLost then Err ''no answer'' else Ok line, d\<lparr>wi_engine := e, wi_board := b\<rparr>))"

definition wired_device :: "wired \<Rightarrow> device_engine \<times> board" where
  "wired_device d = (wi_engine d, wi_board d)"

lemma wired_link:
  assumes "dd_transact D = wired_transact (dd_wire D)"
  shows "device_link esp32_hal board_mark bd_pin board_now board_boot spares_slots D wired_device"
proof unfold_locales
  fix h c cmd d reply d'
  assume t: "dd_transact D h c cmd d = (Ok reply, d')"
  then have "handle_line (dd_wire D) esp32_hal cmd (wi_engine d) (wi_board d) = Some (reply, wired_device d')"
    by (auto simp: assms wired_transact_def Let_def wired_device_def split: option.splits if_splits)
  then show "\<exists>e hw line. device_reach (dd_wire D) esp32_hal board_boot (wired_device d) (e, hw) \<and>
      handle_line (dd_wire D) esp32_hal cmd e hw = Some (line, wired_device d') \<and> parse_reply reply = parse_reply line"
    by (intro exI [of _ "wi_engine d"] exI [of _ "wi_board d"] exI [of _ reply]) (simp add: wired_device_def device_start)
next
  fix h c cmd d m d'
  assume t: "dd_transact D h c cmd d = (Err m, d')"
  then consider "wired_device d' = wired_device d"
    | line where "handle_line (dd_wire D) esp32_hal cmd (wi_engine d) (wi_board d) = Some (line, wired_device d')"
    by (auto simp: assms wired_transact_def Let_def wired_device_def split: option.splits if_splits)
  then show "device_reach (dd_wire D) esp32_hal board_boot (wired_device d) (wired_device d')"
  proof cases
    case 1
    then show ?thesis by (simp add: device_start)
  next
    case 2
    then show ?thesis
      using device_line [OF device_start, of "dd_wire D" esp32_hal cmd "wi_engine d" "wi_board d" line] by (simp add: wired_device_def)
  qed
qed

definition wired_deps ::
    "wire_crates \<Rightarrow> byte list option \<Rightarrow> byte list option \<Rightarrow> (nat \<Rightarrow> byte list) \<Rightarrow> wired device_deps" where
  "wired_deps X seed scalar nonces = \<lparr>dd_wire = X, dd_ed25519_seed = seed, dd_p256_scalar = scalar,
     dd_nonce = nonces, dd_transact = wired_transact X\<rparr>"

lemma wired_nonce [simp]: "dd_nonce (wired_deps X seed scalar nonces) = nonces"
  by (simp add: wired_deps_def)

interpretation wire: device_link esp32_hal board_mark bd_pin board_now board_boot spares_slots
    "wired_deps X seed scalar nonces" wired_device for X seed scalar nonces
  by (rule wired_link) (simp add: wired_deps_def)

section \<open>When nothing fails\<close>

definition quiet :: "board \<Rightarrow> bool" where
  "quiet b \<longleftrightarrow> bd_reads b = [] \<and> bd_writes b = [] \<and> bd_elapsed b = []"

lemma quiet_calls:
  assumes "quiet b"
  shows "hal_uptime_ms esp32_hal b = (board_now b, b)" "hal_seq_load esp32_hal b = (Ok (board_mark b), b)"
    "quiet (hal_set_open esp32_hal p b)" "board_now (hal_set_open esp32_hal p b) = board_now b"
    "board_mark (hal_set_open esp32_hal p b) = board_mark b" "bd_pin (hal_set_open esp32_hal p b) = p"
  using assms esp.set_open_law [of p b]
  by (simp_all add: quiet_def esp32_hal_def systimer_uptime_ms_def flash_seq_load_def flash_read_def board_now_def
      board_mark_def gpio_set_open_def)

lemma quiet_store:
  assumes "quiet b" "board_mark b < n"
  obtains b' where "hal_seq_store esp32_hal n b = (Ok (), b')" "quiet b'" "board_now b' = board_now b"
    "bd_pin b' = bd_pin b" "board_mark b' = n"
proof -
  obtain slot bytes where p: "write_plan (bd_region b) n = (slot, bytes)" by fastforce
  then have st: "hal_seq_store esp32_hal n b = (Ok (), put_slot slot bytes b)"
    using assms(1) by (simp add: quiet_def esp32_hal_def flash_seq_store_def flash_read_def flash_write_def)
  have "quiet (put_slot slot bytes b)" using assms(1) by (simp add: quiet_def put_slot_def)
  with that [OF st] esp.store_law [OF st assms(2)] show thesis by simp
qed

definition fine_ledger :: "device_doc disk \<Rightarrow> bool" where
  "fine_ledger dk \<longleftrightarrow> dk_faults dk = [] \<and> dk_file dk \<noteq> Unparsable \<and> dv_version (ledger_doc dk) = ledger_version"

lemma fine_locked: "fine_ledger dk \<Longrightarrow> device_locked f dk = f (ledger_doc dk) dk"
  by (cases "dk_file dk")
    (auto simp: fine_ledger_def device_locked_def ledger_lock_def next_fault_def device_read_def ledger_read_def ledger_doc_def)

lemma fine_write:
  "fine_ledger dk \<Longrightarrow> ledger_write doc dk = (Ok (), dk\<lparr>dk_file := Holds doc\<rparr>)"
  by (simp add: fine_ledger_def ledger_write_def next_fault_def)

lemma fine_put: "fine_ledger dk \<Longrightarrow> fine_ledger (dk\<lparr>dk_file := Holds (put_record i r (ledger_doc dk))\<rparr>)"
  by (simp add: fine_ledger_def ledger_doc_def put_record_def)

lemma fine_reserve:
  assumes "fine_ledger dk"
  obtains dk' where "reserve_seq i dk = (Ok (last_seq i dk + 1), dk')" "fine_ledger dk'"
    "last_seq i dk' = last_seq i dk + 1" "recorded_nonce i dk' = recorded_nonce i dk"
proof -
  obtain dk' where r: "reserve_seq i dk = (Ok (last_seq i dk + 1), dk')" "fine_ledger dk'"
    using assms fine_put [OF assms, of i]
    by (simp add: reserve_seq_def fine_locked fine_write Let_def last_seq_def)
  with that reserve_seq_effect [OF r(1)] show thesis by simp
qed

lemma fine_set:
  assumes "fine_ledger dk"
  obtains dk' where "set_open_nonce i n dk = (Ok (), dk')" "fine_ledger dk'"
    "last_seq i dk' = last_seq i dk" "recorded_nonce i dk' = Some (hex16 n)"
proof -
  obtain dk' where r: "set_open_nonce i n dk = (Ok (), dk')" "fine_ledger dk'"
    using assms fine_put [OF assms, of i] by (simp add: set_open_nonce_def fine_locked fine_write)
  with that set_open_nonce_effect [OF r(1)] show thesis by simp
qed

lemma fine_clear:
  assumes "fine_ledger dk"
  obtains dk' where "clear_open_nonce i dk = (Ok (), dk')" "fine_ledger dk'" "recorded_nonce i dk' = None"
    "last_seq i dk' = last_seq i dk"
proof -
  obtain dk' where r: "clear_open_nonce i dk = (Ok (), dk')" "fine_ledger dk'"
    using assms fine_put [OF assms, of i]
    by (cases "bt_get (dv_devices (ledger_doc dk)) (hex16 i)") (simp_all add: clear_open_nonce_def fine_locked fine_write)
  with that clear_open_nonce_effect [OF r(1)] show thesis by simp
qed

lemma fine_open_nonce:
  assumes "fine_ledger dk" "recorded_nonce i dk = Some (hex16 n)" "length n = 16"
  shows "open_nonce i dk = Some (Ok (Some n), dk)"
  using assms read_nonce_hex16 [OF assms(3)] by (simp add: open_nonce_def fine_locked recorded_nonce_def)

text \<open>One exchange over an intact wire.\<close>

lemma wired_send:
  assumes "render_command cmd = Ok line" "wi_faults (dw_link w) = []"
    and "esp.device_inv (wi_engine (dw_link w)) (wi_board (dw_link w))"
    and "engine_tick esp32_hal (wi_engine (dw_link w)) (wi_board (dw_link w)) = (e1, b1)"
    and "dispatch_line X esp32_hal line e1 b1 = (reply, e2, b2)"
  shows "\<exists>ans. parse_reply ans = Ok reply \<and> device_send (wired_deps X seed scalar nonces) h c cmd w =
    Some (Ok ans, w\<lparr>dw_link := \<lparr>wi_engine = e2, wi_board = b2, wi_faults = []\<rparr>\<rparr>)"
proof -
  have "esp.device_inv e1 b1" using esp.effect_inv [OF _ assms(3)] esp.tick_effect [OF assms(4)] by blast
  then have "reply_ok reply" "reply_short reply" using esp.dispatch_effect [OF assms(5)] by simp_all
  then have "render_reply reply = Ok (reply_text reply)" "parse_reply (reply_text reply) = Ok reply"
    by (simp_all add: render_reply_short parse_reply_text)
  then show ?thesis
    using assms(1,2,4,5)
    by (intro exI [of _ "reply_text reply"])
      (cases "dw_link w", simp add: device_send_def drive_then_def from_result_def wired_deps_def wired_transact_def
        handle_line_def Let_def)
qed

subsection \<open>An enrolled device\<close>

text \<open>
  The device holds the public half of the daemon's signing key and the id the inventory gives it; base64
  ends no text with a line end.
\<close>

definition enrolled ::
    "wire_crates \<Rightarrow> byte list option \<Rightarrow> byte list option \<Rightarrow> device_config \<Rightarrow> device_engine \<Rightarrow> bool" where
  "enrolled X seed scalar c e \<longleftrightarrow>
     device_id_bytes c = Some (de_device_id e) \<and> length (de_device_id e) = 16 \<and> b64_codec X \<and>
     (\<forall>bs. no_eol (wc_b64_encode X bs)) \<and>
     (case dev_alg c of
        DevEd25519 \<Rightarrow> (case seed of Some k \<Rightarrow> key_pair X (Ed25519Seed k) (trust_key (de_trust e)) | None \<Rightarrow> False)
      | DevP256 \<Rightarrow> (case scalar of Some k \<Rightarrow> key_pair X (P256Scalar k) (trust_key (de_trust e)) | None \<Rightarrow> False))"

lemma enrolled_same:
  "de_device_id e' = de_device_id e \<Longrightarrow> de_trust e' = de_trust e \<Longrightarrow> enrolled X seed scalar c e' = enrolled X seed scalar c e"
  unfolding enrolled_def by (simp only:)

lemma enrolled_key:
  assumes "enrolled X seed scalar c e"
  obtains sk where "signer_key (wired_deps X seed scalar nonces) (dev_alg c) = Ok sk" "key_pair X sk (trust_key (de_trust e))"
    "signing_ver sk = signer_version (dev_alg c)"
  using assms
  by (cases "dev_alg c"; cases seed; cases scalar)
    (auto simp: enrolled_def signer_key_def wired_deps_def signer_version_def ok_or_def)

lemma assemble_no_eol:
  assumes "assemble X p sk payload = Ok token" "\<forall>bs. no_eol (wc_b64_encode X bs)"
  shows "no_eol token"
proof -
  obtain sig where "token = p @ wc_b64_encode X payload @ ''.'' @ wc_b64_encode X sig"
    using assms(1) by (auto simp: assemble_def bind_ok_eq_Ok Let_def split: if_splits)
  then show ?thesis using assms(2) by (auto simp: no_eol_def is_eol_def last_append)
qed

lemma token_no_eol:
  assumes "sign_capability_token X sk cap = Ok token \<or> sign_revocation_token X sk rvk = Ok token"
    and "\<forall>bs. no_eol (wc_b64_encode X bs)"
  shows "no_eol token"
  using assms assemble_no_eol
  by (auto simp: sign_capability_token_def sign_revocation_token_def bind_ok_eq_Ok split: if_splits)

lemma next_cap_fine:
  assumes "enrolled X seed scalar c e" "fine_ledger (dw_state w)" "length nonce = 16"
  obtains token dk where "next_cap (wired_deps X seed scalar nonces) c nonce t w = Some (Ok token, w\<lparr>dw_state := dk\<rparr>)"
    "fine_ledger dk" "last_seq (de_device_id e) dk = last_seq (de_device_id e) (dw_state w) + 1"
    "recorded_nonce (de_device_id e) dk = recorded_nonce (de_device_id e) (dw_state w)"
    "length token \<le> max_token_len" "no_eol token"
    "verify_capability X (trust_key (de_trust e)) token = Ok
       \<lparr>cap_ver = signer_version (dev_alg c), cap_device_id = de_device_id e, cap_grant_nonce = nonce,
        cap_capability = dev_capability c, cap_ttl_secs = t, cap_issued_seq = last_seq (de_device_id e) dk\<rparr>"
proof -
  let ?i = "de_device_id e"
  obtain sk where k: "signer_key (wired_deps X seed scalar nonces) (dev_alg c) = Ok sk" "key_pair X sk (trust_key (de_trust e))"
      "signing_ver sk = signer_version (dev_alg c)"
    by (rule enrolled_key [OF assms(1)])
  obtain dk where r: "reserve_seq ?i (dw_state w) = (Ok (last_seq ?i (dw_state w) + 1), dk)" "fine_ledger dk"
      "last_seq ?i dk = last_seq ?i (dw_state w) + 1" "recorded_nonce ?i dk = recorded_nonce ?i (dw_state w)"
    by (rule fine_reserve [OF assms(2)])
  let ?cap = "\<lparr>cap_ver = signer_version (dev_alg c), cap_device_id = ?i, cap_grant_nonce = nonce,
      cap_capability = dev_capability c, cap_ttl_secs = t, cap_issued_seq = last_seq ?i dk\<rparr>"
  have X: "b64_codec X" "\<forall>bs. no_eol (wc_b64_encode X bs)" "device_id_bytes c = Some ?i" "cap_wf ?cap"
    using assms(1,3) by (simp_all add: enrolled_def cap_wf_def)
  have "cap_ver ?cap = signing_ver sk" using k(3) by simp
  from signed_capability [OF X(1) k(2) X(4) this]
  obtain token where t: "sign_capability_token X sk ?cap = Ok token" "length token \<le> max_token_len"
      "verify_capability X (trust_key (de_trust e)) token = Ok ?cap"
    by blast
  show thesis
  proof (rule that [OF _ r(2-4) t(2) _ t(3)])
    show "next_cap (wired_deps X seed scalar nonces) c nonce t w = Some (Ok token, w\<lparr>dw_state := dk\<rparr>)"
      using X(3) r(1,3) k(1) t(1)
      by (simp add: next_cap_def drive_then_Ok on_ledger_Ok) (simp add: wired_deps_def)
    show "no_eol token" using token_no_eol [of X sk ?cap token] t(1) X(2) by blast
  qed
qed

lemma next_rvk_fine:
  assumes "enrolled X seed scalar c e" "fine_ledger (dw_state w)" "length nonce = 16"
  obtains token dk where "next_rvk (wired_deps X seed scalar nonces) c nonce w = Some (Ok token, w\<lparr>dw_state := dk\<rparr>)"
    "fine_ledger dk" "last_seq (de_device_id e) dk = last_seq (de_device_id e) (dw_state w) + 1"
    "recorded_nonce (de_device_id e) dk = recorded_nonce (de_device_id e) (dw_state w)"
    "length token \<le> max_token_len" "no_eol token"
    "verify_revocation X (trust_key (de_trust e)) token = Ok
       \<lparr>rvk_ver = signer_version (dev_alg c), rvk_device_id = de_device_id e, rvk_grant_nonce = nonce,
        rvk_issued_seq = last_seq (de_device_id e) dk\<rparr>"
proof -
  let ?i = "de_device_id e"
  obtain sk where k: "signer_key (wired_deps X seed scalar nonces) (dev_alg c) = Ok sk" "key_pair X sk (trust_key (de_trust e))"
      "signing_ver sk = signer_version (dev_alg c)"
    by (rule enrolled_key [OF assms(1)])
  obtain dk where r: "reserve_seq ?i (dw_state w) = (Ok (last_seq ?i (dw_state w) + 1), dk)" "fine_ledger dk"
      "last_seq ?i dk = last_seq ?i (dw_state w) + 1" "recorded_nonce ?i dk = recorded_nonce ?i (dw_state w)"
    by (rule fine_reserve [OF assms(2)])
  let ?rvk = "\<lparr>rvk_ver = signer_version (dev_alg c), rvk_device_id = ?i, rvk_grant_nonce = nonce,
      rvk_issued_seq = last_seq ?i dk\<rparr>"
  have X: "b64_codec X" "\<forall>bs. no_eol (wc_b64_encode X bs)" "device_id_bytes c = Some ?i" "rvk_wf ?rvk"
    using assms(1,3) by (simp_all add: enrolled_def rvk_wf_def)
  have "rvk_ver ?rvk = signing_ver sk" using k(3) by simp
  from signed_revocation [OF X(1) k(2) X(4) this]
  obtain token where t: "sign_revocation_token X sk ?rvk = Ok token" "length token \<le> max_token_len"
      "verify_revocation X (trust_key (de_trust e)) token = Ok ?rvk"
    by blast
  show thesis
  proof (rule that [OF _ r(2-4) t(2) _ t(3)])
    show "next_rvk (wired_deps X seed scalar nonces) c nonce w = Some (Ok token, w\<lparr>dw_state := dk\<rparr>)"
      using X(3) r(1,3) k(1) t(1)
      by (simp add: next_rvk_def drive_then_Ok on_ledger_Ok) (simp add: wired_deps_def)
    show "no_eol token" using token_no_eol [of X sk undefined token ?rvk] t(1) X(2) by blast
  qed
qed

subsection \<open>The board at the other end\<close>

text \<open>A wire that drops nothing, to a board that works and has not reached its deadline.\<close>

definition calm :: "wired device_world \<Rightarrow> bool" where
  "calm w \<longleftrightarrow> wi_faults (dw_link w) = [] \<and> quiet (wi_board (dw_link w)) \<and>
     esp.device_inv (wi_engine (dw_link w)) (wi_board (dw_link w)) \<and>
     (\<forall>g. de_grant (wi_engine (dw_link w)) = Some g \<longrightarrow> board_now (wi_board (dw_link w)) < dg_expires_at_ms g)"

lemma calm_tick:
  "calm w \<Longrightarrow> engine_tick esp32_hal (wi_engine (dw_link w)) (wi_board (dw_link w)) = (wi_engine (dw_link w), wi_board (dw_link w))"
  using quiet_calls(1) [of "wi_board (dw_link w)"]
  by (auto simp: calm_def engine_tick_def split: option.splits)

lemma calm_send:
  assumes "calm w" "render_command cmd = Ok line"
    and "dispatch_line X esp32_hal line (wi_engine (dw_link w)) (wi_board (dw_link w)) = (reply, e, b)"
  shows "\<exists>ans. parse_reply ans = Ok reply \<and> device_send (wired_deps X seed scalar nonces) h c cmd w =
    Some (Ok ans, w\<lparr>dw_link := \<lparr>wi_engine = e, wi_board = b, wi_faults = []\<rparr>\<rparr>)"
  using wired_send [OF assms(2) _ _ calm_tick [OF assms(1)] assms(3)] assms(1) by (simp add: calm_def)

lemma calm_report:
  assumes "calm w"
  shows "\<exists>report. device_report (wired_deps X seed scalar nonces) h c w = Some (Ok report, w) \<and>
    rp_open report = map_option (\<lambda>g. (dg_nonce g,
      word_of_nat (div_ceil (dg_expires_at_ms g - board_now (wi_board (dw_link w))) 1000))) (de_grant (wi_engine (dw_link w)))"
proof -
  let ?e = "wi_engine (dw_link w)" and ?b = "wi_board (dw_link w)"
  have q: "quiet ?b" using assms by (simp add: calm_def)
  obtain report where rep: "engine_report esp32_hal ?e ?b = (report, ?b)"
      "rp_open report = map_option (\<lambda>g. (dg_nonce g, word_of_nat (div_ceil (dg_expires_at_ms g - board_now ?b) 1000))) (de_grant ?e)"
    using quiet_calls(1,2) [OF q]
    by (cases "de_grant ?e") (simp_all add: engine_report_def remaining_secs_def)
  have cmd: "parse_command ''STAT'' = Ok CmdStatus" using parse_command_text [of CmdStatus] by simp
  have "dispatch_line X esp32_hal ''STAT'' ?e ?b = (State report, ?e, ?b)"
    by (simp add: dispatch_line_def cmd rep(1))
  moreover have "render_command CmdStatus = Ok ''STAT''"
    by (simp add: render_command_def ln_push_def max_line_len_def)
  moreover have "w\<lparr>dw_link := \<lparr>wi_engine = ?e, wi_board = ?b, wi_faults = []\<rparr>\<rparr> = w"
    using assms by (cases w; cases "dw_link w") (simp add: calm_def)
  ultimately obtain ans where "parse_reply ans = Ok (State report)"
      "device_send (wired_deps X seed scalar nonces) h c CmdStatus w = Some (Ok ans, w)"
    using calm_send [OF assms, of CmdStatus "''STAT''" X "State report" ?e ?b] by metis
  then have "device_report (wired_deps X seed scalar nonces) h c w = Some (Ok report, w)"
    by (simp add: device_report_def drive_then_def give_def)
  then show ?thesis using rep(2) by blast
qed

lemma div_ceil_whole: "div_ceil (1000 * n) 1000 = n"
  by (simp add: div_ceil_def)

lemma left_positive:
  assumes "0 < n" "n \<le> 86400000"
  shows "(0 :: 64 word) < word_of_nat (div_ceil n 1000)"
proof -
  have "n = 1000 * (n div 1000) + n mod 1000" "n div 1000 \<le> n" by simp_all
  then have "0 < div_ceil n 1000" "div_ceil n 1000 < 2 ^ 64" using assms by (auto simp: div_ceil_def)
  then show ?thesis by (simp add: word_less_nat_alt unat_of_nat)
qed

lemma idle_accepts:
  assumes "quiet b" "de_grant e = None" "verify_capability X (trust_key (de_trust e)) token = Ok cap"
    and "cap_device_id cap = de_device_id e" "board_mark b < cap_issued_seq cap" "cap_ttl_secs cap \<le> wire_max_ttl_secs"
    and "board_now b + 86400000 \<le> u64_max"
  obtains b' where "accept_token X esp32_hal token e b = (AckOpen (cap_grant_nonce cap) (word_of_nat (unat (cap_ttl_secs cap))),
      e\<lparr>de_grant := Some \<lparr>dg_nonce = cap_grant_nonce cap, dg_expires_at_ms = board_now b + 1000 * unat (cap_ttl_secs cap)\<rparr>,
        de_last_close := None\<rparr>, b')"
    "quiet b'" "board_now b' = board_now b" "bd_pin b'" "board_mark b' = cap_issued_seq cap"
proof -
  obtain b1 where st: "hal_seq_store esp32_hal (cap_issued_seq cap) b = (Ok (), b1)" "quiet b1" "board_now b1 = board_now b"
      "board_mark b1 = cap_issued_seq cap"
    using quiet_store [OF assms(1,5)] by metis
  have "unat (cap_ttl_secs cap) \<le> unat wire_max_ttl_secs" using assms(6) by (simp add: word_le_nat_alt)
  then have "1000 * unat (cap_ttl_secs cap) \<le> 86400000" by (simp add: wire_max_ttl_secs_def)
  then have sat: "sat_add_u64 (board_now b) (sat_mul_u64 (unat (cap_ttl_secs cap)) 1000) = board_now b + 1000 * unat (cap_ttl_secs cap)"
    using assms(7) by (simp add: sat_add_u64_def sat_mul_u64_def)
  let ?b = "hal_set_open esp32_hal True b1"
  note set = quiet_calls(3-6) [OF st(2), of True]
  have "accept_token X esp32_hal token e b = open_grant esp32_hal cap e b1"
    using assms(2-4,6) leD [OF assms(6)] assms(5) [unfolded not_le [symmetric]] quiet_calls(2) [OF assms(1)] st(1)
    by (simp add: accept_token_def accept_fresh_def)
  also have "\<dots> = (AckOpen (cap_grant_nonce cap) (word_of_nat (unat (cap_ttl_secs cap))),
      e\<lparr>de_grant := Some \<lparr>dg_nonce = cap_grant_nonce cap, dg_expires_at_ms = board_now b + 1000 * unat (cap_ttl_secs cap)\<rparr>,
        de_last_close := None\<rparr>, ?b)"
    using quiet_calls(1) [OF st(2)] quiet_calls(1) [OF set(1)] set(2) sat st(3)
    by (simp add: open_grant_def remaining_secs_def div_ceil_whole)
  finally show thesis using that set st by simp
qed

lemma seq_above:
  fixes m n :: "64 word"
  assumes "m \<le> n" "unat n + 1 < 2 ^ 64"
  shows "m < n + 1" "unat (n + 1) = unat n + 1"
proof -
  show n: "unat (n + 1) = unat n + 1" using assms(2) by (simp add: unat_word_ariths)
  show "m < n + 1" using assms(1) n by (simp add: word_less_nat_alt word_le_nat_alt)
qed

lemma unat_widen: "unat (word_of_nat (unat (t :: 32 word)) :: 64 word) = unat t"
  using unat_u32_to_u64 [of t] by simp

lemma token_command:
  assumes "length token \<le> max_token_len" "no_eol token"
  shows "\<exists>line. render_command (CmdToken token) = Ok line \<and> parse_command line = Ok (CmdToken token)"
    "\<exists>line. render_command (CmdRevoke token) = Ok line \<and> parse_command line = Ok (CmdRevoke token)"
  using assms parse_command_text [of "CmdToken token"] parse_command_text [of "CmdRevoke token"]
  by (simp_all add: render_command_eq ln_push_def max_line_len_def)

text \<open>A capability delivered to an idle device.\<close>

lemma deliver_fine:
  assumes "calm w" "enrolled X seed scalar c (wi_engine (dw_link w))" "fine_ledger (dw_state w)" "length nonce = 16"
    and "de_grant (wi_engine (dw_link w)) = None" "t \<noteq> 0" "t \<le> wire_max_ttl_secs"
    and "board_now (wi_board (dw_link w)) + 86400000 \<le> u64_max"
    and "board_mark (wi_board (dw_link w)) \<le> last_seq (de_device_id (wi_engine (dw_link w))) (dw_state w)"
    and "unat (last_seq (de_device_id (wi_engine (dw_link w))) (dw_state w)) + 1 < 2 ^ 64"
  obtains w' g where "deliver_cap (wired_deps X seed scalar nonces) h c nonce t w = Some (Ok (), w')" "calm w'"
    "fine_ledger (dw_state w')" "de_grant (wi_engine (dw_link w')) = Some g" "dg_nonce g = nonce"
    "de_device_id (wi_engine (dw_link w')) = de_device_id (wi_engine (dw_link w))"
    "de_trust (wi_engine (dw_link w')) = de_trust (wi_engine (dw_link w))"
    "board_mark (wi_board (dw_link w')) = last_seq (de_device_id (wi_engine (dw_link w))) (dw_state w')"
    "last_seq (de_device_id (wi_engine (dw_link w))) (dw_state w') = last_seq (de_device_id (wi_engine (dw_link w))) (dw_state w) + 1"
    "recorded_nonce (de_device_id (wi_engine (dw_link w))) (dw_state w') = recorded_nonce (de_device_id (wi_engine (dw_link w))) (dw_state w)"
proof -
  let ?e = "wi_engine (dw_link w)" and ?b = "wi_board (dw_link w)" and ?D = "wired_deps X seed scalar nonces"
  let ?i = "de_device_id ?e"
  obtain token dk where n: "next_cap ?D c nonce t w = Some (Ok token, w\<lparr>dw_state := dk\<rparr>)" "fine_ledger dk"
      "last_seq ?i dk = last_seq ?i (dw_state w) + 1" "recorded_nonce ?i dk = recorded_nonce ?i (dw_state w)"
      "length token \<le> max_token_len" "no_eol token"
      "verify_capability X (trust_key (de_trust ?e)) token = Ok
       \<lparr>cap_ver = signer_version (dev_alg c), cap_device_id = ?i, cap_grant_nonce = nonce,
        cap_capability = dev_capability c, cap_ttl_secs = t, cap_issued_seq = last_seq ?i dk\<rparr>" (is "_ = Ok ?cap")
    by (rule next_cap_fine [OF assms(2-4)])
  have "board_mark ?b < last_seq ?i dk"
    using seq_above(1) [OF assms(9,10)] n(3) by simp
  then obtain b where a: "accept_token X esp32_hal token ?e ?b = (AckOpen nonce (word_of_nat (unat t)),
      ?e\<lparr>de_grant := Some \<lparr>dg_nonce = nonce, dg_expires_at_ms = board_now ?b + 1000 * unat t\<rparr>, de_last_close := None\<rparr>, b)"
      "quiet b" "board_now b = board_now ?b" "bd_pin b" "board_mark b = last_seq ?i dk"
    using idle_accepts [of ?b ?e X token ?cap] assms(1,5,7,8) n(7) by (auto simp: calm_def)
  let ?g = "\<lparr>dg_nonce = nonce, dg_expires_at_ms = board_now ?b + 1000 * unat t\<rparr>"
  let ?e' = "?e\<lparr>de_grant := Some ?g, de_last_close := None\<rparr>"
  obtain line where line: "render_command (CmdToken token) = Ok line" "parse_command line = Ok (CmdToken token)"
    using token_command(1) [OF n(5,6)] by blast
  let ?w1 = "w\<lparr>dw_state := dk\<rparr>" and ?w2 = "w\<lparr>dw_state := dk, dw_link := \<lparr>wi_engine = ?e', wi_board = b, wi_faults = []\<rparr>\<rparr>"
  have "calm ?w1" using assms(1) by (simp add: calm_def)
  moreover have "dispatch_line X esp32_hal line ?e ?b = (AckOpen nonce (word_of_nat (unat t)), ?e', b)"
    using a(1) line(2) by (simp add: dispatch_line_def)
  ultimately obtain ans where ans: "parse_reply ans = Ok (AckOpen nonce (word_of_nat (unat t)))"
      "device_send ?D h c (CmdToken token) ?w1 = Some (Ok ans, ?w2)"
    using calm_send [of ?w1 "CmdToken token" line X] line(1) by fastforce
  have "0 < unat t" using assms(6) by (simp add: unat_gt_0)
  then have t: "(word_of_nat (unat t) :: 64 word) \<noteq> 0" "unat (word_of_nat (unat t) :: 64 word) = unat t" "0 < unat t"
    using unat_widen [of t] by (metis unat_0 less_irrefl)+
  have "deliver_cap ?D h c nonce t w = Some (Ok (), ?w2)"
    using n(1) ans t by (simp add: deliver_cap_def drive_then_def give_def)
  moreover have "unat t \<le> unat wire_max_ttl_secs" using assms(7) by (simp add: word_le_nat_alt)
  then have "calm ?w2" using a(2-4) t(3) assms(4) by (simp add: calm_def esp.device_inv_def)
  ultimately show thesis
    using that [of ?w2 ?g] n(2-4) a(5) by simp
qed

text \<open>A revocation that reaches a device holding a grant: it closes the grant it names and no other.\<close>

lemma open_revokes:
  assumes "quiet b" "de_grant e = Some g" "verify_revocation X (trust_key (de_trust e)) token = Ok rvk"
    and "rvk_device_id rvk = de_device_id e" "board_mark b < rvk_issued_seq rvk" "bd_pin b"
  obtains b' where "accept_revocation X esp32_hal token e b =
      (if dg_nonce g = rvk_grant_nonce rvk then (AckClosed, e\<lparr>de_grant := None, de_last_close := Some CloseRevert\<rparr>, b')
       else (Nak ''wrong-grant'', e, b'))"
    "quiet b'" "board_now b' = board_now b" "bd_pin b' = (dg_nonce g \<noteq> rvk_grant_nonce rvk)" "board_mark b' = rvk_issued_seq rvk"
proof -
  obtain b1 where st: "hal_seq_store esp32_hal (rvk_issued_seq rvk) b = (Ok (), b1)" "quiet b1" "board_now b1 = board_now b"
      "board_mark b1 = rvk_issued_seq rvk" "bd_pin b1 = bd_pin b"
    using quiet_store [OF assms(1,5)] by metis
  note set = quiet_calls(3-6) [OF st(2), of False]
  have "accept_revocation X esp32_hal token e b =
      (if dg_nonce g = rvk_grant_nonce rvk
       then (AckClosed, e\<lparr>de_grant := None, de_last_close := Some CloseRevert\<rparr>, hal_set_open esp32_hal False b1)
       else (Nak ''wrong-grant'', e, b1))"
    using assms(2-4) assms(5) [unfolded not_le [symmetric]] quiet_calls(2) [OF assms(1)] st(1)
    by (simp add: accept_revocation_def engine_close_def)
  then show thesis
    using that [of "hal_set_open esp32_hal False b1"] that [of b1] set st assms(6)
    by (cases "dg_nonce g = rvk_grant_nonce rvk") simp_all
qed

subsection \<open>The driver on a working link\<close>

text \<open>
  A device enrolled under the host's entry behind a working link, its mark not past the ledger, with \<open>k\<close>
  sequence numbers to spare.
\<close>

definition ready ::
    "wire_crates \<Rightarrow> byte list option \<Rightarrow> byte list option \<Rightarrow> host \<Rightarrow> nat \<Rightarrow> wired device_world \<Rightarrow> bool" where
  "ready X seed scalar h k w \<longleftrightarrow>
     (let e = wi_engine (dw_link w); b = wi_board (dw_link w); i = de_device_id e in
      calm w \<and> fine_ledger (dw_state w) \<and> board_mark b \<le> last_seq i (dw_state w) \<and>
      unat (last_seq i (dw_state w)) + k < 2 ^ 64 \<and>
      (case h_device h of Some c \<Rightarrow> enrolled X seed scalar c e \<and> dev_actuator c = None | None \<Rightarrow> False))"

lemma readyE:
  assumes "ready X seed scalar h k w"
  obtains c where "h_device h = Some c" "enrolled X seed scalar c (wi_engine (dw_link w))" "dev_actuator c = None"
    "device_id_bytes c = Some (de_device_id (wi_engine (dw_link w)))" "calm w" "fine_ledger (dw_state w)"
    "board_mark (wi_board (dw_link w)) \<le> last_seq (de_device_id (wi_engine (dw_link w))) (dw_state w)"
    "unat (last_seq (de_device_id (wi_engine (dw_link w))) (dw_state w)) + k < 2 ^ 64"
  using assms by (auto simp: ready_def Let_def enrolled_def split: option.splits)

lemma ready_after:
  assumes "ready X seed scalar h (Suc k) w" "calm w'" "fine_ledger (dw_state w')"
    and "de_device_id (wi_engine (dw_link w')) = de_device_id (wi_engine (dw_link w))"
    and "de_trust (wi_engine (dw_link w')) = de_trust (wi_engine (dw_link w))"
    and "last_seq (de_device_id (wi_engine (dw_link w))) (dw_state w') = last_seq (de_device_id (wi_engine (dw_link w))) (dw_state w) + 1"
    and "board_mark (wi_board (dw_link w')) \<le> last_seq (de_device_id (wi_engine (dw_link w))) (dw_state w')"
  shows "ready X seed scalar h k w'"
proof -
  let ?i = "de_device_id (wi_engine (dw_link w))"
  obtain c where c: "h_device h = Some c" "enrolled X seed scalar c (wi_engine (dw_link w))" "dev_actuator c = None"
      "unat (last_seq ?i (dw_state w)) + Suc k < 2 ^ 64"
    by (rule readyE [OF assms(1)])
  then show ?thesis
    using assms(2-7) seq_above(2) [OF order_refl, of "last_seq ?i (dw_state w)"] enrolled_same [OF assms(4,5)]
    by (simp add: ready_def Let_def)
qed

lemma apply_fine:
  assumes "ready X seed scalar h (Suc k) w" "length (nonces (dw_draws w)) = 16"
    and "de_grant (wi_engine (dw_link w)) = None" "0 < ctx_ttl_secs ctx" "ctx_ttl_secs ctx \<le> 86400"
    and "board_now (wi_board (dw_link w)) + 86400000 \<le> u64_max"
  obtains w' g where "device_apply (wired_deps X seed scalar nonces) h ctx w = Some (Ok (), w')" "ready X seed scalar h k w'"
    "de_grant (wi_engine (dw_link w')) = Some g" "dg_nonce g = nonces (dw_draws w)"
    "recorded_nonce (de_device_id (wi_engine (dw_link w'))) (dw_state w') = Some (hex16 (nonces (dw_draws w)))"
proof -
  let ?D = "wired_deps X seed scalar nonces" and ?i = "de_device_id (wi_engine (dw_link w))" and ?n = "nonces (dw_draws w)"
  obtain c where c: "h_device h = Some c" "enrolled X seed scalar c (wi_engine (dw_link w))" "dev_actuator c = None"
      "device_id_bytes c = Some ?i" "calm w" "fine_ledger (dw_state w)"
      "board_mark (wi_board (dw_link w)) \<le> last_seq ?i (dw_state w)" "unat (last_seq ?i (dw_state w)) + Suc k < 2 ^ 64"
    by (rule readyE [OF assms(1)])
  obtain dk where s: "set_open_nonce ?i ?n (dw_state w) = (Ok (), dk)" "fine_ledger dk" "last_seq ?i dk = last_seq ?i (dw_state w)"
      "recorded_nonce ?i dk = Some (hex16 ?n)"
    by (rule fine_set [OF c(6)])
  let ?w1 = "w\<lparr>dw_draws := Suc (dw_draws w), dw_state := dk\<rparr>" and ?t = "word_of_nat (ctx_ttl_secs ctx) :: 32 word"
  have t: "unat ?t = ctx_ttl_secs ctx" using assms(5) by (simp add: unat_of_nat)
  have t2: "?t \<noteq> 0" "?t \<le> wire_max_ttl_secs" "ctx_ttl_secs ctx < 2 ^ 32"
    using t assms(4,5) by (auto simp: word_le_nat_alt wire_max_ttl_secs_def)
  have w1: "calm ?w1" using c(5) by (simp add: calm_def)
  have p: "enrolled X seed scalar c (wi_engine (dw_link ?w1))" "fine_ledger (dw_state ?w1)"
      "de_grant (wi_engine (dw_link ?w1)) = None" "board_now (wi_board (dw_link ?w1)) + 86400000 \<le> u64_max"
      "board_mark (wi_board (dw_link ?w1)) \<le> last_seq (de_device_id (wi_engine (dw_link ?w1))) (dw_state ?w1)"
      "unat (last_seq (de_device_id (wi_engine (dw_link ?w1))) (dw_state ?w1)) + 1 < 2 ^ 64"
    using c(2,7,8) s(2,3) assms(3,6) by simp_all
  obtain w' g where d: "deliver_cap ?D h c ?n ?t ?w1 = Some (Ok (), w')" "calm w'" "fine_ledger (dw_state w')"
      "de_grant (wi_engine (dw_link w')) = Some g" "dg_nonce g = ?n"
      "de_device_id (wi_engine (dw_link w')) = de_device_id (wi_engine (dw_link ?w1))"
      "de_trust (wi_engine (dw_link w')) = de_trust (wi_engine (dw_link ?w1))"
      "board_mark (wi_board (dw_link w')) = last_seq (de_device_id (wi_engine (dw_link ?w1))) (dw_state w')"
      "last_seq (de_device_id (wi_engine (dw_link ?w1))) (dw_state w') = last_seq (de_device_id (wi_engine (dw_link ?w1))) (dw_state ?w1) + 1"
      "recorded_nonce (de_device_id (wi_engine (dw_link ?w1))) (dw_state w') = recorded_nonce (de_device_id (wi_engine (dw_link ?w1))) (dw_state ?w1)"
    by (rule deliver_fine [OF w1 p(1,2) assms(2) p(3) t2(1,2) p(4-6)])
  let ?left = "dg_expires_at_ms g - board_now (wi_board (dw_link w'))"
  obtain report where r: "device_report ?D h c w' = Some (Ok report, w')" "rp_open report = Some (?n, word_of_nat (div_ceil ?left 1000))"
    using calm_report [OF d(2)] d(4,5) by fastforce
  have "board_now (wi_board (dw_link w')) < dg_expires_at_ms g" "esp.device_inv (wi_engine (dw_link w')) (wi_board (dw_link w'))"
    using d(2,4) by (simp_all add: calm_def)
  then have pos: "(0 :: 64 word) < word_of_nat (div_ceil ?left 1000)"
    using d(4) by (intro left_positive) (auto simp: esp.device_inv_def wire_max_ttl_secs_def)
  have "device_apply ?D h ctx w = Some (Ok (), w')"
    using c(1,3,4) t2(3) s(1) d(1) r pos
    by (simp add: device_apply_def drive_then_Ok on_ledger_Ok wire_ttl_def check_declared_def)
  moreover have "ready X seed scalar h k w'"
    using d(2,3,6-9) s(3) by (intro ready_after [OF assms(1)]) simp_all
  ultimately show thesis using that d(4-6,10) s(4) by simp
qed


lemma revoke_fine:
  assumes "ready X seed scalar h (Suc k) w" "h_device h = Some c" "length nonce = 16" "de_grant (wi_engine (dw_link w)) = Some g"
  obtains token line w1 b where "next_rvk (wired_deps X seed scalar nonces) c nonce w = Some (Ok token, w1)"
    "dw_link w1 = dw_link w" "fine_ledger (dw_state w1)"
    "recorded_nonce (de_device_id (wi_engine (dw_link w))) (dw_state w1) = recorded_nonce (de_device_id (wi_engine (dw_link w))) (dw_state w)"
    "last_seq (de_device_id (wi_engine (dw_link w))) (dw_state w1) = last_seq (de_device_id (wi_engine (dw_link w))) (dw_state w) + 1"
    "render_command (CmdRevoke token) = Ok line"
    "dispatch_line X esp32_hal line (wi_engine (dw_link w)) (wi_board (dw_link w)) =
       (if dg_nonce g = nonce
        then (AckClosed, (wi_engine (dw_link w))\<lparr>de_grant := None, de_last_close := Some CloseRevert\<rparr>, b)
        else (Nak ''wrong-grant'', wi_engine (dw_link w), b))"
    "quiet b" "board_now b = board_now (wi_board (dw_link w))" "bd_pin b = (dg_nonce g \<noteq> nonce)"
    "board_mark b = last_seq (de_device_id (wi_engine (dw_link w))) (dw_state w1)"
proof -
  let ?e = "wi_engine (dw_link w)" and ?b = "wi_board (dw_link w)" and ?D = "wired_deps X seed scalar nonces"
  let ?i = "de_device_id ?e"
  have c: "enrolled X seed scalar c ?e" "calm w" "fine_ledger (dw_state w)" "board_mark ?b \<le> last_seq ?i (dw_state w)"
      "unat (last_seq ?i (dw_state w)) + Suc k < 2 ^ 64"
    using readyE [OF assms(1)] assms(2) by (metis option.inject)+
  obtain token dk where n: "next_rvk ?D c nonce w = Some (Ok token, w\<lparr>dw_state := dk\<rparr>)" "fine_ledger dk"
      "last_seq ?i dk = last_seq ?i (dw_state w) + 1" "recorded_nonce ?i dk = recorded_nonce ?i (dw_state w)"
      "length token \<le> max_token_len" "no_eol token"
      "verify_revocation X (trust_key (de_trust ?e)) token = Ok \<lparr>rvk_ver = signer_version (dev_alg c), rvk_device_id = ?i,
        rvk_grant_nonce = nonce, rvk_issued_seq = last_seq ?i dk\<rparr>"
    by (rule next_rvk_fine [OF c(1,3) assms(3)])
  obtain line where line: "render_command (CmdRevoke token) = Ok line" "parse_command line = Ok (CmdRevoke token)"
    using token_command(2) [OF n(5,6)] by blast
  have b: "quiet ?b" "bd_pin ?b" using c(2) assms(4) by (simp_all add: calm_def esp.device_inv_def)
  have "board_mark ?b < last_seq ?i dk" using seq_above(1) [OF c(4)] c(5) n(3) by simp
  then obtain b where "accept_revocation X esp32_hal token ?e ?b =
      (if dg_nonce g = nonce then (AckClosed, ?e\<lparr>de_grant := None, de_last_close := Some CloseRevert\<rparr>, b)
       else (Nak ''wrong-grant'', ?e, b))"
      "quiet b" "board_now b = board_now ?b" "bd_pin b = (dg_nonce g \<noteq> nonce)" "board_mark b = last_seq ?i dk"
    using open_revokes [OF b(1) assms(4) n(7) _ _ b(2)] by auto
  then show thesis
    using that [of token "w\<lparr>dw_state := dk\<rparr>" line b] n(1-4) line by (simp add: dispatch_line_def)
qed

lemma revert_named_fine:
  assumes "ready X seed scalar h (Suc k) w" "de_grant (wi_engine (dw_link w)) = Some g" "h_device h = Some c"
    and "nonce_to_revoke (wired_deps X seed scalar nonces) h c (de_device_id (wi_engine (dw_link w))) w = Some (Ok (Some (dg_nonce g)), w)"
  obtains w' where "device_revert (wired_deps X seed scalar nonces) h w = Some (Ok (), w')" "ready X seed scalar h k w'"
    "de_grant (wi_engine (dw_link w')) = None" "recorded_nonce (de_device_id (wi_engine (dw_link w'))) (dw_state w') = None"
    "de_device_id (wi_engine (dw_link w')) = de_device_id (wi_engine (dw_link w))"
proof -
  let ?D = "wired_deps X seed scalar nonces" and ?e = "wi_engine (dw_link w)" and ?b = "wi_board (dw_link w)"
  let ?i = "de_device_id ?e" and ?n = "dg_nonce g" and ?e' = "(wi_engine (dw_link w))\<lparr>de_grant := None, de_last_close := Some CloseRevert\<rparr>"
  have c: "dev_actuator c = None" "device_id_bytes c = Some ?i" "calm w" "fine_ledger (dw_state w)"
    using readyE [OF assms(1)] assms(3) by (metis option.inject)+
  have n: "length ?n = 16" using c(3) assms(2) by (simp add: calm_def esp.device_inv_def)
  obtain token line w1 b where r: "next_rvk ?D c ?n w = Some (Ok token, w1)" "dw_link w1 = dw_link w" "fine_ledger (dw_state w1)"
      "render_command (CmdRevoke token) = Ok line" "dispatch_line X esp32_hal line ?e ?b = (AckClosed, ?e', b)"
      "quiet b" "\<not> bd_pin b" "last_seq ?i (dw_state w1) = last_seq ?i (dw_state w) + 1" "board_mark b = last_seq ?i (dw_state w1)"
    using revoke_fine [OF assms(1,3) n assms(2), of nonces] by (metis (full_types))
  let ?w2 = "w1\<lparr>dw_link := \<lparr>wi_engine = ?e', wi_board = b, wi_faults = []\<rparr>\<rparr>"
  have "calm w1" using c(3) r(2) by (simp add: calm_def)
  then obtain ans where s: "parse_reply ans = Ok AckClosed" "device_send ?D h c (CmdRevoke token) w1 = Some (Ok ans, ?w2)"
    using calm_send [of w1 "CmdRevoke token" line X AckClosed ?e' b] r(2,4,5) by fastforce
  have w2: "calm ?w2" using r(6,7) by (simp add: calm_def esp.device_inv_def)
  then obtain report where q: "device_report ?D h c ?w2 = Some (Ok report, ?w2)" "rp_open report = None"
    using calm_report [of ?w2] by fastforce
  obtain dk where cl: "clear_open_nonce ?i (dw_state w1) = (Ok (), dk)" "fine_ledger dk" "recorded_nonce ?i dk = None"
      "last_seq ?i dk = last_seq ?i (dw_state w1)"
    by (rule fine_clear [OF r(3)])
  let ?w3 = "?w2\<lparr>dw_state := dk\<rparr>"
  have "revoke_named ?D h c ?i ?n w = Some (Ok (), ?w3)"
    using r(1) s q c(1) cl(1) by (simp add: revoke_named_def drive_then_def check_declared_def give_def on_ledger_def)
  then have "device_revert ?D h w = Some (Ok (), ?w3)"
    using assms(3,4) c(2) by (simp add: device_revert_def drive_then_Ok)
  moreover have "ready X seed scalar h k ?w3"
    using w2 cl(2,4) r(8,9) by (intro ready_after [OF assms(1)]) (simp_all add: calm_def)
  ultimately show thesis using that [of ?w3] cl(3) by simp
qed

lemma names_recorded:
  assumes "fine_ledger (dw_state w)" "recorded_nonce i (dw_state w) = Some (hex16 n)" "length n = 16"
  shows "read_open_nonce i w = Some (Ok (Some n), w)" "nonce_to_revoke D h c i w = Some (Ok (Some n), w)"
  using fine_open_nonce [OF assms]
  by (simp_all add: nonce_to_revoke_def read_open_nonce_def drive_then_def give_def)

lemma no_record: "fine_ledger (dw_state w) \<Longrightarrow> recorded_nonce i (dw_state w) = None \<Longrightarrow> read_open_nonce i w = Some (Ok None, w)"
  by (simp add: read_open_nonce_def open_nonce_def fine_locked recorded_nonce_def read_nonce_def)

lemma names_reported:
  assumes "calm w" "fine_ledger (dw_state w)" "recorded_nonce i (dw_state w) = None" "de_grant (wi_engine (dw_link w)) = Some g"
  shows "nonce_to_revoke (wired_deps X seed scalar nonces) h c i w = Some (Ok (Some (dg_nonce g)), w)"
proof -
  obtain report where "device_report (wired_deps X seed scalar nonces) h c w = Some (Ok report, w)"
      "map_option fst (rp_open report) = Some (dg_nonce g)"
    using calm_report [OF assms(1)] assms(4) by fastforce
  then show ?thesis using no_record [OF assms(2,3)] by (simp add: nonce_to_revoke_def drive_then_def give_def)
qed

text \<open>A recorded nonce that is not the one the device holds open.\<close>

lemma revert_foreign:
  assumes "ready X seed scalar h (Suc k) w" "de_grant (wi_engine (dw_link w)) = Some g" "length nonce = 16" "dg_nonce g \<noteq> nonce"
    and "recorded_nonce (de_device_id (wi_engine (dw_link w))) (dw_state w) = Some (hex16 nonce)"
  obtains w' where "device_revert (wired_deps X seed scalar nonces) h w = Some (Err (Refused ''wrong-grant''), w')"
    "ready X seed scalar h k w'" "wi_engine (dw_link w') = wi_engine (dw_link w)" "bd_pin (wi_board (dw_link w'))"
    "recorded_nonce (de_device_id (wi_engine (dw_link w))) (dw_state w') = Some (hex16 nonce)"
proof -
  let ?D = "wired_deps X seed scalar nonces" and ?e = "wi_engine (dw_link w)" and ?b = "wi_board (dw_link w)"
  let ?i = "de_device_id ?e"
  obtain c where c: "h_device h = Some c" "enrolled X seed scalar c ?e" "dev_actuator c = None" "device_id_bytes c = Some ?i"
      "calm w" "fine_ledger (dw_state w)" "unat (last_seq ?i (dw_state w)) + Suc k < 2 ^ 64"
    by (rule readyE [OF assms(1)])
  note ours = names_recorded(2) [OF c(6) assms(5,3)]
  obtain token line w1 b where r: "next_rvk ?D c nonce w = Some (Ok token, w1)" "dw_link w1 = dw_link w" "fine_ledger (dw_state w1)"
      "recorded_nonce ?i (dw_state w1) = recorded_nonce ?i (dw_state w)" "last_seq ?i (dw_state w1) = last_seq ?i (dw_state w) + 1"
      "render_command (CmdRevoke token) = Ok line" "dispatch_line X esp32_hal line ?e ?b = (Nak ''wrong-grant'', ?e, b)"
      "quiet b" "board_now b = board_now ?b" "bd_pin b" "board_mark b = last_seq ?i (dw_state w1)"
    using revoke_fine [OF assms(1) c(1) assms(3,2), of nonces] assms(4) by (smt (verit))
  let ?w2 = "w1\<lparr>dw_link := \<lparr>wi_engine = ?e, wi_board = b, wi_faults = []\<rparr>\<rparr>"
  have "calm w1" using c(5) r(2) by (simp add: calm_def)
  then obtain ans where s: "parse_reply ans = Ok (Nak ''wrong-grant'')" "device_send ?D h c (CmdRevoke token) w1 = Some (Ok ans, ?w2)"
    using calm_send [of w1 "CmdRevoke token" line X "Nak ''wrong-grant''" ?e b] r(2,6,7) by fastforce
  have "revoke_named ?D h c ?i nonce w = Some (Err (Refused ''wrong-grant''), ?w2)"
    using r(1) s by (simp add: revoke_named_def drive_then_def fail_with_def)
  then have "device_revert ?D h w = Some (Err (Refused ''wrong-grant''), ?w2)"
    using ours [of ?D h c] c(1,4)
    by (simp add: device_revert_def drive_then_def device_of_def from_result_def ok_or_def expect_device_def)
  moreover have "calm ?w2" using c(5) assms(2) r(8-10) by (simp add: calm_def esp.device_inv_def)
  then have "ready X seed scalar h k ?w2"
    using r(3,5,11) by (intro ready_after [OF assms(1)]) simp_all
  ultimately show thesis using that [of ?w2] r(4,10) assms(5) by simp
qed

text \<open>An open tried on a device that holds another grant: refused, with the new nonce already recorded.\<close>

lemma apply_busy:
  assumes "ready X seed scalar h (Suc k) w" "length (nonces (dw_draws w)) = 16"
    and "de_grant (wi_engine (dw_link w)) = Some g" "dg_nonce g \<noteq> nonces (dw_draws w)" "ctx_ttl_secs ctx < 2 ^ 32"
  obtains w' where "device_apply (wired_deps X seed scalar nonces) h ctx w = Some (Err (Refused ''busy''), w')"
    "ready X seed scalar h k w'" "dw_link w' = dw_link w"
    "recorded_nonce (de_device_id (wi_engine (dw_link w))) (dw_state w') = Some (hex16 (nonces (dw_draws w)))"
proof -
  let ?D = "wired_deps X seed scalar nonces" and ?n = "nonces (dw_draws w)" and ?e = "wi_engine (dw_link w)" and ?b = "wi_board (dw_link w)"
  let ?i = "de_device_id ?e" and ?t = "word_of_nat (ctx_ttl_secs ctx) :: 32 word"
  obtain c where c: "h_device h = Some c" "enrolled X seed scalar c ?e" "device_id_bytes c = Some ?i" "calm w"
      "fine_ledger (dw_state w)" "board_mark ?b \<le> last_seq ?i (dw_state w)"
      "unat (last_seq ?i (dw_state w)) + Suc k < 2 ^ 64"
    by (rule readyE [OF assms(1)])
  obtain dk where s: "set_open_nonce ?i ?n (dw_state w) = (Ok (), dk)" "fine_ledger dk" "last_seq ?i dk = last_seq ?i (dw_state w)"
      "recorded_nonce ?i dk = Some (hex16 ?n)"
    by (rule fine_set [OF c(5)])
  let ?w1 = "w\<lparr>dw_draws := Suc (dw_draws w), dw_state := dk\<rparr>"
  have f1: "fine_ledger (dw_state ?w1)" using s(2) by simp
  obtain token dk2 where n: "next_cap ?D c ?n ?t ?w1 = Some (Ok token, ?w1\<lparr>dw_state := dk2\<rparr>)" "fine_ledger dk2"
      "last_seq ?i dk2 = last_seq ?i (dw_state ?w1) + 1" "recorded_nonce ?i dk2 = recorded_nonce ?i (dw_state ?w1)"
      "length token \<le> max_token_len" "no_eol token"
      "verify_capability X (trust_key (de_trust ?e)) token = Ok
       \<lparr>cap_ver = signer_version (dev_alg c), cap_device_id = ?i, cap_grant_nonce = ?n,
        cap_capability = dev_capability c, cap_ttl_secs = ?t, cap_issued_seq = last_seq ?i dk2\<rparr>"
    by (rule next_cap_fine [OF c(2) f1 assms(2)])
  obtain line where line: "render_command (CmdToken token) = Ok line" "parse_command line = Ok (CmdToken token)"
    using token_command(1) [OF n(5,6)] by blast
  have "quiet ?b" using c(4) by (simp add: calm_def)
  then have "dispatch_line X esp32_hal line ?e ?b = (Nak ''busy'', ?e, ?b)"
    using line(2) n(7) quiet_calls(2) [of ?b] assms(3,4) by (simp add: dispatch_line_def accept_token_def)
  let ?w2 = "?w1\<lparr>dw_state := dk2\<rparr>"
  have w2: "calm ?w2" using c(4) by (simp add: calm_def)
  have link: "?w2\<lparr>dw_link := \<lparr>wi_engine = ?e, wi_board = ?b, wi_faults = []\<rparr>\<rparr> = ?w2"
    using c(4) by (cases w; cases "dw_link w") (simp add: calm_def)
  obtain ans where a: "parse_reply ans = Ok (Nak ''busy'')" "device_send ?D h c (CmdToken token) ?w2 = Some (Ok ans, ?w2)"
    using calm_send [OF w2 line(1), of X "Nak ''busy''" ?e ?b seed scalar nonces h c]
      \<open>dispatch_line X esp32_hal line ?e ?b = _\<close> link by auto
  have "deliver_cap ?D h c ?n ?t ?w1 = Some (Err (Refused ''busy''), ?w2)"
    using n(1) a by (simp add: deliver_cap_def drive_then_def fail_with_def)
  then have "device_apply ?D h ctx w = Some (Err (Refused ''busy''), ?w2)"
    using c(1,3) s(1) assms(5)
    by (simp add: device_apply_def drive_then_def device_of_def from_result_def ok_or_def expect_device_def wire_ttl_def
        give_def draw_nonce_def on_ledger_def)
  moreover have "board_mark ?b \<le> last_seq ?i dk2"
    using seq_above(1) [OF c(6)] c(7) n(3) s(3) by simp
  then have "ready X seed scalar h k ?w2"
    using w2 n(2,3) s(3) by (intro ready_after [OF assms(1)]) simp_all
  ultimately show thesis using that [of ?w2] n(4) s(4) by simp
qed

lemma verify_fine:
  assumes "ready X seed scalar h k w" "recorded_nonce (de_device_id (wi_engine (dw_link w))) (dw_state w) =
      map_option (\<lambda>g. hex16 (dg_nonce g)) (de_grant (wi_engine (dw_link w)))"
  shows "device_verify (wired_deps X seed scalar nonces) h w =
    Some (Ok (if de_grant (wi_engine (dw_link w)) = None then ChClosed else ChOpen), w)"
proof -
  let ?D = "wired_deps X seed scalar nonces" and ?e = "wi_engine (dw_link w)"
  let ?i = "de_device_id ?e"
  obtain c where c: "h_device h = Some c" "dev_actuator c = None" "device_id_bytes c = Some ?i" "calm w" "fine_ledger (dw_state w)"
    by (rule readyE [OF assms(1)])
  have ours: "read_open_nonce ?i w = Some (Ok (map_option dg_nonce (de_grant ?e)), w)"
    using assms(2) c(4) names_recorded(1) [OF c(5)] no_record [OF c(5)]
    by (cases "de_grant ?e") (auto simp: calm_def esp.device_inv_def)
  obtain report where "device_report ?D h c w = Some (Ok report, w)"
      "map_option fst (rp_open report) = map_option dg_nonce (de_grant ?e)"
    using calm_report [OF c(4), of X seed scalar nonces h c] by (auto simp: option.map_comp comp_def)
  then show ?thesis
    using ours c(1-3)
    by (cases "de_grant ?e"; cases "rp_open report")
      (auto simp: device_verify_def drive_then_def device_of_def from_result_def ok_or_def expect_device_def check_declared_def give_def)
qed

end
