(* ===== verification/Link_Props.thy ===== *)
theory Link_Props
  imports Device_Link
begin

text \<open>
  What the two ends of the device channel give together: what the driver's answers mean of the gate, that an
  open and a close go through on a working link, which foreign grants a close misses, and the order of the
  sequence numbers.
\<close>

section \<open>A small instance\<close>

lemma base64_no_eol: "no_eol (base64_encode bs)"
proof -
  have "char_sextet c \<noteq> None" if "c \<in> set (base64_encode bs)" for c
    using that sextets_less [OF bytes_small, of _ bs] char_sextet_char by (force simp: base64_encode_def)
  moreover have "char_sextet c = None" if "is_eol c" for c
    using that by (auto simp: is_eol_def char_sextet_def)
  ultimately show ?thesis unfolding no_eol_def by (metis last_in_set)
qed

definition small_device :: device_config where
  "small_device = \<lparr>dev_device_id = ''07070707070707070707070707070707'', dev_alg = DevP256, dev_capability = 1,
     dev_transport = ViaSerial, dev_http = None, dev_mqtt = None, dev_serial = None, dev_actuator = None\<rparr>"

definition device_host :: host where
  "device_host = \<lparr>h_name = ''d'', h_address = ''a'', h_os = Embedded, h_channels = [Device], h_ssh = None,
     h_bmc = None, h_vnc = None, h_http = None, h_mqtt = None, h_serial = None, h_device = Some small_device,
     h_access = None, h_drill = False\<rparr>"

definition small_world :: "wired device_world" where
  "small_world = \<lparr>dw_state = \<lparr>dk_file = Absent, dk_faults = []\<rparr>, dw_draws = 0,
     dw_link = \<lparr>wi_engine = fresh_engine, wi_board = closed_board, wi_faults = []\<rparr>\<rparr>"

abbreviation small_nonces :: "nat \<Rightarrow> byte list" where
  "small_nonces \<equiv> \<lambda>k. replicate 16 (word_of_nat k + 9)"

abbreviation small_deps :: "wired device_deps" where
  "small_deps \<equiv> wired_deps small_wire None (Some []) small_nonces"

definition hour_ctx :: apply_ctx where
  "hour_ctx = \<lparr>ctx_ttl_secs = 3600, ctx_expires_at = 0\<rparr>"

lemma small_device_id: "device_id_bytes small_device = Some (replicate 16 7)"
  by (simp add: device_id_bytes_def small_device_def is_char_boundary_def upt_conv_Cons u8_from_hex2_def hex_digit_def
      numeral_eq_Suc)

lemma small_board: "quiet closed_board" "board_mark closed_board = 0" "board_now closed_board = 0" "\<not> bd_pin closed_board"
  using closed_board_mark by (simp_all add: quiet_def closed_board_simps board_mark_def board_now_def closed_board_def new_board_def)

lemma small_ready: "k < 2 ^ 64 \<Longrightarrow> ready small_wire None (Some []) device_host k small_world"
proof -
  assume "k < 2 ^ 64"
  moreover have "calm small_world"
    using small_board esp.new_inv [OF small_new] by (simp add: calm_def small_world_def fresh_engine_def)
  moreover have "enrolled small_wire None (Some []) small_device fresh_engine"
    using small_device_id small_wire_b64 small_wire_keys base64_no_eol
    by (simp add: enrolled_def fresh_engine_def small_trust_def) (simp add: small_wire_def small_device_def)
  moreover have "last_seq i (dw_state small_world) = 0" for i
    by (simp add: last_seq_def ledger_doc_def small_world_def device_entry_def device_doc_default_def device_record_default_def)
  moreover have "fine_ledger (dw_state small_world)"
    by (simp add: fine_ledger_def small_world_def ledger_doc_def device_doc_default_def)
  moreover have "dw_link small_world = \<lparr>wi_engine = fresh_engine, wi_board = closed_board, wi_faults = []\<rparr>"
    by (simp add: small_world_def)
  ultimately show ?thesis
    using small_board(2) by (simp add: ready_def device_host_def) (simp add: small_device_def)
qed

section \<open>What an answer means\<close>

text \<open>
  C8. The device driver does not lie about the gate.  Whatever the link loses, whoever else talks to the
  device and however often it restarts between two commands: when an open succeeds, the device holds a grant
  under the nonce drawn for it with its gate open and its own deadline ahead, and the ledger records that
  nonce; when a close succeeds, the device holds no grant, its gate is shut and the record is gone; and when a
  verification answers, the gate is open exactly when the answer is open, which is only ever said of a grant
  the ledger records.
\<close>

theorem device_driver_honest:
  assumes "device_link esp32_hal board_mark bd_pin board_now board_boot spares_slots D dev"
    and "engine_new esp32_hal i0 t b0 = (e0, b1)" "device_reach (dd_wire D) esp32_hal board_boot (e0, b1) (dev (dw_link w))"
    and "h_device h = Some c" "device_id_bytes c = Some i"
  shows "(device_apply D h ctx w = Some (Ok (), w') \<longrightarrow>
      (\<exists>g. de_grant (fst (dev (dw_link w'))) = Some g \<and> dg_nonce g = dd_nonce D (dw_draws w) \<and>
        bd_pin (snd (dev (dw_link w'))) \<and> board_now (snd (dev (dw_link w'))) < dg_expires_at_ms g \<and>
        recorded_nonce i (dw_state w') = Some (hex16 (dg_nonce g)))) \<and>
    (device_revert D h w = Some (Ok (), w') \<longrightarrow>
      de_grant (fst (dev (dw_link w'))) = None \<and> \<not> bd_pin (snd (dev (dw_link w'))) \<and> recorded_nonce i (dw_state w') = None) \<and>
    (device_verify D h w = Some (Ok st, w') \<longrightarrow>
      bd_pin (snd (dev (dw_link w'))) = (st = ChOpen) \<and>
      (st = ChOpen \<longrightarrow> (\<exists>g. de_grant (fst (dev (dw_link w'))) = Some g \<and>
         read_nonce (recorded_nonce i (dw_state w')) = Some (Ok (Some (dg_nonce g))))))" (is "?apply \<and> ?revert \<and> ?verify")
proof (intro conjI)
  note link = assms(1)
  have sane: "device_link.sane bd_pin board_now dev w"
    using esp.new_inv [OF assms(2)] esp.reach_inv [OF assms(3)] device_link.sane_def [OF link] by simp
  show ?apply using device_link.apply_Ok [OF link _ sane] assms(4,5) by fastforce
  show ?revert using device_link.revert_Ok [OF link _ sane] assms(4,5) by fastforce
  show ?verify using device_link.verify_Ok [OF link _ sane] assms(4,5) by fastforce
qed

section \<open>An open and a close\<close>

lemma small_opening:
  obtains w' where "device_apply small_deps device_host hour_ctx small_world = Some (Ok (), w')"
  using apply_fine [where nonces = small_nonces and ctx = hour_ctx, OF small_ready, of 0] small_board
  by (auto simp: small_world_def fresh_engine_def hour_ctx_def u64_max_def)

theorem device_driver_honest_witness:
  "\<exists>w' g. device_apply small_deps device_host hour_ctx small_world = Some (Ok (), w') \<and>
     de_grant (wi_engine (dw_link w')) = Some g \<and> dg_nonce g = replicate 16 9 \<and> bd_pin (wi_board (dw_link w'))"
proof -
  obtain w' where w': "device_apply small_deps device_host hour_ctx small_world = Some (Ok (), w')" by (rule small_opening)
  have h: "h_device device_host = Some small_device" by (simp add: device_host_def)
  have "device_reach (dd_wire small_deps) esp32_hal board_boot (fresh_engine, closed_board) (wired_device (dw_link small_world))"
    by (simp add: small_world_def wired_device_def device_start)
  from device_driver_honest [OF wire.device_link_axioms small_new this h small_device_id] w'
  show ?thesis by (fastforce simp: wired_device_def small_world_def)
qed

text \<open>
  C9. On a working link the device opens and closes.  A device enrolled under the host's entry, which
  declares no actuator, idle, its sequence mark not past the ledger, over a link and on a board where
  nothing fails and no time passes between the exchanges, is opened by the driver's first try for any
  lifetime of up to a day:
  the gate opens, the verification reads it open, the driver's close then succeeds, the gate shuts, the
  verification reads it shut, and nothing is left recorded.
\<close>

theorem device_opens_then_closes:
  assumes "ready X seed scalar h 2 w" "length (nonces (dw_draws w)) = 16" "de_grant (wi_engine (dw_link w)) = None"
    and "0 < ctx_ttl_secs ctx" "ctx_ttl_secs ctx \<le> 86400" "board_now (wi_board (dw_link w)) + 86400000 \<le> u64_max"
  defines "D \<equiv> wired_deps X seed scalar nonces"
  shows "\<exists>w1 w2. device_apply D h ctx w = Some (Ok (), w1) \<and> bd_pin (wi_board (dw_link w1)) \<and>
    device_verify D h w1 = Some (Ok ChOpen, w1) \<and> device_revert D h w1 = Some (Ok (), w2) \<and>
    \<not> bd_pin (wi_board (dw_link w2)) \<and> device_verify D h w2 = Some (Ok ChClosed, w2) \<and>
    recorded_nonce (de_device_id (wi_engine (dw_link w2))) (dw_state w2) = None"
proof -
  have r: "ready X seed scalar h (Suc (Suc 0)) w" using assms(1) by (simp add: numeral_2_eq_2)
  obtain w1 g where a: "device_apply D h ctx w = Some (Ok (), w1)" "ready X seed scalar h (Suc 0) w1"
      "de_grant (wi_engine (dw_link w1)) = Some g" "dg_nonce g = nonces (dw_draws w)"
      "recorded_nonce (de_device_id (wi_engine (dw_link w1))) (dw_state w1) = Some (hex16 (nonces (dw_draws w)))"
    using apply_fine [where nonces = nonces and ctx = ctx, OF r assms(2-6)] unfolding D_def by metis
  obtain c where c: "h_device h = Some c" "fine_ledger (dw_state w1)" by (rule readyE [OF a(2)])
  have n: "nonce_to_revoke D h c (de_device_id (wi_engine (dw_link w1))) w1 = Some (Ok (Some (dg_nonce g)), w1)"
    using names_recorded(2) [OF c(2) a(5) assms(2)] a(4) by simp
  obtain w2 where b: "device_revert D h w1 = Some (Ok (), w2)" "ready X seed scalar h 0 w2" "de_grant (wi_engine (dw_link w2)) = None"
      "recorded_nonce (de_device_id (wi_engine (dw_link w2))) (dw_state w2) = None"
    using revert_named_fine [OF a(2,3) c(1) n [unfolded D_def]] unfolding D_def by metis
  have "bd_pin (wi_board (dw_link w1))" "\<not> bd_pin (wi_board (dw_link w2))"
    using a(2,3) b(2,3) by (simp_all add: ready_def calm_def Let_def esp.device_inv_def)
  then show ?thesis
    using a b verify_fine [OF a(2), of nonces] verify_fine [OF b(2), of nonces] unfolding D_def by simp
qed

theorem device_opens_then_closes_witness:
  "\<exists>w1 w2. device_apply small_deps device_host hour_ctx small_world = Some (Ok (), w1) \<and> bd_pin (wi_board (dw_link w1)) \<and>
     device_revert small_deps device_host w1 = Some (Ok (), w2) \<and> \<not> bd_pin (wi_board (dw_link w2))"
  using device_opens_then_closes [of small_wire None "Some []" device_host small_world small_nonces hour_ctx] small_ready [of 2] small_board
  by (auto simp: small_world_def fresh_engine_def hour_ctx_def u64_max_def)

section \<open>A foreign grant\<close>

text \<open>The close tried again and again: the answers, and the world after them.\<close>

primrec reverts :: "'d device_deps \<Rightarrow> host \<Rightarrow> nat \<Rightarrow> 'd device_world \<Rightarrow> (device_failure + unit) list \<times> 'd device_world" where
  "reverts D h 0 w = ([], w)"
| "reverts D h (Suc n) w =
     (case device_revert D h w of
        None \<Rightarrow> ([], w)
      | Some (r, w) \<Rightarrow> (case reverts D h n w of (rs, w) \<Rightarrow> (r # rs, w)))"

lemma reverts_foreign:
  assumes "ready X seed scalar h k w" "de_grant (wi_engine (dw_link w)) = Some g" "length nonce = 16" "dg_nonce g \<noteq> nonce"
    and "recorded_nonce (de_device_id (wi_engine (dw_link w))) (dw_state w) = Some (hex16 nonce)"
  shows "\<exists>w'. reverts (wired_deps X seed scalar nonces) h k w = (replicate k (Err (Refused ''wrong-grant'')), w') \<and>
    wi_engine (dw_link w') = wi_engine (dw_link w) \<and> bd_pin (wi_board (dw_link w'))"
  using assms
proof (induction k arbitrary: w)
  case 0
  then show ?case by (simp add: ready_def calm_def Let_def esp.device_inv_def)
next
  case (Suc k)
  obtain w1 where w1: "device_revert (wired_deps X seed scalar nonces) h w = Some (Err (Refused ''wrong-grant''), w1)"
      "ready X seed scalar h k w1" "wi_engine (dw_link w1) = wi_engine (dw_link w)"
      "recorded_nonce (de_device_id (wi_engine (dw_link w))) (dw_state w1) = Some (hex16 nonce)"
    using revert_foreign [OF Suc.prems, of nonces] by metis
  then show ?case using Suc.IH [OF w1(2)] Suc.prems by auto
qed

text \<open>
  C10. A refused open strands a foreign grant.  On a host without an actuator, over a link and on a board
  where nothing fails and the device's clock stands before its deadline: a device that holds a grant the ledger knows nothing of is
  closed by the driver's close, which asks the device what it holds.  But an open tried first is refused by
  the device as busy and leaves its own nonce recorded; from then on every close names that nonce, is refused
  as naming the wrong grant, and leaves the device with the foreign grant and its gate open.
\<close>

theorem refused_open_strands_grant:
  assumes "ready X seed scalar h (Suc k) w" "recorded_nonce (de_device_id (wi_engine (dw_link w))) (dw_state w) = None"
    and "de_grant (wi_engine (dw_link w)) = Some g" "dg_nonce g \<noteq> nonces (dw_draws w)"
    and "length (nonces (dw_draws w)) = 16" "ctx_ttl_secs ctx < 2 ^ 32"
  defines "D \<equiv> wired_deps X seed scalar nonces"
  shows "(\<exists>w'. device_revert D h w = Some (Ok (), w') \<and> \<not> bd_pin (wi_board (dw_link w'))) \<and>
    (\<exists>w1 w2. device_apply D h ctx w = Some (Err (Refused ''busy''), w1) \<and>
      reverts D h k w1 = (replicate k (Err (Refused ''wrong-grant'')), w2) \<and>
      de_grant (wi_engine (dw_link w2)) = Some g \<and> bd_pin (wi_board (dw_link w2)))"
proof
  obtain c where c: "h_device h = Some c" "calm w" "fine_ledger (dw_state w)" by (rule readyE [OF assms(1)])
  obtain w' where "device_revert D h w = Some (Ok (), w')" "ready X seed scalar h k w'" "de_grant (wi_engine (dw_link w')) = None"
    using revert_named_fine [OF assms(1,3) c(1) names_reported [OF c(2,3) assms(2,3)], of nonces] unfolding D_def by metis
  then show "\<exists>w'. device_revert D h w = Some (Ok (), w') \<and> \<not> bd_pin (wi_board (dw_link w'))"
    by (auto simp: ready_def calm_def Let_def esp.device_inv_def)
  obtain w1 where a: "device_apply D h ctx w = Some (Err (Refused ''busy''), w1)" "ready X seed scalar h k w1" "dw_link w1 = dw_link w"
      "recorded_nonce (de_device_id (wi_engine (dw_link w))) (dw_state w1) = Some (hex16 (nonces (dw_draws w)))"
    using apply_busy [where nonces = nonces and ctx = ctx, OF assms(1,5,3,4,6)] unfolding D_def by metis
  then show "\<exists>w1 w2. device_apply D h ctx w = Some (Err (Refused ''busy''), w1) \<and>
      reverts D h k w1 = (replicate k (Err (Refused ''wrong-grant'')), w2) \<and>
      de_grant (wi_engine (dw_link w2)) = Some g \<and> bd_pin (wi_board (dw_link w2))"
    using reverts_foreign [OF a(2) _ assms(5,4), of nonces] assms(3) unfolding D_def by force
qed

definition foreign_world :: "wired device_world" where
  "foreign_world = small_world\<lparr>dw_link := \<lparr>
     wi_engine = fresh_engine\<lparr>de_grant := Some \<lparr>dg_nonce = replicate 16 1, dg_expires_at_ms = 1000\<rparr>\<rparr>,
     wi_board = new_board, wi_faults = []\<rparr>\<rparr>"

lemma foreign_ready: "ready small_wire None (Some []) device_host 3 foreign_world"
proof -
  have "bd_region new_board = bd_region closed_board" by (simp add: closed_board_def bd_region_def)
  then have b: "quiet new_board" "board_mark new_board = 0" "board_now new_board = 0" "bd_pin new_board"
    using closed_board_mark by (simp_all add: quiet_def board_mark_def board_now_def new_board_def)
  let ?e = "fresh_engine\<lparr>de_grant := Some \<lparr>dg_nonce = replicate 16 1, dg_expires_at_ms = 1000\<rparr>\<rparr>"
  have "enrolled small_wire None (Some []) small_device ?e = enrolled small_wire None (Some []) small_device fresh_engine"
    by (rule enrolled_same) simp_all
  moreover have "calm foreign_world"
    using b by (simp add: calm_def foreign_world_def esp.device_inv_def wire_max_ttl_secs_def)
  ultimately show ?thesis
    using small_ready [of 3] b(2) by (simp add: ready_def Let_def foreign_world_def device_host_def) (simp add: small_world_def)
qed

lemma replicate_two: "replicate 2 x = [x, x]"
  by (simp add: numeral_2_eq_2)

theorem refused_open_strands_grant_witness:
  "\<exists>w1 w2. device_apply small_deps device_host hour_ctx foreign_world = Some (Err (Refused ''busy''), w1) \<and>
     reverts small_deps device_host 2 w1 = ([Err (Refused ''wrong-grant''), Err (Refused ''wrong-grant'')], w2) \<and>
     bd_pin (wi_board (dw_link w2))"
proof -
  have r: "ready small_wire None (Some []) device_host (Suc 2) foreign_world" using foreign_ready by simp
  have n: "recorded_nonce (de_device_id (wi_engine (dw_link foreign_world))) (dw_state foreign_world) = None"
    by (simp add: recorded_nonce_def foreign_world_def small_world_def ledger_doc_def device_doc_default_def)
  have g: "de_grant (wi_engine (dw_link foreign_world)) = Some \<lparr>dg_nonce = replicate 16 1, dg_expires_at_ms = 1000\<rparr>"
      "dw_draws foreign_world = 0"
    by (simp_all add: foreign_world_def small_world_def)
  show ?thesis
    using refused_open_strands_grant [OF r n g(1), of small_nonces hour_ctx] g(2)
    unfolding replicate_two by (auto simp: hour_ctx_def)
qed

section \<open>The sequence numbers\<close>

datatype ledger_call = Reserve "byte list" | SetNonce "byte list" "byte list" | ClearNonce "byte list" | ReadNonce "byte list"

text \<open>The numbers the ledger hands out for one device over a run of calls, failed ones among them.\<close>

primrec reserved :: "byte list \<Rightarrow> ledger_call list \<Rightarrow> device_doc disk \<Rightarrow> 64 word list" where
  "reserved i [] dk = []"
| "reserved i (call # calls) dk =
     (case call of
        Reserve j \<Rightarrow>
          (case reserve_seq j dk of
             (Inr n, dk) \<Rightarrow> if j = i then n # reserved i calls dk else reserved i calls dk
           | (Inl _, dk) \<Rightarrow> reserved i calls dk)
      | SetNonce j n \<Rightarrow> reserved i calls (snd (set_open_nonce j n dk))
      | ClearNonce j \<Rightarrow> reserved i calls (snd (clear_open_nonce j dk))
      | ReadNonce j \<Rightarrow> reserved i calls (case open_nonce j dk of Some (_, dk) \<Rightarrow> dk | None \<Rightarrow> dk))"

lemma open_nonce_file: "open_nonce i dk = Some (r, dk') \<Longrightarrow> dk_file dk' = dk_file dk"
proof -
  let ?f = "\<lambda>doc dk. (Ok (Option.bind (bt_get (dv_devices doc) (hex16 i)) dr_open_nonce), dk)"
  assume o: "open_nonce i dk = Some (r, dk')"
  obtain q dk1 where q: "device_locked ?f dk = (q, dk1)" by fastforce
  then have "dk_file dk1 = dk_file dk" by (rule device_locked_rule) auto
  moreover have "dk' = dk1" using o q by (auto simp: open_nonce_def split: sum.splits)
  ultimately show ?thesis by simp
qed

lemma last_seq_file: "dk_file dk' = dk_file dk \<Longrightarrow> last_seq i dk' = last_seq i dk"
  by (simp add: last_seq_def ledger_doc_def)

lemma reserved_increasing:
  "unat (last_seq i dk) + length calls < 2 ^ 64 \<Longrightarrow> sorted_wrt (<) (last_seq i dk # reserved i calls dk)"
proof (induction calls arbitrary: dk)
  case (Cons call calls)
  have same: "sorted_wrt (<) (last_seq i dk # reserved i calls dk')" if "last_seq i dk' = last_seq i dk" for dk'
    using Cons.IH [of dk'] Cons.prems that by simp
  have up: "last_seq i dk < last_seq i dk + 1" "unat (last_seq i dk + 1) = unat (last_seq i dk) + 1"
    using seq_above [OF order_refl, of "last_seq i dk"] Cons.prems by simp_all
  show ?case
  proof (cases call)
    case (Reserve j)
    obtain r dk' where r: "reserve_seq j dk = (r, dk')" by fastforce
    note eff = reserve_seq_effect [OF r]
    have next_up: "sorted_wrt (<) ((last_seq i dk + 1) # reserved i calls dk')" if "last_seq i dk' = last_seq i dk + 1"
      using Cons.IH [of dk'] Cons.prems that up(2) by simp
    then have raised: "sorted_wrt (<) (last_seq i dk # reserved i calls dk')" if "last_seq i dk' = last_seq i dk + 1"
      using that up(1) by (auto intro: less_trans)
    show ?thesis
    proof (cases r)
      case (Inl e)
      then show ?thesis using Reserve r eff same [of dk'] by auto
    next
      case (Inr n)
      then have "last_seq i dk' = last_seq i dk \<or> last_seq i dk' = last_seq i dk + 1" and
          "j = i \<Longrightarrow> n = last_seq i dk + 1 \<and> last_seq i dk' = n"
        using eff by auto
      then show ?thesis using Reserve r Inr same [of dk'] raised next_up up(1) by (auto intro: less_trans)
    qed
  next
    case (SetNonce j n)
    then show ?thesis using set_open_nonce_effect [of j n dk] same by (cases "set_open_nonce j n dk") auto
  next
    case (ClearNonce j)
    then show ?thesis using clear_open_nonce_effect [of j dk] same by (cases "clear_open_nonce j dk") auto
  next
    case (ReadNonce j)
    have "last_seq i (case open_nonce j dk of Some (_, dk) \<Rightarrow> dk | None \<Rightarrow> dk) = last_seq i dk"
      using open_nonce_file [of j dk] by (auto intro!: last_seq_file split: option.splits)
    then show ?thesis using ReadNonce same by simp
  qed
qed simp

text \<open>
  C11. No sequence number is handed out twice.  Over any run of calls on the ledger, for this device and
  others, whichever of them the file system fails, the numbers reserved for one device are strictly
  increasing and above the one recorded at the start, so that of two tokens signed for a device the later
  one always carries the higher number.
\<close>

theorem device_seq_never_reissued:
  assumes "unat (last_seq i dk) + length calls < 2 ^ 64"
  shows "sorted_wrt (<) (last_seq i dk # reserved i calls dk)"
  using assms by (rule reserved_increasing)

theorem device_seq_never_reissued_witness:
  "reserved [7] [Reserve [7], SetNonce [7] [9], Reserve [8], Reserve [7]] \<lparr>dk_file = Absent, dk_faults = []\<rparr> = [1, 2] \<and>
   sorted_wrt (<) (0 # reserved [7] [Reserve [7], SetNonce [7] [9], Reserve [8], Reserve [7]] \<lparr>dk_file = Absent, dk_faults = []\<rparr>)"
proof
  have "last_seq [7] \<lparr>dk_file = Absent, dk_faults = []\<rparr> = 0"
    by (simp add: last_seq_def ledger_doc_def device_entry_def device_doc_default_def device_record_default_def)
  then show "sorted_wrt (<) (0 # reserved [7] [Reserve [7], SetNonce [7] [9], Reserve [8], Reserve [7]] \<lparr>dk_file = Absent, dk_faults = []\<rparr>)"
    using device_seq_never_reissued [of "[7]" "\<lparr>dk_file = Absent, dk_faults = []\<rparr>" "[Reserve [7], SetNonce [7] [9], Reserve [8], Reserve [7]]"]
    by simp
  show "reserved [7] [Reserve [7], SetNonce [7] [9], Reserve [8], Reserve [7]] \<lparr>dk_file = Absent, dk_faults = []\<rparr> = [1, 2]"
    by code_simp
qed

section \<open>A lost sector\<close>

lemma idle_line:
  assumes "quiet b" "de_grant e = None" "verify_capability X (trust_key (de_trust e)) token = Ok cap" "parse_command input = Ok (CmdToken token)"
    and "cap_device_id cap = de_device_id e" "board_mark b < cap_issued_seq cap" "cap_ttl_secs cap \<le> wire_max_ttl_secs"
    and "board_now b + 86400000 \<le> u64_max"
  shows "\<exists>line e' b'. handle_line X esp32_hal input e b = Some (line, e', b') \<and> de_grant e' \<noteq> None \<and> quiet b' \<and>
    de_device_id e' = de_device_id e \<and> de_trust e' = de_trust e \<and> board_mark b' = cap_issued_seq cap \<and> board_now b' = board_now b"
proof -
  have n: "length (cap_grant_nonce cap) = 16" using verify_capability_Ok [OF assms(3)] by (simp add: cap_wf_def)
  let ?r = "AckOpen (cap_grant_nonce cap) (word_of_nat (unat (cap_ttl_secs cap)))"
  obtain b' where a: "accept_token X esp32_hal token e b = (?r,
      e\<lparr>de_grant := Some \<lparr>dg_nonce = cap_grant_nonce cap, dg_expires_at_ms = board_now b + 1000 * unat (cap_ttl_secs cap)\<rparr>,
        de_last_close := None\<rparr>, b')"
    "quiet b'" "board_now b' = board_now b" "board_mark b' = cap_issued_seq cap"
    using idle_accepts [OF assms(1-3,5-8)] by metis
  have "render_reply ?r = Ok (reply_text ?r)" using n by (intro render_reply_short) simp_all
  then show ?thesis
    using a assms(2,4) by (simp add: handle_line_def engine_tick_def dispatch_line_def)
qed

text \<open>The write of a fresher number is cut after the erase of the sector that holds both slots.\<close>

lemma lost_sector_line:
  assumes "bd_reads b = []" "bd_elapsed b = []" "bd_writes b = [SectorLost [] []]" "de_grant e = None"
    and "verify_capability X (trust_key (de_trust e)) token = Ok cap" "parse_command input = Ok (CmdToken token)"
    and "cap_device_id cap = de_device_id e" "board_mark b < cap_issued_seq cap" "cap_ttl_secs cap \<le> wire_max_ttl_secs"
  shows "\<exists>line. handle_line X esp32_hal input e b = Some (line, e, b\<lparr>bd_slot_a := [], bd_slot_b := [], bd_writes := []\<rparr>)"
proof -
  obtain slot bytes where p: "write_plan (bd_region b) (cap_issued_seq cap) = (slot, bytes)" by fastforce
  have "accept_token X esp32_hal token e b = (Nak ''store-failed'', e, b\<lparr>bd_slot_a := [], bd_slot_b := [], bd_writes := []\<rparr>)"
    using assms leD [OF assms(9)] assms(8) [unfolded not_le [symmetric]] p
    by (simp add: accept_token_def accept_fresh_def esp32_hal_def flash_seq_load_def flash_seq_store_def flash_read_def
        flash_write_def board_mark_def)
  moreover have "render_reply (Nak ''store-failed'') = Ok (reply_text (Nak ''store-failed''))"
    by (rule render_reply_short) (simp_all add: no_eol_def is_eol_def)
  ultimately show ?thesis
    using assms(4,6) by (simp add: handle_line_def engine_tick_def dispatch_line_def)
qed

lemma small_signed:
  "\<exists>token input. verify_capability small_wire (P256Sec1 []) token = Ok (small_cap\<lparr>cap_issued_seq := n\<rparr>) \<and>
     parse_command input = Ok (CmdToken token)"
proof -
  let ?cap = "small_cap\<lparr>cap_issued_seq := n\<rparr>"
  obtain token where t: "sign_capability_token small_wire (P256Scalar []) ?cap = Ok token" "length token \<le> max_token_len"
      "verify_capability small_wire (P256Sec1 []) token = Ok ?cap"
    using signed_capability [OF small_wire_b64 small_wire_keys, of ?cap]
    by (auto simp: small_cap_def cap_wf_def ver_p256_def)
  have "no_eol token" using token_no_eol [of small_wire _ ?cap token] t(1) base64_no_eol by (auto simp: small_wire_def)
  then show ?thesis using token_command(1) [OF t(2)] t(3) by blast
qed

text \<open>
  A power cut can revive a spent token.  The two slots lie in one erase sector.  A device opens on a
  token, restarts, and is cut while it stores the number of a fresher one, after the sector is erased:
  it comes back with the mark at zero, and the spent token opens it again.
\<close>

theorem sector_loss_revives_token:
  "\<exists>X e0 w1 input line e w e2 w2 line' e3 w3.
     engine_new esp32_hal (replicate 16 7) small_trust new_board = (e0, w1) \<and>
     handle_line X esp32_hal input e0 w1 = Some (line, e, w) \<and> de_grant e \<noteq> None \<and>
     device_reach X esp32_hal board_boot (e, w) (e2, w2) \<and> de_grant e2 = None \<and>
     handle_line X esp32_hal input e2 w2 = Some (line', e3, w3) \<and> de_grant e3 \<noteq> None"
proof -
  obtain token input where one: "verify_capability small_wire (P256Sec1 []) token = Ok (small_cap\<lparr>cap_issued_seq := 5\<rparr>)"
      "parse_command input = Ok (CmdToken token)" using small_signed [of 5] by blast
  obtain token' input' where two: "verify_capability small_wire (P256Sec1 []) token' = Ok (small_cap\<lparr>cap_issued_seq := 6\<rparr>)"
      "parse_command input' = Ok (CmdToken token')" using small_signed [of 6] by blast
  have key: "trust_key small_trust = P256Sec1 []" by (simp add: small_trust_def)
  have cap: "cap_device_id small_cap = replicate 16 7" "cap_ttl_secs small_cap \<le> wire_max_ttl_secs"
    by (simp_all add: small_cap_def wire_max_ttl_secs_def)
  have e0: "de_grant fresh_engine = None" "de_trust fresh_engine = small_trust" "de_device_id fresh_engine = replicate 16 7"
    by (simp_all add: fresh_engine_def)
  obtain line e w where a: "handle_line small_wire esp32_hal input fresh_engine closed_board = Some (line, e, w)" "de_grant e \<noteq> None"
      "quiet w" "de_device_id e = replicate 16 7" "de_trust e = small_trust" "board_mark w = 5" "board_now w = 0"
    using idle_line [OF small_board(1) e0(1), of small_wire token "small_cap\<lparr>cap_issued_seq := 5\<rparr>" input] one e0 key cap small_board
    by (auto simp: u64_max_def)
  let ?w = "w\<lparr>bd_writes := [SectorLost [] []], bd_pin := False\<rparr>"
  have new: "engine_new esp32_hal (de_device_id e) (de_trust e) (w\<lparr>bd_writes := [SectorLost [] []]\<rparr>) = (fresh_engine, ?w)"
    using a(4,5) by (simp add: engine_new_def fresh_engine_def esp32_hal_def gpio_set_open_def)
  have "board_boot w (w\<lparr>bd_writes := [SectorLost [] []]\<rparr>)" by (simp add: board_boot_def)
  then have booted: "device_reach small_wire esp32_hal board_boot (e, w) (fresh_engine, ?w)"
    by (rule device_boot [OF device_start _ new])
  let ?w2 = "?w\<lparr>bd_slot_a := [], bd_slot_b := [], bd_writes := []\<rparr>"
  have mark: "board_mark ?w = 5" using a(6) by (simp add: board_mark_def bd_region_def)
  obtain l where l: "handle_line small_wire esp32_hal input' fresh_engine ?w = Some (l, fresh_engine, ?w2)"
    using lost_sector_line [of ?w fresh_engine small_wire token' "small_cap\<lparr>cap_issued_seq := 6\<rparr>" input'] two a(3) e0 key cap mark by (auto simp: quiet_def)
  note lost = device_line [OF booted l]
  have "board_mark ?w2 = board_mark closed_board" "board_now ?w2 = 0"
    using a(7) by (simp_all add: board_mark_def bd_region_def board_now_def closed_board_def new_board_def)
  then obtain line' e3 w3 where "handle_line small_wire esp32_hal input fresh_engine ?w2 = Some (line', e3, w3)" "de_grant e3 \<noteq> None"
    using idle_line [of ?w2 fresh_engine small_wire token "small_cap\<lparr>cap_issued_seq := 5\<rparr>" input] one a(3) e0 key cap small_board
    by (auto simp: quiet_def u64_max_def)
  then show ?thesis using small_new a(1,2) lost e0(1) by blast
qed

end
