(* ===== verification/Spec2Isabelle.thy ===== *)
theory Spec2Isabelle
  imports Registry Channel_Props Inventory_Props Snapshot_Props Wire_Der Device_Props Messages Front_Door Daemon_Props Daemon_Race
  Link_Props
begin

text \<open>
  A verification development for lychgate, a break-glass access broker: a daemon that opens channels to
  hosts for a bounded time once enough approvers have signed, and takes them back afterwards.

  \<^bold>\<open>The program.\<close>  \<open>core/\<close> holds the pure parts: the inventory of hosts and its load-time checks, approval
  policies and the proof kinds, the state machine of one grant, the registry of all grants, its on-disk
  form, the driver seam and the line protocol of the client.  \<open>daemon/\<close> keeps the registry in a file,
  serves requests from two sockets, drives the channels, runs a pass that reaps what expired, and
  recovers at boot.  \<open>wire/\<close> is what a cooperative device and the daemon share: signed tokens and a line
  protocol.  \<open>embed/\<close> is the engine a device runs, \<open>firmware/\<close> its hardware layer.

  \<^bold>\<open>The theories, by source.\<close>
  \<^item> \<open>Prelude\<close>, \<open>BTree_Map\<close>, \<open>Text_Ops\<close>: the Rust standard library as the source uses it (\<open>Result\<close>, instants
    and durations in nanoseconds, \<open>BTreeMap\<close> in key order, \<open>str\<close>).  \<open>Crates\<close>: the third-party functions, one
    record that every definition using them takes as an argument; what a theorem needs of them (injective
    codecs, signatures valid for exactly what was signed) is a named hypothesis of that theorem.
  \<^item> \<open>Ttl\<close>, \<open>Channel_Kind\<close>, \<open>Approval\<close>, \<open>Grant\<close>, \<open>Registry\<close>, \<open>Snapshot\<close>, \<open>Proto\<close>, \<open>Channel\<close>, \<open>Ssh_Text\<close>, \<open>Templates\<close>,
    \<open>Factors\<close> (\<open>totp.rs\<close>, \<open>hmac_factor.rs\<close>, \<open>tpm.rs\<close>, \<open>fido2.rs\<close>, \<open>password.rs\<close>), \<open>Authority\<close>, \<open>Inventory\<close>,
    \<open>Inventory_Check\<close>, \<open>Messages\<close>: \<open>core/src/\<close>, one definition per function, the texts of errors included.
  \<^item> \<open>Store\<close>, \<open>Lifecycle\<close>, \<open>Daemon\<close>, \<open>Sim\<close>: \<open>daemon/src/\<close> (\<open>store.rs\<close>, the two ledgers and the journal; then
    \<open>lifecycle.rs\<close> and the answering part of \<open>listener.rs\<close>; then \<open>sim.rs\<close>).  \<open>Device_Driver\<close>: \<open>device_state.rs\<close> and
    \<open>drivers/device.rs\<close>, with the causes of errors for their texts.
  \<^item> \<open>Wire_Cbor\<close>, \<open>Wire_Token\<close>, \<open>Wire_Line\<close>, \<open>Wire_Der\<close> with \<open>Base64\<close>: \<open>wire/src/\<close>; \<open>Embed\<close>: \<open>embed/src/lib.rs\<close>;
    \<open>Firmware\<close>: \<open>firmware/esp32c3/\<close>.

  \<^bold>\<open>State and effects.\<close>  A Rust \<open>Result\<close> is the sum type, an error on the left; a method taking \<open>&mut self\<close>
  returns its result and the new value.  A panic, or a loop that does not return, is \<open>None\<close> (in a
  program, \<open>Panic\<close>).  Drivers are records of functions over an abstract world.  The daemon's operations are
  programs (\<open>Program\<close>): trees whose steps are its accesses to the state file, the ledgers, the journal, the
  drivers, the backstop and the console.  Each access takes its lock and releases it, so one access is
  one step; \<open>run\<close> executes a program to its end, \<open>passes\<close> lists the states after any number of its steps (where a
  crash can stop it), \<open>schedule\<close> interleaves several, and \<open>wp\<close> is the invariant calculus.  Every file
  carries a script of I/O faults, so each access may fail.  A whole drive of a host's channels, made
  under the drivers' lock, is one access.

  \<^bold>\<open>What is shown.\<close>
  \<^item> The daemon: over any history of requests, passes, boots, crashes and faults, run one after another, an
    open channel is always named by the state file (\<open>Daemon_Inv\<close>, \<open>Daemon_Safe\<close>, \<open>Daemon_Props\<close>, over the view of
    \<open>Stored_Shape\<close> and the rules of \<open>Daemon_Rules\<close>), and no assertion of the code fires in an operation that runs
    alone.  The contract of the drivers is the locale \<open>access_contract\<close>, kept by the harness's daemon.  What
    threads do to each other is shown in one case only (\<open>Daemon_Race\<close>): a close whose pending request another close
    or a pass removes between its two accesses panics.  No invariant is claimed for interleaved operations.
  \<^item> The daemon refines the shadow model of \<open>sim.rs\<close> (\<open>Daemon_Runs\<close>, \<open>Sim_Rules\<close>, \<open>Sim_Runs\<close>, \<open>Sim_Ops\<close>, \<open>Sim_Props\<close>,
    \<open>Sim_Shadow\<close>) within twenty simulated hours; that bound is needed, since renewals can carry a grant past
    what the loader accepts, which \<open>Sim_Shadow\<close> also proves.
  \<^item> The doors (\<open>Front_Door\<close>): what an operation on the MCP socket can change, read off the state file and the
    world, and the single use of one-time codes.
  \<^item> Grants and the registry: every transition, the cap on remaining time in every reachable state, sweeps
    (locale \<open>registry_sweep\<close>), and that one grant's operations touch no other; exactly which written states
    load again, and as what (\<open>Snapshot_Props\<close>).
  \<^item> Channels (locale \<open>driver_contract\<close>): what apply, unwind and revert leave open, and the order of calls.
  \<^item> Policies: building terminates and refuses exactly the cyclic or dangling ones, evaluation decides the
    declarative meaning, is monotone, opens for nothing less, and every profile can be met.
  \<^item> Inventories: acceptance is exactly a declarative condition, which gives what later code relies on.
  \<^item> Proofs: the bytes of an approval request determine it up to whole seconds, so that a security-key
    assertion serves one request; one-time codes match exactly in their window.
  \<^item> Texts and wire: the fence in \<open>authorized_keys\<close>, templates, tokens, lines, payloads and DER, as round trips
    and exact characterisations.
  \<^item> Devices (locale \<open>hal_contract\<close>, kept by the firmware): the gate follows the grant, and a token never opens
    twice, through restarts and failed or torn writes of the flash record.  The flash driver is third-party:
    the board carries its answers, a write that is done, torn, or loses the whole erase sector.  Both slots of the
    record lie in one sector, so that the second promise has the proviso \<open>spares_slots\<close> that an interrupted
    write leaves the other slot alone; \<open>Link_Props\<close> shows a token revived without it.  The board's tick counter is
    read as a number that has not wrapped, below the 52 bits of the hardware.
  \<^item> The device channel from end to end (\<open>Device_Link\<close>, \<open>Link_Props\<close>; locale \<open>device_link\<close>, kept by a wire that may drop
    either direction): what an answer of the driver says of the gate, that a working link opens and closes,
    the foreign grant a refused open strands, and that no sequence number is handed out twice.

  \<^bold>\<open>Bounds.\<close>  Fuel is used nowhere; searches that need an argument to end are \<open>partial_function (option)\<close> with
  theorems that they return on every loaded policy.  Instants are bounded by \<open>clock_end\<close>, the last second
  Rust's clock represents, where an operation adds to them.

  \<^bold>\<open>Not modelled.\<close>  The other channel drivers, which run external programs or network requests
  (\<open>daemon/src/drivers/\<close>), the exchange on a serial line or over http, and \<open>transport.rs\<close>: their effect is what \<open>driver_contract\<close>, \<open>access_contract\<close> and \<open>device_link\<close>
  assume.
  Process start-up, signal handling, locks on files and socket set-up (\<open>daemon/src/main.rs\<close>, \<open>lockfile.rs\<close>, the
  rest of \<open>listener.rs\<close>): operating-system calls.  The clients \<open>cli/\<close> and \<open>mcp/\<close>, the device simulator \<open>devsim/\<close>, the
  TPM binding \<open>tpm/\<close>, and the hardware sources \<open>fpga/\<close> and \<open>avr/\<close>: I/O around the library modelled here, or code
  in other languages.  TOML, JSON and cryptography are third-party.  Log texts of the harness are left out.
\<close>

end
